(* ===== verification/Prelude.thy ===== *)
theory Prelude
  imports Main "HOL-Library.Word" "HOL-Library.Sublist" "HOL-Library.List_Lexorder"
begin

text \<open>
  Shared vocabulary of the development: Rust values as HOL values, the string and
  integer routines of the Rust standard library that the program calls, and the
  automation the component theories share.

  \<^item> A \<^verbatim>\<open>char\<close> is its Unicode code point, a \<^verbatim>\<open>&str\<close> or \<^verbatim>\<open>String\<close> the list of its
    code points.  Offsets into a string are counted in characters; \<open>str_len\<close> is the
    byte length \<^verbatim>\<open>str::len\<close> and \<open>utf8_encode\<close> the bytes themselves.
  \<^item> \<^verbatim>\<open>u8\<close> to \<^verbatim>\<open>u64\<close> and \<^verbatim>\<open>usize\<close> (64 bits) are \<open>nat\<close> where the code only saturates,
    compares or counts; the saturation is written out.  Where the code shifts, masks or
    wraps, the value is a \<open>word\<close>.
  \<^item> \<^verbatim>\<open>Instant\<close> is the number of nanoseconds since an arbitrary origin and
    \<^verbatim>\<open>Duration\<close> a number of nanoseconds; \<^verbatim>\<open>Instant::duration_since\<close> saturates at zero,
    as subtraction on \<open>nat\<close> does.
\<close>

section \<open>Collections of rules\<close>

named_theorems str_simps \<open>evaluation of string routines\<close>
named_theorems gate_simps \<open>how an action filter acts on each kind of action\<close>
named_theorems frame_simps \<open>fields an operation leaves alone\<close>
named_theorems inv_intros \<open>operations that keep an invariant\<close>

section \<open>Machine integers\<close>

definition u32_max :: nat where
  "u32_max = 2 ^ 32 - 1"

definition u64_max :: nat where
  "u64_max = 2 ^ 64 - 1"

abbreviation usize_max :: nat where
  "usize_max \<equiv> u64_max"

definition sat_add :: "nat \<Rightarrow> nat \<Rightarrow> nat" where
  "sat_add a b = min (a + b) u64_max"

definition sat_mul :: "nat \<Rightarrow> nat \<Rightarrow> nat" where
  "sat_mul a b = min (a * b) u64_max"

lemma sat_add_le [simp]: "sat_add a b \<le> u64_max"
  by (simp add: sat_add_def)

lemma sat_add_ge: "a \<le> u64_max \<Longrightarrow> a \<le> sat_add a b"
  by (simp add: sat_add_def)

lemma sat_add_0 [simp]: "a \<le> u64_max \<Longrightarrow> sat_add a 0 = a"
  by (simp add: sat_add_def)

lemma sat_add_exact: "a + b \<le> u64_max \<Longrightarrow> sat_add a b = a + b"
  by (simp add: sat_add_def)

lemma sat_add_mono: "a \<le> a' \<Longrightarrow> b \<le> b' \<Longrightarrow> sat_add a b \<le> sat_add a' b'"
  by (auto simp: sat_add_def)

section \<open>Time\<close>

type_synonym instant = nat
type_synonym duration = nat

definition from_millis :: "nat \<Rightarrow> duration" where
  "from_millis ms = ms * 1000000"

definition duration_since :: "instant \<Rightarrow> instant \<Rightarrow> duration" where
  "duration_since now earlier = now - earlier"

lemma duration_since_self [simp]: "duration_since t t = 0"
  by (simp add: duration_since_def)

lemma duration_since_mono: "now \<le> now' \<Longrightarrow> duration_since now t \<le> duration_since now' t"
  by (simp add: duration_since_def diff_le_mono)

lemma duration_since_antimono: "t \<le> t' \<Longrightarrow> duration_since now t' \<le> duration_since now t"
  by (simp add: duration_since_def diff_le_mono2)

section \<open>Results\<close>

text \<open>\<^verbatim>\<open>Result<T, E>\<close> is \<open>'e + 'a\<close>; \<open>rbind\<close> is the question mark operator, \<open>unless_err\<close>
  runs what follows a step that may only fail.\<close>

definition rbind :: "'e + 'a \<Rightarrow> ('a \<Rightarrow> 'e + 'b) \<Rightarrow> 'e + 'b" where
  "rbind r f = (case r of Inl e \<Rightarrow> Inl e | Inr a \<Rightarrow> f a)"

definition unless_err :: "'e option \<Rightarrow> 'e + 'b \<Rightarrow> 'e + 'b" where
  "unless_err e r = (case e of Some err \<Rightarrow> Inl err | None \<Rightarrow> r)"

lemma rbind_simps [simp]: "rbind (Inl e) f = Inl e" "rbind (Inr a) f = f a"
  by (simp_all add: rbind_def)

lemma unless_err_simps [simp]: "unless_err (Some e) r = Inl e" "unless_err None r = r"
  by (simp_all add: unless_err_def)

lemma rbind_Inr: "rbind r f = Inr b \<longleftrightarrow> (\<exists>a. r = Inr a \<and> f a = Inr b)"
  by (cases r) auto

lemma rbind_Inl: "rbind r f = Inl e \<longleftrightarrow> r = Inl e \<or> (\<exists>a. r = Inr a \<and> f a = Inl e)"
  by (cases r) auto

lemma unless_err_Inr: "unless_err e r = Inr b \<longleftrightarrow> e = None \<and> r = Inr b"
  by (cases e) auto

section \<open>Strings\<close>

type_synonym rchar = nat
type_synonym rstr = "nat list"

definition lit :: "string \<Rightarrow> rstr" where
  "lit s = map of_char s"

text \<open>A Unicode scalar value: any code point but a surrogate.\<close>

definition scalar :: "rchar \<Rightarrow> bool" where
  "scalar c \<longleftrightarrow> c < 0xD800 \<or> (0xE000 \<le> c \<and> c < 0x110000)"

definition wf_str :: "rstr \<Rightarrow> bool" where
  "wf_str s \<longleftrightarrow> list_all scalar s"

lemma wf_str_simps [simp]:
  "wf_str []"
  "wf_str (c # s) \<longleftrightarrow> scalar c \<and> wf_str s"
  "wf_str (s @ t) \<longleftrightarrow> wf_str s \<and> wf_str t"
  by (simp_all add: wf_str_def)

subsection \<open>UTF-8\<close>

definition utf8_char :: "rchar \<Rightarrow> nat list" where
  "utf8_char c =
     (if c < 0x80 then [c]
      else if c < 0x800 then [0xC0 + c div 64, 0x80 + c mod 64]
      else if c < 0x10000 then [0xE0 + c div 4096, 0x80 + c div 64 mod 64, 0x80 + c mod 64]
      else [0xF0 + c div 262144, 0x80 + c div 4096 mod 64, 0x80 + c div 64 mod 64,
            0x80 + c mod 64])"

definition utf8_encode :: "rstr \<Rightarrow> nat list" where
  "utf8_encode s = concat (map utf8_char s)"

lemma utf8_encode_simps [simp]:
  "utf8_encode [] = []"
  "utf8_encode (c # s) = utf8_char c @ utf8_encode s"
  "utf8_encode (s @ t) = utf8_encode s @ utf8_encode t"
  by (simp_all add: utf8_encode_def)

text \<open>\<^verbatim>\<open>str::len\<close>: the number of bytes.\<close>

definition str_len :: "rstr \<Rightarrow> nat" where
  "str_len s = length (utf8_encode s)"

lemma utf8_char_not_Nil [simp]: "utf8_char c \<noteq> []"
  by (simp add: utf8_char_def)

lemma length_le_str_len: "length s \<le> str_len s"
proof (induction s)
  case (Cons c s)
  have "1 \<le> length (utf8_char c)" by (simp add: utf8_char_def)
  with Cons show ?case by (simp add: str_len_def)
qed (simp add: str_len_def)

subsection \<open>Character classes and trimming\<close>

text \<open>\<^verbatim>\<open>char::is_whitespace\<close>: the Unicode property White_Space.\<close>

definition is_whitespace :: "rchar \<Rightarrow> bool" where
  "is_whitespace c \<longleftrightarrow>
     (9 \<le> c \<and> c \<le> 13) \<or> c = 0x20 \<or> c = 0x85 \<or> c = 0xA0 \<or> c = 0x1680 \<or>
     (0x2000 \<le> c \<and> c \<le> 0x200A) \<or> c = 0x2028 \<or> c = 0x2029 \<or> c = 0x202F \<or>
     c = 0x205F \<or> c = 0x3000"

text \<open>\<^verbatim>\<open>char::is_control\<close>: the general category Cc.\<close>

definition is_control :: "rchar \<Rightarrow> bool" where
  "is_control c \<longleftrightarrow> c < 32 \<or> (127 \<le> c \<and> c \<le> 159)"

definition str_trim_start :: "rstr \<Rightarrow> rstr" where
  "str_trim_start s = dropWhile is_whitespace s"

definition str_trim_end :: "rstr \<Rightarrow> rstr" where
  "str_trim_end s = rev (dropWhile is_whitespace (rev s))"

definition str_trim :: "rstr \<Rightarrow> rstr" where
  "str_trim s = str_trim_end (str_trim_start s)"

lemma str_trim_Nil [simp]: "str_trim [] = []"
  by (simp add: str_trim_def str_trim_start_def str_trim_end_def)

lemma str_trim_end_eq_Nil: "str_trim_end s = [] \<longleftrightarrow> list_all is_whitespace s"
  by (auto simp: str_trim_end_def dropWhile_eq_Nil_conv list_all_iff)

lemma dropWhile_all_iff: "list_all P (dropWhile P s) \<longleftrightarrow> list_all P s"
  by (induction s) auto

text \<open>A string trims to nothing exactly when all of it is white space.\<close>

lemma str_trim_eq_Nil: "str_trim s = [] \<longleftrightarrow> list_all is_whitespace s"
  by (simp add: str_trim_def str_trim_end_eq_Nil str_trim_start_def dropWhile_all_iff)

lemma set_str_trim: "set (str_trim s) \<subseteq> set s"
  by (auto simp: str_trim_def str_trim_end_def str_trim_start_def dest!: set_dropWhileD)

subsection \<open>ASCII case\<close>

definition ascii_lower :: "rchar \<Rightarrow> rchar" where
  "ascii_lower c = (if 65 \<le> c \<and> c \<le> 90 then c + 32 else c)"

definition ascii_upper :: "rchar \<Rightarrow> rchar" where
  "ascii_upper c = (if 97 \<le> c \<and> c \<le> 122 then c - 32 else c)"

definition to_ascii_lowercase :: "rstr \<Rightarrow> rstr" where
  "to_ascii_lowercase s = map ascii_lower s"

definition to_ascii_uppercase :: "rstr \<Rightarrow> rstr" where
  "to_ascii_uppercase s = map ascii_upper s"

definition str_is_ascii :: "rstr \<Rightarrow> bool" where
  "str_is_ascii s \<longleftrightarrow> list_all (\<lambda>c. c < 128) s"

subsection \<open>Searching\<close>

text \<open>\<^verbatim>\<open>str::find\<close>: the offset of the first occurrence.\<close>

fun str_find :: "rstr \<Rightarrow> rstr \<Rightarrow> nat option" where
  "str_find needle [] = (if needle = [] then Some 0 else None)"
| "str_find needle (c # s) =
     (if prefix needle (c # s) then Some 0 else map_option Suc (str_find needle s))"

definition str_contains :: "rstr \<Rightarrow> rstr \<Rightarrow> bool" where
  "str_contains s needle \<longleftrightarrow> str_find needle s \<noteq> None"

lemma str_find_Some:
  "str_find needle s = Some i \<Longrightarrow> i \<le> length s \<and> prefix needle (drop i s)"
  by (induction needle s arbitrary: i rule: str_find.induct) (auto split: if_splits)

lemma str_find_least:
  "str_find needle s = Some i \<Longrightarrow> j < i \<Longrightarrow> \<not> prefix needle (drop j s)"
proof (induction needle s arbitrary: i j rule: str_find.induct)
  case (2 needle c s)
  then show ?case by (cases j) (auto split: if_splits)
qed (auto split: if_splits)

lemma str_find_unique:
  assumes "i \<le> length s" and "prefix needle (drop i s)"
    and "\<forall>j < i. \<not> prefix needle (drop j s)"
  shows "str_find needle s = Some i"
  using assms
proof (induction needle s arbitrary: i rule: str_find.induct)
  case (2 needle c s)
  show ?case
  proof (cases i)
    case 0
    with 2 show ?thesis by simp
  next
    case (Suc i')
    have "\<not> prefix needle (c # s)" using 2(4) Suc by fastforce
    moreover have "\<forall>j < i'. \<not> prefix needle (drop j s)" using 2(4) Suc by fastforce
    ultimately show ?thesis using 2 Suc by simp
  qed
qed auto

lemma str_find_drop:
  assumes "str_find needle s = Some i" and "j \<le> i"
  shows "str_find needle (drop j s) = Some (i - j)"
proof (rule str_find_unique)
  show "i - j \<le> length (drop j s)" using str_find_Some[OF assms(1)] by auto
  show "prefix needle (drop (i - j) (drop j s))"
    using str_find_Some[OF assms(1)] assms(2) by simp
  show "\<forall>k < i - j. \<not> prefix needle (drop k (drop j s))"
    using str_find_least[OF assms(1)] by (simp add: add.commute)
qed

lemma str_find_None: "str_find needle s = None \<longleftrightarrow> \<not> sublist needle s"
  by (induction needle s rule: str_find.induct) (auto simp: sublist_Cons_right)

lemma str_contains_iff: "str_contains s needle \<longleftrightarrow> sublist needle s"
  by (simp add: str_contains_def str_find_None)

lemma str_contains_Nil [simp]: "str_contains s []"
  by (simp add: str_contains_iff)

lemma str_find_bound: "str_find needle s = Some i \<Longrightarrow> i + length needle \<le> length s"
  by (drule str_find_Some) (auto dest: prefix_length_le)

text \<open>\<^verbatim>\<open>str::replace\<close>: all non-overlapping occurrences, from the left.  An empty pattern
  matches before every character and at the end.\<close>

function str_replace :: "rstr \<Rightarrow> rstr \<Rightarrow> rstr \<Rightarrow> rstr" where
  "str_replace from to [] = (if from = [] then to else [])"
| "str_replace from to (c # s) =
     (if from = [] then to @ c # str_replace from to s
      else if prefix from (c # s)
      then to @ str_replace from to (drop (length from) (c # s))
      else c # str_replace from to s)"
  by pat_completeness auto
termination
  by (relation "measure (\<lambda>(from, to, s). length s)") auto

declare str_replace.simps(2) [simp del]

lemma str_replace_Cons_other:
  "from \<noteq> [] \<Longrightarrow> \<not> prefix from (c # s) \<Longrightarrow>
   str_replace from to (c # s) = c # str_replace from to s"
  by (simp add: str_replace.simps(2))

lemma str_replace_absent:
  "from \<noteq> [] \<Longrightarrow> \<not> sublist from s \<Longrightarrow> str_replace from to s = s"
proof (induction s)
  case (Cons c s)
  then show ?case by (simp add: str_replace_Cons_other sublist_Cons_right)
qed simp

text \<open>Replacing a single character by nothing filters it out.\<close>

lemma str_replace_char: "str_replace [x] [] s = filter (\<lambda>c. c \<noteq> x) s"
proof (induction s)
  case (Cons c s)
  then show ?case by (simp add: str_replace.simps(2))
qed simp

subsection \<open>Rendering numbers\<close>

fun dec :: "nat \<Rightarrow> rstr" where
  "dec n = (if n < 10 then [48 + n] else dec (n div 10) @ [48 + n mod 10])"

declare dec.simps [simp del]

lemma dec_not_Nil [simp]: "dec n \<noteq> []"
  by (subst dec.simps) simp

lemma dec_digits: "list_all (\<lambda>c. 48 \<le> c \<and> c \<le> 57) (dec n)"
proof (induction n rule: dec.induct)
  case (1 n)
  then show ?case by (subst dec.simps) auto
qed

section \<open>Lists\<close>

lemma take_length_le: "length (take n xs) \<le> n"
  by simp

lemma sorted_dropWhile_filter:
  assumes "sorted ts"
  shows "dropWhile (\<lambda>t. duration_since now t > w) ts =
         filter (\<lambda>t. duration_since now t \<le> w) ts"
  using assms
proof (induction ts)
  case (Cons t ts)
  show ?case
  proof (cases "duration_since now t > w")
    case True
    with Cons show ?thesis by simp
  next
    case False
    have "\<forall>u \<in> set ts. duration_since now u \<le> w"
    proof
      fix u assume "u \<in> set ts"
      with Cons.prems have "t \<le> u" by simp
      then have "duration_since now u \<le> duration_since now t"
        by (rule duration_since_antimono)
      with False show "duration_since now u \<le> w" by simp
    qed
    with False show ?thesis by (simp add: filter_id_conv)
  qed
qed simp

end
