(* ===== verification/Rust_F64.thy ===== *)
theory Rust_F64
  imports Complex_Main Prelude "HOL-Library.Log_Nat"
begin

text \<open>
  IEEE 754 binary64 arithmetic on the non-negative finite values the rate limiter uses.
  An \<^verbatim>\<open>f64\<close> is the rational it denotes; an operation of the code is the exact rational
  operation followed by \<open>f64_round\<close>, rounding to 53 significant bits, ties to even.  The
  exponent range is not bounded, so overflow to infinity and subnormal numbers do not
  occur in the model: the token bucket clamps its sums at the capacity, a \<^verbatim>\<open>u32\<close>, and its
  operands are at least one nanosecond times 0.1.
\<close>

section \<open>Rounding\<close>

definition round_half_even :: "rat \<Rightarrow> int" where
  "round_half_even y =
     (let f = \<lfloor>y\<rfloor>; r = y - of_int f
      in if r < 1 / 2 then f else if 1 / 2 < r then f + 1 else if even f then f else f + 1)"

definition bit_length :: "int \<Rightarrow> int" where
  "bit_length n = int (floorlog 2 (nat n))"

text \<open>The exponent that scales \<open>x\<close> into the interval from \<open>2^52\<close> to \<open>2^53\<close>.\<close>

definition f64_exponent :: "rat \<Rightarrow> int" where
  "f64_exponent x =
     (let (p, q) = quotient_of x; k = bit_length p - bit_length q
      in if x < 2 powi k then k - 53 else k - 52)"

definition f64_round :: "rat \<Rightarrow> rat" where
  "f64_round x =
     (if x \<le> 0 then 0
      else let e = f64_exponent x in of_int (round_half_even (x / 2 powi e)) * 2 powi e)"

lemma round_half_even_nonneg: "0 \<le> y \<Longrightarrow> 0 \<le> round_half_even y"
  by (auto simp: round_half_even_def Let_def)

lemma round_half_even_upper: "of_int (round_half_even y) \<le> y + 1 / 2"
proof -
  have f: "of_int \<lfloor>y\<rfloor> \<le> y" by simp
  show ?thesis
    unfolding round_half_even_def Let_def using f by (simp split: if_split) linarith
qed

lemma round_half_even_lower: "y - 1 / 2 \<le> of_int (round_half_even y)"
proof -
  have f: "y < of_int \<lfloor>y\<rfloor> + 1" by linarith
  show ?thesis
    unfolding round_half_even_def Let_def using f by (simp split: if_split)
qed

lemma round_half_even_int [simp]: "round_half_even (of_int n) = n"
  by (simp add: round_half_even_def)

lemma bit_length_bounds:
  assumes "0 < n"
  shows "2 powi (bit_length n - 1) \<le> (of_int n :: rat)"
    and "(of_int n :: rat) < 2 powi (bit_length n)"
proof -
  let ?m = "nat n"
  have m: "?m > 0" using assms by simp
  have b: "2 ^ (floorlog 2 ?m - 1) \<le> ?m" "?m < 2 ^ floorlog 2 ?m"
    using floorlog_bounds[of ?m 2] m by auto
  have pos: "0 < floorlog 2 ?m" using m by (simp add: floorlog_def)
  have n: "(of_int n :: rat) = of_nat ?m" using assms by simp
  have "(of_nat (2 ^ (floorlog 2 ?m - 1)) :: rat) \<le> of_nat ?m"
    using b(1) by (simp only: of_nat_le_iff)
  moreover have "(2::rat) powi (bit_length n - 1) = 2 ^ (floorlog 2 ?m - 1)"
  proof -
    have "bit_length n - 1 = int (floorlog 2 ?m - 1)"
      using pos by (simp add: bit_length_def of_nat_diff)
    then show ?thesis by (simp only: power_int_of_nat)
  qed
  ultimately show "2 powi (bit_length n - 1) \<le> (of_int n :: rat)" by (simp add: n)
  have "(of_nat ?m :: rat) < of_nat (2 ^ floorlog 2 ?m)"
    using b(2) by (simp only: of_nat_less_iff)
  then show "(of_int n :: rat) < 2 powi (bit_length n)"
    by (simp add: n bit_length_def)
qed

lemma f64_exponent_scales:
  assumes "0 < x"
  shows "2 ^ 52 \<le> x / 2 powi f64_exponent x" and "x / 2 powi f64_exponent x < 2 ^ 53"
proof -
  obtain p q where pq: "quotient_of x = (p, q)" by (cases "quotient_of x")
  have q: "0 < q" using quotient_of_denom_pos[OF pq] .
  have x: "x = of_int p / of_int q" using quotient_of_div[OF pq] .
  have p: "0 < p" using assms x q by (simp add: zero_less_divide_iff)
  let ?k = "bit_length p - bit_length q"
  have bp: "2 powi (bit_length p - 1) \<le> (of_int p :: rat)"
    "(of_int p :: rat) < 2 powi (bit_length p)" using bit_length_bounds[OF p] .
  have bq: "2 powi (bit_length q - 1) \<le> (of_int q :: rat)"
    "(of_int q :: rat) < 2 powi (bit_length q)" using bit_length_bounds[OF q] .
  have lo: "2 powi (?k - 1) < x"
  proof -
    have "(2::rat) powi (?k - 1) * of_int q < 2 powi (?k - 1) * 2 powi (bit_length q)"
      using bq(2) by simp
    also have "\<dots> = 2 powi (bit_length p - 1)"
      by (simp add: power_int_add[symmetric])
    also have "\<dots> \<le> of_int p" by (rule bp(1))
    finally show ?thesis using q by (simp add: x pos_less_divide_eq)
  qed
  have hi: "x < 2 powi (?k + 1)"
  proof -
    have "(of_int p :: rat) < 2 powi (bit_length p)" by (rule bp(2))
    also have "\<dots> = 2 powi (?k + 1) * 2 powi (bit_length q - 1)"
      by (simp add: power_int_add[symmetric])
    also have "\<dots> \<le> 2 powi (?k + 1) * of_int q" using bq(1) by simp
    finally show ?thesis using q by (simp add: x pos_divide_less_eq)
  qed
  have shift: "(2::rat) powi (a - 53) * 2 ^ 53 = 2 powi a"
    "(2::rat) powi (a - 53) * 2 ^ 52 = 2 powi (a - 1)" for a
  proof -
    have "(2::rat) powi (a - 53) * 2 powi 53 = 2 powi a"
      "(2::rat) powi (a - 53) * 2 powi 52 = 2 powi (a - 1)"
      by (subst power_int_add[symmetric]; simp del: power_int_numeral)+
    then show "(2::rat) powi (a - 53) * 2 ^ 53 = 2 powi a"
      "(2::rat) powi (a - 53) * 2 ^ 52 = 2 powi (a - 1)" by simp_all
  qed
  have e: "f64_exponent x = (if x < 2 powi ?k then ?k - 53 else (?k + 1) - 53)"
    by (simp add: f64_exponent_def pq Let_def)
  show "2 ^ 52 \<le> x / 2 powi f64_exponent x" "x / 2 powi f64_exponent x < 2 ^ 53"
    using lo hi shift[of ?k] shift[of "?k + 1"]
    by (auto simp: e pos_le_divide_eq pos_divide_less_eq mult.commute split: if_splits)
qed

lemma f64_round_nonneg [simp]: "0 \<le> f64_round x"
  by (auto simp: f64_round_def Let_def intro!: mult_nonneg_nonneg round_half_even_nonneg)

text \<open>The unit round-off: no operation is off by more than one part in \<open>2^53\<close>.\<close>

definition f64_unit :: rat where
  "f64_unit = 1 / 2 ^ 53"

lemma f64_unit_pos [simp]: "0 \<le> f64_unit" "0 < f64_unit"
  by (simp_all add: f64_unit_def)

lemma f64_round_upper:
  assumes "0 \<le> x"
  shows "f64_round x \<le> x * (1 + f64_unit)"
proof (cases "x = 0")
  case True
  then show ?thesis by (simp add: f64_round_def)
next
  case False
  with assms have pos: "0 < x" by simp
  let ?s = "2 powi f64_exponent x :: rat"
  have s: "0 < ?s" by simp
  have "of_int (round_half_even (x / ?s)) \<le> x / ?s + 1 / 2"
    by (rule round_half_even_upper)
  also have "1 / 2 \<le> (x / ?s) * f64_unit"
  proof -
    have "2 ^ 52 * f64_unit \<le> (x / ?s) * f64_unit"
      using f64_exponent_scales(1)[OF pos] by (rule mult_right_mono) simp
    then show ?thesis by (simp add: f64_unit_def)
  qed
  finally have "of_int (round_half_even (x / ?s)) \<le> (x / ?s) * (1 + f64_unit)"
    by (simp only: distrib_left mult_1_right)
  then have "of_int (round_half_even (x / ?s)) * ?s \<le> (x / ?s) * (1 + f64_unit) * ?s"
    using s by (intro mult_right_mono) auto
  then show ?thesis using pos s by (simp add: f64_round_def Let_def)
qed

lemma f64_round_pos: "0 < x \<Longrightarrow> 0 < f64_round x"
proof -
  assume pos: "0 < x"
  have "(2::rat) ^ 52 - 1 / 2 \<le> of_int (round_half_even (x / 2 powi f64_exponent x))"
    using round_half_even_lower f64_exponent_scales(1)[OF pos]
    by (metis diff_right_mono order_trans)
  then have "(0::rat) < of_int (round_half_even (x / 2 powi f64_exponent x))" by simp
  then show ?thesis using pos by (simp add: f64_round_def Let_def)
qed

lemma f64_round_lower:
  assumes "0 \<le> x"
  shows "x * (1 - f64_unit) \<le> f64_round x"
proof (cases "x = 0")
  case False
  then have pos: "0 < x" using assms by simp
  let ?e = "f64_exponent x"
  define y where "y = x / 2 powi ?e"
  have y: "2 ^ 52 \<le> y" using f64_exponent_scales(1)[OF pos] by (simp add: y_def)
  then have "1 / 2 \<le> y * f64_unit" by (simp add: f64_unit_def)
  then have "y * (1 - f64_unit) \<le> of_int (round_half_even y)"
    using round_half_even_lower[of y] by (simp add: algebra_simps)
  then have "y * (1 - f64_unit) * 2 powi ?e \<le> of_int (round_half_even y) * 2 powi ?e"
    by (intro mult_right_mono) simp_all
  moreover have "y * 2 powi ?e = x" by (simp add: y_def)
  then have "y * (1 - f64_unit) * 2 powi ?e = x * (1 - f64_unit)" by (metis mult.commute mult.left_commute)
  moreover have "f64_round x = of_int (round_half_even y) * 2 powi ?e"
    using pos by (simp add: f64_round_def Let_def y_def)
  ultimately show ?thesis by simp
qed (simp add: f64_round_def)

text \<open>Integers below \<open>2^53\<close> are represented exactly.\<close>

lemma f64_round_of_nat:
  assumes "n < 2 ^ 53"
  shows "f64_round (of_nat n) = of_nat n"
proof (cases "n = 0")
  case True
  then show ?thesis by (simp add: f64_round_def)
next
  case False
  let ?x = "of_nat n :: rat"
  let ?e = "f64_exponent ?x"
  have pos: "0 < ?x" using False by simp
  have lt: "?x < 2 ^ 53"
  proof -
    have "?x < of_nat (2 ^ 53)" using assms by (simp only: of_nat_less_iff)
    then show ?thesis by simp
  qed
  have "2 ^ 52 * 2 powi ?e \<le> ?x"
    by (rule pos_le_divide_eq[THEN iffD1, OF _ f64_exponent_scales(1)[OF pos]]) simp
  with lt have "2 ^ 52 * 2 powi ?e < (2::rat) ^ 53" by linarith
  then have "(2::rat) powi ?e < 2 powi 1" by simp
  then have "?e < 1"
    by (metis linorder_not_less one_le_numeral power_int_increasing)
  then obtain m where m: "?e = - int m"
    by (metis int_nat_eq linorder_not_le minus_minus nat_int neg_0_le_iff_le uminus_int_code(1)
        zless_add1_eq add_0 zle_add1_eq_le nonneg_int_cases neg_equal_iff_equal)
  have "?x / 2 powi ?e = of_int (int n * 2 ^ m)"
    by (simp add: m power_int_minus field_simps)
  then have "f64_round ?x = of_int (int n * 2 ^ m) * 2 powi ?e"
    using pos by (simp only: f64_round_def Let_def round_half_even_int) simp
  also have "\<dots> = ?x" by (simp add: m power_int_minus field_simps)
  finally show ?thesis .
qed

lemma f64_round_0 [simp]: "f64_round 0 = 0"
  by (simp add: f64_round_def)

end
