(* ===== verification/Oo_Counter.thy ===== *)
theory Oo_Counter
  imports Prelude
begin

text \<open>
  The reference counter of \<^verbatim>\<open>src/domain/oo_counter.rs\<close>: non-overlapping pairs of the same
  script (hiragana, katakana, ASCII in either case) in one left-to-right pass.
\<close>

section \<open>The counter\<close>

definition is_ascii_o :: "rchar \<Rightarrow> bool" where
  "is_ascii_o ch \<longleftrightarrow> ch = 111 \<or> ch = 79"

definition oo_hit :: "rchar \<Rightarrow> rchar \<Rightarrow> bool" where
  "oo_hit current next \<longleftrightarrow>
     (current = 0x304A \<and> next = 0x304A) \<or>
     (current = 0x30AA \<and> next = 0x30AA) \<or>
     (is_ascii_o current \<and> is_ascii_o next)"

fun count_oo_sequences :: "rstr \<Rightarrow> nat" where
  "count_oo_sequences (current # next # rest) =
     (if oo_hit current next then Suc (count_oo_sequences rest)
      else count_oo_sequences (next # rest))"
| "count_oo_sequences _ = 0"

section \<open>What the count means\<close>

text \<open>
  \<open>oo_tiling s k\<close>: it is possible to pick \<open>k\<close> pairwise disjoint hits from \<open>s\<close>.  The
  specification is not greedy: at every position the pair may be taken or left.
\<close>

inductive oo_tiling :: "rstr \<Rightarrow> nat \<Rightarrow> bool" where
  tile_end: "oo_tiling [] 0"
| tile_skip: "oo_tiling s k \<Longrightarrow> oo_tiling (c # s) k"
| tile_take: "oo_hit a b \<Longrightarrow> oo_tiling s k \<Longrightarrow> oo_tiling (a # b # s) (Suc k)"

inductive_cases oo_tiling_NilE: "oo_tiling [] k"
inductive_cases oo_tiling_ConsE: "oo_tiling (c # s) k"

lemma oo_hit_trans: "oo_hit a b \<Longrightarrow> oo_hit b c \<Longrightarrow> oo_hit a c"
  by (auto simp: oo_hit_def is_ascii_o_def)

lemma count_le_Cons: "count_oo_sequences s \<le> count_oo_sequences (c # s)"
proof (induction s arbitrary: c rule: count_oo_sequences.induct)
  case (1 a b rest)
  show ?case
  proof (cases "oo_hit a b")
    case True
    then show ?thesis using 1(1)[of b] by auto
  next
    case False
    then show ?thesis by auto
  qed
qed auto

lemma count_Cons_le: "count_oo_sequences (c # s) \<le> Suc (count_oo_sequences s)"
  by (induction s arbitrary: c rule: count_oo_sequences.induct) auto

lemma count_is_tiling: "oo_tiling s (count_oo_sequences s)"
  by (induction s rule: count_oo_sequences.induct) (auto intro: oo_tiling.intros)

lemma tiling_le_count: "oo_tiling s k \<Longrightarrow> k \<le> count_oo_sequences s"
proof (induction rule: oo_tiling.induct)
  case (tile_skip s k c)
  then show ?case using count_le_Cons[of s c] by simp
qed auto

text \<open>The one-pass counter is optimal: the value it returns can be reached by a choice
  of disjoint hits, and no choice of disjoint hits is larger.\<close>

theorem count_oo_maximal:
  "oo_tiling s (count_oo_sequences s) \<and> (\<forall>k. oo_tiling s k \<longrightarrow> k \<le> count_oo_sequences s)"
  using count_is_tiling tiling_le_count by blast

theorem count_oo_maximal_witness:
  "oo_tiling (lit ''ooo'') 1 \<and> count_oo_sequences (lit ''ooo'') = 1"
proof -
  have "count_oo_sequences (lit ''ooo'') = 1"
    by code_simp
  with count_oo_maximal[of "lit ''ooo''"] show ?thesis by simp
qed

end
