(* ===== verification/Reading_Normalizer.thy ===== *)
theory Reading_Normalizer
  imports Prelude
begin

text \<open>
  Reading normalisation, \<^verbatim>\<open>src/domain/reading_normalizer.rs\<close>.  Unicode NFKC is the crate
  \<^verbatim>\<open>unicode-normalization\<close>, outside the repository: it is the parameter \<open>nfkc\<close>.
\<close>

definition should_drop :: "rchar \<Rightarrow> bool" where
  "should_drop ch \<longleftrightarrow>
     ch \<in> {0x2E, 0x2D, 0x2010, 0x2011, 0x2013, 0x2014, 0x2015, 0x30FB, 0xFF65, 0x20,
            0x3000, 9, 10, 13}"

definition katakana_to_hiragana :: "rchar \<Rightarrow> rchar" where
  "katakana_to_hiragana ch =
     (if 0x30A1 \<le> ch \<and> ch \<le> 0x30F6
      then (if scalar (ch - 0x60) then ch - 0x60 else ch)
      else ch)"

fun reading_loop :: "rstr \<Rightarrow> rstr \<Rightarrow> rstr" where
  "reading_loop out [] = out"
| "reading_loop out (ch # chars) =
     (if should_drop ch then reading_loop out chars
      else reading_loop (out @ [katakana_to_hiragana ch]) chars)"

definition normalize_reading :: "(rstr \<Rightarrow> rstr) \<Rightarrow> rstr \<Rightarrow> rstr" where
  "normalize_reading nfkc input =
     (let normalized = nfkc input;
          trimmed = str_trim normalized
      in nfkc (reading_loop [] trimmed))"

lemma reading_loop_eq:
  "reading_loop out s = out @ map katakana_to_hiragana (filter (\<lambda>c. \<not> should_drop c) s)"
  by (induction s arbitrary: out) auto

lemma kata_scalar [simp]: "scalar ch \<Longrightarrow> scalar (katakana_to_hiragana ch)"
  by (auto simp: katakana_to_hiragana_def)

lemma kata_idem [simp]:
  "katakana_to_hiragana (katakana_to_hiragana ch) = katakana_to_hiragana ch"
  by (auto simp: katakana_to_hiragana_def)

lemma kata_keeps [simp]: "should_drop (katakana_to_hiragana ch) \<longleftrightarrow> should_drop ch"
  by (auto simp: katakana_to_hiragana_def should_drop_def)

definition folded :: "rchar \<Rightarrow> bool" where
  "folded ch \<longleftrightarrow> \<not> should_drop ch \<and> \<not> (0x30A1 \<le> ch \<and> ch \<le> 0x30F6)"

lemma kata_range: "\<not> (0x30A1 \<le> katakana_to_hiragana ch \<and> katakana_to_hiragana ch \<le> 0x30F6)"
  unfolding katakana_to_hiragana_def scalar_def by presburger

lemma kata_folded: "\<not> should_drop ch \<Longrightarrow> folded (katakana_to_hiragana ch)"
  using kata_range[of ch] by (simp only: folded_def kata_keeps) simp

lemma reading_loop_folded: "list_all folded (reading_loop [] s)"
  by (simp add: reading_loop_eq list_all_iff kata_folded)

lemma reading_loop_id: "list_all folded s \<Longrightarrow> reading_loop [] s = s"
  by (induction s) (auto simp: reading_loop_eq folded_def katakana_to_hiragana_def)

lemma reading_loop_idem: "reading_loop [] (reading_loop [] s) = reading_loop [] s"
  by (rule reading_loop_id[OF reading_loop_folded])

end
