(* ===== verification/Detector.thy ===== *)
theory Detector
  imports Prelude Reading_Normalizer
begin

text \<open>
  The message detector, \<^verbatim>\<open>src/domain/detector.rs\<close>.  The morphological tokenizer is the crate
  \<^verbatim>\<open>lindera\<close>: it is a parameter \<open>tokenize\<close> that returns the tokens of a message (each with
  its surface and the dictionary columns \<^verbatim>\<open>get_detail(7)\<close> and \<^verbatim>\<open>get_detail(8)\<close>) or an error.
  The \<^verbatim>\<open>Mutex\<close> around it is an option: \<open>None\<close> is the poisoned lock.  A \<^verbatim>\<open>BTreeSet<String>\<close> is
  the sorted list of its elements (byte order of UTF-8 is code point order).
\<close>

datatype detector_backend_kind = MorphologicalReading | Fallback

record detector_policy =
  target_readings :: "rstr list"
  literal_sequence_patterns :: "rstr list"
  special_phrases :: "rstr list"

definition normalized_target_readings :: "(rstr \<Rightarrow> rstr) \<Rightarrow> detector_policy \<Rightarrow> rstr list" where
  "normalized_target_readings nfkc p =
     filter (\<lambda>v. v \<noteq> []) (map (normalize_reading nfkc) (target_readings p))"

record detection_report =
  dr_backend :: detector_backend_kind
  matched_backend :: rstr
  matched_readings :: "rstr list"
  sequence_hits :: nat
  kanji_hits :: nat
  total_count :: nat
  special_phrase_hit :: bool
  token_count :: nat

definition backend_count_for_sandbox :: "detection_report \<Rightarrow> nat" where
  "backend_count_for_sandbox r = kanji_hits r"

record token =
  surface :: rstr
  detail7 :: "rstr option"
  detail8 :: "rstr option"

type_synonym tokenizer = "rstr \<Rightarrow> token list option"

section \<open>Literal patterns\<close>

lemma found_shrinks: "p \<noteq> [] \<Longrightarrow> i + length p \<le> n \<Longrightarrow> n - (i + length p) < n"
  by (cases p) auto

text \<open>The search loop, on what is left of the haystack after the cursor.  The empty needle
  was answered before the loop.\<close>

function count_loop :: "rstr \<Rightarrow> rstr \<Rightarrow> nat \<Rightarrow> nat" where
  "count_loop needle rest count =
     (if needle = [] then count
      else (case str_find needle rest of
        None \<Rightarrow> count
      | Some found \<Rightarrow>
          (let count' = sat_add count 1;
               rest' = drop (found + length needle) rest
           in if rest' = [] then count' else count_loop needle rest' count')))"
  by pat_completeness auto
termination
  by (relation "measure (\<lambda>(needle, rest, count). length rest)") (auto simp: Let_def intro: found_shrinks dest: str_find_bound)

declare count_loop.simps [simp del]

definition count_non_overlapping :: "rstr \<Rightarrow> rstr \<Rightarrow> nat" where
  "count_non_overlapping content pattern =
     (if pattern = [] then 0
      else (let (haystack, needle) =
              (if str_is_ascii pattern
               then (to_ascii_lowercase content, to_ascii_lowercase pattern)
               else (content, pattern))
            in count_loop needle haystack 0))"

definition count_literal_patterns :: "rstr \<Rightarrow> rstr list \<Rightarrow> nat" where
  "count_literal_patterns content patterns =
     sum_list (map (count_non_overlapping content) (filter (\<lambda>p. p \<noteq> []) patterns))"

section \<open>Readings of tokens\<close>

text \<open>The inner loop over the targets, with its \<^verbatim>\<open>continue\<close> and \<^verbatim>\<open>break\<close>.\<close>

fun first_target :: "rstr \<Rightarrow> rstr \<Rightarrow> rstr list \<Rightarrow> rstr option" where
  "first_target normalized_surface normalized [] = None"
| "first_target normalized_surface normalized (target # targets) =
     (if normalized_surface \<noteq> [] \<and> str_contains normalized_surface target
      then first_target normalized_surface normalized targets
      else if target \<noteq> [] \<and> str_contains normalized target then Some target
      else first_target normalized_surface normalized targets)"

definition token_candidates :: "(rstr \<Rightarrow> rstr) \<Rightarrow> token \<Rightarrow> rstr list" where
  "token_candidates nfkc t =
     filter (\<lambda>v. v \<noteq> []) (map (normalize_reading nfkc)
       ((case detail7 t of Some reading \<Rightarrow> [reading] | None \<Rightarrow> []) @
        (case detail8 t of Some pronunciation \<Rightarrow> [pronunciation] | None \<Rightarrow> []) @
        [surface t]))"

definition candidate_step ::
  "rstr \<Rightarrow> rstr list \<Rightarrow> nat \<times> rstr list \<Rightarrow> rstr \<Rightarrow> nat \<times> rstr list" where
  "candidate_step normalized_surface targets acc normalized =
     (case first_target normalized_surface normalized targets of
        Some target \<Rightarrow> (sat_add (fst acc) 1, insort_insert target (snd acc))
      | None \<Rightarrow> acc)"

definition token_step ::
  "(rstr \<Rightarrow> rstr) \<Rightarrow> rstr list \<Rightarrow> nat \<times> rstr list \<Rightarrow> token \<Rightarrow> nat \<times> rstr list" where
  "token_step nfkc targets acc t =
     foldl (candidate_step (normalize_reading nfkc (surface t)) targets) acc
       (token_candidates nfkc t)"

definition detect ::
  "(rstr \<Rightarrow> rstr) \<Rightarrow> tokenizer option \<Rightarrow> detector_policy \<Rightarrow> rstr \<Rightarrow> detection_report" where
  "detect nfkc lock policy content =
     (let seq = count_literal_patterns content (literal_sequence_patterns policy);
          phrase = list_ex (\<lambda>p. p \<noteq> [] \<and> str_contains content p) (special_phrases policy);
          targets = normalized_target_readings nfkc policy
      in case lock of
           None \<Rightarrow>
             \<lparr>dr_backend = MorphologicalReading, matched_backend = lit ''morphological_reading'',
              matched_readings = [], sequence_hits = seq, kanji_hits = 0, total_count = seq,
              special_phrase_hit = phrase, token_count = 0\<rparr>
         | Some tokenize \<Rightarrow>
             (let (count, hits, readings) =
                (case tokenize content of
                   Some tokens \<Rightarrow>
                     (length tokens, foldl (token_step nfkc targets) (0, []) tokens)
                 | None \<Rightarrow> (0, 0, []))
              in \<lparr>dr_backend = MorphologicalReading,
                  matched_backend = lit ''morphological_reading'',
                  matched_readings = readings, sequence_hits = seq, kanji_hits = hits,
                  total_count = sat_add seq hits, special_phrase_hit = phrase,
                  token_count = count\<rparr>))"

text \<open>\<^verbatim>\<open>build_detector\<close>: loading the embedded dictionary may fail.\<close>

definition build_detector ::
  "(rstr \<Rightarrow> rstr) \<Rightarrow> rstr + tokenizer \<Rightarrow> detector_backend_kind \<Rightarrow> detector_policy \<Rightarrow>
   rstr + (rstr \<Rightarrow> detection_report)" where
  "build_detector nfkc load backend policy =
     (case backend of
        MorphologicalReading \<Rightarrow>
          (case load of Inl err \<Rightarrow> Inl err | Inr t \<Rightarrow> Inr (detect nfkc (Some t) policy))
      | Fallback \<Rightarrow>
          Inl (lit ''fallback backend is internal-only and cannot be selected in config''))"

section \<open>The literal count is optimal\<close>

text \<open>\<open>pattern_tiling p s k\<close>: \<open>k\<close> pairwise disjoint occurrences of \<open>p\<close> can be picked in \<open>s\<close>.\<close>

inductive pattern_tiling :: "rstr \<Rightarrow> rstr \<Rightarrow> nat \<Rightarrow> bool" for p where
  pt_end: "pattern_tiling p [] 0"
| pt_skip: "pattern_tiling p s k \<Longrightarrow> pattern_tiling p (c # s) k"
| pt_take: "pattern_tiling p s k \<Longrightarrow> pattern_tiling p (p @ s) (Suc k)"

function greedy_count :: "rstr \<Rightarrow> rstr \<Rightarrow> nat" where
  "greedy_count p s =
     (if p = [] then 0 else
      case str_find p s of None \<Rightarrow> 0
      | Some i \<Rightarrow> Suc (greedy_count p (drop (i + length p) s)))"
  by pat_completeness auto
termination
  by (relation "measure (\<lambda>(p, s). length s)")
    (auto intro: found_shrinks dest: str_find_bound)

declare greedy_count.simps [simp del]

lemma count_loop_greedy:
  "p \<noteq> [] \<Longrightarrow> n + greedy_count p s \<le> u64_max \<Longrightarrow> count_loop p s n = n + greedy_count p s"
proof (induction p s n rule: count_loop.induct)
  case (1 p s n)
  show ?case
  proof (cases "str_find p s")
    case None
    then show ?thesis by (simp add: count_loop.simps[of p s] greedy_count.simps[of p s])
  next
    case (Some i)
    let ?s' = "drop (i + length p) s"
    have g: "greedy_count p s = Suc (greedy_count p ?s')"
      using 1(2) Some by (simp add: greedy_count.simps[of p s])
    then have n: "sat_add n 1 = Suc n" using 1(3) by (simp add: sat_add_exact)
    have nil: "greedy_count p [] = 0" using 1(2) by (simp add: greedy_count.simps)
    show ?thesis
      using 1(1)[OF 1(2) Some refl refl] 1(2,3) Some g n nil
      by (auto simp: count_loop.simps[of p s] Let_def simp del: drop_eq_Nil drop_eq_Nil2)
  qed
qed

lemma greedy_drop: "greedy_count p (drop j s) \<le> greedy_count p s"
proof (induction p s arbitrary: j rule: greedy_count.induct)
  case (1 p s)
  show ?case
  proof (cases "p = [] \<or> str_find p (drop j s) = None")
    case True
    then show ?thesis by (auto simp: greedy_count.simps[of p "drop j s"])
  next
    case False
    then obtain m where p: "p \<noteq> []" and m: "str_find p (drop j s) = Some m" by auto
    have "sublist p (drop j s)" using m str_find_None[of p "drop j s"] by simp
    then have "sublist p s" using sublist_order.order.trans sublist_drop by blast
    then obtain i where i: "str_find p s = Some i"
      using str_find_None[of p s] by (cases "str_find p s") auto
    show ?thesis
    proof (cases "j \<le> i")
      case True
      have "m = i - j" using str_find_drop[OF i True] m by simp
      then show ?thesis
        using p m i True
        by (simp add: greedy_count.simps[of p "drop j s"] greedy_count.simps[of p s] add.commute
            add.left_commute)
    next
      case False
      have "drop (m + length p + j) s = drop (j + m - i) (drop (i + length p) s)"
        using False by (simp add: add.commute add.left_commute)
      then have "greedy_count p (drop (m + length p + j) s)
          \<le> greedy_count p (drop (i + length p) s)"
        using 1[OF p i, of "j + m - i"] by simp
      then show ?thesis
        using p m i
        by (simp add: greedy_count.simps[of p "drop j s"] greedy_count.simps[of p s])
    qed
  qed
qed

lemma pattern_tiling_append: "pattern_tiling p s k \<Longrightarrow> pattern_tiling p (xs @ s) k"
  by (induction xs) (auto intro: pt_skip)

lemma pattern_tiling_zero: "pattern_tiling p s 0"
  using pattern_tiling_append[OF pt_end, of p s] by simp

lemma greedy_is_tiling: "pattern_tiling p s (greedy_count p s)"
proof (induction p s rule: greedy_count.induct)
  case (1 p s)
  show ?case
  proof (cases "p = [] \<or> str_find p s = None")
    case True
    then show ?thesis by (auto simp: greedy_count.simps[of p s] pattern_tiling_zero)
  next
    case False
    then obtain i where p: "p \<noteq> []" and i: "str_find p s = Some i" by auto
    have "prefix p (drop i s)" using str_find_Some[OF i] by simp
    then obtain r where r: "drop i s = p @ r" by (auto simp: prefix_def)
    have "drop (i + length p) s = r"
      using r by (metis add.commute append_eq_conv_conj drop_drop)
    then have "pattern_tiling p (take i s @ p @ r) (Suc (greedy_count p r))"
      using 1[OF p i] by (simp add: pattern_tiling_append pt_take)
    then show ?thesis
      using p i r \<open>drop (i + length p) s = r\<close> append_take_drop_id[of i s]
      by (simp add: greedy_count.simps[of p s])
  qed
qed

lemma tiling_le_greedy: "pattern_tiling p s k \<Longrightarrow> p \<noteq> [] \<Longrightarrow> k \<le> greedy_count p s"
proof (induction rule: pattern_tiling.induct)
  case (pt_skip s k c)
  then show ?case using greedy_drop[of p 1 "c # s"] by simp
next
  case (pt_take s k)
  have "str_find p (p @ s) = Some 0" by (rule str_find_unique) auto
  with pt_take show ?case by (simp add: greedy_count.simps[of p "p @ s"])
qed simp

lemma tiling_length: "pattern_tiling p s k \<Longrightarrow> p \<noteq> [] \<Longrightarrow> k \<le> length s"
proof (induction rule: pattern_tiling.induct)
  case (pt_take s k)
  have "0 < length p" using pt_take.prems by simp
  moreover have "k \<le> length s" by (rule pt_take.IH[OF pt_take.prems])
  ultimately show ?case unfolding length_append by linarith
qed auto

text \<open>The literal count is the largest number of disjoint occurrences of the pattern
  (read without regard to ASCII case when the pattern is ASCII), never more or fewer.\<close>

theorem count_non_overlapping_maximal:
  assumes "pattern \<noteq> []" and "length content \<le> u64_max"
    and "fold_case = (if str_is_ascii pattern then to_ascii_lowercase else (\<lambda>s. s))"
  shows "pattern_tiling (fold_case pattern) (fold_case content)
      (count_non_overlapping content pattern) \<and>
    (\<forall>k. pattern_tiling (fold_case pattern) (fold_case content) k \<longrightarrow>
      k \<le> count_non_overlapping content pattern)"
proof -
  let ?p = "fold_case pattern" and ?s = "fold_case content"
  have p: "?p \<noteq> []" and l: "length ?s \<le> u64_max"
    using assms by (auto simp: to_ascii_lowercase_def)
  have "greedy_count ?p ?s \<le> u64_max"
    using tiling_length[OF greedy_is_tiling p, of ?s] l by simp
  then have "count_non_overlapping content pattern = greedy_count ?p ?s"
    using count_loop_greedy[OF p, of 0 ?s] assms by (auto simp: count_non_overlapping_def)
  then show ?thesis using greedy_is_tiling tiling_le_greedy[OF _ p] by auto
qed

theorem count_non_overlapping_maximal_witness:
  "count_non_overlapping (lit ''oOOo ohh'') (lit ''oo'') = 2 \<and>
   pattern_tiling (to_ascii_lowercase (lit ''oo'')) (to_ascii_lowercase (lit ''oOOo ohh'')) 2"
proof -
  have c: "count_non_overlapping (lit ''oOOo ohh'') (lit ''oo'') = 2"
    by (simp add: count_non_overlapping_def count_loop.simps str_is_ascii_def
        to_ascii_lowercase_def ascii_lower_def lit_def sat_add_def u64_max_def)
  have "pattern_tiling (to_ascii_lowercase (lit ''oo'')) (to_ascii_lowercase (lit ''oOOo ohh''))
      (count_non_overlapping (lit ''oOOo ohh'') (lit ''oo'')) \<and>
    (\<forall>k. pattern_tiling (to_ascii_lowercase (lit ''oo''))
        (to_ascii_lowercase (lit ''oOOo ohh'')) k \<longrightarrow>
      k \<le> count_non_overlapping (lit ''oOOo ohh'') (lit ''oo''))"
  proof (rule count_non_overlapping_maximal)
    show "lit ''oo'' \<noteq> []" by (simp add: lit_def)
    show "length (lit ''oOOo ohh'') \<le> u64_max" by (simp add: lit_def u64_max_def)
    show "to_ascii_lowercase =
        (if str_is_ascii (lit ''oo'') then to_ascii_lowercase else (\<lambda>s. s))"
      by (simp add: str_is_ascii_def lit_def)
  qed
  with c show ?thesis by simp
qed

section \<open>What a report says\<close>

text \<open>The interface every backend offers to the decision code (\<^verbatim>\<open>trait MessageDetector\<close>): the
  grand total covers both kinds of hits and vanishes only with them.\<close>

locale message_detector =
  fixes detect_message :: "rstr \<Rightarrow> detection_report"
  assumes total_covers: "kanji_hits (detect_message c) \<le> total_count (detect_message c)"
    and total_zero: "total_count (detect_message c) = 0 \<longleftrightarrow>
      sequence_hits (detect_message c) = 0 \<and> kanji_hits (detect_message c) = 0"
    and readings_hits: "matched_readings (detect_message c) = [] \<longleftrightarrow>
      kanji_hits (detect_message c) = 0"
begin

lemma sandbox_count_le_total:
  "backend_count_for_sandbox (detect_message c) \<le> total_count (detect_message c)"
  using total_covers by (simp add: backend_count_for_sandbox_def)

lemma silent_report:
  "total_count (detect_message c) = 0 \<Longrightarrow>
   backend_count_for_sandbox (detect_message c) = 0 \<and> matched_readings (detect_message c) = []"
  using total_zero[of c] readings_hits[of c] by (simp add: backend_count_for_sandbox_def)

end

lemma first_target_Some:
  "first_target surf norm ts = Some t \<Longrightarrow>
   t \<in> set ts \<and> t \<noteq> [] \<and> str_contains norm t \<and> (surf = [] \<or> \<not> str_contains surf t)"
  by (induction ts) (auto split: if_splits)

lemma first_target_None:
  "first_target surf norm ts = None \<longleftrightarrow>
   (\<forall>t \<in> set ts. t = [] \<or> \<not> str_contains norm t \<or> (surf \<noteq> [] \<and> str_contains surf t))"
  by (induction ts) auto

text \<open>\<open>reads nfkc p t r\<close>: the token \<open>t\<close> is read as the target \<open>r\<close> although its surface does
  not spell it.\<close>

definition reads :: "(rstr \<Rightarrow> rstr) \<Rightarrow> detector_policy \<Rightarrow> token \<Rightarrow> rstr \<Rightarrow> bool" where
  "reads nfkc p t r \<longleftrightarrow>
     r \<in> set (normalized_target_readings nfkc p) \<and>
     \<not> (normalize_reading nfkc (surface t) \<noteq> [] \<and>
        str_contains (normalize_reading nfkc (surface t)) r) \<and>
     (\<exists>c \<in> set (token_candidates nfkc t). str_contains c r)"

definition acc_ok ::
  "(rstr \<Rightarrow> rstr) \<Rightarrow> detector_policy \<Rightarrow> token list \<Rightarrow> nat \<times> rstr list \<Rightarrow> bool" where
  "acc_ok nfkc p ts acc \<longleftrightarrow>
     sorted (snd acc) \<and> distinct (snd acc) \<and> (snd acc = [] \<longleftrightarrow> fst acc = 0) \<and>
     fst acc \<le> u64_max \<and> (\<forall>r \<in> set (snd acc). \<exists>t \<in> set ts. reads nfkc p t r)"

lemma insort_insert_not_Nil [simp]: "insort_insert r xs \<noteq> []"
  using set_insort_insert[of r xs] by force

lemma candidate_step_ok:
  assumes "acc_ok nfkc p ts acc" and "t \<in> set ts" and "c \<in> set (token_candidates nfkc t)"
  shows "acc_ok nfkc p ts (candidate_step (normalize_reading nfkc (surface t))
    (normalized_target_readings nfkc p) acc c)"
proof (cases "first_target (normalize_reading nfkc (surface t)) c
    (normalized_target_readings nfkc p)")
  case None
  with assms show ?thesis by (simp add: candidate_step_def)
next
  case (Some r)
  then have "reads nfkc p t r"
    using assms(3) first_target_Some[OF Some] by (auto simp: reads_def)
  with assms Some show ?thesis
    by (auto simp: candidate_step_def acc_ok_def sorted_insort_insert distinct_insort_insert
        set_insort_insert sat_add_def u64_max_def)
qed

lemma candidate_steps_ok:
  assumes "t \<in> set ts" and "set cs \<subseteq> set (token_candidates nfkc t)"
  shows "acc_ok nfkc p ts acc \<Longrightarrow>
    acc_ok nfkc p ts (foldl (candidate_step (normalize_reading nfkc (surface t))
      (normalized_target_readings nfkc p)) acc cs)"
  using assms(2)
  by (induction cs arbitrary: acc) (auto simp: candidate_step_ok[OF _ assms(1)])

lemma token_steps_ok:
  "set us \<subseteq> set ts \<Longrightarrow> acc_ok nfkc p ts acc \<Longrightarrow>
   acc_ok nfkc p ts (foldl (token_step nfkc (normalized_target_readings nfkc p)) acc us)"
  by (induction us arbitrary: acc) (auto simp: token_step_def candidate_steps_ok)

lemma candidate_step_mono: "fst acc \<le> u64_max \<Longrightarrow> fst acc \<le> fst (candidate_step s ts acc c)"
  by (auto simp: candidate_step_def sat_add_def split: option.split)

lemma candidate_steps_bound:
  "fst (foldl (candidate_step s ts) acc cs) \<le> fst acc + length cs"
proof (induction cs arbitrary: acc)
  case (Cons c cs)
  have "fst (candidate_step s ts acc c) \<le> Suc (fst acc)"
    by (simp add: candidate_step_def sat_add_def split: option.split)
  with Cons[of "candidate_step s ts acc c"] show ?case by simp
qed simp

lemma token_candidates_length: "length (token_candidates nfkc t) \<le> 3"
  unfolding token_candidates_def
  by (rule order.trans[OF length_filter_le]) (simp split: option.split)

lemma token_steps_bound:
  "fst (foldl (token_step nfkc ts) acc us) \<le> fst acc + 3 * length us"
proof (induction us arbitrary: acc)
  case (Cons t us)
  have "fst (token_step nfkc ts acc t) \<le> fst acc + 3"
    unfolding token_step_def
    using candidate_steps_bound[of _ ts acc "token_candidates nfkc t"]
      token_candidates_length[of nfkc t] by (meson add_left_mono le_trans)
  with Cons[of "token_step nfkc ts acc t"] show ?case by simp
qed simp

text \<open>Nothing is missed: no hit means that no candidate of any token matches a target.\<close>

lemma candidate_steps_zero:
  "fst (foldl (candidate_step s ts) acc cs) = 0 \<longleftrightarrow>
   fst acc = 0 \<and> (\<forall>c \<in> set cs. first_target s c ts = None)"
proof (induction cs arbitrary: acc)
  case (Cons c cs)
  have "fst (candidate_step s ts acc c) = 0 \<longleftrightarrow> fst acc = 0 \<and> first_target s c ts = None"
    by (simp add: candidate_step_def sat_add_def u64_max_def split: option.split)
  with Cons[of "candidate_step s ts acc c"] show ?case by auto
qed simp

lemma reads_iff:
  "(\<exists>r. reads nfkc p t r) \<longleftrightarrow>
   (\<exists>c \<in> set (token_candidates nfkc t). first_target (normalize_reading nfkc (surface t)) c
     (normalized_target_readings nfkc p) \<noteq> None)"
  unfolding first_target_None
  by (auto simp: reads_def normalized_target_readings_def)

lemma token_steps_zero:
  "fst (foldl (token_step nfkc (normalized_target_readings nfkc p)) acc us) = 0 \<longleftrightarrow>
   fst acc = 0 \<and> (\<forall>t \<in> set us. \<forall>r. \<not> reads nfkc p t r)"
proof (induction us arbitrary: acc)
  case (Cons t us)
  have "fst (token_step nfkc (normalized_target_readings nfkc p) acc t) = 0 \<longleftrightarrow>
      fst acc = 0 \<and> (\<forall>r. \<not> reads nfkc p t r)"
    using reads_iff[of nfkc p t] by (auto simp: token_step_def candidate_steps_zero)
  with Cons[of "token_step nfkc (normalized_target_readings nfkc p) acc t"] show ?case by auto
qed simp

lemma token_run_ok:
  "acc_ok nfkc p ts (foldl (token_step nfkc (normalized_target_readings nfkc p)) (0, []) ts)"
  by (rule token_steps_ok) (simp_all add: acc_ok_def)

interpretation morphological: message_detector "detect nfkc lock policy" for nfkc lock policy
proof
  fix c
  note run = token_run_ok[unfolded acc_ok_def]
  show "kanji_hits (detect nfkc lock policy c) \<le> total_count (detect nfkc lock policy c)"
    using run by (auto simp: detect_def Let_def sat_add_def split: option.splits prod.splits)
      (metis fst_conv)
  show "total_count (detect nfkc lock policy c) = 0 \<longleftrightarrow>
      sequence_hits (detect nfkc lock policy c) = 0 \<and> kanji_hits (detect nfkc lock policy c) = 0"
    by (auto simp: detect_def Let_def sat_add_def u64_max_def split: option.splits prod.splits)
  show "matched_readings (detect nfkc lock policy c) = [] \<longleftrightarrow>
      kanji_hits (detect nfkc lock policy c) = 0"
    using run by (auto simp: detect_def Let_def split: option.splits prod.splits)
      (metis fst_conv snd_conv)+
qed

text \<open>C13: the report of a message: the matched readings are exactly-once, in order, each is a
  normalized target that some token is read as without spelling it; there are readings exactly
  when there are hits, exactly when some token is read as some target; hits are at most three a
  token.\<close>

theorem detect_report:
  fixes nfkc :: "rstr \<Rightarrow> rstr" and tokenize :: tokenizer and policy :: detector_policy
    and content :: rstr
  assumes "tokenize content = Some tokens"
  defines "r \<equiv> detect nfkc (Some tokenize) policy content"
  shows "sorted (matched_readings r) \<and> distinct (matched_readings r) \<and>
    (\<forall>x \<in> set (matched_readings r). \<exists>t \<in> set tokens. reads nfkc policy t x) \<and>
    (kanji_hits r = 0 \<longleftrightarrow> (\<forall>t \<in> set tokens. \<forall>x. \<not> reads nfkc policy t x)) \<and>
    (matched_readings r = [] \<longleftrightarrow> kanji_hits r = 0) \<and>
    kanji_hits r \<le> 3 * token_count r \<and>
    total_count r = sat_add (count_literal_patterns content (literal_sequence_patterns policy))
      (kanji_hits r)"
proof -
  let ?run = "foldl (token_step nfkc (normalized_target_readings nfkc policy)) (0, []) tokens"
  have r: "matched_readings r = snd ?run" "kanji_hits r = fst ?run" "token_count r = length tokens"
    "total_count r = sat_add (count_literal_patterns content (literal_sequence_patterns policy))
      (fst ?run)"
    using assms(1) by (simp_all add: r_def detect_def Let_def split: prod.split)
  show ?thesis
    unfolding r
    using token_run_ok[of nfkc policy tokens, unfolded acc_ok_def]
      token_steps_bound[of nfkc _ "(0, [])" tokens] token_steps_zero[of nfkc policy "(0, [])" tokens]
    by auto
qed

theorem detect_report_witness:
  "kanji_hits (detect (\<lambda>s. s)
      (Some (\<lambda>s. Some [\<lparr>surface = [0x5927], detail7 = Some [0x304A, 0x304A], detail8 = None\<rparr>]))
      \<lparr>target_readings = [[0x304A, 0x304A]], literal_sequence_patterns = [lit ''oo''],
       special_phrases = []\<rparr> (lit ''oo'')) \<le> 3 * 1"
  using detect_report[of "\<lambda>s. Some [\<lparr>surface = [0x5927], detail7 = Some [0x304A, 0x304A],
      detail8 = None\<rparr>]" "lit ''oo''" _ "\<lambda>s. s" "\<lparr>target_readings = [[0x304A, 0x304A]],
      literal_sequence_patterns = [lit ''oo''], special_phrases = []\<rparr>", OF refl]
  by (simp add: detect_def Let_def split: prod.splits)

end
