(* ===== verification/Event_Window.thy ===== *)
theory Event_Window
  imports Prelude
begin

text \<open>
  The sliding window of failure times that the circuit breaker
  (\<^verbatim>\<open>HttpCircuitBreaker::trim\<close>) and the governor (\<^verbatim>\<open>TrustedCore::trim_sandbox_failures\<close>)
  both keep: a queue of instants that is pushed at the back and trimmed at the front.
  \<open>trim_window\<close> is their common loop; the locale states the contract of a component that
  owns such a queue, and proves once what the queue remembers.
\<close>

fun trim_window :: "duration \<Rightarrow> instant \<Rightarrow> instant list \<Rightarrow> instant list" where
  "trim_window window now [] = []"
| "trim_window window now (front # rest) =
     (if duration_since now front > window then trim_window window now rest
      else front # rest)"

definition in_window :: "duration \<Rightarrow> instant \<Rightarrow> instant \<Rightarrow> bool" where
  "in_window window now t \<longleftrightarrow> duration_since now t \<le> window"

lemma trim_window_dropWhile:
  "trim_window w now ts = dropWhile (\<lambda>t. duration_since now t > w) ts"
  by (induction ts) auto

lemma trim_window_filter: "sorted ts \<Longrightarrow> trim_window w now ts = filter (in_window w now) ts"
  by (simp add: trim_window_dropWhile sorted_dropWhile_filter in_window_def[abs_def])

lemma set_trim_window: "set (trim_window w now ts) \<subseteq> set ts"
  by (auto simp: trim_window_dropWhile dest: set_dropWhileD)

lemma sorted_trim_window: "sorted ts \<Longrightarrow> sorted (trim_window w now ts)"
  by (simp add: trim_window_filter sorted_wrt_filter)

lemma length_trim_window: "length (trim_window w now ts) \<le> length ts"
  by (simp add: trim_window_dropWhile length_dropWhile_le)

lemma trim_window_Nil_iff:
  "trim_window w now ts = [] \<longleftrightarrow> (\<forall>t \<in> set ts. duration_since now t > w)"
  by (simp add: trim_window_dropWhile dropWhile_eq_Nil_conv)

text \<open>Trimming never loses an instant that a later look at the window would count.\<close>

lemma in_window_antimono: "now \<le> now' \<Longrightarrow> in_window w now' t \<Longrightarrow> in_window w now t"
  using duration_since_mono[of now now' t] by (simp add: in_window_def)

lemma filter_trim_window:
  "now \<le> now' \<Longrightarrow>
   filter (in_window w now') (trim_window w now ts) = filter (in_window w now') ts"
proof (induction ts)
  case (Cons t ts)
  then show ?case
    using in_window_antimono[OF Cons.prems, of w t] by (auto simp: in_window_def)
qed simp

text \<open>
  The interface: \<open>record_event e now q\<close> is the operation that reports an event,
  \<open>relevant\<close> says which events count, \<open>events\<close> and \<open>window\<close> read the state.
\<close>

locale event_window =
  fixes record_event :: "'e \<Rightarrow> instant \<Rightarrow> 'q \<Rightarrow> 'q"
    and relevant :: "'e \<Rightarrow> bool"
    and events :: "'q \<Rightarrow> instant list"
    and window :: "'q \<Rightarrow> duration"
  assumes events_relevant:
    "relevant e \<Longrightarrow> events (record_event e now q) = trim_window (window q) now (events q @ [now])"
    and events_irrelevant: "\<not> relevant e \<Longrightarrow> events (record_event e now q) = events q"
    and window_record: "window (record_event e now q) = window q"
begin

lemma window_run: "window (foldl (\<lambda>q (e, t). record_event e t q) q es) = window q"
  by (induction es arbitrary: q) (auto simp: window_record split: prod.splits)

text \<open>The window loses nothing: what is still in the window at \<open>now\<close> among the recorded
  instants is in the queue.\<close>

lemma nothing_forgotten:
  "\<forall>(e, t) \<in> set es. t \<le> now \<Longrightarrow>
   filter (in_window (window q) now) (events (foldl (\<lambda>q (e, t). record_event e t q) q es)) =
   filter (in_window (window q) now)
     (events q @ map snd (filter (\<lambda>(e, t). relevant e) es))"
proof (induction es arbitrary: q)
  case (Cons p es)
  obtain e t where p: "p = (e, t)" by (cases p)
  with Cons.prems have le: "t \<le> now" and rest: "\<forall>(e, t) \<in> set es. t \<le> now" by auto
  have IH: "filter (in_window (window q) now)
      (events (foldl (\<lambda>q (e, t). record_event e t q) (record_event e t q) es)) =
    filter (in_window (window q) now)
      (events (record_event e t q) @ map snd (filter (\<lambda>(e, t). relevant e) es))"
    using Cons.IH[OF rest, of "record_event e t q"] by (simp add: window_record)
  show ?case
    by (cases "relevant e")
      (use IH filter_trim_window[OF le] in
        \<open>simp_all add: p events_relevant events_irrelevant\<close>)
qed simp

text \<open>Recorded in order of time, the queue stays sorted and below the clock.\<close>

lemma sorted_record:
  assumes "sorted (events q)" and "\<forall>t \<in> set (events q). t \<le> now"
  shows "sorted (events (record_event e now q)) \<and>
    (\<forall>t \<in> set (events (record_event e now q)). t \<le> now)"
proof (cases "relevant e")
  case True
  have "sorted (events q @ [now])" using assms by (simp add: sorted_append)
  then show ?thesis
    using True assms(2) set_trim_window[of "window q" now "events q @ [now]"]
    by (auto simp: events_relevant intro: sorted_trim_window)
next
  case False
  with assms show ?thesis by (simp add: events_irrelevant)
qed

text \<open>A relevant event leaves exactly the instants of the window behind it.\<close>

lemma record_exact:
  assumes "sorted (events q)" and "\<forall>t \<in> set (events q). t \<le> now" and "relevant e"
  shows "events (record_event e now q) = filter (in_window (window q) now) (events q @ [now])"
  using assms by (simp add: events_relevant trim_window_filter sorted_append)

end

end
