(* ===== verification/Circuit_Breaker.thy ===== *)
theory Circuit_Breaker
  imports Event_Window
begin

text \<open>
  The HTTP circuit breaker, \<^verbatim>\<open>src/security/circuit_breaker.rs\<close>: the statuses 401, 403 and
  429 are failures; enough of them inside the window open the breaker for a while.
\<close>

record breaker =
  cb_window :: duration
  cb_threshold :: nat
  cb_open_for :: duration
  cb_failures :: "instant list"
  cb_open_until :: "instant option"

definition breaker_new :: "duration \<Rightarrow> nat \<Rightarrow> duration \<Rightarrow> breaker" where
  "breaker_new window threshold open_for =
     \<lparr>cb_window = window, cb_threshold = max threshold 1, cb_open_for = open_for,
      cb_failures = [], cb_open_until = None\<rparr>"

lemma breaker_new_fields:
  "cb_window (breaker_new w k d) = w"
  "cb_threshold (breaker_new w k d) = max k 1"
  "cb_open_for (breaker_new w k d) = d"
  "cb_failures (breaker_new w k d) = []"
  "cb_open_until (breaker_new w k d) = None"
  by (simp_all add: breaker_new_def)

definition breaker_allows_outbound :: "breaker \<Rightarrow> instant \<Rightarrow> bool" where
  "breaker_allows_outbound b now =
     (case cb_open_until b of None \<Rightarrow> True | Some until \<Rightarrow> until \<le> now)"

definition breaker_trim :: "breaker \<Rightarrow> instant \<Rightarrow> breaker" where
  "breaker_trim b now = b\<lparr>cb_failures := trim_window (cb_window b) now (cb_failures b)\<rparr>"

definition breaker_status :: "nat \<Rightarrow> bool" where
  "breaker_status status \<longleftrightarrow> status = 401 \<or> status = 403 \<or> status = 429"

definition breaker_record_status :: "breaker \<Rightarrow> nat \<Rightarrow> instant \<Rightarrow> breaker" where
  "breaker_record_status b status now =
     (if \<not> breaker_status status then b
      else let b1 = b\<lparr>cb_failures := cb_failures b @ [now]\<rparr>;
               b2 = breaker_trim b1 now
           in if cb_threshold b2 \<le> length (cb_failures b2)
              then b2\<lparr>cb_open_until := Some (now + cb_open_for b2)\<rparr>
              else b2)"

definition breaker_is_open :: "breaker \<Rightarrow> instant \<Rightarrow> bool" where
  "breaker_is_open b now =
     (case cb_open_until b of None \<Rightarrow> False | Some until \<Rightarrow> now < until)"

lemma breaker_open_iff_not_allowed:
  "breaker_is_open b now \<longleftrightarrow> \<not> breaker_allows_outbound b now"
  by (auto simp: breaker_is_open_def breaker_allows_outbound_def split: option.splits)

lemma breaker_record_irrelevant:
  "\<not> breaker_status status \<Longrightarrow> breaker_record_status b status now = b"
  by (simp add: breaker_record_status_def)

lemma breaker_record_fields:
  "cb_window (breaker_record_status b status now) = cb_window b"
  "cb_threshold (breaker_record_status b status now) = cb_threshold b"
  "cb_open_for (breaker_record_status b status now) = cb_open_for b"
  by (simp_all add: breaker_record_status_def breaker_trim_def Let_def)

lemma breaker_record_failures:
  "breaker_status status \<Longrightarrow>
   cb_failures (breaker_record_status b status now) =
   trim_window (cb_window b) now (cb_failures b @ [now])"
  by (simp add: breaker_record_status_def breaker_trim_def Let_def)

lemma breaker_record_open_until:
  "breaker_status status \<Longrightarrow>
   cb_open_until (breaker_record_status b status now) =
   (if cb_threshold b \<le> length (trim_window (cb_window b) now (cb_failures b @ [now]))
    then Some (now + cb_open_for b) else cb_open_until b)"
  by (simp add: breaker_record_status_def breaker_trim_def Let_def)

lemmas breaker_record_simps =
  breaker_record_fields breaker_record_failures breaker_record_open_until
  breaker_record_irrelevant

interpretation breaker_failures: event_window
  "\<lambda>status now b. breaker_record_status b status now" breaker_status cb_failures cb_window
  by unfold_locales (simp_all add: breaker_record_simps)

section \<open>The history specification\<close>

text \<open>
  What the breaker should compute, over the whole history of failures in order of time: it
  is open when some failure had \<open>threshold\<close> failures in the window that ends with it, and
  the opening time of that failure is not over.
\<close>

definition tripped :: "duration \<Rightarrow> nat \<Rightarrow> instant list \<Rightarrow> nat \<Rightarrow> bool" where
  "tripped w k ts i \<longleftrightarrow> k \<le> length (filter (in_window w (ts ! i)) (take (Suc i) ts))"

definition open_by_history ::
  "duration \<Rightarrow> nat \<Rightarrow> duration \<Rightarrow> instant list \<Rightarrow> instant \<Rightarrow> bool" where
  "open_by_history w k d ts now \<longleftrightarrow> (\<exists>i < length ts. tripped w k ts i \<and> now < ts ! i + d)"

definition failure_times :: "(nat \<times> instant) list \<Rightarrow> instant list" where
  "failure_times es = map snd (filter (\<lambda>(status, t). breaker_status status) es)"

definition breaker_run :: "breaker \<Rightarrow> (nat \<times> instant) list \<Rightarrow> breaker" where
  "breaker_run b es = foldl (\<lambda>b (status, t). breaker_record_status b status t) b es"

lemma breaker_run_snoc:
  "breaker_run b (es @ [(status, t)]) = breaker_record_status (breaker_run b es) status t"
  by (simp add: breaker_run_def)

lemma breaker_run_fields:
  "cb_window (breaker_run b es) = cb_window b"
  "cb_threshold (breaker_run b es) = cb_threshold b"
  "cb_open_for (breaker_run b es) = cb_open_for b"
  by (induction es rule: rev_induct)
    (auto simp: breaker_run_snoc breaker_record_fields breaker_run_def[of _ "[]"])

lemma failure_times_snoc:
  "failure_times (es @ [(status, t)]) =
   failure_times es @ (if breaker_status status then [t] else [])"
  by (simp add: failure_times_def)

lemma breaker_run_new_failures:
  assumes "\<forall>(status, t) \<in> set es. t \<le> now"
  shows "filter (in_window w now) (cb_failures (breaker_run (breaker_new w k d) es)) =
         filter (in_window w now) (failure_times es)"
  using breaker_failures.nothing_forgotten[of es now "breaker_new w k d"] assms
  by (simp add: breaker_run_def failure_times_def breaker_new_def)

lemma breaker_run_sorted_le:
  assumes "sorted (map snd es)" and "\<forall>q \<in> set es. snd q \<le> now"
  shows "sorted (cb_failures (breaker_run (breaker_new w k d) es)) \<and>
    (\<forall>t \<in> set (cb_failures (breaker_run (breaker_new w k d) es)). t \<le> now)"
  using assms
proof (induction es arbitrary: now rule: rev_induct)
  case Nil
  then show ?case by (simp add: breaker_run_def breaker_new_def)
next
  case (snoc p es)
  obtain status t where p: "p = (status, t)" by (cases p)
  have "sorted (map snd es)" "\<forall>q \<in> set es. snd q \<le> t" and t: "t \<le> now"
    using snoc.prems by (auto simp: sorted_append p)
  then show ?case
    using snoc.IH breaker_failures.sorted_record[of "breaker_run (breaker_new w k d) es" t status]
    by (fastforce simp: p breaker_run_snoc)
qed

lemma open_by_history_snoc:
  "open_by_history w k d (ts @ [t]) now \<longleftrightarrow>
   open_by_history w k d ts now \<or>
   (k \<le> length (filter (in_window w t) (ts @ [t])) \<and> now < t + d)"
proof -
  have old: "tripped w k (ts @ [t]) i \<longleftrightarrow> tripped w k ts i" if "i < length ts" for i
    using that by (simp add: tripped_def nth_append)
  have "tripped w k (ts @ [t]) (length ts) \<longleftrightarrow> k \<le> length (filter (in_window w t) (ts @ [t]))"
    by (simp add: tripped_def)
  then show ?thesis
    unfolding open_by_history_def using old
    by (auto simp: less_Suc_eq nth_append)
qed

section \<open>Refinement\<close>

lemma failure_times_sorted: "sorted (map snd es) \<Longrightarrow> sorted (failure_times es)"
  by (simp add: failure_times_def sorted_wrt_filter sorted_map sorted_wrt_map)

lemma in_window_self [simp]: "in_window w t t"
  by (simp add: in_window_def)

lemma breaker_open_until_mono:
  assumes "sorted (map snd es)"
  shows "\<forall>u. cb_open_until (breaker_run (breaker_new w k d) es) = Some u \<longrightarrow>
    (\<exists>t \<in> snd ` set es. u = t + d)"
proof (induction es rule: rev_induct)
  case Nil
  then show ?case by (simp add: breaker_run_def breaker_new_def)
next
  case (snoc p es)
  obtain status t where p: "p = (status, t)" by (cases p)
  show ?case
    using snoc by (cases "breaker_status status")
      (auto simp: p breaker_run_snoc breaker_record_simps breaker_run_fields breaker_new_def)
qed

text \<open>C11: over any history of responses in order of time, the breaker is open exactly
  when the history specification says so, at every later time.\<close>

theorem breaker_refines_history:
  assumes "sorted (map snd es)" and "\<forall>p \<in> set es. snd p \<le> now"
  shows "breaker_is_open (breaker_run (breaker_new w k d) es) now \<longleftrightarrow>
         open_by_history w (max k 1) d (failure_times es) now"
  using assms
proof (induction es arbitrary: now rule: rev_induct)
  case Nil
  then show ?case
    by (simp add: breaker_run_def breaker_new_def breaker_is_open_def failure_times_def
        open_by_history_def)
next
  case (snoc p es)
  obtain status t where p: "p = (status, t)" by (cases p)
  let ?b = "breaker_run (breaker_new w k d) es"
  have sorted: "sorted (map snd es)" and le: "\<forall>q \<in> set es. snd q \<le> t" and t: "t \<le> now"
    using snoc.prems by (auto simp: sorted_append p)
  have IH: "breaker_is_open ?b now \<longleftrightarrow> open_by_history w (max k 1) d (failure_times es) now"
  proof (rule snoc.IH[OF sorted])
    show "\<forall>q \<in> set es. snd q \<le> now" using le t by (meson order_trans)
  qed
  show ?case
  proof (cases "breaker_status status")
    case False
    with IH show ?thesis by (simp add: p breaker_run_snoc breaker_record_simps failure_times_snoc)
  next
    case True
    have sb: "sorted (cb_failures ?b)" "\<forall>u \<in> set (cb_failures ?b). u \<le> t"
      using breaker_run_sorted_le[OF sorted le] by auto
    have "trim_window w t (cb_failures ?b @ [t]) = filter (in_window w t) (cb_failures ?b @ [t])"
      using sb by (simp add: trim_window_filter sorted_append)
    also have "\<dots> = filter (in_window w t) (failure_times es @ [t])"
      using breaker_run_new_failures[of es t w k d] le by (auto simp: split_beta)
    finally have trim: "trim_window w t (cb_failures ?b @ [t]) =
      filter (in_window w t) (failure_times es @ [t])" .
    have until: "u \<le> t + d" if "cb_open_until ?b = Some u" for u
      using breaker_open_until_mono[OF sorted] that le by fastforce
    have "breaker_is_open (breaker_record_status ?b status t) now \<longleftrightarrow>
      breaker_is_open ?b now \<or>
      (max k 1 \<le> length (filter (in_window w t) (failure_times es @ [t])) \<and> now < t + d)"
      using until unfolding breaker_is_open_def breaker_record_open_until[OF True]
      by (auto simp: breaker_run_fields breaker_new_fields trim split: option.splits)
    with IH True show ?thesis
      by (simp add: p breaker_run_snoc failure_times_snoc open_by_history_snoc)
  qed
qed

theorem breaker_refines_history_witness:
  "let es = [(429, 0), (200, 1), (403, 1), (401, 2)]
   in breaker_is_open (breaker_run (breaker_new 10 3 5) es) 6 \<and>
      open_by_history 10 3 5 (failure_times es) 6 \<and>
      \<not> breaker_is_open (breaker_run (breaker_new 10 3 5) es) 7"
proof -
  let ?es = "[(429, 0), (200, 1), (403, 1), (401, 2)] :: (nat \<times> nat) list"
  have 1: "breaker_is_open (breaker_run (breaker_new 10 3 5) ?es) 6"
    and 2: "\<not> breaker_is_open (breaker_run (breaker_new 10 3 5) ?es) 7"
    by code_simp+
  have "open_by_history 10 (max 3 1) 5 (failure_times ?es) 6"
    using breaker_refines_history[of ?es 6 10 3 5] 1 by simp
  with 1 2 show ?thesis by simp
qed

end
