(* ===== verification/Duplicate_Guard.thy ===== *)
theory Duplicate_Guard
  imports Prelude "HOL-Library.AList" "HOL-Library.Multiset"
begin

text \<open>
  Duplicate suppression, \<^verbatim>\<open>src/security/duplicate_guard.rs\<close>.  The \<^verbatim>\<open>HashMap\<close> from message
  ids to the time they were last seen is an association list with distinct keys.  The order
  in which a \<^verbatim>\<open>HashMap\<close> is iterated is not specified: \<open>compact\<close>, the only place that
  iterates, takes it as the parameter \<open>ord\<close>, and \<open>iteration_order\<close> states what the library
  promises, that every entry is visited once.
\<close>

record duplicate_guard =
  dg_ttl :: duration
  dg_cap :: nat
  dg_seen :: "(nat \<times> instant) list"

type_synonym hash_order = "(nat \<times> instant) list \<Rightarrow> (nat \<times> instant) list"

definition iteration_order :: "hash_order \<Rightarrow> bool" where
  "iteration_order ord \<longleftrightarrow> (\<forall>m. mset (ord m) = mset m)"

definition duplicate_guard_new :: "duration \<Rightarrow> nat \<Rightarrow> duplicate_guard" where
  "duplicate_guard_new ttl cap = \<lparr>dg_ttl = ttl, dg_cap = max cap 64, dg_seen = []\<rparr>"

definition evict_old :: "duplicate_guard \<Rightarrow> instant \<Rightarrow> duplicate_guard" where
  "evict_old g now =
     g\<lparr>dg_seen := filter (\<lambda>(_, ts). duration_since now ts \<le> dg_ttl g) (dg_seen g)\<rparr>"

definition compact :: "hash_order \<Rightarrow> duplicate_guard \<Rightarrow> duplicate_guard" where
  "compact ord g =
     (let items = sort_key snd (ord (dg_seen g));
          keep_from = length items - dg_cap g
      in g\<lparr>dg_seen := foldl (\<lambda>m (k, v). AList.update k v m) [] (drop keep_from items)\<rparr>)"

definition is_duplicate_and_mark ::
  "hash_order \<Rightarrow> duplicate_guard \<Rightarrow> nat \<Rightarrow> instant \<Rightarrow> duplicate_guard \<times> bool" where
  "is_duplicate_and_mark ord g message_id now =
     (let g1 = evict_old g now;
          is_dup = (message_id \<in> fst ` set (dg_seen g1));
          g2 = g1\<lparr>dg_seen := AList.update message_id now (dg_seen g1)\<rparr>;
          g3 = (if dg_cap g2 < length (dg_seen g2) then compact ord g2 else g2)
      in (g3, is_dup))"

section \<open>The representation invariant\<close>

definition guard_inv :: "duplicate_guard \<Rightarrow> bool" where
  "guard_inv g \<longleftrightarrow> distinct (map fst (dg_seen g)) \<and> length (dg_seen g) \<le> dg_cap g \<and> 0 < dg_cap g"

lemma guard_new_inv: "guard_inv (duplicate_guard_new ttl cap)"
  by (simp add: guard_inv_def duplicate_guard_new_def)

lemma update_fresh: "k \<notin> fst ` set m \<Longrightarrow> AList.update k v m = m @ [(k, v)]"
  by (induction m) auto

lemma rebuild_map:
  "distinct (map fst xs) \<Longrightarrow> foldl (\<lambda>m (k, v). AList.update k v m) [] xs = xs"
  by (induction xs rule: rev_induct) (auto simp: update_fresh)

lemma update_length_le: "length (AList.update k v m) \<le> Suc (length m)"
  by (induction m) auto

lemma evict_distinct:
  "distinct (map fst (dg_seen g)) \<Longrightarrow> distinct (map fst (dg_seen (evict_old g now)))"
  by (auto simp: evict_old_def distinct_map inj_on_def)

lemma iteration_order_props:
  assumes "iteration_order ord"
  shows "length (ord m) = length m" and "set (ord m) = set m"
    and "distinct (map fst m) \<Longrightarrow> distinct (map fst (ord m))"
proof -
  have m: "mset (ord m) = mset m" using assms by (simp add: iteration_order_def)
  show "length (ord m) = length m" using m by (metis size_mset)
  show "set (ord m) = set m" using m by (metis set_mset_mset)
  have "mset (map fst (ord m)) = mset (map fst m)" using m by simp
  then show "distinct (map fst m) \<Longrightarrow> distinct (map fst (ord m))"
    by (metis mset_eq_imp_distinct_iff)
qed

lemma distinct_sort_key: "distinct (map fst m) \<Longrightarrow> distinct (map fst (sort_key snd m))"
proof -
  have "mset (map fst (sort_key snd m)) = mset (map fst m)" by simp
  then show "distinct (map fst m) \<Longrightarrow> ?thesis" by (metis mset_eq_imp_distinct_iff)
qed

lemma compact_seen:
  assumes "iteration_order ord" and "distinct (map fst (dg_seen g))"
  shows "dg_seen (compact ord g) =
    drop (length (dg_seen g) - dg_cap g) (sort_key snd (ord (dg_seen g)))"
proof -
  let ?items = "sort_key snd (ord (dg_seen g))"
  have "distinct (map fst ?items)"
    using assms iteration_order_props(3) distinct_sort_key by blast
  then have "distinct (map fst (drop n ?items))" for n
    by (simp add: distinct_drop flip: drop_map)
  then show ?thesis
    by (simp add: compact_def Let_def rebuild_map iteration_order_props(1)[OF assms(1)])
qed

lemma compact_fields [simp]:
  "dg_ttl (compact ord g) = dg_ttl g" "dg_cap (compact ord g) = dg_cap g"
  by (simp_all add: compact_def Let_def)

lemma evict_fields [simp]:
  "dg_ttl (evict_old g now) = dg_ttl g" "dg_cap (evict_old g now) = dg_cap g"
  by (simp_all add: evict_old_def)

lemma mark_fields [simp]:
  "dg_ttl (fst (is_duplicate_and_mark ord g i now)) = dg_ttl g"
  "dg_cap (fst (is_duplicate_and_mark ord g i now)) = dg_cap g"
  by (simp_all add: is_duplicate_and_mark_def Let_def)

lemma compact_inv:
  assumes "iteration_order ord" and "distinct (map fst (dg_seen g))" and "0 < dg_cap g"
  shows "guard_inv (compact ord g)"
proof -
  have "distinct (map fst (sort_key snd (ord (dg_seen g))))"
    using assms iteration_order_props(3) distinct_sort_key by blast
  then show ?thesis
    using assms(3) iteration_order_props(1)[OF assms(1)]
    by (auto simp: guard_inv_def compact_seen[OF assms(1,2)] distinct_drop simp flip: drop_map)
qed

lemma mark_inv [inv_intros]:
  assumes "iteration_order ord" and "guard_inv g"
  shows "guard_inv (fst (is_duplicate_and_mark ord g i now))"
proof -
  let ?g1 = "evict_old g now"
  let ?g2 = "?g1\<lparr>dg_seen := AList.update i now (dg_seen ?g1)\<rparr>"
  have "distinct (map fst (dg_seen ?g1))" using assms(2) by (simp add: guard_inv_def evict_distinct)
  then have d: "distinct (map fst (dg_seen ?g2))" by (simp add: distinct_update)
  have c: "0 < dg_cap ?g2" using assms(2) by (simp add: guard_inv_def)
  show ?thesis
    using compact_inv[OF assms(1) d c] d c
    by (auto simp: is_duplicate_and_mark_def Let_def guard_inv_def)
qed

text \<open>The verdict, read off the map before the call.\<close>

lemma mark_verdict:
  assumes "guard_inv g"
  shows "snd (is_duplicate_and_mark ord g i now) \<longleftrightarrow>
    (\<exists>t. map_of (dg_seen g) i = Some t \<and> duration_since now t \<le> dg_ttl g)"
  using assms
  by (force simp: is_duplicate_and_mark_def Let_def evict_old_def guard_inv_def image_iff)

section \<open>The guard against its history\<close>

text \<open>
  \<open>es\<close> is the list of marked messages with their times, oldest first, so \<open>map_of (rev es)\<close>
  gives the last time an id was marked.
\<close>

definition guard_run ::
  "hash_order \<Rightarrow> duplicate_guard \<Rightarrow> (nat \<times> instant) list \<Rightarrow> duplicate_guard" where
  "guard_run ord g es = foldl (\<lambda>g (i, t). fst (is_duplicate_and_mark ord g i t)) g es"

definition live_ids :: "duration \<Rightarrow> (nat \<times> instant) list \<Rightarrow> instant \<Rightarrow> nat set" where
  "live_ids ttl es now =
     {i. \<exists>t. map_of (rev es) i = Some t \<and> duration_since now t \<le> ttl}"

lemma guard_run_snoc:
  "guard_run ord g (es @ [(i, t)]) = fst (is_duplicate_and_mark ord (guard_run ord g es) i t)"
  by (simp add: guard_run_def)

lemma guard_run_fields [simp]:
  "dg_ttl (guard_run ord g es) = dg_ttl g" "dg_cap (guard_run ord g es) = dg_cap g"
  by (induction es rule: rev_induct) (auto simp: guard_run_snoc guard_run_def[of _ _ "[]"])

lemma guard_run_inv:
  "iteration_order ord \<Longrightarrow> guard_inv g \<Longrightarrow> guard_inv (guard_run ord g es)"
  by (induction es rule: rev_induct)
    (auto simp: guard_run_snoc guard_run_def[of _ _ "[]"] mark_inv)

lemma map_of_filter_distinct:
  "distinct (map fst m) \<Longrightarrow>
   map_of (filter P m) k = Some v \<longleftrightarrow> map_of m k = Some v \<and> P (k, v)"
  by (simp add: map_of_eq_Some_iff distinct_map_filter)

lemma map_of_evict:
  "guard_inv g \<Longrightarrow>
   map_of (dg_seen (evict_old g now)) k = Some t \<longleftrightarrow>
   map_of (dg_seen g) k = Some t \<and> duration_since now t \<le> dg_ttl g"
  by (simp add: evict_old_def guard_inv_def map_of_filter_distinct)

text \<open>Compaction only forgets, and it forgets the oldest entries.\<close>

lemma compact_forgets_oldest:
  assumes "iteration_order ord" and "distinct (map fst (dg_seen g))"
  shows "set (dg_seen (compact ord g)) \<subseteq> set (dg_seen g)"
    and "p \<in> set (dg_seen (compact ord g)) \<Longrightarrow>
      q \<in> set (dg_seen g) - set (dg_seen (compact ord g)) \<Longrightarrow> snd q \<le> snd p"
proof -
  let ?items = "sort_key snd (ord (dg_seen g))" and ?n = "length (dg_seen g) - dg_cap g"
  have seen: "dg_seen (compact ord g) = drop ?n ?items" using assms by (rule compact_seen)
  have set: "set ?items = set (dg_seen g)" by (simp add: iteration_order_props(2)[OF assms(1)])
  show "set (dg_seen (compact ord g)) \<subseteq> set (dg_seen g)"
    unfolding seen set[symmetric] by (rule set_drop_subset)
  assume p: "p \<in> set (dg_seen (compact ord g))"
    and q: "q \<in> set (dg_seen g) - set (dg_seen (compact ord g))"
  have "?items = take ?n ?items @ drop ?n ?items" by simp
  then have "q \<in> set (take ?n ?items)"
    using q unfolding seen set[symmetric] by (metis DiffE UnE set_append)
  moreover have "sorted (map snd (take ?n ?items @ drop ?n ?items))" by simp
  then have "\<forall>x \<in> set (take ?n ?items). \<forall>y \<in> set (drop ?n ?items). snd x \<le> snd y"
    unfolding map_append sorted_append by auto
  ultimately show "snd q \<le> snd p" using p unfolding seen by blast
qed

lemma mark_map_subset:
  assumes "iteration_order ord" and inv: "guard_inv g"
    and "map_of (dg_seen (fst (is_duplicate_and_mark ord g i now))) k = Some t"
  shows "(k = i \<and> t = now) \<or> (k \<noteq> i \<and> map_of (dg_seen g) k = Some t)"
proof -
  let ?g1 = "evict_old g now"
  let ?g2 = "?g1\<lparr>dg_seen := AList.update i now (dg_seen ?g1)\<rparr>"
  let ?g3 = "fst (is_duplicate_and_mark ord g i now)"
  have d: "distinct (map fst (dg_seen ?g2))"
    using inv by (simp add: guard_inv_def evict_distinct distinct_update)
  have d3: "distinct (map fst (dg_seen ?g3))"
    using mark_inv[OF assms(1) inv] by (simp add: guard_inv_def)
  have "set (dg_seen ?g3) \<subseteq> set (dg_seen ?g2)"
    using compact_forgets_oldest(1)[OF assms(1) d]
    by (auto simp: is_duplicate_and_mark_def Let_def)
  with assms(3) d d3 have "map_of (dg_seen ?g2) k = Some t"
    by (auto simp: map_of_eq_Some_iff simp del: map_of_eq_Some_iff[symmetric])
  then show ?thesis
    using map_of_evict[OF inv, of now k t] by (auto simp: update_conv split: if_splits)
qed

text \<open>The guard never invents a mark: what it remembers of an id is its last mark.\<close>

lemma guard_run_sound:
  assumes "iteration_order ord" and "guard_inv g" and "dg_seen g = []"
  shows "map_of (dg_seen (guard_run ord g es)) k = Some t \<Longrightarrow> map_of (rev es) k = Some t"
proof (induction es arbitrary: t rule: rev_induct)
  case Nil
  then show ?case using assms(3) by (simp add: guard_run_def)
next
  case (snoc p es)
  obtain i now where p: "p = (i, now)" by (cases p)
  show ?case
    using mark_map_subset[OF assms(1) guard_run_inv[OF assms(1,2)], of es i now k t]
      snoc.IH snoc.prems
    by (auto simp: p guard_run_snoc)
qed

lemma guard_run_complete:
  assumes "iteration_order ord" and "guard_inv g" and "dg_seen g = []"
    and "sorted (map snd es)" and "\<forall>(i, t) \<in> set es. t \<le> now"
    and "\<forall>n < length es. card (live_ids (dg_ttl g) (take (Suc n) es) (snd (es ! n))) \<le> dg_cap g"
    and "map_of (rev es) k = Some t" and "duration_since now t \<le> dg_ttl g"
  shows "map_of (dg_seen (guard_run ord g es)) k = Some t"
  using assms(4-)
proof (induction es arbitrary: now k t rule: rev_induct)
  case Nil
  then show ?case by simp
next
  case (snoc p es)
  obtain i u where p: "p = (i, u)" by (cases p)
  let ?g = "guard_run ord g es"
  let ?g1 = "evict_old ?g u"
  let ?m2 = "AList.update i u (dg_seen ?g1)"
  have inv: "guard_inv ?g" by (rule guard_run_inv[OF assms(1,2)])
  have sorted: "sorted (map snd es)" and le: "\<forall>(i, t) \<in> set es. t \<le> u" and u: "u \<le> now"
    using snoc.prems(1,2) by (auto simp: sorted_append p)
  have caps: "\<forall>n < length es. card (live_ids (dg_ttl g) (take (Suc n) es) (snd (es ! n))) \<le> dg_cap g"
  proof (intro allI impI)
    fix n assume n: "n < length es"
    with snoc.prems(3)[rule_format, of n]
    show "card (live_ids (dg_ttl g) (take (Suc n) es) (snd (es ! n))) \<le> dg_cap g"
      by (simp add: nth_append)
  qed
  have g1: "map_of (dg_seen ?g1) j = Some v \<longleftrightarrow>
    map_of (rev es) j = Some v \<and> duration_since u v \<le> dg_ttl g" for j v
    using map_of_evict[OF inv, of u j v] snoc.IH[OF sorted le caps, of j v]
      guard_run_sound[OF assms(1-3), of es j v] by auto
  have m2: "map_of ?m2 j = Some v \<longleftrightarrow>
    map_of (rev (es @ [p])) j = Some v \<and> duration_since u v \<le> dg_ttl g" for j v
    using g1[of j v] by (auto simp: update_conv p)
  have "distinct (map fst ?m2)"
    using inv by (simp add: guard_inv_def evict_distinct distinct_update)
  then have "length ?m2 = card (dom (map_of ?m2))"
    by (metis distinct_card dom_map_of_conv_image_fst length_map set_map)
  also have "dom (map_of ?m2) = live_ids (dg_ttl g) (es @ [p]) u"
    using m2 by (auto simp: live_ids_def)
  also have "card \<dots> \<le> dg_cap g"
    using snoc.prems(3)[rule_format, of "length es"] by (simp add: p)
  finally have "dg_seen (guard_run ord g (es @ [p])) = ?m2"
    by (simp add: p guard_run_snoc is_duplicate_and_mark_def Let_def)
  moreover have "duration_since u t \<le> dg_ttl g"
    using snoc.prems(5) duration_since_mono[OF u, of t] by simp
  ultimately show ?case using m2[of k t] snoc.prems(4) by simp
qed

lemma card_live_ids: "card (live_ids ttl es now) \<le> length es"
proof -
  have "live_ids ttl es now \<subseteq> fst ` set es"
  proof
    fix i assume "i \<in> live_ids ttl es now"
    then obtain t where "map_of (rev es) i = Some t" by (auto simp: live_ids_def)
    then have "(i, t) \<in> set (rev es)" by (rule map_of_SomeD)
    then show "i \<in> fst ` set es" by force
  qed
  then have "card (live_ids ttl es now) \<le> card (fst ` set es)" by (simp add: card_mono)
  also have "\<dots> \<le> card (set es)" by (simp add: card_image_le)
  also have "\<dots> \<le> length es" by (rule card_length)
  finally show ?thesis .
qed

lemma guard_live:
  assumes "iteration_order ord" and "sorted (map snd es)" and "\<forall>(i, t) \<in> set es. t \<le> now"
    and "\<forall>n < length es. card (live_ids ttl (take (Suc n) es) (snd (es ! n))) \<le> max cap 64"
  shows "snd (is_duplicate_and_mark ord (guard_run ord (duplicate_guard_new ttl cap) es) i now)
    \<longleftrightarrow> i \<in> live_ids ttl es now"
proof -
  let ?g0 = "duplicate_guard_new ttl cap"
  have g0: "guard_inv ?g0" "dg_seen ?g0 = []" "dg_ttl ?g0 = ttl" "dg_cap ?g0 = max cap 64"
    using guard_new_inv by (simp_all add: duplicate_guard_new_def)
  have inv: "guard_inv (guard_run ord ?g0 es)" by (rule guard_run_inv[OF assms(1) g0(1)])
  let ?m = "map_of (dg_seen (guard_run ord ?g0 es))"
  have verdict: "snd (is_duplicate_and_mark ord (guard_run ord ?g0 es) i now) \<longleftrightarrow>
      (\<exists>t. ?m i = Some t \<and> duration_since now t \<le> ttl)"
    using mark_verdict[OF inv, of ord i now] unfolding guard_run_fields g0 .
  have sound: "map_of (rev es) i = Some t" if "?m i = Some t" for t
    using that by (rule guard_run_sound[OF assms(1) g0(1,2)])
  have complete: "?m i = Some t"
    if "map_of (rev es) i = Some t" "duration_since now t \<le> ttl" for t
    using guard_run_complete[OF assms(1) g0(1,2) assms(2,3)] assms(4) that
    unfolding g0 by blast
  show ?thesis
    unfolding verdict live_ids_def using sound complete by blast
qed

text \<open>C12: as long as no more than \<open>cap\<close> different messages are live in the window at any
  time, the guard calls a message a duplicate exactly when its last mark is at most the TTL
  ago, whatever the iteration order of the hash map.\<close>

theorem guard_exact:
  assumes "iteration_order ord" and "sorted (map snd es)" and "\<forall>(i, t) \<in> set es. t \<le> now"
    and "\<forall>n < length es. card (live_ids ttl (take (Suc n) es) (snd (es ! n))) \<le> max cap 64"
  shows "snd (is_duplicate_and_mark ord (guard_run ord (duplicate_guard_new ttl cap) es) i now)
    \<longleftrightarrow> i \<in> live_ids ttl es now"
  using assms by (rule guard_live)

theorem guard_exact_witness:
  "snd (is_duplicate_and_mark (\<lambda>m. m)
     (guard_run (\<lambda>m. m) (duplicate_guard_new 60 128) [(1, 0), (2, 5)]) 1 50) \<longleftrightarrow>
   1 \<in> live_ids 60 [(1, 0), (2, 5)] 50"
proof (rule guard_exact)
  show "iteration_order (\<lambda>m. m)" by (simp add: iteration_order_def)
  show "sorted (map snd [(1::nat, 0), (2, 5::nat)])" by simp
  show "\<forall>(i, t) \<in> set [(1::nat, 0), (2, 5)]. t \<le> (50::nat)" by simp
  show "\<forall>n < length [(1, 0), (2, 5)].
    card (live_ids 60 (take (Suc n) [(1, 0), (2, 5)]) (snd ([(1, 0), (2, 5)] ! n))) \<le> max 128 64"
  proof (intro allI impI)
    fix n
    have "card (live_ids 60 (take (Suc n) [(1, 0), (2, 5)]) u) \<le> 2" for u
      by (rule le_trans[OF card_live_ids]) (simp del: take_Suc_Cons)
    then show "card (live_ids 60 (take (Suc n) [(1, 0), (2, 5)]) (snd ([(1, 0), (2, 5)] ! n)))
        \<le> max 128 64"
      by (rule le_trans) simp
  qed
qed

end
