(* ===== verification/Rate_Limiter.thy ===== *)
theory Rate_Limiter
  imports Rust_F64
begin

text \<open>
  The outbound token bucket, \<^verbatim>\<open>src/security/rate_limiter.rs\<close>, with its binary64
  arithmetic.
\<close>

record token_bucket =
  tb_capacity :: rat
  tb_refill_per_sec :: rat
  tb_tokens :: rat
  tb_last_refill :: instant

text \<open>\<^verbatim>\<open>Duration::as_secs_f64\<close>.\<close>

definition as_secs_f64 :: "duration \<Rightarrow> rat" where
  "as_secs_f64 d =
     f64_round (f64_round (of_nat (d div 1000000000)) +
                f64_round (of_nat (d mod 1000000000) / 1000000000))"

definition token_bucket_new :: "nat \<Rightarrow> rat \<Rightarrow> instant \<Rightarrow> token_bucket" where
  "token_bucket_new capacity refill_per_sec now =
     (let cap = f64_round (of_nat (max capacity 1))
      in \<lparr>tb_capacity = cap, tb_refill_per_sec = max refill_per_sec (f64_round (1 / 10)),
          tb_tokens = cap, tb_last_refill = now\<rparr>)"

definition bucket_refill :: "token_bucket \<Rightarrow> instant \<Rightarrow> token_bucket" where
  "bucket_refill b now =
     (let elapsed = as_secs_f64 (duration_since now (tb_last_refill b))
      in if elapsed \<le> 0 then b
         else b\<lparr>tb_tokens := min (f64_round (tb_tokens b + f64_round (elapsed * tb_refill_per_sec b)))
                                (tb_capacity b),
                tb_last_refill := now\<rparr>)"

definition bucket_try_take :: "token_bucket \<Rightarrow> nat \<Rightarrow> instant \<Rightarrow> token_bucket \<times> bool" where
  "bucket_try_take b amount now =
     (let b1 = bucket_refill b now; needed = f64_round (of_nat (max amount 1))
      in if needed \<le> tb_tokens b1
         then (b1\<lparr>tb_tokens := f64_round (tb_tokens b1 - needed)\<rparr>, True)
         else (b1, False))"

section \<open>The invariant\<close>

definition bucket_inv :: "token_bucket \<Rightarrow> bool" where
  "bucket_inv b \<longleftrightarrow> 0 \<le> tb_tokens b \<and> tb_tokens b \<le> tb_capacity b \<and> 0 \<le> tb_refill_per_sec b \<and> tb_capacity b \<le> 2 ^ 32"

lemma as_secs_f64_nonneg [simp]: "0 \<le> as_secs_f64 d"
  by (simp add: as_secs_f64_def)

lemma f64_round_u32: "n \<le> u32_max \<Longrightarrow> f64_round (of_nat n) = of_nat n"
  by (rule f64_round_of_nat) (simp add: u32_max_def)

lemma max_u32: "n \<le> u32_max \<Longrightarrow> max n 1 \<le> u32_max"
  by (simp add: u32_max_def)

lemma bucket_new_inv:
  assumes "capacity \<le> u32_max"
  shows "bucket_inv (token_bucket_new capacity rate now)"
proof -
  have "(of_nat (max capacity 1) :: rat) \<le> of_nat (2 ^ 32)"
    using max_u32[OF assms] by (simp only: of_nat_le_iff) (simp add: u32_max_def)
  then show ?thesis
    using f64_round_u32[OF max_u32[OF assms]]
    by (simp add: bucket_inv_def token_bucket_new_def Let_def max.coboundedI2)
qed

lemma bucket_refill_inv [inv_intros]: "bucket_inv b \<Longrightarrow> bucket_inv (bucket_refill b now)"
  by (simp add: bucket_inv_def bucket_refill_def Let_def)

lemma bucket_refill_fields [simp]:
  "tb_capacity (bucket_refill b now) = tb_capacity b"
  "tb_refill_per_sec (bucket_refill b now) = tb_refill_per_sec b"
  by (simp_all add: bucket_refill_def Let_def)

section \<open>The rate bound\<close>

text \<open>The refill of one call, seconds and nanoseconds recombined in floating point, is
  within three roundings of the exact elapsed time.\<close>

definition exact_secs :: "duration \<Rightarrow> rat" where
  "exact_secs d = of_nat d / 1000000000"

definition drift :: rat where
  "drift = (1 + f64_unit) ^ 4"

lemma one_le_drift: "1 \<le> drift"
  by (simp add: drift_def)

lemma exact_secs_nonneg [simp]: "0 \<le> exact_secs d"
  by (simp add: exact_secs_def)

lemma exact_secs_split:
  "exact_secs d = of_nat (d div 1000000000) + of_nat (d mod 1000000000) / 1000000000"
proof -
  have "of_nat d = (of_nat (d div 1000000000 * 1000000000 + d mod 1000000000) :: rat)"
    by (simp only: div_mult_mod_eq)
  also have "\<dots> = of_nat (d div 1000000000) * 1000000000 + of_nat (d mod 1000000000)"
    by (simp only: of_nat_add of_nat_mult of_nat_numeral)
  finally show ?thesis by (simp add: exact_secs_def add_divide_distrib)
qed

lemma as_secs_f64_upper: "as_secs_f64 d \<le> exact_secs d * (1 + f64_unit) ^ 2"
proof -
  let ?s = "of_nat (d div 1000000000) :: rat"
  let ?n = "of_nat (d mod 1000000000) / 1000000000 :: rat"
  have "f64_round ?s + f64_round ?n \<le> ?s * (1 + f64_unit) + ?n * (1 + f64_unit)"
    by (intro add_mono f64_round_upper) simp_all
  also have "\<dots> = exact_secs d * (1 + f64_unit)"
    by (simp only: exact_secs_split distrib_right)
  finally have sum: "f64_round ?s + f64_round ?n \<le> exact_secs d * (1 + f64_unit)" .
  have "as_secs_f64 d \<le> (f64_round ?s + f64_round ?n) * (1 + f64_unit)"
    unfolding as_secs_f64_def by (intro f64_round_upper add_nonneg_nonneg) simp_all
  also have "\<dots> \<le> exact_secs d * (1 + f64_unit) * (1 + f64_unit)"
    using sum by (rule mult_right_mono) (simp add: add_nonneg_nonneg)
  finally show ?thesis by (simp add: power2_eq_square mult.assoc)
qed

lemma refill_gain:
  assumes "0 \<le> rate"
  shows "f64_round (as_secs_f64 d * rate) \<le> exact_secs d * rate * (1 + f64_unit) ^ 3"
proof -
  have "f64_round (as_secs_f64 d * rate) \<le> as_secs_f64 d * rate * (1 + f64_unit)"
    using assms by (intro f64_round_upper) simp
  also have "\<dots> \<le> exact_secs d * (1 + f64_unit) ^ 2 * rate * (1 + f64_unit)"
    using assms as_secs_f64_upper by (intro mult_right_mono) (auto simp: add_nonneg_nonneg)
  finally show ?thesis by (simp add: power3_eq_cube power2_eq_square mult_ac)
qed

lemma bucket_refill_bound:
  assumes "bucket_inv b"
  shows "tb_tokens (bucket_refill b now) \<le>
    tb_tokens b + exact_secs (duration_since now (tb_last_refill b)) * tb_refill_per_sec b * drift
      + tb_capacity b * f64_unit"
proof -
  let ?d = "duration_since now (tb_last_refill b)"
  let ?r = "tb_refill_per_sec b" and ?t = "tb_tokens b"
  let ?g = "f64_round (as_secs_f64 ?d * ?r)"
  have inv: "0 \<le> ?t" "?t \<le> tb_capacity b" "0 \<le> ?r" using assms by (auto simp: bucket_inv_def)
  have pos: "0 \<le> exact_secs ?d * ?r * drift" "0 \<le> tb_capacity b * f64_unit"
    using inv one_le_drift by (auto intro!: mult_nonneg_nonneg)
  have "f64_round (?t + ?g) \<le> (?t + ?g) * (1 + f64_unit)"
    using inv by (intro f64_round_upper) simp
  also have "\<dots> = ?t + ?t * f64_unit + ?g * (1 + f64_unit)"
    by (simp add: algebra_simps)
  also have "\<dots> \<le> ?t + tb_capacity b * f64_unit
      + exact_secs ?d * ?r * (1 + f64_unit) ^ 3 * (1 + f64_unit)"
    using inv refill_gain[OF inv(3)]
    by (intro add_mono order_refl mult_right_mono) (auto simp: add_nonneg_nonneg)
  also have "exact_secs ?d * ?r * (1 + f64_unit) ^ 3 * (1 + f64_unit) = exact_secs ?d * ?r * drift"
    by (simp add: drift_def power3_eq_cube eval_nat_numeral mult_ac)
  finally have sum: "f64_round (?t + ?g) \<le>
    ?t + exact_secs ?d * ?r * drift + tb_capacity b * f64_unit" by simp
  show ?thesis
  proof (cases "as_secs_f64 ?d \<le> 0")
    case True
    then show ?thesis using pos by (simp add: bucket_refill_def Let_def)
  next
    case False
    have "tb_tokens (bucket_refill b now) \<le> f64_round (?t + ?g)"
      using False by (simp add: bucket_refill_def Let_def)
    with sum show ?thesis by simp
  qed
qed

lemma bucket_take_cases:
  assumes "bucket_inv b" and "amount \<le> u32_max"
  shows "bucket_inv (fst (bucket_try_take b amount now)) \<and>
    tb_tokens (fst (bucket_try_take b amount now)) +
      (if snd (bucket_try_take b amount now) then of_nat (max amount 1) else 0) \<le>
    tb_tokens (bucket_refill b now) + tb_capacity b * f64_unit"
proof -
  let ?b1 = "bucket_refill b now" and ?n = "of_nat (max amount 1) :: rat"
  have inv: "bucket_inv ?b1" using assms(1) by (rule bucket_refill_inv)
  have n: "f64_round ?n = ?n" using assms(2) by (intro f64_round_u32 max_u32)
  have one: "1 \<le> ?n" by simp
  have cap: "0 \<le> tb_capacity b * f64_unit" "tb_capacity b * f64_unit \<le> 1"
  proof -
    have "tb_capacity b * f64_unit \<le> 2 ^ 32 * f64_unit"
      using assms(1) by (intro mult_right_mono) (auto simp: bucket_inv_def)
    also have "\<dots> \<le> 1" by (simp add: f64_unit_def)
    finally show "tb_capacity b * f64_unit \<le> 1" .
    show "0 \<le> tb_capacity b * f64_unit" using assms(1) by (auto simp: bucket_inv_def)
  qed
  show ?thesis
  proof (cases "?n \<le> tb_tokens ?b1")
    case False
    with inv cap show ?thesis
      by (simp add: bucket_try_take_def Let_def n del: One_nat_def)
  next
    case True
    let ?rest = "tb_tokens ?b1 - ?n"
    have "f64_round ?rest \<le> ?rest * (1 + f64_unit)"
      using True by (intro f64_round_upper) simp
    also have "\<dots> = ?rest + ?rest * f64_unit" by (simp add: algebra_simps)
    also have "?rest * f64_unit \<le> tb_capacity b * f64_unit"
      using inv one by (intro mult_right_mono) (auto simp: bucket_inv_def)
    finally have rest: "f64_round ?rest \<le> ?rest + tb_capacity b * f64_unit" by simp
    then have "f64_round ?rest \<le> tb_capacity b"
      using inv one cap(2) unfolding bucket_inv_def bucket_refill_fields by linarith
    with inv True rest show ?thesis
      by (simp add: bucket_try_take_def Let_def n bucket_inv_def del: One_nat_def)
  qed
qed

lemma bucket_take_inv [inv_intros]:
  "bucket_inv b \<Longrightarrow> amount \<le> u32_max \<Longrightarrow> bucket_inv (fst (bucket_try_take b amount now))"
  using bucket_take_cases by blast

lemma bucket_take_fields [simp]:
  "tb_capacity (fst (bucket_try_take b amount now)) = tb_capacity b"
  "tb_refill_per_sec (fst (bucket_try_take b amount now)) = tb_refill_per_sec b"
  "tb_last_refill (fst (bucket_try_take b amount now)) = tb_last_refill (bucket_refill b now)"
  by (simp_all add: bucket_try_take_def Let_def)

text \<open>The time of the last refill advances by exactly the duration that was credited.\<close>

lemma as_secs_f64_zero_iff: "as_secs_f64 d \<le> 0 \<longleftrightarrow> d = 0"
proof
  assume le: "as_secs_f64 d \<le> 0"
  show "d = 0"
  proof (rule ccontr)
    assume "d \<noteq> 0"
    then have "0 < d div 1000000000 \<or> 0 < d mod 1000000000"
      by (metis div_mult_mod_eq add_cancel_right_left gr0I mult_0 neq0_conv)
    then have "0 < f64_round (of_nat (d div 1000000000)) \<or>
      0 < f64_round (of_nat (d mod 1000000000) / 1000000000)"
      by (auto intro: f64_round_pos simp del: of_nat_0_less_iff simp: zero_less_divide_iff)
    then have "0 < f64_round (of_nat (d div 1000000000)) +
      f64_round (of_nat (d mod 1000000000) / 1000000000)"
      by (auto intro: add_pos_nonneg add_nonneg_pos)
    then have "0 < as_secs_f64 d" unfolding as_secs_f64_def by (rule f64_round_pos)
    with le show False by simp
  qed
qed (simp add: as_secs_f64_def)

lemma last_refill_credit:
  "tb_last_refill b \<le> tb_last_refill (bucket_refill b now) \<and>
   tb_last_refill (bucket_refill b now) - tb_last_refill b = duration_since now (tb_last_refill b) \<and>
   tb_last_refill (bucket_refill b now) \<le> max (tb_last_refill b) now"
  by (simp add: bucket_refill_def Let_def as_secs_f64_zero_iff duration_since_def)

definition granted :: "nat \<Rightarrow> bool \<Rightarrow> nat" where
  "granted amount ok = (if ok then max amount 1 else 0)"

lemma bucket_take_bound:
  fixes b :: token_bucket and now :: instant and amount :: nat
  assumes "bucket_inv b" and "amount \<le> u32_max"
  defines "b' \<equiv> fst (bucket_try_take b amount now)"
  shows "tb_tokens b' + of_nat (granted amount (snd (bucket_try_take b amount now))) \<le>
    tb_tokens b + exact_secs (tb_last_refill b' - tb_last_refill b) * tb_refill_per_sec b * drift
      + 2 * tb_capacity b * f64_unit"
  using bucket_take_cases[OF assms(1,2), of now] bucket_refill_bound[OF assms(1), of now]
    last_refill_credit[of b now]
  by (simp add: b'_def granted_def split: if_splits)

text \<open>A sequence of calls, with the tokens they were granted.\<close>

fun bucket_run :: "token_bucket \<Rightarrow> (nat \<times> instant) list \<Rightarrow> token_bucket \<times> nat" where
  "bucket_run b [] = (b, 0)"
| "bucket_run b ((amount, now) # calls) =
     (let (b1, ok) = bucket_try_take b amount now; (b2, n) = bucket_run b1 calls
      in (b2, granted amount ok + n))"

lemma bucket_run_bound:
  assumes "bucket_inv b" and "\<forall>(amount, t) \<in> set calls. amount \<le> u32_max \<and> t \<le> T"
    and "tb_last_refill b \<le> T"
  shows "of_nat (snd (bucket_run b calls)) \<le>
    tb_tokens b + exact_secs (T - tb_last_refill b) * tb_refill_per_sec b * drift
      + of_nat (length calls) * (2 * tb_capacity b * f64_unit)"
  using assms
proof (induction calls arbitrary: b)
  case Nil
  then show ?case
    using one_le_drift by (auto simp: bucket_inv_def intro!: add_nonneg_nonneg mult_nonneg_nonneg)
next
  case (Cons call calls)
  obtain amount t where call: "call = (amount, t)" by (cases call)
  let ?b' = "fst (bucket_try_take b amount t)" and ?ok = "snd (bucket_try_take b amount t)"
  have am: "amount \<le> u32_max" and t: "t \<le> T"
    and rest: "\<forall>(amount, t) \<in> set calls. amount \<le> u32_max \<and> t \<le> T"
    using Cons.prems(2) by (auto simp: call)
  have inv': "bucket_inv ?b'" using Cons.prems(1) am by (rule bucket_take_inv)
  have last: "tb_last_refill b \<le> tb_last_refill ?b'" "tb_last_refill ?b' \<le> T"
    using last_refill_credit[of b t] t Cons.prems(3) by (auto simp del: max.bounded_iff)
  have IH: "of_nat (snd (bucket_run ?b' calls)) \<le>
    tb_tokens ?b' + exact_secs (T - tb_last_refill ?b') * tb_refill_per_sec b * drift
      + of_nat (length calls) * (2 * tb_capacity b * f64_unit)"
    using Cons.IH[OF inv' rest last(2)] by simp
  have split: "exact_secs (T - tb_last_refill b) =
    exact_secs (tb_last_refill ?b' - tb_last_refill b) + exact_secs (T - tb_last_refill ?b')"
    using last by (simp add: exact_secs_def add_divide_distrib[symmetric] flip: of_nat_add)
  have "of_nat (snd (bucket_run b (call # calls))) =
    (of_nat (granted amount ?ok) :: rat) + of_nat (snd (bucket_run ?b' calls))"
    by (simp add: call split_beta Let_def)
  also have "\<dots> \<le> tb_tokens b
      + exact_secs (T - tb_last_refill b) * tb_refill_per_sec b * drift
      + of_nat (length (call # calls)) * (2 * tb_capacity b * f64_unit)"
    using bucket_take_bound[OF Cons.prems(1) am, of t] IH by (simp add: split algebra_simps)
  finally show ?case .
qed

text \<open>However the calls are spaced, a fresh bucket hands out at most its capacity plus
  the configured rate times the elapsed time, up to the rounding of binary64: a relative
  drift of less than five units in the last place on the rate and two on the capacity for
  each call.\<close>

theorem bucket_rate_bound:
  assumes "capacity \<le> u32_max" and "t0 \<le> T"
    and "\<forall>(amount, t) \<in> set calls. amount \<le> u32_max \<and> t \<le> T"
  shows "of_nat (snd (bucket_run (token_bucket_new capacity rate t0) calls)) \<le>
    of_nat (max capacity 1)
      + exact_secs (T - t0) * max rate (f64_round (1 / 10)) * drift
      + of_nat (length calls) * (2 * of_nat (max capacity 1) * f64_unit)"
  using bucket_run_bound[OF bucket_new_inv[OF assms(1)] assms(3), of rate t0] assms(2)
    f64_round_u32[OF max_u32[OF assms(1)]]
  by (simp add: token_bucket_new_def Let_def)

theorem bucket_rate_bound_witness:
  "of_nat (snd (bucket_run (token_bucket_new 2 1 0) [(1, 0), (1, 0), (1, 0)])) \<le>
    of_nat (max 2 1) + exact_secs (0 - 0) * max 1 (f64_round (1 / 10)) * drift
      + of_nat (length [(1, 0), (1, 0), (1::nat, 0::nat)]) * (2 * of_nat (max 2 1) * f64_unit)"
  by (rule bucket_rate_bound) (simp_all add: u32_max_def)

end
