(* ===== verification/Runtime_Mode.thy ===== *)
theory Runtime_Mode
  imports Prelude
begin

text \<open>
  The runtime mode and its state, \<^verbatim>\<open>src/security/mode.rs\<close>.
\<close>

datatype runtime_mode = Normal | ObserveOnly | ReactOnly | AuditOnly | FullDisable

datatype mode_trigger =
    OperatorOverride
  | EmergencyKillSwitch
  | InvalidToken
  | CircuitBreakerOpen
  | SandboxFailureSpike
  | SessionBudgetLow
  | Recovery

record mode_state =
  ms_mode :: runtime_mode
  ms_changed_at :: instant
  ms_last_trigger :: mode_trigger

definition mode_state_new :: "instant \<Rightarrow> mode_state" where
  "mode_state_new now = \<lparr>ms_mode = Normal, ms_changed_at = now, ms_last_trigger = Recovery\<rparr>"

text \<open>The new state and whether the mode changed.\<close>

definition mode_transition ::
  "mode_state \<Rightarrow> runtime_mode \<Rightarrow> mode_trigger \<Rightarrow> instant \<Rightarrow> mode_state \<times> bool" where
  "mode_transition s mode trigger now =
     (if ms_mode s = mode then (s, False)
      else (s\<lparr>ms_mode := mode, ms_last_trigger := trigger, ms_changed_at := now\<rparr>, True))"

instantiation runtime_mode :: enum
begin
definition enum_runtime_mode :: "runtime_mode list" where
  "enum_runtime_mode = [Normal, ObserveOnly, ReactOnly, AuditOnly, FullDisable]"
definition enum_all_runtime_mode :: "(runtime_mode \<Rightarrow> bool) \<Rightarrow> bool" where
  "enum_all_runtime_mode P \<longleftrightarrow>
     P Normal \<and> P ObserveOnly \<and> P ReactOnly \<and> P AuditOnly \<and> P FullDisable"
definition enum_ex_runtime_mode :: "(runtime_mode \<Rightarrow> bool) \<Rightarrow> bool" where
  "enum_ex_runtime_mode P \<longleftrightarrow>
     P Normal \<or> P ObserveOnly \<or> P ReactOnly \<or> P AuditOnly \<or> P FullDisable"
instance
proof
  show "(UNIV :: runtime_mode set) = set enum_class.enum"
    by (auto simp: enum_runtime_mode_def) (metis runtime_mode.exhaust)
  show "distinct (enum_class.enum :: runtime_mode list)"
    by (simp add: enum_runtime_mode_def)
  show "enum_class.enum_all P \<longleftrightarrow> Ball UNIV P" for P :: "runtime_mode \<Rightarrow> bool"
    by (auto simp: enum_all_runtime_mode_def) (metis runtime_mode.exhaust)
  show "enum_class.enum_ex P \<longleftrightarrow> Bex UNIV P" for P :: "runtime_mode \<Rightarrow> bool"
    by (auto simp: enum_ex_runtime_mode_def) (metis runtime_mode.exhaust)
qed
end

text \<open>The modes in which nothing is sent.\<close>

definition blocks_outbound :: "runtime_mode \<Rightarrow> bool" where
  "blocks_outbound m \<longleftrightarrow> m = ObserveOnly \<or> m = AuditOnly \<or> m = FullDisable"

lemma mode_transition_mode [simp]:
  "ms_mode (fst (mode_transition s m tr now)) = m"
  by (simp add: mode_transition_def)

lemma mode_transition_changed:
  "snd (mode_transition s m tr now) \<longleftrightarrow> ms_mode s \<noteq> m"
  by (simp add: mode_transition_def)

lemma mode_transition_trigger:
  "ms_mode s \<noteq> m \<Longrightarrow> ms_last_trigger (fst (mode_transition s m tr now)) = tr"
  by (simp add: mode_transition_def)

end
