(* ===== verification/Session_Budget.thy ===== *)
theory Session_Budget
  imports Prelude
begin

text \<open>
  The gateway session budget, \<^verbatim>\<open>src/security/session_budget.rs\<close>.
\<close>

record session_budget =
  sb_total :: nat
  sb_remaining :: nat
  sb_reset_after_secs :: nat
  sb_low_watermark :: nat

definition session_budget_new :: "nat \<Rightarrow> nat \<Rightarrow> nat \<Rightarrow> nat \<Rightarrow> session_budget" where
  "session_budget_new tot remaining reset_after_secs low_watermark =
     \<lparr>sb_total = tot, sb_remaining = remaining, sb_reset_after_secs = reset_after_secs,
      sb_low_watermark = max low_watermark 1\<rparr>"

definition consume_identify :: "session_budget \<Rightarrow> session_budget" where
  "consume_identify b = b\<lparr>sb_remaining := sb_remaining b - 1\<rparr>"

definition budget_is_low :: "session_budget \<Rightarrow> bool" where
  "budget_is_low b \<longleftrightarrow> sb_remaining b \<le> sb_low_watermark b"

lemma consume_keeps_low: "budget_is_low b \<Longrightarrow> budget_is_low (consume_identify b)"
  by (simp add: budget_is_low_def consume_identify_def)

lemma consume_funpow:
  "(consume_identify ^^ n) b = b\<lparr>sb_remaining := sb_remaining b - n\<rparr>"
  by (induction n) (simp_all add: consume_identify_def)

text \<open>Enough consumption always makes a budget low: the watermark is at least one.\<close>

lemma consume_until_low:
  "sb_remaining b - sb_low_watermark b \<le> n \<Longrightarrow> budget_is_low ((consume_identify ^^ n) b)"
  by (simp add: consume_funpow budget_is_low_def)

end
