(* ===== verification/Suspicious_Input.thy ===== *)
theory Suspicious_Input
  imports Prelude
begin

text \<open>
  Classification of suspicious input, \<^verbatim>\<open>src/security/suspicious_input.rs\<close>.  NFKC
  normalisation is the \<^verbatim>\<open>unicode-normalization\<close> crate's: the parameter \<open>nfkc\<close>.
\<close>

datatype suspicion_level = SuspicionNone | SuspicionSoft | SuspicionHard

instantiation suspicion_level :: linorder
begin
fun suspicion_rank :: "suspicion_level \<Rightarrow> nat" where
  "suspicion_rank SuspicionNone = 0"
| "suspicion_rank SuspicionSoft = 1"
| "suspicion_rank SuspicionHard = 2"
definition less_eq_suspicion_level :: "suspicion_level \<Rightarrow> suspicion_level \<Rightarrow> bool" where
  "less_eq_suspicion_level a b \<longleftrightarrow> suspicion_rank a \<le> suspicion_rank b"
definition less_suspicion_level :: "suspicion_level \<Rightarrow> suspicion_level \<Rightarrow> bool" where
  "less_suspicion_level a b \<longleftrightarrow> suspicion_rank a < suspicion_rank b"
instance
proof
  fix a b c :: suspicion_level
  show "a < b \<longleftrightarrow> a \<le> b \<and> \<not> b \<le> a"
    by (auto simp: less_eq_suspicion_level_def less_suspicion_level_def)
  show "a \<le> a" by (simp add: less_eq_suspicion_level_def)
  show "a \<le> b \<Longrightarrow> b \<le> c \<Longrightarrow> a \<le> c" by (simp add: less_eq_suspicion_level_def)
  show "a \<le> b \<Longrightarrow> b \<le> a \<Longrightarrow> a = b"
    by (cases a; cases b) (simp_all add: less_eq_suspicion_level_def)
  show "a \<le> b \<or> b \<le> a" by (auto simp: less_eq_suspicion_level_def)
qed
end

record suspicious_config =
  sc_soft_char_limit :: nat
  sc_hard_char_limit :: nat
  sc_repetition_threshold :: nat

definition default_suspicious_config :: suspicious_config where
  "default_suspicious_config =
     \<lparr>sc_soft_char_limit = 2000, sc_hard_char_limit = 8000, sc_repetition_threshold = 256\<rparr>"

definition is_bidi_control :: "rchar \<Rightarrow> bool" where
  "is_bidi_control ch \<longleftrightarrow> (0x202A \<le> ch \<and> ch \<le> 0x202E) \<or> (0x2066 \<le> ch \<and> ch \<le> 0x2069)"

definition has_bidi_control :: "rstr \<Rightarrow> bool" where
  "has_bidi_control s \<longleftrightarrow> list_ex is_bidi_control s"

text \<open>The loop of \<open>has_excessive_repetition\<close>: \<open>prev\<close> and \<open>streak\<close> are its variables.\<close>

fun repetition_loop :: "nat \<Rightarrow> rchar option \<Rightarrow> nat \<Rightarrow> rstr \<Rightarrow> bool" where
  "repetition_loop threshold prev streak [] = False"
| "repetition_loop threshold prev streak (ch # s) =
     (if Some ch = prev
      then if threshold \<le> streak + 1 then True
           else repetition_loop threshold prev (streak + 1) s
      else repetition_loop threshold (Some ch) 1 s)"

definition has_excessive_repetition :: "rstr \<Rightarrow> nat \<Rightarrow> bool" where
  "has_excessive_repetition s threshold = repetition_loop threshold None 0 s"

definition classify_suspicious_input ::
  "(rstr \<Rightarrow> rstr) \<Rightarrow> rstr \<Rightarrow> suspicious_config \<Rightarrow> suspicion_level" where
  "classify_suspicious_input nfkc content cfg =
     (let char_count = length content
      in if sc_hard_char_limit cfg \<le> char_count then SuspicionHard
         else if sc_soft_char_limit cfg \<le> char_count then SuspicionSoft
         else if has_bidi_control content \<or>
                 has_excessive_repetition content (sc_repetition_threshold cfg)
              then SuspicionSoft
         else if sat_mul char_count 2 < length (nfkc content) then SuspicionSoft
         else SuspicionNone)"

section \<open>The repetition loop finds exactly the long runs\<close>

lemma sublist_replicate_Cons_neq:
  "0 < n \<Longrightarrow> c \<noteq> d \<Longrightarrow> sublist (replicate n c) (d # s) \<longleftrightarrow> sublist (replicate n c) s"
  by (cases n) (auto simp: sublist_Cons_right)

lemma prefix_replicate_mono:
  assumes "m \<le> n" and "prefix (replicate n c) s"
  shows "prefix (replicate m c) s"
proof -
  obtain t where "s = replicate n c @ t" using assms(2) by (auto simp: prefix_def)
  moreover have "replicate n c = replicate m c @ replicate (n - m) c"
    using assms(1) by (simp flip: replicate_add)
  ultimately show ?thesis by (simp add: prefix_def)
qed

lemma prefix_imp_sublist_replicate:
  "m \<le> n \<Longrightarrow> prefix (replicate n c) s \<Longrightarrow> sublist (replicate m c) s"
  by (rule prefix_imp_sublist[OF prefix_replicate_mono])

text \<open>Inside a run of \<open>streak\<close> characters \<open>p\<close>, the loop succeeds when the rest completes
  this run or holds a full run of its own.\<close>

lemma repetition_loop_run:
  assumes "0 < streak" and "streak < max k 2"
  shows "repetition_loop k (Some p) streak s \<longleftrightarrow>
    prefix (replicate (max k 2 - streak) p) s \<or> (\<exists>c. sublist (replicate (max k 2) c) s)"
  using assms
proof (induction s arbitrary: p streak)
  case Nil
  then show ?case by auto
next
  case (Cons ch s)
  let ?k = "max k 2"
  show ?case
  proof (cases "ch = p")
    case True
    obtain m where m: "?k - streak = Suc m" using Cons.prems(2) by (metis Suc_diff_Suc)
    show ?thesis
    proof (cases "k \<le> streak + 1")
      case fin: True
      then have "m = 0" using m Cons.prems by auto
      with fin True m show ?thesis by simp
    next
      case go: False
      then have lt: "streak + 1 < ?k" by simp
      have m': "?k - (streak + 1) = m" using m by simp
      have sub: "sublist (replicate ?k c) (p # s) \<longleftrightarrow>
          sublist (replicate ?k c) s \<or> (c = p \<and> prefix (replicate (?k - 1) p) s)" for c
        by (cases ?k) (auto simp: sublist_Cons_right)
      have pre: "prefix (replicate (?k - 1) p) s \<Longrightarrow> prefix (replicate m p) s"
        using prefix_replicate_mono[of m "?k - 1" p s] m Cons.prems(1) by linarith
      have "repetition_loop k (Some p) streak (ch # s) \<longleftrightarrow>
          prefix (replicate m p) s \<or> (\<exists>c. sublist (replicate ?k c) s)"
        using Cons.IH[of "streak + 1" p] lt go True m' by simp
      then show ?thesis using True m sub pre by auto
    qed
  next
    case False
    have one: "(1::nat) < ?k" by simp
    obtain j where j: "?k = Suc (Suc j)" by (metis add_2_eq_Suc le_Suc_ex max.cobounded2)
    have sub: "(\<exists>c. sublist (replicate ?k c) (ch # s)) \<longleftrightarrow>
        prefix (replicate (?k - 1) ch) s \<or> (\<exists>c. sublist (replicate ?k c) s)"
      by (auto simp: j sublist_Cons_right)
    have "\<not> prefix (replicate (?k - streak) p) (ch # s)"
      using False Cons.prems(2) by (cases "?k - streak") auto
    then show ?thesis
      using Cons.IH[OF _ one, of ch] False sub by simp
  qed
qed

lemma repetition_loop_start:
  "repetition_loop k None 0 s \<longleftrightarrow> (\<exists>c. sublist (replicate (max k 2) c) s)"
proof (cases s)
  case Nil
  then show ?thesis by auto
next
  case (Cons ch t)
  obtain j where j: "max k 2 = Suc (Suc j)" by (metis add_2_eq_Suc le_Suc_ex max.cobounded2)
  then have "1 < max k 2" by simp
  then show ?thesis
    using repetition_loop_run[of 1 k ch t] by (auto simp: Cons j sublist_Cons_right)
qed

text \<open>The one-pass detector reports exactly the strings that contain a run of equal
  characters of the configured length.  A threshold of 0 or 1 acts as 2, because the streak
  is compared only after a repeated character.\<close>

theorem has_excessive_repetition_iff:
  "has_excessive_repetition s threshold \<longleftrightarrow>
   (\<exists>c. sublist (replicate (max threshold 2) c) s)"
  by (simp add: has_excessive_repetition_def repetition_loop_start)

text \<open>The thresholds order the verdicts: stricter limits never lower the level.\<close>

lemma has_excessive_repetition_antimono:
  assumes "k \<le> k'" and "has_excessive_repetition s k'"
  shows "has_excessive_repetition s k"
proof -
  obtain c where "sublist (replicate (max k' 2) c) s"
    using assms(2) by (auto simp: repetition_loop_start has_excessive_repetition_def)
  moreover have "sublist (replicate (max k 2) c) (replicate (max k' 2) c)"
    using assms(1) by (intro prefix_imp_sublist_replicate[of _ "max k' 2"]) auto
  ultimately show ?thesis
    unfolding repetition_loop_start has_excessive_repetition_def
    by (meson sublist_order.order_trans)
qed

lemma classify_monotone:
  assumes "sc_soft_char_limit cfg \<le> sc_soft_char_limit cfg'"
    and "sc_hard_char_limit cfg \<le> sc_hard_char_limit cfg'"
    and "sc_repetition_threshold cfg \<le> sc_repetition_threshold cfg'"
  shows "classify_suspicious_input nfkc s cfg' \<le> classify_suspicious_input nfkc s cfg"
  using assms has_excessive_repetition_antimono[OF assms(3), of s]
  by (auto simp: classify_suspicious_input_def Let_def less_eq_suspicion_level_def)

lemma classify_hard_iff:
  "classify_suspicious_input nfkc s cfg = SuspicionHard \<longleftrightarrow> sc_hard_char_limit cfg \<le> length s"
  by (simp add: classify_suspicious_input_def Let_def)

end
