(* ===== verification/Sandbox_Abi.thy ===== *)
theory Sandbox_Abi
  imports Prelude
begin

text \<open>
  The wire format between the trusted host and the sandboxed guest,
  \<^verbatim>\<open>src/sandbox/abi.rs\<close>: a proposal is one \<^verbatim>\<open>i64\<close>, its kind in the upper and its
  auxiliary value in the lower 32 bits.  The integers keep their width here.
\<close>

unbundle bit_operations_syntax

section \<open>Data\<close>

definition SANDBOX_ABI_VERSION :: "32 word" where
  "SANDBOX_ABI_VERSION = 1"

datatype proposal_kind =
  KNoop | KReactOnce | KSendStamped | KSpecialPhrase | KSuspiciousInput | KDefer | KReject

fun kind_u32 :: "proposal_kind \<Rightarrow> 32 word" where
  "kind_u32 KNoop = 0"
| "kind_u32 KReactOnce = 1"
| "kind_u32 KSendStamped = 2"
| "kind_u32 KSpecialPhrase = 3"
| "kind_u32 KSuspiciousInput = 4"
| "kind_u32 KDefer = 5"
| "kind_u32 KReject = 6"

datatype reject_reason_code =
  InvalidAbi | InvalidProposal | SandboxTrap | RejectTimeout | RejectResourceLimit

fun reason_u32 :: "reject_reason_code \<Rightarrow> 32 word" where
  "reason_u32 InvalidAbi = 1"
| "reason_u32 InvalidProposal = 2"
| "reason_u32 SandboxTrap = 3"
| "reason_u32 RejectTimeout = 4"
| "reason_u32 RejectResourceLimit = 5"

datatype action_proposal =
  ProposeNoop | ReactOnce | SendStamped "8 word" | SpecialPhrase | ProposeSuspicious | Defer
| Reject reject_reason_code

section \<open>The wire\<close>

text \<open>The \<^verbatim>\<open>as\<close> conversions between unsigned widths.\<close>

abbreviation u8_as_u32 :: "8 word \<Rightarrow> 32 word" where "u8_as_u32 \<equiv> ucast"
abbreviation u32_as_u8 :: "32 word \<Rightarrow> 8 word" where "u32_as_u8 \<equiv> ucast"
abbreviation u32_as_i64 :: "32 word \<Rightarrow> 64 word" where "u32_as_i64 \<equiv> ucast"
abbreviation i64_as_u32 :: "64 word \<Rightarrow> 32 word" where "i64_as_u32 \<equiv> ucast"

definition encode_wire :: "action_proposal \<Rightarrow> 64 word" where
  "encode_wire p =
     (let (kind, aux) = (case p of
            ProposeNoop \<Rightarrow> (kind_u32 KNoop, 0)
          | ReactOnce \<Rightarrow> (kind_u32 KReactOnce, 1)
          | SendStamped count \<Rightarrow> (kind_u32 KSendStamped, u8_as_u32 count)
          | SpecialPhrase \<Rightarrow> (kind_u32 KSpecialPhrase, 1)
          | ProposeSuspicious \<Rightarrow> (kind_u32 KSuspiciousInput, 0)
          | Defer \<Rightarrow> (kind_u32 KDefer, 0)
          | Reject reason \<Rightarrow> (kind_u32 KReject, reason_u32 reason))
      in push_bit 32 (u32_as_i64 kind) OR u32_as_i64 aux)"

definition wire_kind :: "64 word \<Rightarrow> 32 word" where
  "wire_kind value = i64_as_u32 (signed_drop_bit 32 value AND 0xFFFFFFFF)"

definition wire_aux :: "64 word \<Rightarrow> 32 word" where
  "wire_aux value = i64_as_u32 (value AND 0xFFFFFFFF)"

definition reason_of_aux :: "32 word \<Rightarrow> reject_reason_code" where
  "reason_of_aux aux =
     (if aux = 1 then InvalidAbi else if aux = 2 then InvalidProposal
      else if aux = 3 then SandboxTrap else if aux = 4 then RejectTimeout
      else if aux = 5 then RejectResourceLimit else InvalidProposal)"

definition decode_wire :: "64 word \<Rightarrow> reject_reason_code + action_proposal" where
  "decode_wire value =
     (let kind = wire_kind value; aux = wire_aux value
      in if kind = kind_u32 KNoop then Inr ProposeNoop
         else if kind = kind_u32 KReactOnce then Inr ReactOnce
         else if kind = kind_u32 KSendStamped
              then Inr (SendStamped (u32_as_u8 (max 1 (min aux 255))))
         else if kind = kind_u32 KSpecialPhrase then Inr SpecialPhrase
         else if kind = kind_u32 KSuspiciousInput then Inr ProposeSuspicious
         else if kind = kind_u32 KDefer then Inr Defer
         else if kind = kind_u32 KReject then Inr (Reject (reason_of_aux aux))
         else Inl InvalidProposal)"

section \<open>Requests and errors of an analyzer\<close>

record analyzer_request =
  req_content :: rstr
  req_kanji_count :: nat
  req_special_phrase_hit :: bool

datatype analyzer_error =
  AbiMismatch "32 word" "32 word" | Trap rstr | ResourceLimit rstr | AnalyzerTimeout
| InvalidWire "64 word"

section \<open>Round trip\<close>

lemma wire_fields:
  fixes kind aux :: "32 word"
  defines "v \<equiv> push_bit 32 (u32_as_i64 kind) OR u32_as_i64 aux"
  shows "wire_kind v = kind" and "wire_aux v = aux"
proof -
  have ff: "(0xFFFFFFFF :: 64 word) = mask 32" by (simp add: mask_eq_exp_minus_1)
  show "wire_kind v = kind"
    by (rule bit_word_eqI)
      (auto simp: wire_kind_def v_def ff bit_simps dest: bit_imp_le_length)
  show "wire_aux v = aux"
    by (rule bit_word_eqI)
      (auto simp: wire_aux_def v_def ff bit_simps dest: bit_imp_le_length)
qed

definition wire_normal :: "action_proposal \<Rightarrow> action_proposal" where
  "wire_normal p = (case p of SendStamped c \<Rightarrow> SendStamped (max 1 c) | _ \<Rightarrow> p)"

lemma clamp_u8: "u32_as_u8 (max 1 (min (u8_as_u32 c) 255)) = max 1 c"
proof -
  have lt: "unat c < 256" using unsigned_less[of c] by simp
  have u: "unat (u8_as_u32 c) = unat c" using lt by (simp add: unsigned_ucast_eq take_bit_eq_mod)
  have "u8_as_u32 c \<le> 255" using lt u by (simp add: word_le_nat_alt)
  then have m: "min (u8_as_u32 c) 255 = u8_as_u32 c" by simp
  show ?thesis
  proof (cases "c = 0")
    case False
    then have "1 \<le> unat c" by (simp add: Suc_le_eq unat_gt_0)
    then have "1 \<le> u8_as_u32 c" and "1 \<le> c" using u by (simp_all add: word_le_nat_alt)
    moreover have "u32_as_u8 (u8_as_u32 c) = c"
      by (rule bit_word_eqI) (auto simp: bit_simps dest: bit_imp_le_length)
    ultimately show ?thesis by (simp add: m max_def)
  qed (simp add: m max_def)
qed

lemma wire_kind_encode: "wire_kind (encode_wire p) = (case p of
    ProposeNoop \<Rightarrow> 0 | ReactOnce \<Rightarrow> 1 | SendStamped _ \<Rightarrow> 2 | SpecialPhrase \<Rightarrow> 3
  | ProposeSuspicious \<Rightarrow> 4 | Defer \<Rightarrow> 5 | Reject _ \<Rightarrow> 6)"
  by (cases p) (simp_all only: encode_wire_def Let_def prod.case action_proposal.case wire_fields
      kind_u32.simps)

lemma wire_aux_encode: "wire_aux (encode_wire p) = (case p of
    ProposeNoop \<Rightarrow> 0 | ReactOnce \<Rightarrow> 1 | SendStamped c \<Rightarrow> u8_as_u32 c | SpecialPhrase \<Rightarrow> 1
  | ProposeSuspicious \<Rightarrow> 0 | Defer \<Rightarrow> 0 | Reject r \<Rightarrow> reason_u32 r)"
  by (cases p) (simp_all only: encode_wire_def Let_def prod.case action_proposal.case wire_fields)

lemma reason_roundtrip [simp]: "reason_of_aux (reason_u32 r) = r"
  by (cases r) (simp_all add: reason_of_aux_def)

lemma decode_encode: "decode_wire (encode_wire p) = Inr (wire_normal p)"
  by (cases p)
    (simp_all add: decode_wire_def Let_def wire_kind_encode wire_aux_encode wire_normal_def
      clamp_u8)

text \<open>Encoding then decoding gives the proposal back, a zero stamp count read as one.\<close>

theorem wire_roundtrip: "decode_wire (encode_wire p) = Inr (wire_normal p)"
  by (rule decode_encode)

lemma kind_cases: "(k :: 32 word) \<le> 6 \<longleftrightarrow> k \<in> {0, 1, 2, 3, 4, 5, 6}"
proof
  assume "k \<le> 6"
  then have "unat k \<le> 6" by (simp add: word_le_nat_alt)
  then have "unat k \<in> {0, 1, 2, 3, 4, 5, 6}" by auto
  then show "k \<in> {0, 1, 2, 3, 4, 5, 6}"
    by (auto simp: unat_eq_zero dest!: arg_cong[where f = "of_nat :: nat \<Rightarrow> 32 word"])
qed auto

lemma decode_normal: "decode_wire v = Inr p \<Longrightarrow> wire_normal p = p"
proof -
  have one: "(1 :: 8 word) \<le> u32_as_u8 (max 1 (min a 255))" for a :: "32 word"
  proof -
    let ?m = "max 1 (min a 255)"
    have "?m \<le> 255" and "1 \<le> ?m" by (simp_all add: max_def min_def)
    then have "unat ?m \<le> 255" and "1 \<le> unat ?m" by (simp_all only: word_le_nat_alt) simp_all
    then have "unat (u32_as_u8 ?m) = unat ?m" by (simp add: unsigned_ucast_eq take_bit_eq_mod)
    with \<open>1 \<le> unat ?m\<close> show ?thesis by (simp add: word_le_nat_alt)
  qed
  then show "decode_wire v = Inr p \<Longrightarrow> wire_normal p = p"
    by (auto simp: decode_wire_def Let_def wire_normal_def max_absorb2[OF one] split: if_splits)
qed

text \<open>Every 64-bit word is decoded or refused according to its upper half alone; a word that is
  decoded means the same as the word its proposal encodes to.\<close>

theorem decode_wire_total:
  "case decode_wire v of
     Inr p \<Rightarrow> wire_kind v \<le> 6 \<and> decode_wire (encode_wire p) = Inr p
   | Inl e \<Rightarrow> 6 < wire_kind v \<and> e = InvalidProposal"
proof (cases "wire_kind v \<le> 6")
  case True
  then obtain p where "decode_wire v = Inr p"
    unfolding kind_cases by (auto simp: decode_wire_def Let_def)
  with True decode_normal[OF this] show ?thesis by (simp add: decode_encode)
next
  case False
  then have "decode_wire v = Inl InvalidProposal"
    unfolding kind_cases by (auto simp: decode_wire_def Let_def)
  with False show ?thesis by simp
qed

section \<open>The interface of an analyzer\<close>

text \<open>
  \<^verbatim>\<open>trait ProposalAnalyzer\<close>: an analyzer speaks one version of the interface, which a call does
  not change; only the right version proposes anything, and what it proposes is a proposal the
  wire can carry.
\<close>

locale proposal_analyzer =
  fixes abi_version :: "'a \<Rightarrow> 32 word"
    and propose :: "'a \<Rightarrow> analyzer_request \<Rightarrow> 'a \<times> (analyzer_error + action_proposal)"
  assumes version_stable: "abi_version (fst (propose a req)) = abi_version a"
    and version_checked: "snd (propose a req) = Inr p \<Longrightarrow> abi_version a = SANDBOX_ABI_VERSION"
    and wire_carries: "snd (propose a req) = Inr p \<Longrightarrow> wire_normal p = p"
begin

lemma stamped_positive: "snd (propose a req) = Inr (SendStamped c) \<Longrightarrow> 1 \<le> c"
  using wire_carries[of a req "SendStamped c"] by (auto simp: wire_normal_def max_def split: if_splits)

lemma wrong_version_refuses:
  "abi_version a \<noteq> SANDBOX_ABI_VERSION \<Longrightarrow> \<exists>e. snd (propose a req) = Inl e"
  using version_checked by (cases "snd (propose a req)") auto

lemma proposal_survives_wire:
  "snd (propose a req) = Inr p \<Longrightarrow> decode_wire (encode_wire p) = Inr p"
  using wire_carries by (simp add: decode_encode)

end

end
