(* ===== verification/Sandbox_Guest.thy ===== *)
theory Sandbox_Guest
  imports Sandbox_Abi Oo_Counter "HOL-Library.Monad_Syntax" "HOL-Library.Stream"
begin

text \<open>
  The sandboxed analyzer, \<^verbatim>\<open>src/sandbox/host.rs\<close>: the guest program \<^verbatim>\<open>GUEST_WAT\<close>
  instruction by instruction on 32-bit words, and the host that calls it.  WebAssembly
  comparisons yield 0 or 1 and \<^verbatim>\<open>i32.and\<close> of such values is conjunction, so they are \<open>bool\<close>
  here; a load outside the one page of linear memory traps, so the functions of the guest
  return an option, and \<open>None\<close> means a trap or a loop that never ends.

  The WebAssembly engine is the crate \<^verbatim>\<open>wasmtime\<close>.  What it answers to one request besides
  running the guest (failing to set up a store or an instance, running out of fuel) is a
  \<open>host_outcome\<close>; an analyzer holds the stream of the outcomes to come.
\<close>

section \<open>The guest\<close>

type_synonym i32 = "32 word"

definition guest_abi_version :: i32 where
  "guest_abi_version = 1"

definition wat_is_ascii_o :: "i32 \<Rightarrow> bool" where
  "wat_is_ascii_o b \<longleftrightarrow> b = 111 \<or> b = 79"

text \<open>Linear memory: one page, the message at its start and zero bytes after it.\<close>

definition wat_byte :: "nat list \<Rightarrow> i32 \<Rightarrow> i32 option" where
  "wat_byte mem addr =
     (if unat addr < 65536
      then Some (of_nat (if unat addr < length mem then mem ! unat addr else 0))
      else None)"

text \<open>The six-byte comparison of the hiragana and of the katakana pair: the first two bytes
  are already loaded, all others are loaded before the branch.\<close>

definition wat_pair ::
  "nat list \<Rightarrow> i32 \<Rightarrow> i32 \<Rightarrow> i32 \<Rightarrow> i32 \<Rightarrow> i32 \<Rightarrow> i32 \<Rightarrow> i32 \<Rightarrow> bool option" where
  "wat_pair mem ptr len i b0 b1 x y =
     (if word_sless (i + 5) len
      then do {
        b2 \<leftarrow> wat_byte mem (ptr + i + 2);
        b3 \<leftarrow> wat_byte mem (ptr + i + 3);
        b4 \<leftarrow> wat_byte mem (ptr + i + 4);
        b5 \<leftarrow> wat_byte mem (ptr + i + 5);
        Some (b0 = 227 \<and> b1 = x \<and> b2 = y \<and> b3 = 227 \<and> b4 = x \<and> b5 = y)
      }
      else Some False)"

partial_function (option) wat_loop ::
  "nat list \<Rightarrow> i32 \<Rightarrow> i32 \<Rightarrow> i32 \<Rightarrow> i32 \<Rightarrow> i32 option" where
  "wat_loop mem ptr len i count =
     (if word_sle (len - 1) i then Some count
      else do {
        b0 \<leftarrow> wat_byte mem (ptr + i);
        b1 \<leftarrow> wat_byte mem (ptr + i + 1);
        if wat_is_ascii_o b0 \<and> wat_is_ascii_o b1
        then wat_loop mem ptr len (i + 2) (count + 1)
        else do {
          hiragana \<leftarrow> wat_pair mem ptr len i b0 b1 129 138;
          if hiragana then wat_loop mem ptr len (i + 6) (count + 1)
          else do {
            katakana \<leftarrow> wat_pair mem ptr len i b0 b1 130 170;
            if katakana then wat_loop mem ptr len (i + 6) (count + 1)
            else wat_loop mem ptr len (i + 1) count
          }
        }
      })"

definition wat_analyze :: "nat list \<Rightarrow> i32 \<Rightarrow> i32 \<Rightarrow> i32 \<Rightarrow> i32 \<Rightarrow> 64 word option" where
  "wat_analyze mem ptr len kanji_count special_hit =
     (if word_sless 32768 len then Some 17179869184
      else do {
        scanned \<leftarrow> wat_loop mem ptr len 0 0;
        let count = scanned + kanji_count;
        if special_hit \<noteq> 0 then Some 12884901889
        else if word_sle count 0 then Some 0
        else if count = 1 then Some 4294967297
        else do {
          let count = (if word_sless 255 count then 255 else count);
          Some (8589934592 OR u32_as_i64 count)
        }
      })"

section \<open>The host\<close>

record sandbox_config =
  fuel_limit :: nat
  memory_limit_bytes :: nat
  table_elements_limit :: nat
  store_instance_limit :: nat

definition sandbox_config_default :: sandbox_config where
  "sandbox_config_default =
     \<lparr>fuel_limit = 50000, memory_limit_bytes = 65536, table_elements_limit = 64,
      store_instance_limit = 4\<rparr>"

record host_outcome =
  store_error :: "rstr option"
  instance_error :: "rstr option"
  memory_missing :: bool
  write_error :: "rstr option"
  func_error :: "rstr option"
  call_error :: "rstr option"

record wasmtime_analyzer =
  wa_cfg :: sandbox_config
  wa_abi_version :: "32 word"
  wa_engine :: "host_outcome stream"

definition fetch_abi_version :: "host_outcome \<Rightarrow> rstr + 32 word" where
  "fetch_abi_version h =
     unless_err (store_error h)
       (unless_err (instance_error h)
         (unless_err (func_error h)
           (unless_err (call_error h) (Inr guest_abi_version))))"

definition wasmtime_new ::
  "rstr option \<Rightarrow> sandbox_config \<Rightarrow> host_outcome stream \<Rightarrow> rstr + wasmtime_analyzer" where
  "wasmtime_new compile_error cfg engine =
     unless_err compile_error
       (rbind (fetch_abi_version (shd engine)) (\<lambda>actual.
         Inr \<lparr>wa_cfg = cfg, wa_abi_version = actual, wa_engine = stl engine\<rparr>))"

definition i32_max :: nat where
  "i32_max = 2 ^ 31 - 1"

definition call_guest :: "analyzer_request \<Rightarrow> 64 word option" where
  "call_guest req =
     (let bytes = utf8_encode (req_content req)
      in wat_analyze bytes 0 (of_nat (length bytes)) (of_nat (min (req_kanji_count req) i32_max))
           (of_bool (req_special_phrase_hit req)))"

definition call_failure :: "rstr \<Rightarrow> analyzer_error" where
  "call_failure msg =
     (if str_contains msg (lit ''all fuel consumed'') then AnalyzerTimeout else Trap msg)"

definition propose_once ::
  "sandbox_config \<Rightarrow> 32 word \<Rightarrow> host_outcome \<Rightarrow> analyzer_request \<Rightarrow>
   analyzer_error + action_proposal" where
  "propose_once cfg abi h req =
     (if abi \<noteq> SANDBOX_ABI_VERSION then Inl (AbiMismatch SANDBOX_ABI_VERSION abi)
      else if str_len (req_content req) > memory_limit_bytes cfg
      then Inl (ResourceLimit (lit ''message exceeds sandbox linear memory budget''))
      else
        unless_err (map_option (\<lambda>e. Trap (lit ''sandbox setup failed: '' @ e)) (store_error h))
        (unless_err (map_option Trap (instance_error h))
        (unless_err
          (if memory_missing h then Some (Trap (lit ''guest memory export missing'')) else None)
        (unless_err
          (if str_len (req_content req) > 65536
           then Some (ResourceLimit (lit ''out of bounds memory access''))
           else map_option ResourceLimit (write_error h))
        (unless_err (map_option Trap (func_error h))
        (unless_err (map_option call_failure (call_error h))
        (case call_guest req of
           None \<Rightarrow> Inl (call_failure (lit ''wasm trap''))
         | Some wire \<Rightarrow>
             (case decode_wire wire of
                Inl _ \<Rightarrow> Inl (InvalidWire wire)
              | Inr p \<Rightarrow> Inr p))))))))"

definition wasmtime_propose ::
  "wasmtime_analyzer \<Rightarrow> analyzer_request \<Rightarrow>
   wasmtime_analyzer \<times> (analyzer_error + action_proposal)" where
  "wasmtime_propose a req =
     (a\<lparr>wa_engine := stl (wa_engine a)\<rparr>,
      propose_once (wa_cfg a) (wa_abi_version a) (shd (wa_engine a)) req)"

interpretation wasmtime: proposal_analyzer wa_abi_version wasmtime_propose
  by unfold_locales
    (auto simp: wasmtime_propose_def propose_once_def unless_err_Inr decode_normal
      split: if_splits option.splits sum.splits)

section \<open>The scan on bytes\<close>

definition hiragana_pair :: "nat list" where
  "hiragana_pair = [227, 129, 138, 227, 129, 138]"

definition katakana_pair :: "nat list" where
  "katakana_pair = [227, 130, 170, 227, 130, 170]"

fun scan_bytes :: "nat list \<Rightarrow> nat" where
  "scan_bytes (b0 # b1 # rest) =
     (if is_ascii_o b0 \<and> is_ascii_o b1 then Suc (scan_bytes rest)
      else if prefix hiragana_pair (b0 # b1 # rest) \<or> prefix katakana_pair (b0 # b1 # rest)
      then Suc (scan_bytes (drop 4 rest))
      else scan_bytes (b1 # rest))"
| "scan_bytes _ = 0"

lemma scan_skip: "\<not> is_ascii_o b \<Longrightarrow> b \<noteq> 227 \<Longrightarrow> scan_bytes (b # xs) = scan_bytes xs"
  by (cases xs) (auto simp: hiragana_pair_def katakana_pair_def)

lemma continuation_skip: "scan_bytes ((128 + k) # xs) = scan_bytes xs" if "k < 64"
  using that by (intro scan_skip) (auto simp: is_ascii_o_def)

lemma utf8_char_kana:
  assumes "c < 0x110000"
  shows "prefix [227, 129, 138] (utf8_char c @ r) \<longleftrightarrow> c = 0x304A"
    and "prefix [227, 130, 170] (utf8_char c @ r) \<longleftrightarrow> c = 0x30AA"
proof -
  have "c = 4096 * (c div 64 div 64) + 64 * (c div 64 mod 64) + c mod 64"
    using mult_div_mod_eq[of 64 c] mult_div_mod_eq[of 64 "c div 64"] by linarith
  moreover have "c div 4096 = c div 64 div 64" by (simp add: div_mult2_eq[of c 64 64, simplified])
  ultimately show "prefix [227, 129, 138] (utf8_char c @ r) \<longleftrightarrow> c = 0x304A"
    and "prefix [227, 130, 170] (utf8_char c @ r) \<longleftrightarrow> c = 0x30AA"
    using assms by (auto simp: utf8_char_def)
qed

lemma utf8_kana:
  assumes "wf_str s"
  shows "prefix [227, 129, 138] (utf8_encode s) \<longleftrightarrow> (\<exists>r. s = 0x304A # r)"
    and "prefix [227, 130, 170] (utf8_encode s) \<longleftrightarrow> (\<exists>r. s = 0x30AA # r)"
proof -
  show "prefix [227, 129, 138] (utf8_encode s) \<longleftrightarrow> (\<exists>r. s = 0x304A # r)"
  proof (cases s)
    case (Cons c t)
    then have "c < 0x110000" using assms by (auto simp: scalar_def)
    with Cons show ?thesis by (simp only: utf8_encode_simps utf8_char_kana) simp
  qed simp
  show "prefix [227, 130, 170] (utf8_encode s) \<longleftrightarrow> (\<exists>r. s = 0x30AA # r)"
  proof (cases s)
    case (Cons c t)
    then have "c < 0x110000" using assms by (auto simp: scalar_def)
    with Cons show ?thesis by (simp only: utf8_encode_simps utf8_char_kana) simp
  qed simp
qed

lemma utf8_ascii_o:
  "(\<exists>b r. utf8_encode s = b # r \<and> is_ascii_o b) \<longleftrightarrow> (\<exists>c r. s = c # r \<and> is_ascii_o c)"
proof (cases s)
  case (Cons c t)
  then show ?thesis by (auto simp: utf8_char_def is_ascii_o_def)
qed simp

lemma scan_ascii:
  assumes "c < 128"
  shows "scan_bytes (c # xs) =
    (if is_ascii_o c \<and> (\<exists>b r. xs = b # r \<and> is_ascii_o b) then Suc (scan_bytes (tl xs))
     else scan_bytes xs)"
  using assms by (cases xs) (auto simp: hiragana_pair_def katakana_pair_def)

lemma scan_hiragana:
  assumes kana: "c = 0x304A" and wf: "wf_str s"
  shows "scan_bytes (utf8_char c @ utf8_encode s) =
    (if s \<noteq> [] \<and> oo_hit c (hd s) then Suc (scan_bytes (utf8_encode (tl s)))
     else scan_bytes (utf8_encode s))"
proof -
  have enc: "utf8_char c = [227, 129, 138]" by (simp add: kana utf8_char_def)
  have hit: "(s \<noteq> [] \<and> oo_hit c (hd s)) \<longleftrightarrow> prefix [227, 129, 138] (utf8_encode s)"
    using utf8_kana(1)[OF wf] by (cases s) (auto simp: kana oo_hit_def is_ascii_o_def)
  show ?thesis
  proof (cases "prefix [227, 129, 138] (utf8_encode s)")
    case True
    then obtain r where s: "s = 0x304A # r" using utf8_kana(1)[OF wf] by auto
    then have "utf8_encode s = [227, 129, 138] @ utf8_encode r" by (simp add: utf8_char_def)
    then show ?thesis using hit True
      by (simp add: enc hiragana_pair_def katakana_pair_def is_ascii_o_def s)
  next
    case False
    then show ?thesis using hit continuation_skip[of 1] continuation_skip[of 10]
      by (auto simp: enc hiragana_pair_def katakana_pair_def is_ascii_o_def)
  qed
qed

lemma scan_katakana:
  assumes kata: "c = 0x30AA" and wf: "wf_str s"
  shows "scan_bytes (utf8_char c @ utf8_encode s) =
    (if s \<noteq> [] \<and> oo_hit c (hd s) then Suc (scan_bytes (utf8_encode (tl s)))
     else scan_bytes (utf8_encode s))"
proof -
  have enc: "utf8_char c = [227, 130, 170]" by (simp add: kata utf8_char_def)
  have hit: "(s \<noteq> [] \<and> oo_hit c (hd s)) \<longleftrightarrow> prefix [227, 130, 170] (utf8_encode s)"
    using utf8_kana(2)[OF wf] by (cases s) (auto simp: kata oo_hit_def is_ascii_o_def)
  show ?thesis
  proof (cases "prefix [227, 130, 170] (utf8_encode s)")
    case True
    then obtain r where s: "s = 0x30AA # r" using utf8_kana(2)[OF wf] by auto
    then have "utf8_encode s = [227, 130, 170] @ utf8_encode r" by (simp add: utf8_char_def)
    then show ?thesis using hit True
      by (simp add: enc hiragana_pair_def katakana_pair_def is_ascii_o_def s)
  next
    case False
    then show ?thesis using hit continuation_skip[of 2] continuation_skip[of 42]
      by (auto simp: enc hiragana_pair_def katakana_pair_def is_ascii_o_def)
  qed
qed

lemma scan_wide:
  assumes c: "scalar c" "128 \<le> c" "c \<noteq> 0x304A" "c \<noteq> 0x30AA"
  shows "scan_bytes (utf8_char c @ utf8_encode s) = scan_bytes (utf8_encode s)"
proof -
  have lt: "c < 0x110000" using c(1) by (auto simp: scalar_def)
  from c(2) consider (two) "c < 0x800" | (three) "0x800 \<le> c" "c < 0x10000" | (four) "0x10000 \<le> c"
    by linarith
  then show ?thesis
  proof cases
    case two
    with c(2) have "utf8_char c = [192 + c div 64, 128 + c mod 64]" by (simp add: utf8_char_def)
    moreover have "c div 64 < 32" using two by (simp add: div_less_iff_less_mult)
    ultimately show ?thesis
      using c two by (simp add: scan_skip continuation_skip is_ascii_o_def
          del: scan_bytes.simps)
  next
    case three
    define b0 b1 b2 where "b0 = 224 + c div 4096" and "b1 = 128 + c div 64 mod 64"
      and "b2 = 128 + c mod 64"
    have enc: "utf8_char c = [b0, b1, b2]"
      using c three by (simp add: utf8_char_def b0_def b1_def b2_def)
    have "\<not> prefix [227, 129, 138] ([b0, b1, b2] @ utf8_encode s)"
      and "\<not> prefix [227, 130, 170] ([b0, b1, b2] @ utf8_encode s)"
      using utf8_char_kana[OF lt, of "utf8_encode s"] c three enc by simp_all
    then have "scan_bytes ([b0, b1, b2] @ utf8_encode s) = scan_bytes ([b1, b2] @ utf8_encode s)"
      by (auto simp: hiragana_pair_def katakana_pair_def is_ascii_o_def b0_def)
    also have "\<dots> = scan_bytes (utf8_encode s)" by (simp add: b1_def b2_def continuation_skip del: scan_bytes.simps)
    finally show ?thesis using c three by (simp add: enc)
  next
    case four
    then have "utf8_char c = [240 + c div 262144, 128 + c div 4096 mod 64,
        128 + c div 64 mod 64, 128 + c mod 64]" by (simp add: utf8_char_def)
    then show ?thesis
      using four by (simp add: scan_skip continuation_skip is_ascii_o_def
          del: scan_bytes.simps)
  qed
qed

text \<open>One character of UTF-8 at a time, the byte scan sees what the character scan sees.\<close>

lemma scan_char:
  assumes "scalar c" and "wf_str s"
  shows "scan_bytes (utf8_char c @ utf8_encode s) =
    (if s \<noteq> [] \<and> oo_hit c (hd s) then Suc (scan_bytes (utf8_encode (tl s)))
     else scan_bytes (utf8_encode s))"
proof -
  consider (ascii) "c < 128" | (kana) "c = 0x304A" | (kata) "c = 0x30AA"
    | (wide) "128 \<le> c" "c \<noteq> 0x304A" "c \<noteq> 0x30AA" by linarith
  then show ?thesis
  proof cases
    case ascii
    have "tl (utf8_encode s) = utf8_encode (tl s)" if "s \<noteq> []" "is_ascii_o (hd s)"
      using that by (cases s) (auto simp: utf8_char_def is_ascii_o_def)
    then show ?thesis
      using ascii utf8_ascii_o[of s]
      by (cases s) (auto simp: utf8_char_def scan_ascii oo_hit_def is_ascii_o_def)
  next
    case kana
    show ?thesis by (rule scan_hiragana[OF kana assms(2)])
  next
    case kata
    show ?thesis by (rule scan_katakana[OF kata assms(2)])
  next
    case wide
    then show ?thesis by (simp add: scan_wide[OF assms(1)] oo_hit_def is_ascii_o_def)
  qed
qed

lemma scan_single: "scalar c \<Longrightarrow> scan_bytes (utf8_char c) = 0"
  using scan_char[of c "[]"] by simp

lemma scan_utf8: "wf_str s \<Longrightarrow> scan_bytes (utf8_encode s) = count_oo_sequences s"
proof (induction s rule: count_oo_sequences.induct)
  case (1 c d rest)
  have "scan_bytes (utf8_encode (c # d # rest)) =
      (if oo_hit c d then Suc (scan_bytes (utf8_encode rest))
       else scan_bytes (utf8_encode (d # rest)))"
    using scan_char[of c "d # rest"] 1(3) by simp
  with 1 show ?case by auto
qed (simp_all add: scan_single)

section \<open>The guest loop\<close>

lemma sint_word_of_int:
  "- 2147483648 \<le> k \<Longrightarrow> k < 2147483648 \<Longrightarrow> sint (word_of_int k :: i32) = k"
  by (simp add: signed_of_int signed_take_bit_int_eq_self)

lemma sint_of_nat: "n < 2147483648 \<Longrightarrow> sint (of_nat n :: i32) = int n"
  using sint_word_of_int[of "int n"] by simp

lemma byte_eq: "b < 256 \<Longrightarrow> n < 256 \<Longrightarrow> (of_nat b :: i32) = of_nat n \<longleftrightarrow> b = n"
  by (auto simp: word_of_nat_eq_iff take_bit_nat_eq_self_iff take_bit_nat_eq_self)

text \<open>The words the loop meets, as numbers, for a message at the start of memory.\<close>

definition loaded :: "nat list \<Rightarrow> bool" where
  "loaded mem \<longleftrightarrow> length mem \<le> 32768 \<and> (\<forall>b \<in> set mem. b < 256)"

lemma sle_end: "N \<le> 32768 \<Longrightarrow> n \<le> N \<Longrightarrow>
  word_sle ((of_nat N :: i32) - 1) (of_nat n) \<longleftrightarrow> N \<le> Suc n"
proof -
  assume a: "N \<le> 32768" "n \<le> N"
  have "(of_nat N :: i32) - 1 = word_of_int (int N - 1)" by simp
  then have "sint ((of_nat N :: i32) - 1) = int N - 1"
    using a(1) by (simp only: sint_word_of_int)
  then show ?thesis using a by (simp add: word_sle_eq sint_of_nat) linarith
qed

lemma sless_end: "N \<le> 32768 \<Longrightarrow> n \<le> N \<Longrightarrow>
  word_sless ((of_nat n :: i32) + 5) (of_nat N) \<longleftrightarrow> n + 5 < N"
proof -
  assume a: "N \<le> 32768" "n \<le> N"
  have "(of_nat n :: i32) + 5 = of_nat (n + 5)" by simp
  then have "sint ((of_nat n :: i32) + 5) = int (n + 5)"
    using a by (simp only: sint_of_nat)
  then show ?thesis using a by (simp add: word_sless_alt sint_of_nat) linarith
qed

lemma wat_byte_nth:
  assumes "loaded mem" and "n + k < length mem"
  shows "wat_byte mem (0 + of_nat n + of_nat k) = Some (of_nat (mem ! (n + k)))"
proof -
  have "unat (of_nat (n + k) :: i32) = n + k"
    using assms by (simp add: loaded_def unsigned_of_nat take_bit_nat_eq_self del: of_nat_add)
  then have "unat (0 + of_nat n + of_nat k :: i32) = n + k" by (simp only: of_nat_add add_0)
  then show ?thesis using assms by (simp add: wat_byte_def loaded_def)
qed

lemmas wat_bytes =
  wat_byte_nth[of _ _ 0, simplified] wat_byte_nth[of _ _ 1, simplified]
  wat_byte_nth[of _ _ 2, simplified] wat_byte_nth[of _ _ 3, simplified]
  wat_byte_nth[of _ _ 4, simplified] wat_byte_nth[of _ _ 5, simplified]

lemma byte_eqs:
  assumes "loaded mem" and "n < length mem" and "numeral k < (256 :: nat)"
  shows "(of_nat (mem ! n) :: i32) = numeral k \<longleftrightarrow> mem ! n = numeral k"
  using byte_eq[of "mem ! n" "numeral k"] assms by (simp add: loaded_def)

lemma drop_six:
  assumes "n + 5 < length mem"
  shows "drop n mem = [mem ! n, mem ! (n + 1), mem ! (n + 2), mem ! (n + 3), mem ! (n + 4),
    mem ! (n + 5)] @ drop (n + 6) mem"
  using assms by (simp add: Cons_nth_drop_Suc[symmetric] numeral_eq_Suc)

lemma prefix_six:
  assumes "n \<le> length mem"
  shows "prefix [a, b, c, d, e, f] (drop n mem) \<longleftrightarrow> n + 5 < length mem \<and> mem ! n = a \<and>
    mem ! (n + 1) = b \<and> mem ! (n + 2) = c \<and> mem ! (n + 3) = d \<and> mem ! (n + 4) = e \<and>
    mem ! (n + 5) = f"
proof (cases "n + 5 < length mem")
  case True
  then show ?thesis by (auto simp: drop_six)
next
  case False
  then have "length (drop n mem) < length [a, b, c, d, e, f]" using assms by simp
  then have "\<not> prefix [a, b, c, d, e, f] (drop n mem)"
    using prefix_length_le leD by blast
  with False show ?thesis by simp
qed

lemma wat_pair_prefix:
  assumes "loaded mem" and "n + 1 < length mem"
    and "numeral x < (256 :: nat)" and "numeral y < (256 :: nat)"
  shows "wat_pair mem 0 (of_nat (length mem)) (of_nat n) (of_nat (mem ! n)) (of_nat (mem ! (n + 1)))
      (numeral x) (numeral y) =
    Some (prefix [227, numeral x, numeral y, 227, numeral x, numeral y] (drop n mem))"
proof -
  have le: "length mem \<le> 32768" and n: "n \<le> length mem" using assms by (auto simp: loaded_def)
  show ?thesis
  proof (cases "n + 5 < length mem")
    case True
    then show ?thesis
      using assms n
      by (simp add: wat_pair_def sless_end[OF le n] prefix_six wat_bytes byte_eqs
          del: One_nat_def)
  next
    case False
    then show ?thesis by (simp add: wat_pair_def sless_end[OF le n] prefix_six[OF n])
  qed
qed

lemma scan_short: "length xs \<le> 1 \<Longrightarrow> scan_bytes xs = 0"
  by (cases xs rule: scan_bytes.cases) auto

lemma wat_loop_scan:
  assumes "loaded mem"
  shows "n \<le> length mem \<Longrightarrow>
    wat_loop mem 0 (of_nat (length mem)) (of_nat n) count =
    Some (count + of_nat (scan_bytes (drop n mem)))"
proof (induction "length mem - n" arbitrary: n count rule: less_induct)
  case less
  have le: "length mem \<le> 32768" using assms by (simp add: loaded_def)
  show ?case
  proof (cases "length mem \<le> Suc n")
    case True
    then have "scan_bytes (drop n mem) = 0" by (intro scan_short) simp
    with True show ?thesis
      by (simp add: wat_loop.simps[of _ _ _ _ count] sle_end[OF le less.prems])
  next
    case False
    then have n: "n + 1 < length mem" by simp
    have d: "drop n mem = mem ! n # mem ! (n + 1) # drop (n + 2) mem"
      using n by (simp add: Cons_nth_drop_Suc[symmetric] numeral_eq_Suc)
    have d1: "drop (n + 1) mem = mem ! (n + 1) # drop (n + 2) mem"
      using n by (simp add: Cons_nth_drop_Suc[symmetric] numeral_eq_Suc)
    have o: "wat_is_ascii_o (of_nat (mem ! k)) \<longleftrightarrow> is_ascii_o (mem ! k)" if "k < length mem" for k
      using assms that by (simp add: wat_is_ascii_o_def is_ascii_o_def byte_eqs)
    have step: "wat_loop mem 0 (of_nat (length mem)) (of_nat n + of_nat k) c =
        Some (c + of_nat (scan_bytes (drop (n + k) mem)))"
      if "0 < k" "n + k \<le> length mem" for k c
      using less.hyps[of "n + k" c] that by simp
    note steps = step[of 1, simplified] step[of 2, simplified] step[of 6, simplified]
    have six: "n + 6 \<le> length mem" if "prefix [227, x, y, 227, x, y] (drop n mem)" for x y
      using that less.prems by (simp add: prefix_six)
    let ?h = "prefix hiragana_pair (drop n mem)" and ?k = "prefix katakana_pair (drop n mem)"
    have loop: "wat_loop mem 0 (of_nat (length mem)) (of_nat n) count =
      (if is_ascii_o (mem ! n) \<and> is_ascii_o (mem ! (n + 1))
       then wat_loop mem 0 (of_nat (length mem)) (of_nat n + 2) (count + 1)
       else if ?h \<or> ?k then wat_loop mem 0 (of_nat (length mem)) (of_nat n + 6) (count + 1)
       else wat_loop mem 0 (of_nat (length mem)) (of_nat n + 1) count)"
      using n False
      by (subst wat_loop.simps)
        (simp add: sle_end[OF le less.prems] wat_bytes[OF assms] o wat_pair_prefix[OF assms, simplified]
          hiragana_pair_def katakana_pair_def)
    have scan: "scan_bytes (drop n mem) =
      (if is_ascii_o (mem ! n) \<and> is_ascii_o (mem ! (n + 1)) then Suc (scan_bytes (drop (n + 2) mem))
       else if ?h \<or> ?k then Suc (scan_bytes (drop (n + 6) mem))
       else scan_bytes (drop (n + 1) mem))"
      unfolding d d1 by (simp add: add.commute)
    show ?thesis
      unfolding loop scan
      using steps n six[of 129 138] six[of 130 170]
      by (auto simp: hiragana_pair_def katakana_pair_def)
  qed
qed

text \<open>What a message means to the guest: the counts are added in 32 bits.\<close>

definition guest_verdict :: "analyzer_request \<Rightarrow> action_proposal" where
  "guest_verdict req =
     (let total = count_oo_sequences (req_content req) + min (req_kanji_count req) i32_max
      in if str_len (req_content req) > 32768 then ProposeSuspicious
         else if req_special_phrase_hit req then SpecialPhrase
         else if total = 0 \<or> i32_max < total then ProposeNoop
         else if total = 1 then ReactOnce
         else SendStamped (of_nat (min total 255)))"

lemma utf8_bytes: "wf_str s \<Longrightarrow> b \<in> set (utf8_encode s) \<Longrightarrow> b < 256"
proof (induction s)
  case (Cons c s)
  then have c: "c < 0x110000" by (auto simp: scalar_def)
  have "b < 256" if "b \<in> set (utf8_char c)"
  proof -
    have "c div 64 < 32" if "c < 0x800" using that by (simp add: div_less_iff_less_mult)
    moreover have "c div 4096 < 16" if "c < 0x10000" using that by (simp add: div_less_iff_less_mult)
    moreover have "c div 262144 < 8" using c by (simp add: div_less_iff_less_mult)
    moreover have "m mod 64 < 64" for m :: nat by simp
    ultimately show ?thesis using that unfolding utf8_char_def
      by (auto split: if_splits intro: order_less_trans)
  qed
  with Cons show ?case by auto
qed simp

lemma wire_words:
  "decode_wire 17179869184 = Inr ProposeSuspicious" "decode_wire 12884901889 = Inr SpecialPhrase"
  "decode_wire 0 = Inr ProposeNoop" "decode_wire 4294967297 = Inr ReactOnce"
  using decode_encode[of ProposeSuspicious] decode_encode[of SpecialPhrase]
    decode_encode[of ProposeNoop] decode_encode[of ReactOnce]
  by (simp_all add: encode_wire_def wire_normal_def)

lemma wire_stamped:
  assumes "1 \<le> n" and "n \<le> 255"
  shows "decode_wire (8589934592 OR u32_as_i64 (of_nat n)) = Inr (SendStamped (of_nat n))"
proof -
  have u: "u8_as_u32 (of_nat n) = of_nat n"
    using assms by (simp add: word_eq_iff_unsigned unsigned_ucast_eq unsigned_of_nat
        take_bit_nat_eq_self)
  have "1 \<le> (of_nat n :: 8 word)"
    using assms by (simp add: word_le_nat_alt unsigned_of_nat take_bit_nat_eq_self)
  with decode_encode[of "SendStamped (of_nat n)"] show ?thesis
    by (simp add: encode_wire_def wire_normal_def u max_absorb2)
qed

lemma sint_overflow:
  assumes "2147483648 \<le> n" and "n < 4294967296"
  shows "sint (of_nat n :: i32) = int n - 4294967296"
proof -
  have "(word_of_int 4294967296 :: i32) = 0" by simp
  then have "(of_nat n :: i32) = word_of_int (int n - 4294967296)" by simp
  then show ?thesis using assms by (simp only: sint_word_of_int)
qed

lemma total_sign:
  assumes "n < 4294967296"
  shows "word_sle (of_nat n :: i32) 0 \<longleftrightarrow> n = 0 \<or> i32_max < n"
    and "n \<le> i32_max \<Longrightarrow> word_sless 255 (of_nat n :: i32) \<longleftrightarrow> 255 < n"
    and "(of_nat n :: i32) = 1 \<longleftrightarrow> n = 1"
proof -
  show "word_sle (of_nat n :: i32) 0 \<longleftrightarrow> n = 0 \<or> i32_max < n"
  proof (cases "n < 2147483648")
    case True
    then show ?thesis by (simp add: word_sle_eq sint_of_nat i32_max_def)
  next
    case False
    then have "2147483648 \<le> n" by simp
    from sint_overflow[OF this assms] show ?thesis
      using assms False by (simp add: word_sle_eq i32_max_def)
  qed
  show "word_sless 255 (of_nat n :: i32) \<longleftrightarrow> 255 < n" if "n \<le> i32_max"
    using that by (simp add: word_sless_alt sint_of_nat i32_max_def)
  show "(of_nat n :: i32) = 1 \<longleftrightarrow> n = 1"
    using assms word_of_nat_eq_iff[of n 1, where 'a = 32] by (simp add: take_bit_nat_eq_self)
qed

lemma count_oo_length: "2 * count_oo_sequences s \<le> length s"
  by (induction s rule: count_oo_sequences.induct) auto

lemma u32_as_i64_of_nat:
  "n < 4294967296 \<Longrightarrow> u32_as_i64 (of_nat n) = of_nat n"
  by (simp add: word_eq_iff_unsigned unsigned_ucast_eq unsigned_of_nat take_bit_nat_eq_self)

lemma sless_limit:
  "n \<le> 65536 \<Longrightarrow> word_sless 32768 (of_nat n :: i32) \<longleftrightarrow> 32768 < n"
  by (simp add: word_sless_alt sint_of_nat)

lemma guest_answers:
  assumes "wf_str (req_content req)" and "str_len (req_content req) \<le> 65536"
  shows "\<exists>wire. call_guest req = Some wire \<and> decode_wire wire = Inr (guest_verdict req)"
proof (cases "str_len (req_content req) > 32768")
  case True
  then show ?thesis
    using assms(2) sless_limit[of "str_len (req_content req)"]
    by (simp add: call_guest_def Let_def wat_analyze_def guest_verdict_def wire_words
        flip: str_len_def)
next
  case False
  let ?s = "req_content req" and ?mem = "utf8_encode (req_content req)"
  let ?c = "count_oo_sequences ?s" and ?k = "min (req_kanji_count req) i32_max"
  have mem: "loaded ?mem"
    using False utf8_bytes[OF assms(1)] by (auto simp: loaded_def str_len_def)
  have scan: "wat_loop ?mem 0 (of_nat (length ?mem)) 0 0 = Some (of_nat ?c)"
    using wat_loop_scan[OF mem, of 0 0] scan_utf8[OF assms(1)] by simp
  have "?c \<le> 32768" using count_oo_length[of ?s] length_le_str_len[of ?s] False by linarith
  moreover have "?k \<le> 2147483647" by (simp add: i32_max_def)
  ultimately have total: "?c + ?k < 4294967296" by linarith
  have guest: "call_guest req =
      (if req_special_phrase_hit req then Some 12884901889
       else if word_sle (of_nat (?c + ?k) :: i32) 0 then Some 0
       else if (of_nat (?c + ?k) :: i32) = 1 then Some 4294967297
       else Some (8589934592 OR u32_as_i64
         (if word_sless 255 (of_nat (?c + ?k) :: i32) then 255 else of_nat (?c + ?k))))"
    using False sless_limit[of "str_len ?s"] scan
    by (simp add: call_guest_def Let_def wat_analyze_def flip: str_len_def)
  define t where "t = ?c + ?k"
  note guest = guest[folded t_def] and sign = total_sign[OF total, folded t_def]
  have verdict: "guest_verdict req =
      (if req_special_phrase_hit req then SpecialPhrase
       else if t = 0 \<or> i32_max < t then ProposeNoop
       else if t = 1 then ReactOnce else SendStamped (of_nat (min t 255)))"
    unfolding guest_verdict_def Let_def t_def[symmetric] using False by simp
  consider "req_special_phrase_hit req"
    | "\<not> req_special_phrase_hit req" "t = 0 \<or> i32_max < t"
    | "\<not> req_special_phrase_hit req" "t = 1" "\<not> i32_max < t"
    | "\<not> req_special_phrase_hit req" "1 < t" "t \<le> i32_max"
    unfolding i32_max_def by (cases "req_special_phrase_hit req") (blast, linarith)
  then show ?thesis
  proof cases
    case 4
    then have "call_guest req = Some (8589934592 OR u32_as_i64 (of_nat (min t 255)))"
      by (simp add: guest sign min_def)
    then show ?thesis using wire_stamped[of "min t 255"] 4 by (simp add: verdict)
  next
    case 3
    then show ?thesis by (simp add: guest verdict wire_words word_sle_eq)
  qed (simp_all add: guest sign verdict wire_words)
qed

text \<open>C8: the guest, on any message that fits in its memory, always answers, its answer always
  decodes, and it is the verdict read off the reference counter: the byte-level scan of UTF-8
  counts what \<open>count_oo_sequences\<close> counts.\<close>

theorem guest_decides:
  assumes "wf_str (req_content req)" and "str_len (req_content req) \<le> 65536"
  shows "\<exists>wire. call_guest req = Some wire \<and> decode_wire wire = Inr (guest_verdict req)"
  by (rule guest_answers[OF assms])

theorem guest_decides_witness:
  "\<exists>wire. call_guest \<lparr>req_content = lit ''oooo'', req_kanji_count = 1,
      req_special_phrase_hit = False\<rparr> = Some wire \<and>
    decode_wire wire = Inr (SendStamped 3)"
proof -
  let ?req = "\<lparr>req_content = lit ''oooo'', req_kanji_count = 1, req_special_phrase_hit = False\<rparr>"
  have len: "str_len (lit ''oooo'') = 4" by code_simp
  have "count_oo_sequences (lit ''oooo'') = 2" by code_simp
  then have "guest_verdict ?req = SendStamped 3"
    by (simp add: guest_verdict_def len i32_max_def)
  moreover have "wf_str (req_content ?req)" by (simp add: lit_def scalar_def)
  moreover have "str_len (req_content ?req) \<le> 65536" by (simp add: len)
  ultimately show ?thesis using guest_decides[of ?req] by simp
qed

end
