(* ===== verification/Bot_Action.thy ===== *)
theory Bot_Action
  imports Prelude Detector
begin

text \<open>
  Actions, the bot's policy and the ungoverned decision,
  \<^verbatim>\<open>src/app/analyze_message.rs\<close>.  Character counts and products of the code are \<^verbatim>\<open>usize\<close>; the
  release profile traps on overflow, which needs a length above \<^verbatim>\<open>2^64 - 2\<close>.
\<close>

section \<open>Data\<close>

datatype bot_action = Noop | React nat rstr bool | SendMessage rstr

fun is_send :: "bot_action \<Rightarrow> bool" where
  "is_send (SendMessage _) = True"
| "is_send _ = False"

datatype action_policy = ReactOrSend | PolicyReactOnly | NoOutbound

record reaction_config =
  emoji_id :: nat
  emoji_name :: rstr
  animated :: bool

record bot_config =
  special_phrase :: rstr
  stamp_text :: rstr
  reaction :: reaction_config
  max_count_cap :: nat
  bot_max_send_chars :: nat
  send_template :: rstr
  bot_action_policy :: action_policy

definition as_react :: "bot_config \<Rightarrow> bot_action" where
  "as_react cfg =
     React (emoji_id (reaction cfg)) (emoji_name (reaction cfg)) (animated (reaction cfg))"

section \<open>Rendering\<close>

definition sanitize_template_value :: "rstr \<Rightarrow> rstr" where
  "sanitize_template_value value =
     filter (\<lambda>ch. \<not> is_control ch \<or> ch = 10 \<or> ch = 9)
       (str_replace (lit ''}'') [] (str_replace (lit ''${'') [] value))"

definition join_repeated :: "rstr \<Rightarrow> nat \<Rightarrow> rstr" where
  "join_repeated stamp repeats =
     foldl (\<lambda>out idx. (if 0 < idx then out @ [0x20] else out) @ stamp) [] [0..<repeats]"

definition replace_all :: "rstr \<Rightarrow> (rstr \<times> rstr) list \<Rightarrow> rstr" where
  "replace_all template placeholders =
     foldl (\<lambda>output (needle, value). str_replace needle value output) template placeholders"

definition placeholders_of :: "nat \<Rightarrow> rstr \<Rightarrow> rstr \<Rightarrow> rstr \<Rightarrow> rstr \<Rightarrow> (rstr \<times> rstr) list" where
  "placeholders_of count stamp backend reading action_kind =
     [(lit ''${count}'', sanitize_template_value (dec count)),
      (lit ''${stamp}'', sanitize_template_value stamp),
      (lit ''${matched_backend}'', sanitize_template_value backend),
      (lit ''${matched_reading}'', sanitize_template_value reading),
      (lit ''${action_kind}'', sanitize_template_value action_kind)]"

definition first_reading :: "detection_report \<Rightarrow> rstr" where
  "first_reading report =
     (case matched_readings report of [] \<Rightarrow> [] | reading # _ \<Rightarrow> reading)"

definition render_send_template :: "bot_config \<Rightarrow> nat \<Rightarrow> detection_report \<Rightarrow> rstr option" where
  "render_send_template config count report =
     (let output = replace_all (send_template config)
            (placeholders_of count (stamp_text config) (matched_backend report)
              (first_reading report) (lit ''send_message''))
      in if str_contains output (lit ''${'') then None
         else (let expanded = (if output = stamp_text config then join_repeated output count
                               else output);
                   capped = take (bot_max_send_chars config) expanded
               in if capped = [] then None else Some capped))"

section \<open>The ungoverned decision\<close>

definition max_repeats_for_len :: "rstr \<Rightarrow> nat \<Rightarrow> nat" where
  "max_repeats_for_len stamp max_send_chars =
     (if stamp = [] then 0
      else (let unit = length stamp; separator = 1
            in (max_send_chars + separator) div (unit + separator)))"

definition enforce_action_policy :: "bot_action \<Rightarrow> bot_config \<Rightarrow> bot_action" where
  "enforce_action_policy action config =
     (case bot_action_policy config of
        ReactOrSend \<Rightarrow> action
      | PolicyReactOnly \<Rightarrow> (case action of SendMessage _ \<Rightarrow> as_react config | other \<Rightarrow> other)
      | NoOutbound \<Rightarrow> Noop)"

definition analyze_message_with_detector ::
  "rstr \<Rightarrow> bool \<Rightarrow> bot_config \<Rightarrow> (rstr \<Rightarrow> detection_report) \<Rightarrow> bot_action" where
  "analyze_message_with_detector content author_is_bot config det =
     (if author_is_bot then Noop
      else (let report = det content
            in if special_phrase_hit report \<or> str_contains content (special_phrase config)
               then SendMessage (stamp_text config)
               else (let total = total_count report
                     in if total = 0 then Noop
                        else (let capped = min total (max (max_count_cap config) 1)
                              in if capped = 1 then as_react config
                                 else (let by_len = max (max_repeats_for_len (stamp_text config)
                                             (bot_max_send_chars config)) 1;
                                           repeats = min capped by_len;
                                           content = (case render_send_template config repeats report of
                                               Some c \<Rightarrow> c
                                             | None \<Rightarrow> join_repeated (stamp_text config) repeats)
                                       in enforce_action_policy (SendMessage content) config)))))"

text \<open>The detector that never hits, when the dictionary cannot be loaded.\<close>

definition no_hit_detect :: "rstr \<Rightarrow> detection_report" where
  "no_hit_detect content =
     \<lparr>dr_backend = Fallback, matched_backend = lit ''fallback'', matched_readings = [],
      sequence_hits = 0, kanji_hits = 0, total_count = 0, special_phrase_hit = False,
      token_count = 0\<rparr>"

definition default_detector ::
  "(rstr \<Rightarrow> rstr) \<Rightarrow> rstr + tokenizer \<Rightarrow> detector_policy \<Rightarrow> rstr \<Rightarrow> detection_report" where
  "default_detector nfkc load policy =
     (case load of Inr t \<Rightarrow> detect nfkc (Some t) policy | Inl err \<Rightarrow> no_hit_detect)"

definition analyze_message ::
  "(rstr \<Rightarrow> rstr) \<Rightarrow> rstr + tokenizer \<Rightarrow> detector_policy \<Rightarrow> rstr \<Rightarrow> bool \<Rightarrow> bot_config \<Rightarrow>
   bot_action" where
  "analyze_message nfkc load canonical content author_is_bot config =
     analyze_message_with_detector content author_is_bot config
       (default_detector nfkc load canonical)"

interpretation no_hit: message_detector no_hit_detect
  by unfold_locales (simp_all add: no_hit_detect_def)

section \<open>Lengths and placeholders\<close>

lemma join_repeated_Suc:
  "join_repeated stamp (Suc n) =
   (if n = 0 then stamp else join_repeated stamp n @ [0x20] @ stamp)"
  by (simp add: join_repeated_def)

lemma join_repeated_0 [simp]: "join_repeated stamp 0 = []"
  by (simp add: join_repeated_def)

lemma length_join_repeated: "length (join_repeated stamp n) + 1 = n * (length stamp + 1) + of_bool (n = 0)"
  by (induction n) (auto simp: join_repeated_Suc)

lemma join_repeats_fit:
  assumes "stamp \<noteq> []" and "n \<le> max_repeats_for_len stamp m"
  shows "length (join_repeated stamp n) \<le> m"
proof (cases n)
  case (Suc k)
  have "n * (length stamp + 1) \<le> (m + 1) div (length stamp + 1) * (length stamp + 1)"
    using assms by (intro mult_le_mono1) (simp add: max_repeats_for_len_def)
  also have "\<dots> \<le> m + 1" by (rule div_times_less_eq_dividend)
  finally show ?thesis using length_join_repeated[of stamp n] Suc by simp
qed simp

lemma join_repeated_once: "length (join_repeated stamp 1) = length stamp"
  using length_join_repeated[of stamp 1] by simp

lemma render_bounded:
  "render_send_template config n report = Some c \<Longrightarrow> length c \<le> bot_max_send_chars config \<and> c \<noteq> []"
  by (auto simp: render_send_template_def Let_def split: if_splits)

text \<open>Whatever the ungoverned analysis sends fits the configured length, as soon as the
  stamp itself does; it never sends to a bot.\<close>

theorem analyze_send_bounded:
  assumes "stamp_text config \<noteq> []" and "length (stamp_text config) \<le> bot_max_send_chars config"
    and "analyze_message_with_detector content author_is_bot config det = SendMessage c"
  shows "length c \<le> bot_max_send_chars config \<and> \<not> author_is_bot"
proof -
  let ?m = "bot_max_send_chars config" and ?s = "stamp_text config"
  have join: "length (join_repeated ?s (min k (max (max_repeats_for_len ?s ?m) 1))) \<le> ?m" for k
  proof (cases "min k (max (max_repeats_for_len ?s ?m) 1) \<le> max_repeats_for_len ?s ?m")
    case True
    with assms(1) show ?thesis by (rule join_repeats_fit)
  next
    case False
    then have "min k (max (max_repeats_for_len ?s ?m) 1) = 1" by linarith
    then show ?thesis using assms(2) join_repeated_once by metis
  qed
  show ?thesis
    using assms(2,3) render_bounded[of config _ "det content"] join
    by (auto simp: analyze_message_with_detector_def Let_def enforce_action_policy_def
        as_react_def split: if_splits action_policy.splits option.splits)
qed

definition sample_bot :: bot_config where
  "sample_bot =
     \<lparr>special_phrase = lit ''so oo'', stamp_text = lit ''<:oo:1>'',
      reaction = \<lparr>emoji_id = 1, emoji_name = lit ''oo'', animated = False\<rparr>,
      max_count_cap = 48, bot_max_send_chars = 20, send_template = lit ''${stamp}'',
      bot_action_policy = ReactOrSend\<rparr>"

theorem analyze_send_bounded_witness:
  "analyze_message_with_detector (lit ''oooo'') False sample_bot
      (\<lambda>c. (no_hit_detect c)\<lparr>total_count := 2\<rparr>) = SendMessage (lit ''<:oo:1> <:oo:1>'') \<and>
   length (lit ''<:oo:1> <:oo:1>'') \<le> 20"
proof -
  have send: "analyze_message_with_detector (lit ''oooo'') False sample_bot
      (\<lambda>c. (no_hit_detect c)\<lparr>total_count := 2\<rparr>) = SendMessage (lit ''<:oo:1> <:oo:1>'')"
    by code_simp
  have "stamp_text sample_bot \<noteq> []" by (simp add: sample_bot_def lit_def)
  moreover have "length (stamp_text sample_bot) \<le> bot_max_send_chars sample_bot"
    by (simp add: sample_bot_def lit_def)
  ultimately have "length (lit ''<:oo:1> <:oo:1>'') \<le> bot_max_send_chars sample_bot"
    using analyze_send_bounded[OF _ _ send] by blast
  with send show ?thesis by (simp add: sample_bot_def)
qed

text \<open>The special phrase is answered with the stamp under every action policy: the
  ungoverned analysis applies \<open>action_policy\<close> only to the answer of several hits, so even
  \<open>NoOutbound\<close> sends here, and reacts to a single hit.\<close>

theorem analyze_ignores_policy:
  "\<exists>config. bot_action_policy config = NoOutbound \<and>
     analyze_message_with_detector (lit ''so oo'') False config no_hit_detect =
       SendMessage (stamp_text config) \<and>
     analyze_message_with_detector (lit ''oo'') False config
       (\<lambda>c. (no_hit_detect c)\<lparr>total_count := 1\<rparr>) = as_react config"
proof (intro exI conjI)
  let ?cfg = "sample_bot\<lparr>bot_action_policy := NoOutbound\<rparr>"
  show "bot_action_policy ?cfg = NoOutbound" by simp
  show "analyze_message_with_detector (lit ''so oo'') False ?cfg no_hit_detect =
      SendMessage (stamp_text ?cfg)" by code_simp
  show "analyze_message_with_detector (lit ''oo'') False ?cfg
      (\<lambda>c. (no_hit_detect c)\<lparr>total_count := 1\<rparr>) = as_react ?cfg" by code_simp
qed

end
