(* ===== verification/Response_Compiler.thy ===== *)
theory Response_Compiler
  imports Bot_Action Sandbox_Abi Runtime_Mode Suspicious_Input
begin

text \<open>
  The compiler from proposals to actions, \<^verbatim>\<open>src/security/response_compiler.rs\<close>, and the
  contract of its filters: every filter can only weaken an action.
\<close>

section \<open>Filters\<close>

definition apply_action_policy :: "bot_action \<Rightarrow> bot_config \<Rightarrow> bot_action" where
  "apply_action_policy action cfg =
     (case bot_action_policy cfg of
        ReactOrSend \<Rightarrow> action
      | PolicyReactOnly \<Rightarrow> (case action of SendMessage _ \<Rightarrow> as_react cfg | other \<Rightarrow> other)
      | NoOutbound \<Rightarrow> Noop)"

definition apply_mode_gate :: "runtime_mode \<Rightarrow> bot_action \<Rightarrow> bot_config \<Rightarrow> bot_action" where
  "apply_mode_gate mode action cfg =
     (case mode of
        Normal \<Rightarrow> action
      | ObserveOnly \<Rightarrow> Noop
      | AuditOnly \<Rightarrow> Noop
      | FullDisable \<Rightarrow> Noop
      | ReactOnly \<Rightarrow> (case action of SendMessage _ \<Rightarrow> as_react cfg | other \<Rightarrow> other))"

definition enforce_send_cap :: "bot_action \<Rightarrow> nat \<Rightarrow> bot_action" where
  "enforce_send_cap action max_send_chars =
     (case action of
        SendMessage content \<Rightarrow>
          (let capped = take max_send_chars content
           in if str_trim capped = [] then Noop else SendMessage capped)
      | other \<Rightarrow> other)"

definition is_invalid_action :: "bot_action \<Rightarrow> bool" where
  "is_invalid_action action =
     (case action of
        Noop \<Rightarrow> False
      | React i n _ \<Rightarrow> i = 0 \<or> n = []
      | SendMessage content \<Rightarrow> str_trim content = [])"

section \<open>Rendering\<close>

definition repeat_stamp :: "rstr \<Rightarrow> nat \<Rightarrow> rstr" where
  "repeat_stamp stamp n =
     foldl (\<lambda>out idx. (if 0 < idx then out @ [0x20] else out) @ stamp) [] [0..<n]"

definition render_template ::
  "rstr \<Rightarrow> nat \<Rightarrow> rstr \<Rightarrow> rstr \<Rightarrow> rstr \<Rightarrow> rstr \<Rightarrow> rstr option" where
  "render_template template count stamp backend reading action_kind =
     (let output = replace_all template (placeholders_of count stamp backend reading action_kind)
      in if str_contains output (lit ''${'') then None
         else if output = stamp then Some (repeat_stamp stamp count)
         else Some output)"

section \<open>The compiler\<close>

definition proposal_to_action ::
  "action_proposal \<Rightarrow> bot_config \<Rightarrow> nat \<Rightarrow> rstr \<Rightarrow> rstr option \<Rightarrow> bot_action" where
  "proposal_to_action proposal cfg detector_total_count backend reading =
     (case proposal of
        ProposeNoop \<Rightarrow> Noop
      | Defer \<Rightarrow> Noop
      | Reject _ \<Rightarrow> Noop
      | ProposeSuspicious \<Rightarrow> Noop
      | SpecialPhrase \<Rightarrow> SendMessage (stamp_text cfg)
      | ReactOnce \<Rightarrow> as_react cfg
      | SendStamped count \<Rightarrow>
          (let repeats = min (unat count) (max detector_total_count 1)
           in if repeats \<le> 1 then as_react cfg
              else (case render_template (send_template cfg) repeats (stamp_text cfg) backend
                      (case reading of Some r \<Rightarrow> r | None \<Rightarrow> []) (lit ''send_message'') of
                      Some content \<Rightarrow>
                        if str_trim content \<noteq> [] then SendMessage content else Noop
                    | None \<Rightarrow> Noop)))"

record compile_context =
  cc_proposal :: action_proposal
  cc_mode :: runtime_mode
  cc_suspicion :: suspicion_level
  cc_bot :: bot_config
  cc_max_send_chars :: nat
  cc_matched_backend :: rstr
  cc_matched_reading :: "rstr option"
  cc_count_cap :: nat
  cc_detector_total_count :: nat

definition compile_response :: "compile_context \<Rightarrow> bot_action" where
  "compile_response ctx =
     (let capped_count = min (cc_detector_total_count ctx) (max (cc_count_cap ctx) 1);
          proposed = proposal_to_action (cc_proposal ctx) (cc_bot ctx) capped_count
            (cc_matched_backend ctx) (cc_matched_reading ctx);
          softened = (if cc_suspicion ctx = SuspicionSoft \<and> is_send proposed
            then as_react (cc_bot ctx) else proposed);
          gated = apply_mode_gate (cc_mode ctx) softened (cc_bot ctx);
          policy_applied = apply_action_policy gated (cc_bot ctx);
          capped = enforce_send_cap policy_applied (cc_max_send_chars ctx)
      in if is_invalid_action capped then Noop else capped)"

definition compile_response_from_detection ::
  "action_proposal \<Rightarrow> runtime_mode \<Rightarrow> suspicion_level \<Rightarrow> bot_config \<Rightarrow> nat \<Rightarrow> nat \<Rightarrow>
   detection_report option \<Rightarrow> bot_action" where
  "compile_response_from_detection proposal mode suspicion cfg max_send_chars count_cap detection =
     compile_response
       \<lparr>cc_proposal = proposal, cc_mode = mode, cc_suspicion = suspicion, cc_bot = cfg,
        cc_max_send_chars = max_send_chars,
        cc_matched_backend = (case detection of Some d \<Rightarrow> matched_backend d
          | None \<Rightarrow> lit ''morphological_reading''),
        cc_matched_reading = (case detection of
            Some d \<Rightarrow> (case matched_readings d of r # _ \<Rightarrow> Some r | [] \<Rightarrow> None)
          | None \<Rightarrow> None),
        cc_count_cap = count_cap,
        cc_detector_total_count = (case detection of Some d \<Rightarrow> total_count d | None \<Rightarrow> 0)\<rparr>"

section \<open>The contract of a filter\<close>

text \<open>
  \<open>gate\<close> filters actions with \<open>fallback\<close> as its reaction: a message that comes out is the
  beginning of a message that went in, and a reaction that comes out went in or replaces a message.
\<close>

locale action_filter =
  fixes gate :: "bot_action \<Rightarrow> bot_action" and fallback :: bot_action
  assumes gate_send: "gate a = SendMessage c \<Longrightarrow> \<exists>c'. a = SendMessage c' \<and> prefix c c'"
    and gate_react: "gate a = React i n x \<Longrightarrow>
      a = React i n x \<or> (\<exists>c. a = SendMessage c) \<and> React i n x = fallback"
begin

lemma gate_noop: "gate Noop = Noop"
  using gate_send[of Noop] gate_react[of Noop] by (cases "gate Noop") auto

lemma gate_never_upgrades: "gate (React i n x) \<noteq> SendMessage c"
  using gate_send by blast

lemma gate_shortens: "gate (SendMessage c) = SendMessage c' \<Longrightarrow> length c' \<le> length c"
  using gate_send prefix_length_le by blast

end

lemma action_filter_comp:
  assumes f: "action_filter f fb" and g: "action_filter g fb"
  shows "action_filter (\<lambda>a. f (g a)) fb"
proof
  fix a c assume "f (g a) = SendMessage c"
  then obtain d where d: "g a = SendMessage d" "prefix c d"
    using action_filter.gate_send[OF f] by blast
  then obtain e where "a = SendMessage e" "prefix d e"
    using action_filter.gate_send[OF g] by blast
  with d(2) show "\<exists>c'. a = SendMessage c' \<and> prefix c c'"
    using prefix_order.trans by blast
next
  fix a i n x assume "f (g a) = React i n x"
  then consider "g a = React i n x" | d where "g a = SendMessage d" "React i n x = fb"
    using action_filter.gate_react[OF f] by blast
  then show "a = React i n x \<or> (\<exists>c. a = SendMessage c) \<and> React i n x = fb"
  proof cases
    case 1
    then show ?thesis by (rule action_filter.gate_react[OF g])
  next
    case 2
    then show ?thesis using action_filter.gate_send[OF g] by blast
  qed
qed

interpretation mode_gate: action_filter "\<lambda>a. apply_mode_gate mode a cfg" "as_react cfg" for mode cfg
  by unfold_locales
    (auto simp: apply_mode_gate_def as_react_def split: runtime_mode.splits bot_action.splits)

interpretation policy_gate: action_filter "\<lambda>a. apply_action_policy a cfg" "as_react cfg" for cfg
  by unfold_locales
    (auto simp: apply_action_policy_def as_react_def split: action_policy.splits bot_action.splits)

interpretation send_cap: action_filter "\<lambda>a. enforce_send_cap a m" fb for m fb
  by unfold_locales
    (auto simp: enforce_send_cap_def Let_def take_is_prefix split: bot_action.splits if_splits)

interpretation outbound_policy: action_filter "\<lambda>a. enforce_action_policy a cfg" "as_react cfg" for cfg
  by unfold_locales
    (auto simp: enforce_action_policy_def as_react_def split: action_policy.splits bot_action.splits)

text \<open>The filters after rendering, as one filter.\<close>

definition soften :: "suspicion_level \<Rightarrow> bot_config \<Rightarrow> bot_action \<Rightarrow> bot_action" where
  "soften suspicion cfg a = (if suspicion = SuspicionSoft \<and> is_send a then as_react cfg else a)"

definition drop_invalid :: "bot_action \<Rightarrow> bot_action" where
  "drop_invalid a = (if is_invalid_action a then Noop else a)"

definition filter_chain :: "compile_context \<Rightarrow> bot_action \<Rightarrow> bot_action" where
  "filter_chain ctx a =
     drop_invalid (enforce_send_cap (apply_action_policy (apply_mode_gate (cc_mode ctx)
       (soften (cc_suspicion ctx) (cc_bot ctx) a) (cc_bot ctx)) (cc_bot ctx)) (cc_max_send_chars ctx))"

definition proposed_action :: "compile_context \<Rightarrow> bot_action" where
  "proposed_action ctx =
     proposal_to_action (cc_proposal ctx) (cc_bot ctx)
       (min (cc_detector_total_count ctx) (max (cc_count_cap ctx) 1))
       (cc_matched_backend ctx) (cc_matched_reading ctx)"

lemma compile_filter: "compile_response ctx = filter_chain ctx (proposed_action ctx)"
  by (simp add: compile_response_def filter_chain_def proposed_action_def drop_invalid_def
      soften_def Let_def)

interpretation softening: action_filter "soften s cfg" "as_react cfg" for s cfg
  by unfold_locales (auto simp: soften_def as_react_def elim: is_send.elims split: if_splits)

interpretation validity: action_filter drop_invalid fb for fb
  by unfold_locales (auto simp: drop_invalid_def split: if_splits)

interpretation chain: action_filter "filter_chain ctx" "as_react (cc_bot ctx)" for ctx
  unfolding filter_chain_def
  by (rule action_filter_comp[OF validity.action_filter_axioms]
      action_filter_comp[OF send_cap.action_filter_axioms]
      action_filter_comp[OF policy_gate.action_filter_axioms]
      action_filter_comp[OF mode_gate.action_filter_axioms]
      softening.action_filter_axioms)+

section \<open>What the compiler lets through\<close>

definition send_permitted :: "compile_context \<Rightarrow> bool" where
  "send_permitted ctx \<longleftrightarrow> cc_mode ctx = Normal \<and>
     bot_action_policy (cc_bot ctx) = ReactOrSend \<and> cc_suspicion ctx \<noteq> SuspicionSoft"

definition react_permitted :: "compile_context \<Rightarrow> bool" where
  "react_permitted ctx \<longleftrightarrow> (cc_mode ctx = Normal \<or> cc_mode ctx = ReactOnly) \<and>
     bot_action_policy (cc_bot ctx) \<noteq> NoOutbound"

definition valid_react :: "bot_config \<Rightarrow> bool" where
  "valid_react cfg \<longleftrightarrow> emoji_id (reaction cfg) \<noteq> 0 \<and> emoji_name (reaction cfg) \<noteq> []"

definition guarded_react :: "compile_context \<Rightarrow> bot_action" where
  "guarded_react ctx =
     (if react_permitted ctx \<and> valid_react (cc_bot ctx) then as_react (cc_bot ctx) else Noop)"

lemma filter_chain_send [gate_simps]:
  "filter_chain ctx (SendMessage c) =
   (if send_permitted ctx
    then (if str_trim (take (cc_max_send_chars ctx) c) = [] then Noop
          else SendMessage (take (cc_max_send_chars ctx) c))
    else guarded_react ctx)"
  by (auto simp: filter_chain_def soften_def apply_mode_gate_def apply_action_policy_def
      enforce_send_cap_def drop_invalid_def is_invalid_action_def send_permitted_def
      guarded_react_def react_permitted_def valid_react_def as_react_def Let_def
      split: runtime_mode.splits action_policy.splits)

lemma filter_chain_react [gate_simps]:
  "filter_chain ctx (as_react (cc_bot ctx)) = guarded_react ctx"
  by (auto simp: filter_chain_def soften_def apply_mode_gate_def apply_action_policy_def
      enforce_send_cap_def drop_invalid_def is_invalid_action_def
      guarded_react_def react_permitted_def valid_react_def as_react_def
      split: runtime_mode.splits action_policy.splits)

lemma filter_chain_noop [gate_simps]: "filter_chain ctx Noop = Noop"
  by (rule chain.gate_noop)

lemma proposed_cases:
  "proposed_action ctx = Noop \<or> proposed_action ctx = as_react (cc_bot ctx) \<or>
   (\<exists>c. proposed_action ctx = SendMessage c)"
  by (auto simp: proposed_action_def proposal_to_action_def Let_def
      split: action_proposal.splits option.splits)

lemma compile_exact:
  "compile_response ctx = (case proposed_action ctx of
     Noop \<Rightarrow> Noop
   | React _ _ _ \<Rightarrow> guarded_react ctx
   | SendMessage c \<Rightarrow>
       if send_permitted ctx
       then (if str_trim (take (cc_max_send_chars ctx) c) = [] then Noop
             else SendMessage (take (cc_max_send_chars ctx) c))
       else guarded_react ctx)"
  using proposed_cases[of ctx]
  by (auto simp: compile_filter gate_simps as_react_def split: bot_action.splits)
    (simp_all add: filter_chain_react[unfolded as_react_def])

lemma repeats_two: "\<not> min a (max (min t (c :: nat)) 1) \<le> 1 \<Longrightarrow> 2 \<le> a \<and> 2 \<le> t"
  by (simp add: min_def max_def split: if_splits)

text \<open>What a stamp proposal is compiled to before the filters.\<close>

lemma proposed_stamped:
  assumes "cc_proposal ctx = SendStamped k"
  shows "proposed_action ctx = Noop \<or> proposed_action ctx = as_react (cc_bot ctx) \<or>
    (\<exists>c n. proposed_action ctx = SendMessage c \<and> str_trim c \<noteq> [] \<and> 2 \<le> unat k \<and>
      2 \<le> cc_detector_total_count ctx \<and>
      render_template (send_template (cc_bot ctx)) n (stamp_text (cc_bot ctx))
        (cc_matched_backend ctx)
        (case cc_matched_reading ctx of Some r \<Rightarrow> r | None \<Rightarrow> []) (lit ''send_message'') = Some c)"
proof -
  let ?n = "min (unat k) (max (min (cc_detector_total_count ctx) (max (cc_count_cap ctx) 1)) 1)"
  let ?r = "render_template (send_template (cc_bot ctx)) ?n (stamp_text (cc_bot ctx))
    (cc_matched_backend ctx)
    (case cc_matched_reading ctx of Some r \<Rightarrow> r | None \<Rightarrow> []) (lit ''send_message'')"
  have eq: "proposed_action ctx = (if ?n \<le> 1 then as_react (cc_bot ctx)
      else (case ?r of Some c \<Rightarrow> if str_trim c \<noteq> [] then SendMessage c else Noop | None \<Rightarrow> Noop))"
    unfolding proposed_action_def proposal_to_action_def assms Let_def action_proposal.case ..
  show ?thesis
  proof (cases "?n \<le> 1")
    case True
    then show ?thesis unfolding eq by simp
  next
    case False
    then show ?thesis
      using repeats_two[OF False] unfolding eq by (cases ?r) auto
  qed
qed

lemma proposed_other:
  "proposed_action ctx = (case cc_proposal ctx of
     SpecialPhrase \<Rightarrow> SendMessage (stamp_text (cc_bot ctx))
   | ReactOnce \<Rightarrow> as_react (cc_bot ctx)
   | _ \<Rightarrow> Noop)" if "\<forall>k. cc_proposal ctx \<noteq> SendStamped k"
  using that by (cases "cc_proposal ctx") (simp_all add: proposed_action_def proposal_to_action_def)

lemma proposed_send:
  assumes "proposed_action ctx = SendMessage c"
  shows "cc_proposal ctx = SpecialPhrase \<and> c = stamp_text (cc_bot ctx) \<or>
   (\<exists>n. cc_proposal ctx = SendStamped n \<and> 2 \<le> unat n \<and> 2 \<le> cc_detector_total_count ctx)"
proof (cases "\<exists>k. cc_proposal ctx = SendStamped k")
  case True
  then obtain k where k: "cc_proposal ctx = SendStamped k" by blast
  then show ?thesis using proposed_stamped[OF k] assms by (auto simp: as_react_def)
next
  case False
  then show ?thesis
    using assms proposed_other[of ctx] by (auto simp: as_react_def split: action_proposal.splits)
qed

lemma proposed_react:
  assumes "proposed_action ctx = React i n x"
  shows "React i n x = as_react (cc_bot ctx) \<and>
   (cc_proposal ctx = ReactOnce \<or> (\<exists>k. cc_proposal ctx = SendStamped k))"
  using assms proposed_cases[of ctx] proposed_other[of ctx]
  by (auto split: action_proposal.splits)

lemma compile_safe:
  "case compile_response ctx of
     Noop \<Rightarrow> True
   | React i n x \<Rightarrow>
       React i n x = as_react (cc_bot ctx) \<and> valid_react (cc_bot ctx) \<and> react_permitted ctx \<and>
       (cc_proposal ctx = ReactOnce \<or> cc_proposal ctx = SpecialPhrase \<or>
        (\<exists>k. cc_proposal ctx = SendStamped k))
   | SendMessage c \<Rightarrow>
       send_permitted ctx \<and> length c \<le> cc_max_send_chars ctx \<and> str_trim c \<noteq> [] \<and>
       (cc_proposal ctx = SpecialPhrase \<and> prefix c (stamp_text (cc_bot ctx)) \<or>
        (\<exists>k. cc_proposal ctx = SendStamped k \<and> 2 \<le> unat k \<and> 2 \<le> cc_detector_total_count ctx))"
proof (cases "proposed_action ctx")
  case Noop
  then show ?thesis by (simp add: compile_exact)
next
  case (React i n x)
  then show ?thesis
    using proposed_react[OF React] by (auto simp: compile_exact guarded_react_def as_react_def)
next
  case (SendMessage c)
  have kind: "cc_proposal ctx = SpecialPhrase \<and> c = stamp_text (cc_bot ctx) \<or>
      (\<exists>k. cc_proposal ctx = SendStamped k \<and> 2 \<le> unat k \<and> 2 \<le> cc_detector_total_count ctx)"
    using proposed_send[OF SendMessage] by blast
  show ?thesis
    using kind by (auto simp: compile_exact SendMessage guarded_react_def as_react_def take_is_prefix)
qed

text \<open>C9: whatever the proposal, the compiled action is allowed: a message only in normal mode
  under the sending policy and without soft suspicion, within the length limit, not blank, and
  either the special answer or stamps that both the sandbox and the trusted detector counted at
  least twice; a reaction only with the configured, valid emoji and where reactions are permitted.\<close>

theorem compile_response_safe:
  "case compile_response ctx of
     Noop \<Rightarrow> True
   | React i n x \<Rightarrow>
       React i n x = as_react (cc_bot ctx) \<and> valid_react (cc_bot ctx) \<and> react_permitted ctx \<and>
       (cc_proposal ctx = ReactOnce \<or> cc_proposal ctx = SpecialPhrase \<or>
        (\<exists>k. cc_proposal ctx = SendStamped k))
   | SendMessage c \<Rightarrow>
       send_permitted ctx \<and> length c \<le> cc_max_send_chars ctx \<and> str_trim c \<noteq> [] \<and>
       (cc_proposal ctx = SpecialPhrase \<and> prefix c (stamp_text (cc_bot ctx)) \<or>
        (\<exists>k. cc_proposal ctx = SendStamped k \<and> 2 \<le> unat k \<and> 2 \<le> cc_detector_total_count ctx))"
  by (rule compile_safe)

section \<open>Placeholders\<close>

lemma open_marker: "lit ''${'' = [36, 123]"
  by (simp add: lit_def)

lemma marker_append:
  "sublist [a, b] (xs @ ys) \<longleftrightarrow>
   sublist [a, b] xs \<or> sublist [a, b] ys \<or> (xs \<noteq> [] \<and> ys \<noteq> [] \<and> last xs = a \<and> hd ys = b)"
proof (induction xs)
  case (Cons x xs)
  have "prefix [a, b] (x # xs @ ys) \<longleftrightarrow>
      prefix [a, b] (x # xs) \<or> (xs = [] \<and> ys \<noteq> [] \<and> x = a \<and> hd ys = b)"
    by (cases xs; cases ys) auto
  with Cons show ?case by (cases xs) (auto simp: sublist_Cons_right)
qed simp

lemma repeat_stamp_join: "repeat_stamp stamp n = join_repeated stamp n"
  by (simp add: repeat_stamp_def join_repeated_def)

lemma join_clean: "\<not> sublist [36, 123] stamp \<Longrightarrow> \<not> sublist [36, 123] (join_repeated stamp n)"
proof (induction n)
  case (Suc n)
  have one: "\<not> sublist [36, 123] [0x20]" by (simp add: sublist_Cons_right)
  have "\<not> sublist [36, 123] ([0x20] @ stamp)"
    unfolding marker_append using Suc.prems one by simp
  then have "\<not> sublist [36, 123] (join_repeated stamp n @ [0x20] @ stamp)"
    unfolding marker_append[of _ _ "join_repeated stamp n"] using Suc by simp
  then show ?case using Suc.prems by (simp add: join_repeated_Suc)
qed simp

lemma render_clean:
  "render_template t n s b r k = Some c \<Longrightarrow> \<not> sublist [36, 123] c"
  by (auto simp: render_template_def Let_def str_contains_iff open_marker repeat_stamp_join
      join_clean split: if_splits)

text \<open>An answer to counted hits never shows an unexpanded placeholder to the channel: the
  marker \<^verbatim>\<open>${\<close> does not occur in it, whatever the template, the stamp and the readings are.\<close>

theorem stamped_send_clean:
  assumes "cc_proposal ctx = SendStamped k" and "compile_response ctx = SendMessage c"
  shows "\<not> sublist (lit ''${'') c"
proof -
  obtain d where d: "proposed_action ctx = SendMessage d" "prefix c d"
    using assms(2) chain.gate_send unfolding compile_filter by blast
  have "\<not> sublist [36, 123] d"
    using proposed_stamped[OF assms(1)] d(1) render_clean by (auto simp: as_react_def)
  then show ?thesis
    using d(2) prefix_imp_sublist sublist_order.order.trans unfolding open_marker by blast
qed

definition sample_context :: compile_context where
  "sample_context =
     \<lparr>cc_proposal = SendStamped 3, cc_mode = Normal, cc_suspicion = SuspicionNone,
      cc_bot = sample_bot, cc_max_send_chars = 300,
      cc_matched_backend = lit ''morphological_reading'', cc_matched_reading = None,
      cc_count_cap = 48, cc_detector_total_count = 2\<rparr>"

theorem stamped_send_clean_witness:
  "compile_response sample_context = SendMessage (lit ''<:oo:1> <:oo:1>'') \<and>
   \<not> sublist (lit ''${'') (lit ''<:oo:1> <:oo:1>'')"
proof -
  have "render_template (lit ''${stamp}'') (Suc (Suc 0)) (lit ''<:oo:1>'') (lit ''morphological_reading'') []
      (lit ''send_message'') = Some (lit ''<:oo:1> <:oo:1>'')"
    unfolding numeral_2_eq_2[symmetric] by code_simp
  moreover have "str_trim (lit ''<:oo:1> <:oo:1>'') = lit ''<:oo:1> <:oo:1>''" by code_simp
  moreover have "take 300 (lit ''<:oo:1> <:oo:1>'') = lit ''<:oo:1> <:oo:1>''" by (simp add: lit_def)
  moreover have "lit ''<:oo:1> <:oo:1>'' \<noteq> []" by (simp add: lit_def)
  ultimately have "compile_response sample_context = SendMessage (lit ''<:oo:1> <:oo:1>'')"
    by (simp add: compile_exact proposed_action_def proposal_to_action_def sample_context_def
        sample_bot_def send_permitted_def)
  then show ?thesis
    using stamped_send_clean[of sample_context 3] by (simp add: sample_context_def)
qed

end
