(* ===== verification/Core_Governor.thy ===== *)
theory Core_Governor
  imports Response_Compiler Sandbox_Guest Event_Window Circuit_Breaker Duplicate_Guard Rate_Limiter
    Session_Budget
begin

text \<open>
  The trusted core, \<^verbatim>\<open>src/security/core_governor.rs\<close>: the state of the bot and the decision
  on one message, with every guard in the order of the code.  \<^verbatim>\<open>Instant::now()\<close>, read once per
  operation, is the argument \<open>now\<close>.  The analyzer, the detector, NFKC and the iteration order
  of hash maps are the fields of \<open>core_env\<close>.  Hash maps that are only looked up and inserted
  into are maps.
\<close>

section \<open>Data\<close>

record runtime_protection_config =
  duplicate_ttl_ms :: nat
  duplicate_cache_cap :: nat
  per_user_cooldown_ms :: nat
  per_channel_cooldown_ms :: nat
  per_guild_cooldown_ms :: nat
  global_cooldown_ms :: nat
  global_rate_per_sec :: rat
  global_rate_burst :: nat
  max_actions_per_message :: nat
  max_send_chars :: nat
  long_message_soft_chars :: nat
  long_message_hard_chars :: nat
  suspicious_repetition_threshold :: nat
  breaker_window_ms :: nat
  breaker_threshold :: nat
  breaker_open_ms :: nat
  sandbox_failure_window_ms :: nat
  sandbox_failure_threshold :: nat
  allow_guild_ids :: "nat list"
  deny_guild_ids :: "nat list"
  allow_channel_ids :: "nat list"
  deny_channel_ids :: "nat list"
  mode_override :: "runtime_mode option"
  emergency_kill_switch :: bool
  session_budget_low_watermark :: nat

record message_context =
  message_id :: nat
  author_id :: nat
  channel_id :: nat
  guild_id :: "nat option"
  author_is_bot :: bool

datatype suppress_reason =
    SelfTrigger | Duplicate | Cooldown | RateLimit | CircuitOpen | ChannelDenied | GuildDenied
  | ModeRestricted | Suspicious | InvalidAction

record action_decision =
  dec_action :: bot_action
  dec_mode :: runtime_mode
  dec_proposal :: action_proposal
  dec_suspicion :: suspicion_level
  dec_suppress_reason :: "suppress_reason option"

record runtime_metrics =
  analyzer_calls_total :: nat
  analyzer_traps_total :: nat
  analyzer_timeout_total :: nat
  messages_dropped_total :: nat
  duplicate_suppressed_total :: nat
  outbound_suppressed_total :: nat
  cooldown_hits_total :: nat
  invalid_request_prevented_total :: nat
  session_budget_low_total :: nat
  reconnect_attempts_total :: nat
  resume_failures_total :: nat
  mode_transitions_total :: nat

definition metrics_default :: runtime_metrics where
  "metrics_default =
     \<lparr>analyzer_calls_total = 0, analyzer_traps_total = 0, analyzer_timeout_total = 0,
      messages_dropped_total = 0, duplicate_suppressed_total = 0, outbound_suppressed_total = 0,
      cooldown_hits_total = 0, invalid_request_prevented_total = 0, session_budget_low_total = 0,
      reconnect_attempts_total = 0, resume_failures_total = 0, mode_transitions_total = 0\<rparr>"

section \<open>Cooldowns\<close>

record cooldown_map =
  cd_ttl :: duration
  cd_next_allowed :: "nat \<rightharpoonup> instant"

definition cooldown_map_new :: "duration \<Rightarrow> cooldown_map" where
  "cooldown_map_new ttl = \<lparr>cd_ttl = ttl, cd_next_allowed = Map.empty\<rparr>"

definition is_cooling :: "cooldown_map \<Rightarrow> nat \<Rightarrow> instant \<Rightarrow> bool" where
  "is_cooling m key now = (case cd_next_allowed m key of Some nxt \<Rightarrow> now < nxt | None \<Rightarrow> False)"

definition cooldown_mark :: "cooldown_map \<Rightarrow> nat \<Rightarrow> instant \<Rightarrow> cooldown_map" where
  "cooldown_mark m key now =
     m\<lparr>cd_next_allowed := (cd_next_allowed m)(key \<mapsto> now + cd_ttl m)\<rparr>"

section \<open>State\<close>

record 'a trusted_core =
  tc_analyzer :: 'a
  tc_bot_config :: bot_config
  tc_runtime :: runtime_protection_config
  tc_mode :: mode_state
  tc_duplicate_guard :: duplicate_guard
  tc_breaker :: breaker
  tc_outbound_bucket :: token_bucket
  tc_user_cooldown :: cooldown_map
  tc_channel_cooldown :: cooldown_map
  tc_guild_cooldown :: cooldown_map
  tc_global_cooldown :: cooldown_map
  tc_suspicious_cfg :: suspicious_config
  tc_session_budget :: session_budget
  tc_sandbox_failures :: "instant list"
  tc_last_detection :: "detection_report option"
  tc_metrics :: runtime_metrics

record 'a core_env =
  env_propose :: "'a \<Rightarrow> analyzer_request \<Rightarrow> 'a \<times> (analyzer_error + action_proposal)"
  env_detect :: "rstr \<Rightarrow> detection_report"
  env_nfkc :: "rstr \<Rightarrow> rstr"
  env_order :: hash_order

definition core_new ::
  "'a \<Rightarrow> bot_config \<Rightarrow> runtime_protection_config \<Rightarrow> instant \<Rightarrow> 'a trusted_core" where
  "core_new analyzer cfg runtime now =
     \<lparr>tc_analyzer = analyzer, tc_bot_config = cfg, tc_runtime = runtime,
      tc_mode = mode_state_new now,
      tc_duplicate_guard = duplicate_guard_new (from_millis (duplicate_ttl_ms runtime))
        (duplicate_cache_cap runtime),
      tc_breaker = breaker_new (from_millis (breaker_window_ms runtime))
        (breaker_threshold runtime) (from_millis (breaker_open_ms runtime)),
      tc_outbound_bucket = token_bucket_new (global_rate_burst runtime)
        (global_rate_per_sec runtime) now,
      tc_user_cooldown = cooldown_map_new (from_millis (per_user_cooldown_ms runtime)),
      tc_channel_cooldown = cooldown_map_new (from_millis (per_channel_cooldown_ms runtime)),
      tc_guild_cooldown = cooldown_map_new (from_millis (per_guild_cooldown_ms runtime)),
      tc_global_cooldown = cooldown_map_new (from_millis (global_cooldown_ms runtime)),
      tc_suspicious_cfg = \<lparr>sc_soft_char_limit = long_message_soft_chars runtime,
        sc_hard_char_limit = long_message_hard_chars runtime,
        sc_repetition_threshold = suspicious_repetition_threshold runtime\<rparr>,
      tc_session_budget = session_budget_new 1000 1000 (24 * 60 * 60)
        (session_budget_low_watermark runtime),
      tc_sandbox_failures = [], tc_last_detection = None, tc_metrics = metrics_default\<rparr>"

section \<open>Setters and recorders\<close>

definition set_mode_override :: "runtime_mode option \<Rightarrow> 'a trusted_core \<Rightarrow> 'a trusted_core" where
  "set_mode_override mode c = c\<lparr>tc_runtime := (tc_runtime c)\<lparr>mode_override := mode\<rparr>\<rparr>"

definition set_emergency_kill_switch :: "bool \<Rightarrow> 'a trusted_core \<Rightarrow> 'a trusted_core" where
  "set_emergency_kill_switch enabled c =
     c\<lparr>tc_runtime := (tc_runtime c)\<lparr>emergency_kill_switch := enabled\<rparr>\<rparr>"

definition set_access_lists ::
  "nat list \<Rightarrow> nat list \<Rightarrow> nat list \<Rightarrow> nat list \<Rightarrow> 'a trusted_core \<Rightarrow> 'a trusted_core" where
  "set_access_lists ag dg ac dc c =
     c\<lparr>tc_runtime := (tc_runtime c)\<lparr>allow_guild_ids := ag, deny_guild_ids := dg,
        allow_channel_ids := ac, deny_channel_ids := dc\<rparr>\<rparr>"

definition set_suspicious_thresholds ::
  "nat \<Rightarrow> nat \<Rightarrow> nat \<Rightarrow> 'a trusted_core \<Rightarrow> 'a trusted_core" where
  "set_suspicious_thresholds soft_chars hard_chars repetition c =
     c\<lparr>tc_suspicious_cfg := \<lparr>sc_soft_char_limit = soft_chars, sc_hard_char_limit = hard_chars,
        sc_repetition_threshold = max repetition 1\<rparr>\<rparr>"

definition reset_suspicious_thresholds :: "'a trusted_core \<Rightarrow> 'a trusted_core" where
  "reset_suspicious_thresholds c =
     c\<lparr>tc_suspicious_cfg := \<lparr>sc_soft_char_limit = long_message_soft_chars (tc_runtime c),
        sc_hard_char_limit = long_message_hard_chars (tc_runtime c),
        sc_repetition_threshold = max (suspicious_repetition_threshold (tc_runtime c)) 1\<rparr>\<rparr>"

definition update_session_budget ::
  "nat \<Rightarrow> nat \<Rightarrow> nat \<Rightarrow> 'a trusted_core \<Rightarrow> 'a trusted_core" where
  "update_session_budget tot remaining reset_after_secs c =
     c\<lparr>tc_session_budget := session_budget_new tot remaining reset_after_secs
        (session_budget_low_watermark (tc_runtime c))\<rparr>"

abbreviation bump ::
  "((nat \<Rightarrow> nat) \<Rightarrow> runtime_metrics \<Rightarrow> runtime_metrics) \<Rightarrow> 'a trusted_core \<Rightarrow> 'a trusted_core" where
  "bump field_update c \<equiv> c\<lparr>tc_metrics := field_update (\<lambda>n. sat_add n 1) (tc_metrics c)\<rparr>"

definition record_http_status :: "nat \<Rightarrow> instant \<Rightarrow> 'a trusted_core \<Rightarrow> 'a trusted_core" where
  "record_http_status status now c =
     (let c1 = (if status = 401 \<or> status = 403 \<or> status = 429
                then bump invalid_request_prevented_total_update c else c)
      in c1\<lparr>tc_breaker := breaker_record_status (tc_breaker c1) status now\<rparr>)"

definition record_reconnect_attempt :: "'a trusted_core \<Rightarrow> 'a trusted_core" where
  "record_reconnect_attempt c = bump reconnect_attempts_total_update c"

definition record_resume_failure :: "'a trusted_core \<Rightarrow> 'a trusted_core" where
  "record_resume_failure c = bump resume_failures_total_update c"

definition trim_sandbox_failures :: "instant \<Rightarrow> 'a trusted_core \<Rightarrow> 'a trusted_core" where
  "trim_sandbox_failures now c =
     c\<lparr>tc_sandbox_failures :=
        trim_window (from_millis (sandbox_failure_window_ms (tc_runtime c))) now
          (tc_sandbox_failures c)\<rparr>"

definition record_analyzer_error ::
  "instant \<Rightarrow> analyzer_error \<Rightarrow> 'a trusted_core \<Rightarrow> 'a trusted_core" where
  "record_analyzer_error now err c =
     (let c1 = (case err of AnalyzerTimeout \<Rightarrow> bump analyzer_timeout_total_update c
                | _ \<Rightarrow> bump analyzer_traps_total_update c);
          c2 = c1\<lparr>tc_sandbox_failures := tc_sandbox_failures c1 @ [now]\<rparr>
      in trim_sandbox_failures now c2)"

section \<open>The decision\<close>

definition mode_target ::
  "'a trusted_core \<Rightarrow> instant \<Rightarrow> runtime_mode \<times> mode_trigger" where
  "mode_target c now =
     (if emergency_kill_switch (tc_runtime c) then (FullDisable, EmergencyKillSwitch)
      else case mode_override (tc_runtime c) of
        Some override_mode \<Rightarrow> (override_mode, OperatorOverride)
      | None \<Rightarrow>
          if budget_is_low (tc_session_budget c) then (ReactOnly, SessionBudgetLow)
          else if breaker_is_open (tc_breaker c) now then (ObserveOnly, CircuitBreakerOpen)
          else if sandbox_failure_threshold (tc_runtime c) \<le> length (tc_sandbox_failures c)
          then (AuditOnly, SandboxFailureSpike)
          else (Normal, Recovery))"

definition recompute_mode :: "instant \<Rightarrow> 'a trusted_core \<Rightarrow> 'a trusted_core \<times> runtime_mode" where
  "recompute_mode now c =
     (let c1 = trim_sandbox_failures now c;
          target = mode_target c1 now;
          c2 = (if snd target = SessionBudgetLow then bump session_budget_low_total_update c1
                else c1);
          (mode', changed) = mode_transition (tc_mode c2) (fst target) (snd target) now;
          c3 = c2\<lparr>tc_mode := mode'\<rparr>;
          c4 = (if changed then bump mode_transitions_total_update c3 else c3)
      in (c4, ms_mode (tc_mode c4)))"

definition core_drop ::
  "runtime_mode \<Rightarrow> action_proposal \<Rightarrow> suspicion_level \<Rightarrow> suppress_reason \<Rightarrow> 'a trusted_core \<Rightarrow>
   'a trusted_core \<times> action_decision" where
  "core_drop mode proposal suspicion reason c =
     (bump outbound_suppressed_total_update (bump messages_dropped_total_update c),
      \<lparr>dec_action = Noop, dec_mode = mode, dec_proposal = proposal, dec_suspicion = suspicion,
       dec_suppress_reason = Some reason\<rparr>)"

definition allow_channel :: "'a trusted_core \<Rightarrow> nat \<Rightarrow> bool" where
  "allow_channel c cid =
     (if cid \<in> set (deny_channel_ids (tc_runtime c)) then False
      else if allow_channel_ids (tc_runtime c) = [] then True
      else cid \<in> set (allow_channel_ids (tc_runtime c)))"

definition allow_guild :: "'a trusted_core \<Rightarrow> nat option \<Rightarrow> bool" where
  "allow_guild c gid_opt =
     (case gid_opt of None \<Rightarrow> True
      | Some gid \<Rightarrow>
          if gid \<in> set (deny_guild_ids (tc_runtime c)) then False
          else if allow_guild_ids (tc_runtime c) = [] then True
          else gid \<in> set (allow_guild_ids (tc_runtime c)))"

definition is_outbound_proposal :: "action_proposal \<Rightarrow> bool" where
  "is_outbound_proposal proposal =
     (case proposal of SpecialPhrase \<Rightarrow> True | ReactOnce \<Rightarrow> True | SendStamped _ \<Rightarrow> True | _ \<Rightarrow> False)"

definition enforce_action_caps :: "bot_action \<Rightarrow> nat \<Rightarrow> bot_action" where
  "enforce_action_caps action cap =
     (case action of
        SendMessage content \<Rightarrow>
          (let capped = take cap content in if capped = [] then Noop else SendMessage capped)
      | React i n x \<Rightarrow> if i = 0 \<or> n = [] then Noop else React i n x
      | Noop \<Rightarrow> Noop)"

text \<open>The guild is marked before the global cooldown is looked at.\<close>

definition cooldown_allows ::
  "message_context \<Rightarrow> instant \<Rightarrow> 'a trusted_core \<Rightarrow> 'a trusted_core \<times> bool" where
  "cooldown_allows ctx now c =
     (if is_cooling (tc_user_cooldown c) (author_id ctx) now then (c, False)
      else if is_cooling (tc_channel_cooldown c) (channel_id ctx) now then (c, False)
      else
        (let (c1, cooling) =
           (case guild_id ctx of
              None \<Rightarrow> (c, False)
            | Some gid \<Rightarrow>
                if is_cooling (tc_guild_cooldown c) gid now then (c, True)
                else (c\<lparr>tc_guild_cooldown := cooldown_mark (tc_guild_cooldown c) gid now\<rparr>, False))
         in if cooling then (c1, False)
            else if is_cooling (tc_global_cooldown c1) 0 now then (c1, False)
            else (c1\<lparr>tc_user_cooldown := cooldown_mark (tc_user_cooldown c1) (author_id ctx) now,
                     tc_channel_cooldown :=
                       cooldown_mark (tc_channel_cooldown c1) (channel_id ctx) now,
                     tc_global_cooldown := cooldown_mark (tc_global_cooldown c1) 0 now\<rparr>, True)))"

definition core_finalize ::
  "message_context \<Rightarrow> action_proposal \<Rightarrow> suspicion_level \<Rightarrow> runtime_mode \<Rightarrow> instant \<Rightarrow>
   detection_report option \<Rightarrow> 'a trusted_core \<Rightarrow> 'a trusted_core \<times> action_decision" where
  "core_finalize ctx proposal suspicion mode now detection c =
     (let action = compile_response_from_detection proposal mode suspicion (tc_bot_config c)
            (max_send_chars (tc_runtime c)) (max_count_cap (tc_bot_config c)) detection
      in if action = Noop
         then (if mode \<noteq> Normal \<and> is_outbound_proposal proposal
               then core_drop mode proposal suspicion ModeRestricted c
               else if proposal = ProposeSuspicious
               then core_drop mode proposal suspicion Suspicious c
               else if is_outbound_proposal proposal
               then core_drop mode proposal suspicion InvalidAction c
               else (c, \<lparr>dec_action = action, dec_mode = mode, dec_proposal = proposal,
                         dec_suspicion = suspicion, dec_suppress_reason = None\<rparr>))
         else if \<not> breaker_allows_outbound (tc_breaker c) now
         then core_drop mode proposal suspicion CircuitOpen c
         else (let (bucket, taken) = bucket_try_take (tc_outbound_bucket c) 1 now;
                   c1 = c\<lparr>tc_outbound_bucket := bucket\<rparr>
               in if \<not> taken then core_drop mode proposal suspicion RateLimit c1
                  else if max_actions_per_message (tc_runtime c1) = 0
                  then core_drop mode proposal suspicion InvalidAction c1
                  else (let (c2, allowed) = cooldown_allows ctx now c1
                        in if \<not> allowed
                           then core_drop mode proposal suspicion Cooldown
                                  (bump cooldown_hits_total_update c2)
                           else (let action' = enforce_action_caps action
                                       (max_send_chars (tc_runtime c2))
                                 in if is_invalid_action action'
                                    then core_drop mode proposal suspicion InvalidAction c2
                                    else (c2, \<lparr>dec_action = action', dec_mode = mode,
                                               dec_proposal = proposal,
                                               dec_suspicion = suspicion,
                                               dec_suppress_reason = None\<rparr>)))))"

definition request_proposal ::
  "'a core_env \<Rightarrow> rstr \<Rightarrow> suspicion_level \<Rightarrow> detection_report \<Rightarrow> instant \<Rightarrow> 'a trusted_core \<Rightarrow>
   'a trusted_core \<times> action_proposal" where
  "request_proposal env content suspicion detection now c =
     (if suspicion = SuspicionHard then (c, ProposeSuspicious)
      else (let c1 = bump analyzer_calls_total_update c;
                req = \<lparr>req_content = content,
                       req_kanji_count = backend_count_for_sandbox detection,
                       req_special_phrase_hit = special_phrase_hit detection\<rparr>;
                (a', result) = env_propose env (tc_analyzer c1) req;
                c2 = c1\<lparr>tc_analyzer := a'\<rparr>
            in case result of
                 Inr p \<Rightarrow> (c2, p)
               | Inl err \<Rightarrow> (record_analyzer_error now err c2, Defer)))"

definition decide_message ::
  "'a core_env \<Rightarrow> message_context \<Rightarrow> rstr \<Rightarrow> instant \<Rightarrow> 'a trusted_core \<Rightarrow>
   'a trusted_core \<times> action_decision" where
  "decide_message env ctx content now c =
     (let (c1, mode) = recompute_mode now c
      in if mode = FullDisable then core_drop mode ProposeNoop SuspicionNone ModeRestricted c1
         else if author_is_bot ctx then core_drop mode ProposeNoop SuspicionNone SelfTrigger c1
         else if \<not> allow_guild c1 (guild_id ctx)
         then core_drop mode ProposeNoop SuspicionNone GuildDenied c1
         else if \<not> allow_channel c1 (channel_id ctx)
         then core_drop mode ProposeNoop SuspicionNone ChannelDenied c1
         else (let (guard, is_dup) = is_duplicate_and_mark (env_order env)
                     (tc_duplicate_guard c1) (message_id ctx) now;
                   c2 = c1\<lparr>tc_duplicate_guard := guard\<rparr>
               in if is_dup
                  then core_drop mode ProposeNoop SuspicionNone Duplicate
                         (bump duplicate_suppressed_total_update c2)
                  else (let suspicion = classify_suspicious_input (env_nfkc env) content
                              (tc_suspicious_cfg c2);
                            detection = env_detect env content;
                            c3 = c2\<lparr>tc_last_detection := Some detection\<rparr>;
                            (c4, proposal) = request_proposal env content suspicion detection now c3
                        in core_finalize ctx proposal suspicion mode now (Some detection) c4)))"

section \<open>Cooldown maps\<close>

text \<open>
  The interface of a keyed cooldown: marking a key at \<open>now\<close> closes it until \<open>now + ttl\<close> and
  changes no other key.
\<close>

locale keyed_cooldown =
  fixes cooling :: "'m \<Rightarrow> 'k \<Rightarrow> instant \<Rightarrow> bool"
    and mark :: "'m \<Rightarrow> 'k \<Rightarrow> instant \<Rightarrow> 'm"
    and ttl :: "'m \<Rightarrow> duration"
  assumes cooling_mark: "cooling (mark m k now) k' t \<longleftrightarrow>
      (if k' = k then t < now + ttl m else cooling m k' t)"
    and ttl_mark: "ttl (mark m k now) = ttl m"
    and cooling_antimono: "cooling m k t \<Longrightarrow> t' \<le> t \<Longrightarrow> cooling m k t'"
begin

text \<open>\<open>closed m k x\<close>: the key stays closed at every time before \<open>x\<close>.\<close>

definition closed :: "'m \<Rightarrow> 'k \<Rightarrow> instant \<Rightarrow> bool" where
  "closed m k x \<longleftrightarrow> (\<forall>t < x. cooling m k t)"

lemma closed_mark_self: "closed (mark m k now) k (now + ttl m)"
  by (simp add: closed_def cooling_mark)

text \<open>A key that is open can be marked without reopening any key early.\<close>

lemma closed_mark:
  assumes "closed m k x" and "\<not> cooling m k' now"
  shows "closed (mark m k' now) k x"
  unfolding closed_def
proof (intro allI impI)
  fix t assume t: "t < x"
  with assms(1) have "cooling m k t" by (simp add: closed_def)
  moreover have "t < now" if "k = k'"
  proof (rule ccontr)
    assume "\<not> t < now"
    then show False using cooling_antimono[OF \<open>cooling m k t\<close>, of now] assms(2) that by simp
  qed
  ultimately show "cooling (mark m k' now) k t" by (auto simp: cooling_mark)
qed

lemma open_after: "closed m k x \<Longrightarrow> \<not> cooling m k t \<Longrightarrow> x \<le> t"
  by (auto simp: closed_def not_less[symmetric])

end

interpretation cooldowns: keyed_cooldown is_cooling cooldown_mark cd_ttl
  by unfold_locales (auto simp: is_cooling_def cooldown_mark_def split: option.splits)

section \<open>Frames\<close>

lemma recompute_frame [frame_simps]:
  "tc_analyzer (fst (recompute_mode now c)) = tc_analyzer c"
  "tc_bot_config (fst (recompute_mode now c)) = tc_bot_config c"
  "tc_runtime (fst (recompute_mode now c)) = tc_runtime c"
  "tc_duplicate_guard (fst (recompute_mode now c)) = tc_duplicate_guard c"
  "tc_breaker (fst (recompute_mode now c)) = tc_breaker c"
  "tc_outbound_bucket (fst (recompute_mode now c)) = tc_outbound_bucket c"
  "tc_user_cooldown (fst (recompute_mode now c)) = tc_user_cooldown c"
  "tc_channel_cooldown (fst (recompute_mode now c)) = tc_channel_cooldown c"
  "tc_guild_cooldown (fst (recompute_mode now c)) = tc_guild_cooldown c"
  "tc_global_cooldown (fst (recompute_mode now c)) = tc_global_cooldown c"
  "tc_suspicious_cfg (fst (recompute_mode now c)) = tc_suspicious_cfg c"
  "tc_session_budget (fst (recompute_mode now c)) = tc_session_budget c"
  by (simp_all add: recompute_mode_def trim_sandbox_failures_def Let_def split: prod.split)

lemma request_frame [frame_simps]:
  "tc_bot_config (fst (request_proposal env content s det now c)) = tc_bot_config c"
  "tc_runtime (fst (request_proposal env content s det now c)) = tc_runtime c"
  "tc_mode (fst (request_proposal env content s det now c)) = tc_mode c"
  "tc_duplicate_guard (fst (request_proposal env content s det now c)) = tc_duplicate_guard c"
  "tc_breaker (fst (request_proposal env content s det now c)) = tc_breaker c"
  "tc_outbound_bucket (fst (request_proposal env content s det now c)) = tc_outbound_bucket c"
  "tc_user_cooldown (fst (request_proposal env content s det now c)) = tc_user_cooldown c"
  "tc_channel_cooldown (fst (request_proposal env content s det now c)) = tc_channel_cooldown c"
  "tc_guild_cooldown (fst (request_proposal env content s det now c)) = tc_guild_cooldown c"
  "tc_global_cooldown (fst (request_proposal env content s det now c)) = tc_global_cooldown c"
  "tc_suspicious_cfg (fst (request_proposal env content s det now c)) = tc_suspicious_cfg c"
  "tc_session_budget (fst (request_proposal env content s det now c)) = tc_session_budget c"
  by (simp_all add: request_proposal_def record_analyzer_error_def trim_sandbox_failures_def Let_def
      split: prod.split sum.split analyzer_error.split)

lemma drop_action [simp]:
  "dec_action (snd (core_drop m p s r c)) = Noop"
  "dec_suppress_reason (snd (core_drop m p s r c)) = Some r"
  "dec_mode (snd (core_drop m p s r c)) = m"
  "dec_proposal (snd (core_drop m p s r c)) = p"
  "dec_suspicion (snd (core_drop m p s r c)) = s"
  by (simp_all add: core_drop_def)

lemma drop_frame [frame_simps]:
  "tc_bot_config (fst (core_drop m p s r c)) = tc_bot_config c"
  "tc_runtime (fst (core_drop m p s r c)) = tc_runtime c"
  "tc_mode (fst (core_drop m p s r c)) = tc_mode c"
  "tc_duplicate_guard (fst (core_drop m p s r c)) = tc_duplicate_guard c"
  "tc_breaker (fst (core_drop m p s r c)) = tc_breaker c"
  "tc_outbound_bucket (fst (core_drop m p s r c)) = tc_outbound_bucket c"
  "tc_user_cooldown (fst (core_drop m p s r c)) = tc_user_cooldown c"
  "tc_channel_cooldown (fst (core_drop m p s r c)) = tc_channel_cooldown c"
  "tc_guild_cooldown (fst (core_drop m p s r c)) = tc_guild_cooldown c"
  "tc_global_cooldown (fst (core_drop m p s r c)) = tc_global_cooldown c"
  "tc_sandbox_failures (fst (core_drop m p s r c)) = tc_sandbox_failures c"
  by (simp_all add: core_drop_def)

lemma cooldown_frame [frame_simps]:
  "tc_bot_config (fst (cooldown_allows ctx now c)) = tc_bot_config c"
  "tc_runtime (fst (cooldown_allows ctx now c)) = tc_runtime c"
  "tc_mode (fst (cooldown_allows ctx now c)) = tc_mode c"
  "tc_duplicate_guard (fst (cooldown_allows ctx now c)) = tc_duplicate_guard c"
  "tc_breaker (fst (cooldown_allows ctx now c)) = tc_breaker c"
  "tc_outbound_bucket (fst (cooldown_allows ctx now c)) = tc_outbound_bucket c"
  "tc_sandbox_failures (fst (cooldown_allows ctx now c)) = tc_sandbox_failures c"
  "tc_metrics (fst (cooldown_allows ctx now c)) = tc_metrics c"
  by (simp_all add: cooldown_allows_def Let_def split: option.split prod.split)

section \<open>The mode\<close>

lemma recompute_mode_result:
  "snd (recompute_mode now c) = fst (mode_target (trim_sandbox_failures now c) now)"
  by (simp add: recompute_mode_def Let_def case_prod_beta)

lemma recompute_mode_state:
  "ms_mode (tc_mode (fst (recompute_mode now c))) = snd (recompute_mode now c)"
  by (simp add: recompute_mode_def Let_def split: prod.split)

text \<open>Which mode a decision runs in: full disable exactly under the kill switch or by
  override; normal operation only by override or when the session budget is not low, the breaker
  is closed and fewer sandbox failures than the threshold lie in the window; the other modes for
  their one cause each, in this order of precedence.\<close>

theorem recompute_mode_spec:
  fixes c :: "'a trusted_core" and now :: instant
  assumes "sorted (tc_sandbox_failures c)"
  defines "r \<equiv> tc_runtime c" and "mode \<equiv> snd (recompute_mode now c)"
    and "low \<equiv> budget_is_low (tc_session_budget c)" and "tripped_now \<equiv> breaker_is_open (tc_breaker c) now"
    and "spike \<equiv> sandbox_failure_threshold (tc_runtime c) \<le>
      length (filter (in_window (from_millis (sandbox_failure_window_ms (tc_runtime c))) now)
        (tc_sandbox_failures c))"
  shows "(mode = FullDisable \<longleftrightarrow> emergency_kill_switch r \<or> mode_override r = Some FullDisable) \<and>
    (\<forall>m. m \<noteq> FullDisable \<longrightarrow> (mode = m \<longleftrightarrow> \<not> emergency_kill_switch r \<and>
      (mode_override r = Some m \<or> mode_override r = None \<and>
        m = (if low then ReactOnly else if tripped_now then ObserveOnly
             else if spike then AuditOnly else Normal))))"
proof -
  have mode: "mode = (if emergency_kill_switch r then FullDisable
      else case mode_override r of Some m \<Rightarrow> m
      | None \<Rightarrow> if low then ReactOnly else if tripped_now then ObserveOnly
          else if spike then AuditOnly else Normal)"
    unfolding mode_def recompute_mode_result r_def low_def tripped_now_def spike_def
    by (simp add: mode_target_def trim_sandbox_failures_def trim_window_filter[OF assms(1)]
        split: option.split)
  show ?thesis unfolding mode by (auto split: option.splits)
qed

section \<open>Outbound decisions\<close>

lemma cooldown_allows_true:
  assumes "snd (cooldown_allows ctx now c)"
  shows "\<not> is_cooling (tc_user_cooldown c) (author_id ctx) now"
    and "\<not> is_cooling (tc_channel_cooldown c) (channel_id ctx) now"
    and "\<forall>g. guild_id ctx = Some g \<longrightarrow> \<not> is_cooling (tc_guild_cooldown c) g now"
    and "\<not> is_cooling (tc_global_cooldown c) 0 now"
    and "tc_user_cooldown (fst (cooldown_allows ctx now c)) =
      cooldown_mark (tc_user_cooldown c) (author_id ctx) now"
    and "tc_channel_cooldown (fst (cooldown_allows ctx now c)) =
      cooldown_mark (tc_channel_cooldown c) (channel_id ctx) now"
    and "tc_global_cooldown (fst (cooldown_allows ctx now c)) =
      cooldown_mark (tc_global_cooldown c) 0 now"
    and "tc_guild_cooldown (fst (cooldown_allows ctx now c)) = (case guild_id ctx of
      None \<Rightarrow> tc_guild_cooldown c | Some g \<Rightarrow> cooldown_mark (tc_guild_cooldown c) g now)"
  using assms by (auto simp: cooldown_allows_def Let_def split: if_splits option.splits)

text \<open>Refused, the three other maps are as before, and the guild's changes only by a mark.\<close>

lemma cooldown_allows_false:
  assumes "\<not> snd (cooldown_allows ctx now c)"
  shows "tc_user_cooldown (fst (cooldown_allows ctx now c)) = tc_user_cooldown c"
    and "tc_channel_cooldown (fst (cooldown_allows ctx now c)) = tc_channel_cooldown c"
    and "tc_global_cooldown (fst (cooldown_allows ctx now c)) = tc_global_cooldown c"
    and "tc_guild_cooldown (fst (cooldown_allows ctx now c)) = tc_guild_cooldown c \<or>
      (\<exists>g. guild_id ctx = Some g \<and> \<not> is_cooling (tc_guild_cooldown c) g now \<and>
        tc_guild_cooldown (fst (cooldown_allows ctx now c)) =
          cooldown_mark (tc_guild_cooldown c) g now)"
  using assms by (auto simp: cooldown_allows_def Let_def split: if_splits option.splits)

lemma finalize_outbound:
  fixes c :: "'a trusted_core"
  defines "a \<equiv> \<lambda>p s m det. compile_response_from_detection p m s (tc_bot_config c)
      (max_send_chars (tc_runtime c)) (max_count_cap (tc_bot_config c)) det"
    and "c1 \<equiv> \<lambda>now. c\<lparr>tc_outbound_bucket := fst (bucket_try_take (tc_outbound_bucket c) 1 now)\<rparr>"
  assumes "dec_action (snd (core_finalize ctx p s m now det c)) \<noteq> Noop"
  shows "breaker_allows_outbound (tc_breaker c) now"
    and "snd (bucket_try_take (tc_outbound_bucket c) 1 now)"
    and "max_actions_per_message (tc_runtime c) \<noteq> 0"
    and "snd (cooldown_allows ctx now (c1 now))"
    and "core_finalize ctx p s m now det c =
      (fst (cooldown_allows ctx now (c1 now)),
       \<lparr>dec_action = enforce_action_caps (a p s m det) (max_send_chars (tc_runtime c)), dec_mode = m,
        dec_proposal = p, dec_suspicion = s, dec_suppress_reason = None\<rparr>)"
    and "\<not> is_invalid_action (enforce_action_caps (a p s m det) (max_send_chars (tc_runtime c)))"
    and "a p s m det \<noteq> Noop"
proof -
  note unfolded = core_finalize_def Let_def case_prod_beta a_def c1_def
  show nonoop: "a p s m det \<noteq> Noop"
    and breaker: "breaker_allows_outbound (tc_breaker c) now"
    and bucket: "snd (bucket_try_take (tc_outbound_bucket c) 1 now)"
    and actions: "max_actions_per_message (tc_runtime c) \<noteq> 0"
    and cooldown: "snd (cooldown_allows ctx now (c1 now))"
    and valid: "\<not> is_invalid_action
      (enforce_action_caps (a p s m det) (max_send_chars (tc_runtime c)))"
    using assms(3) unfolding unfolded by (simp_all add: frame_simps split: if_splits)
  show "core_finalize ctx p s m now det c =
      (fst (cooldown_allows ctx now (c1 now)),
       \<lparr>dec_action = enforce_action_caps (a p s m det) (max_send_chars (tc_runtime c)), dec_mode = m,
        dec_proposal = p, dec_suspicion = s, dec_suppress_reason = None\<rparr>)"
    using nonoop breaker bucket actions cooldown valid unfolding unfolded
    by (simp add: frame_simps split del: if_split)
qed

lemma decide_outbound:
  fixes c :: "'a trusted_core"
  assumes "dec_action (snd (decide_message env ctx content now c)) \<noteq> Noop"
  obtains c4 p s where
    "decide_message env ctx content now c =
      core_finalize ctx p s (snd (recompute_mode now c)) now (Some (env_detect env content)) c4"
    "snd (recompute_mode now c) \<noteq> FullDisable" "\<not> author_is_bot ctx"
    "allow_guild c (guild_id ctx)" "allow_channel c (channel_id ctx)"
    "\<not> snd (is_duplicate_and_mark (env_order env) (tc_duplicate_guard c) (message_id ctx) now)"
    "s = classify_suspicious_input (env_nfkc env) content (tc_suspicious_cfg c)"
    "s = SuspicionHard \<Longrightarrow> p = ProposeSuspicious"
    "tc_duplicate_guard c4 =
      fst (is_duplicate_and_mark (env_order env) (tc_duplicate_guard c) (message_id ctx) now)"
    "tc_runtime c4 = tc_runtime c" "tc_bot_config c4 = tc_bot_config c" "tc_breaker c4 = tc_breaker c"
    "tc_outbound_bucket c4 = tc_outbound_bucket c" "tc_user_cooldown c4 = tc_user_cooldown c"
    "tc_channel_cooldown c4 = tc_channel_cooldown c" "tc_guild_cooldown c4 = tc_guild_cooldown c"
    "tc_global_cooldown c4 = tc_global_cooldown c"
proof -
  let ?c1 = "fst (recompute_mode now c)" and ?mode = "snd (recompute_mode now c)"
  let ?mark = "is_duplicate_and_mark (env_order env) (tc_duplicate_guard ?c1) (message_id ctx) now"
  let ?c2 = "?c1\<lparr>tc_duplicate_guard := fst ?mark\<rparr>"
  let ?s = "classify_suspicious_input (env_nfkc env) content (tc_suspicious_cfg ?c2)"
  let ?c3 = "?c2\<lparr>tc_last_detection := Some (env_detect env content)\<rparr>"
  let ?req = "request_proposal env content ?s (env_detect env content) now ?c3"
  have guild: "allow_guild ?c1 g = allow_guild c g" for g
    by (cases g) (simp_all add: allow_guild_def frame_simps)
  have channel: "allow_channel ?c1 k = allow_channel c k" for k
    by (simp add: allow_channel_def frame_simps)
  have guards: "?mode \<noteq> FullDisable" "\<not> author_is_bot ctx" "allow_guild c (guild_id ctx)"
    "allow_channel c (channel_id ctx)" "\<not> snd ?mark"
    using assms unfolding decide_message_def
    by (auto simp: Let_def case_prod_beta guild channel split: if_splits)
  then have eq: "decide_message env ctx content now c =
      core_finalize ctx (snd ?req) ?s ?mode now (Some (env_detect env content)) (fst ?req)"
    unfolding decide_message_def by (simp add: Let_def case_prod_beta guild channel)
  have hard: "?s = SuspicionHard \<Longrightarrow> snd ?req = ProposeSuspicious"
    by (simp add: request_proposal_def)
  show thesis
    by (rule that[OF eq guards(1-4) _ _ hard])
      (use guards(5) in \<open>simp_all add: frame_simps\<close>)
qed

text \<open>The caps after the guards change nothing: the compiler already applied them.\<close>

lemma compiled_caps:
  "enforce_action_caps (compile_response_from_detection p m s cfg cap k det) cap =
   compile_response_from_detection p m s cfg cap k det"
proof -
  obtain ctx where ctx: "compile_response_from_detection p m s cfg cap k det = compile_response ctx"
    and cap: "cc_max_send_chars ctx = cap"
    by (simp add: compile_response_from_detection_def)
  show ?thesis
  proof (cases "compile_response ctx")
    case (React i n x)
    then show ?thesis
      using compile_safe[of ctx]
      by (auto simp: ctx enforce_action_caps_def as_react_def valid_react_def)
  next
    case (SendMessage c)
    then show ?thesis
      using compile_safe[of ctx]
      by (auto simp: ctx enforce_action_caps_def cap Let_def)
  qed (simp add: ctx enforce_action_caps_def)
qed

lemma compiled_safe:
  "case compile_response_from_detection p m s cfg cap k det of
     Noop \<Rightarrow> True
   | React i n x \<Rightarrow> React i n x = as_react cfg \<and> valid_react cfg \<and> (m = Normal \<or> m = ReactOnly) \<and>
       bot_action_policy cfg \<noteq> NoOutbound \<and> is_outbound_proposal p
   | SendMessage c \<Rightarrow> m = Normal \<and> bot_action_policy cfg = ReactOrSend \<and> s \<noteq> SuspicionSoft \<and>
       length c \<le> cap \<and> str_trim c \<noteq> [] \<and> is_outbound_proposal p"
proof -
  obtain ctx where ctx: "compile_response_from_detection p m s cfg cap k det = compile_response ctx"
    and fields: "cc_max_send_chars ctx = cap" "cc_mode ctx = m" "cc_bot ctx = cfg"
      "cc_proposal ctx = p" "cc_suspicion ctx = s"
    by (simp add: compile_response_from_detection_def)
  show ?thesis
    unfolding ctx using compile_safe[of ctx]
    by (auto simp: fields send_permitted_def react_permitted_def is_outbound_proposal_def
        split: bot_action.splits)
qed

lemma decide_outbound_action:
  fixes c :: "'a trusted_core"
  assumes "dec_action (snd (decide_message env ctx content now c)) \<noteq> Noop"
  obtains p s where
    "dec_action (snd (decide_message env ctx content now c)) =
      compile_response_from_detection p (snd (recompute_mode now c)) s (tc_bot_config c)
        (max_send_chars (tc_runtime c)) (max_count_cap (tc_bot_config c))
        (Some (env_detect env content))"
    "s = classify_suspicious_input (env_nfkc env) content (tc_suspicious_cfg c)"
    "s \<noteq> SuspicionHard"
    "dec_mode (snd (decide_message env ctx content now c)) = snd (recompute_mode now c)"
    "dec_suppress_reason (snd (decide_message env ctx content now c)) = None"
proof -
  obtain c4 p s where eq: "decide_message env ctx content now c =
      core_finalize ctx p s (snd (recompute_mode now c)) now (Some (env_detect env content)) c4"
    and s: "s = classify_suspicious_input (env_nfkc env) content (tc_suspicious_cfg c)"
    and hard: "s = SuspicionHard \<Longrightarrow> p = ProposeSuspicious"
    and fields: "tc_runtime c4 = tc_runtime c" "tc_bot_config c4 = tc_bot_config c"
    by (rule decide_outbound[OF assms]) (blast intro: that)
  have out: "dec_action (snd (core_finalize ctx p s (snd (recompute_mode now c)) now
      (Some (env_detect env content)) c4)) \<noteq> Noop"
    using assms eq by simp
  have "s \<noteq> SuspicionHard"
    using finalize_outbound(7)[OF out] hard
      compiled_safe[where p = p and m = "snd (recompute_mode now c)" and s = s and
        cfg = "tc_bot_config c4" and cap = "max_send_chars (tc_runtime c4)" and
        k = "max_count_cap (tc_bot_config c4)" and det = "Some (env_detect env content)"]
    by (auto simp: is_outbound_proposal_def split: bot_action.splits)
  then show thesis
    using that[of p s] finalize_outbound(5)[OF out] eq s by (simp add: compiled_caps fields)
qed

text \<open>C1: an outbound action needs every permission at once: the kill switch is off, the author is
  no bot, the mode and the policy permit, guild and channel are allowed, the message is new and not
  hard-suspicious, the breaker is closed, a token was granted, and no cooldown applies.\<close>

theorem outbound_needs_permission:
  fixes c :: "'a trusted_core"
  assumes "dec_action (snd (decide_message env ctx content now c)) \<noteq> Noop"
  shows "\<not> emergency_kill_switch (tc_runtime c) \<and> \<not> author_is_bot ctx \<and>
    snd (recompute_mode now c) \<in> {Normal, ReactOnly} \<and>
    bot_action_policy (tc_bot_config c) \<noteq> NoOutbound \<and>
    allow_guild c (guild_id ctx) \<and> allow_channel c (channel_id ctx) \<and>
    \<not> snd (is_duplicate_and_mark (env_order env) (tc_duplicate_guard c) (message_id ctx) now) \<and>
    classify_suspicious_input (env_nfkc env) content (tc_suspicious_cfg c) \<noteq> SuspicionHard \<and>
    breaker_allows_outbound (tc_breaker c) now \<and>
    snd (bucket_try_take (tc_outbound_bucket c) 1 now) \<and>
    max_actions_per_message (tc_runtime c) \<noteq> 0 \<and>
    \<not> is_cooling (tc_user_cooldown c) (author_id ctx) now \<and>
    \<not> is_cooling (tc_channel_cooldown c) (channel_id ctx) now \<and>
    (\<forall>g. guild_id ctx = Some g \<longrightarrow> \<not> is_cooling (tc_guild_cooldown c) g now) \<and>
    \<not> is_cooling (tc_global_cooldown c) 0 now"
proof -
  obtain c4 p s where eq: "decide_message env ctx content now c =
      core_finalize ctx p s (snd (recompute_mode now c)) now (Some (env_detect env content)) c4"
    and guards: "snd (recompute_mode now c) \<noteq> FullDisable" "\<not> author_is_bot ctx"
      "allow_guild c (guild_id ctx)" "allow_channel c (channel_id ctx)"
      "\<not> snd (is_duplicate_and_mark (env_order env) (tc_duplicate_guard c) (message_id ctx) now)"
    and fields: "tc_runtime c4 = tc_runtime c" "tc_breaker c4 = tc_breaker c"
      "tc_outbound_bucket c4 = tc_outbound_bucket c" "tc_user_cooldown c4 = tc_user_cooldown c"
      "tc_channel_cooldown c4 = tc_channel_cooldown c" "tc_guild_cooldown c4 = tc_guild_cooldown c"
      "tc_global_cooldown c4 = tc_global_cooldown c"
    by (rule decide_outbound[OF assms]) (blast intro: that)
  have out: "dec_action (snd (core_finalize ctx p s (snd (recompute_mode now c)) now
      (Some (env_detect env content)) c4)) \<noteq> Noop"
    using assms eq by simp
  note passed = finalize_outbound(1-4)[OF out, unfolded fields]
  obtain p' s' where act: "dec_action (snd (decide_message env ctx content now c)) =
      compile_response_from_detection p' (snd (recompute_mode now c)) s' (tc_bot_config c)
        (max_send_chars (tc_runtime c)) (max_count_cap (tc_bot_config c))
        (Some (env_detect env content))"
    and s': "s' = classify_suspicious_input (env_nfkc env) content (tc_suspicious_cfg c)"
      "s' \<noteq> SuspicionHard"
    by (rule decide_outbound_action[OF assms]) (blast intro: that)
  have mode: "snd (recompute_mode now c) \<in> {Normal, ReactOnly} \<and>
      bot_action_policy (tc_bot_config c) \<noteq> NoOutbound"
    using compiled_safe[where p = p' and m = "snd (recompute_mode now c)" and s = s' and
        cfg = "tc_bot_config c" and cap = "max_send_chars (tc_runtime c)" and
        k = "max_count_cap (tc_bot_config c)" and det = "Some (env_detect env content)"] assms act
    by (auto split: bot_action.splits)
  have kill: "\<not> emergency_kill_switch (tc_runtime c)"
    using guards(1) by (auto simp: recompute_mode_result mode_target_def trim_sandbox_failures_def)
  show ?thesis
    using guards passed mode kill s' cooldown_allows_true(1-4)[OF passed(4)] by (simp add: fields)
qed

text \<open>What goes out is bounded by the configuration: a message only in normal mode under the
  sending policy for unsuspicious input, at most \<open>max_send_chars\<close> long and not blank; a reaction
  only with the configured and valid emoji.\<close>

theorem outbound_content:
  fixes c :: "'a trusted_core"
  shows "case dec_action (snd (decide_message env ctx content now c)) of
     Noop \<Rightarrow> True
   | React i n x \<Rightarrow> React i n x = as_react (tc_bot_config c) \<and> valid_react (tc_bot_config c)
   | SendMessage text \<Rightarrow>
       snd (recompute_mode now c) = Normal \<and> bot_action_policy (tc_bot_config c) = ReactOrSend \<and>
       classify_suspicious_input (env_nfkc env) content (tc_suspicious_cfg c) = SuspicionNone \<and>
       length text \<le> max_send_chars (tc_runtime c) \<and> str_trim text \<noteq> []"
proof (cases "dec_action (snd (decide_message env ctx content now c)) = Noop")
  case False
  obtain p s where act: "dec_action (snd (decide_message env ctx content now c)) =
      compile_response_from_detection p (snd (recompute_mode now c)) s (tc_bot_config c)
        (max_send_chars (tc_runtime c)) (max_count_cap (tc_bot_config c))
        (Some (env_detect env content))"
    and s: "s = classify_suspicious_input (env_nfkc env) content (tc_suspicious_cfg c)"
      "s \<noteq> SuspicionHard"
    by (rule decide_outbound_action[OF False]) (blast intro: that)
  show ?thesis
    unfolding act s(1)[symmetric]
    using s(2) compiled_safe[where p = p and m = "snd (recompute_mode now c)" and s = s and
        cfg = "tc_bot_config c" and cap = "max_send_chars (tc_runtime c)" and
        k = "max_count_cap (tc_bot_config c)" and det = "Some (env_detect env content)"]
    by (cases s) (auto split: bot_action.splits)
qed simp

section \<open>The specification of an answer\<close>

text \<open>
  What the governor promises, without its state changes: \<open>permitted\<close> collects the guards,
  \<open>governed_answer\<close> is the compiled proposal if they all hold and nothing otherwise.
\<close>

definition permitted ::
  "'a core_env \<Rightarrow> message_context \<Rightarrow> rstr \<Rightarrow> instant \<Rightarrow> 'a trusted_core \<Rightarrow> bool" where
  "permitted env ctx content now c \<longleftrightarrow>
     snd (recompute_mode now c) \<noteq> FullDisable \<and> \<not> author_is_bot ctx \<and>
     allow_guild c (guild_id ctx) \<and> allow_channel c (channel_id ctx) \<and>
     \<not> snd (is_duplicate_and_mark (env_order env) (tc_duplicate_guard c) (message_id ctx) now) \<and>
     classify_suspicious_input (env_nfkc env) content (tc_suspicious_cfg c) \<noteq> SuspicionHard \<and>
     breaker_allows_outbound (tc_breaker c) now \<and>
     snd (bucket_try_take (tc_outbound_bucket c) 1 now) \<and>
     max_actions_per_message (tc_runtime c) \<noteq> 0 \<and>
     \<not> is_cooling (tc_user_cooldown c) (author_id ctx) now \<and>
     \<not> is_cooling (tc_channel_cooldown c) (channel_id ctx) now \<and>
     (case guild_id ctx of Some g \<Rightarrow> \<not> is_cooling (tc_guild_cooldown c) g now | None \<Rightarrow> True) \<and>
     \<not> is_cooling (tc_global_cooldown c) 0 now"

definition message_request :: "'a core_env \<Rightarrow> rstr \<Rightarrow> analyzer_request" where
  "message_request env content =
     \<lparr>req_content = content,
      req_kanji_count = backend_count_for_sandbox (env_detect env content),
      req_special_phrase_hit = special_phrase_hit (env_detect env content)\<rparr>"

definition governed_answer ::
  "'a core_env \<Rightarrow> message_context \<Rightarrow> rstr \<Rightarrow> instant \<Rightarrow> 'a trusted_core \<Rightarrow> bot_action" where
  "governed_answer env ctx content now c =
     (if permitted env ctx content now c
      then (case snd (env_propose env (tc_analyzer c) (message_request env content)) of
              Inl _ \<Rightarrow> Noop
            | Inr p \<Rightarrow> compile_response_from_detection p (snd (recompute_mode now c))
                (classify_suspicious_input (env_nfkc env) content (tc_suspicious_cfg c))
                (tc_bot_config c) (max_send_chars (tc_runtime c)) (max_count_cap (tc_bot_config c))
                (Some (env_detect env content)))
      else Noop)"

lemma cooldown_allows_iff:
  "snd (cooldown_allows ctx now c) \<longleftrightarrow>
   \<not> is_cooling (tc_user_cooldown c) (author_id ctx) now \<and>
   \<not> is_cooling (tc_channel_cooldown c) (channel_id ctx) now \<and>
   (case guild_id ctx of Some g \<Rightarrow> \<not> is_cooling (tc_guild_cooldown c) g now | None \<Rightarrow> True) \<and>
   \<not> is_cooling (tc_global_cooldown c) 0 now"
  by (auto simp: cooldown_allows_def Let_def split: option.splits)

lemma compiled_valid:
  "\<not> is_invalid_action (compile_response_from_detection p m s cfg cap k det)"
  using compiled_safe[where p = p and m = m and s = s and cfg = cfg and cap = cap and k = k and
      det = det]
  by (auto simp: is_invalid_action_def as_react_def valid_react_def split: bot_action.splits)

lemma finalize_action:
  "dec_action (snd (core_finalize ctx p s m now det c)) =
   (if breaker_allows_outbound (tc_breaker c) now \<and>
       snd (bucket_try_take (tc_outbound_bucket c) 1 now) \<and>
       max_actions_per_message (tc_runtime c) \<noteq> 0 \<and>
       snd (cooldown_allows ctx now
         (c\<lparr>tc_outbound_bucket := fst (bucket_try_take (tc_outbound_bucket c) 1 now)\<rparr>))
    then compile_response_from_detection p m s (tc_bot_config c) (max_send_chars (tc_runtime c))
      (max_count_cap (tc_bot_config c)) det
    else Noop)"
  unfolding core_finalize_def Let_def case_prod_beta
  by (simp add: frame_simps compiled_caps compiled_valid)

text \<open>The request of a decision and what the analyzer answers.\<close>

lemma request_outcome:
  assumes "s \<noteq> SuspicionHard"
  shows "snd (request_proposal env content s (env_detect env content) now c) =
    (case snd (env_propose env (tc_analyzer c) (message_request env content)) of
       Inr p \<Rightarrow> p | Inl _ \<Rightarrow> Defer)"
  using assms
  by (simp add: request_proposal_def message_request_def Let_def case_prod_beta split: sum.split)

lemma compiled_inert:
  "\<not> is_outbound_proposal p \<Longrightarrow> compile_response_from_detection p m s cfg cap k det = Noop"
  using compiled_safe[where p = p and m = m and s = s and cfg = cfg and cap = cap and k = k and
      det = det]
  by (auto split: bot_action.splits)

lemma decide_answer:
  "dec_action (snd (decide_message env ctx content now c)) = governed_answer env ctx content now c"
proof -
  let ?m = "snd (recompute_mode now c)" and ?c1 = "fst (recompute_mode now c)"
  let ?s = "classify_suspicious_input (env_nfkc env) content (tc_suspicious_cfg c)"
  let ?mark = "is_duplicate_and_mark (env_order env) (tc_duplicate_guard c) (message_id ctx) now"
  have lists: "allow_guild ?c1 (guild_id ctx) = allow_guild c (guild_id ctx)"
    "allow_channel ?c1 (channel_id ctx) = allow_channel c (channel_id ctx)"
    by (cases "guild_id ctx") (simp_all add: allow_guild_def allow_channel_def frame_simps)
  define c3 where "c3 = ?c1\<lparr>tc_duplicate_guard := fst ?mark,
    tc_last_detection := Some (env_detect env content)\<rparr>"
  define req where "req = request_proposal env content ?s (env_detect env content) now c3"
  show ?thesis
  proof (cases "?m \<noteq> FullDisable \<and> \<not> author_is_bot ctx \<and> allow_guild c (guild_id ctx) \<and>
      allow_channel c (channel_id ctx) \<and> \<not> snd ?mark")
    case False
    then show ?thesis
      unfolding decide_message_def governed_answer_def permitted_def
      by (auto simp: Let_def case_prod_beta lists frame_simps)
  next
    case True
    then have eq: "decide_message env ctx content now c =
        core_finalize ctx (snd req) ?s ?m now (Some (env_detect env content)) (fst req)"
      unfolding decide_message_def req_def c3_def
      by (simp add: Let_def case_prod_beta lists frame_simps)
    have fields: "tc_breaker (fst req) = tc_breaker c" "tc_runtime (fst req) = tc_runtime c"
      "tc_outbound_bucket (fst req) = tc_outbound_bucket c" "tc_bot_config (fst req) = tc_bot_config c"
      "tc_user_cooldown (fst req) = tc_user_cooldown c"
      "tc_channel_cooldown (fst req) = tc_channel_cooldown c"
      "tc_guild_cooldown (fst req) = tc_guild_cooldown c"
      "tc_global_cooldown (fst req) = tc_global_cooldown c"
      by (simp_all add: req_def c3_def frame_simps)
    show ?thesis
    proof (cases "?s = SuspicionHard")
      case True
      then have "snd req = ProposeSuspicious" by (simp add: req_def request_proposal_def)
      then show ?thesis
        using True unfolding eq finalize_action
        by (simp add: compiled_inert is_outbound_proposal_def governed_answer_def permitted_def)
    next
      case False
      then have "snd req = (case snd (env_propose env (tc_analyzer c) (message_request env content)) of
          Inr p \<Rightarrow> p | Inl _ \<Rightarrow> Defer)"
        by (simp add: req_def request_outcome c3_def frame_simps)
      then show ?thesis
        using True False unfolding eq finalize_action governed_answer_def permitted_def
        by (auto simp: fields cooldown_allows_iff compiled_inert is_outbound_proposal_def
            cong: option.case_cong split: sum.split)
    qed
  qed
qed

text \<open>C2: the decision refines its specification: every answer is the compiled proposal of the
  analyzer when all permissions hold and none otherwise; no other state of the core matters, and
  no other guard suppresses an answer.\<close>

theorem decide_refines_answer:
  "dec_action (snd (decide_message env ctx content now c)) = governed_answer env ctx content now c"
  by (rule decide_answer)

lemma outbound_permitted:
  "dec_action (snd (decide_message env ctx content now c)) \<noteq> Noop \<Longrightarrow> permitted env ctx content now c"
  by (auto simp: decide_answer governed_answer_def split: if_splits)

section \<open>A concrete core\<close>

definition sample_runtime :: runtime_protection_config where
  "sample_runtime =
     \<lparr>duplicate_ttl_ms = 180000, duplicate_cache_cap = 8192, per_user_cooldown_ms = 900,
      per_channel_cooldown_ms = 400, per_guild_cooldown_ms = 250, global_cooldown_ms = 0,
      global_rate_per_sec = 20, global_rate_burst = 30, max_actions_per_message = 1,
      max_send_chars = 1900, long_message_soft_chars = 2000, long_message_hard_chars = 8000,
      suspicious_repetition_threshold = 256, breaker_window_ms = 60000, breaker_threshold = 64,
      breaker_open_ms = 120000, sandbox_failure_window_ms = 30000, sandbox_failure_threshold = 10,
      allow_guild_ids = [], deny_guild_ids = [], allow_channel_ids = [], deny_channel_ids = [],
      mode_override = None, emergency_kill_switch = False, session_budget_low_watermark = 5\<rparr>"

definition sample_env :: "unit core_env" where
  "sample_env =
     \<lparr>env_propose = (\<lambda>a req. (a, Inr ReactOnce)),
      env_detect = (\<lambda>c. (no_hit_detect c)\<lparr>total_count := 1, sequence_hits := 1\<rparr>),
      env_nfkc = (\<lambda>s. s), env_order = (\<lambda>m. m)\<rparr>"

definition sample_core :: "unit trusted_core" where
  "sample_core = core_new () sample_bot sample_runtime 0"

definition sample_message :: "nat \<Rightarrow> message_context" where
  "sample_message n =
     \<lparr>message_id = n, author_id = n, channel_id = n, guild_id = Some n, author_is_bot = False\<rparr>"

lemma take_fresh_token:
  assumes "tb_last_refill b = now" and "1 \<le> tb_tokens b"
  shows "bucket_try_take b 1 now = (b\<lparr>tb_tokens := f64_round (tb_tokens b - 1)\<rparr>, True)"
proof -
  have "as_secs_f64 0 = 0" using f64_round_of_nat[of 0] by (simp add: as_secs_f64_def)
  moreover have "f64_round 1 = 1" using f64_round_of_nat[of 1] by simp
  ultimately show ?thesis
    using assms by (simp add: bucket_try_take_def bucket_refill_def Let_def)
qed


lemma enough_tokens:
  assumes "2 \<le> tb_tokens b" and "1 \<le> tb_capacity b" and "0 \<le> tb_refill_per_sec b"
  shows "snd (bucket_try_take b 1 now)"
proof -
  have unit: "1 / 2 \<le> 1 - f64_unit" by (simp add: f64_unit_def)
  have "1 \<le> f64_round (tb_tokens b + x)" if "0 \<le> x" for x
  proof -
    have "2 * (1 / 2) \<le> (tb_tokens b + x) * (1 - f64_unit)"
      using assms(1) that unit by (intro mult_mono) simp_all
    also have "\<dots> \<le> f64_round (tb_tokens b + x)"
      using assms(1) that by (intro f64_round_lower) simp
    finally show ?thesis by simp
  qed
  then have "1 \<le> tb_tokens (bucket_refill b now)"
    using assms by (simp add: bucket_refill_def Let_def)
  moreover have "f64_round 1 = 1" using f64_round_of_nat[of 1] by simp
  ultimately show ?thesis by (simp add: bucket_try_take_def Let_def)
qed

lemma sample_bucket: "snd (bucket_try_take (tc_outbound_bucket sample_core) 1 0)"
proof -
  have "f64_round 30 = 30" using f64_round_of_nat[of 30] by simp
  then show ?thesis
    using take_fresh_token[of "tc_outbound_bucket sample_core" 0]
    by (simp add: sample_core_def core_new_def token_bucket_new_def sample_runtime_def Let_def)
qed

lemma sample_calm: "classify_suspicious_input (\<lambda>s. s) (lit ''oo'') (tc_suspicious_cfg sample_core) = SuspicionNone"
  by (simp add: classify_suspicious_input_def sample_core_def core_new_def sample_runtime_def lit_def
      has_bidi_control_def is_bidi_control_def has_excessive_repetition_def sat_mul_def u64_max_def Let_def)

lemma sample_mode: "snd (recompute_mode 0 sample_core) = Normal"
  by (simp add: recompute_mode_result mode_target_def trim_sandbox_failures_def sample_core_def
      core_new_def sample_runtime_def budget_is_low_def session_budget_new_def breaker_is_open_def
      breaker_new_def)

lemma sample_permitted: "permitted sample_env (sample_message 1) (lit ''oo'') 0 sample_core"
  using sample_bucket sample_calm sample_mode
  by (simp add: permitted_def sample_message_def sample_env_def allow_guild_def allow_channel_def
      sample_core_def core_new_def sample_runtime_def breaker_allows_outbound_def breaker_new_def
      is_cooling_def cooldown_map_new_def is_duplicate_and_mark_def duplicate_guard_new_def evict_old_def Let_def)

lemma sample_answer:
  "dec_action (snd (decide_message sample_env (sample_message 1) (lit ''oo'') 0 sample_core)) =
   as_react sample_bot"
  using sample_permitted sample_mode
  by (simp add: decide_answer governed_answer_def sample_env_def compile_response_from_detection_def compile_exact
     proposed_action_def proposal_to_action_def sample_core_def core_new_def sample_bot_def as_react_def guarded_react_def
     react_permitted_def valid_react_def lit_def)

theorem outbound_needs_permission_witness:
  "dec_action (snd (decide_message sample_env (sample_message 1) (lit ''oo'') 0 sample_core)) =
     as_react sample_bot \<and>
   \<not> emergency_kill_switch (tc_runtime sample_core) \<and>
   snd (recompute_mode 0 sample_core) \<in> {Normal, ReactOnly}"
  using outbound_needs_permission[of sample_env "sample_message 1" "lit ''oo''" 0 sample_core]
    sample_answer
  by (simp add: as_react_def)

theorem recompute_mode_spec_witness:
  "snd (recompute_mode 0 sample_core) \<noteq> FullDisable"
proof -
  have "sorted (tc_sandbox_failures sample_core)" by (simp add: sample_core_def core_new_def)
  from recompute_mode_spec[OF this, of 0] show ?thesis
    by (simp add: sample_core_def core_new_def sample_runtime_def)
qed

end
