(* ===== verification/Core_Runs.thy ===== *)
theory Core_Runs
  imports Core_Governor
begin

text \<open>
  The trusted core over time: any sequence of the operations of \<^verbatim>\<open>core_governor.rs\<close>, each at
  its own instant.  The step relation gives the reachable states and their invariant; the log of
  a run, the outbound actions with their times, is what cooldowns, rate limit and duplicate guard
  promise something about.
\<close>

section \<open>Operations and runs\<close>

datatype core_op =
    Decide message_context rstr
  | HttpStatus nat
  | ReconnectAttempt
  | ResumeFailure
  | ModeOverride "runtime_mode option"
  | KillSwitch bool
  | AccessLists "nat list" "nat list" "nat list" "nat list"
  | SuspiciousThresholds nat nat nat
  | ResetSuspicious
  | UpdateBudget nat nat nat

definition core_apply ::
  "'a core_env \<Rightarrow> core_op \<Rightarrow> instant \<Rightarrow> 'a trusted_core \<Rightarrow>
   'a trusted_core \<times> (message_context \<times> action_decision) option" where
  "core_apply env op now c =
     (case op of
        Decide ctx content \<Rightarrow>
          (let (c', d) = decide_message env ctx content now c in (c', Some (ctx, d)))
      | HttpStatus status \<Rightarrow> (record_http_status status now c, None)
      | ReconnectAttempt \<Rightarrow> (record_reconnect_attempt c, None)
      | ResumeFailure \<Rightarrow> (record_resume_failure c, None)
      | ModeOverride m \<Rightarrow> (set_mode_override m c, None)
      | KillSwitch b \<Rightarrow> (set_emergency_kill_switch b c, None)
      | AccessLists ag dg ac dc \<Rightarrow> (set_access_lists ag dg ac dc c, None)
      | SuspiciousThresholds a b r \<Rightarrow> (set_suspicious_thresholds a b r c, None)
      | ResetSuspicious \<Rightarrow> (reset_suspicious_thresholds c, None)
      | UpdateBudget a b s \<Rightarrow> (update_session_budget a b s c, None))"

text \<open>The outbound action of a step, if there is one.\<close>

fun outbound_of :: "instant \<Rightarrow> (message_context \<times> action_decision) option \<Rightarrow>
  (instant \<times> message_context) list" where
  "outbound_of now None = []"
| "outbound_of now (Some (ctx, d)) = (if dec_action d = Noop then [] else [(now, ctx)])"

fun core_run ::
  "'a core_env \<Rightarrow> 'a trusted_core \<Rightarrow> (core_op \<times> instant) list \<Rightarrow>
   'a trusted_core \<times> (instant \<times> message_context) list" where
  "core_run env c [] = (c, [])"
| "core_run env c ((op, now) # es) =
     (let (c1, d) = core_apply env op now c; (c2, answers) = core_run env c1 es
      in (c2, outbound_of now d @ answers))"

inductive core_reaches ::
  "'a core_env \<Rightarrow> 'a trusted_core \<Rightarrow> instant \<Rightarrow> 'a trusted_core \<Rightarrow> instant \<Rightarrow> bool"
  for env c0 t0 where
  reach_start: "core_reaches env c0 t0 c0 t0"
| reach_step: "core_reaches env c0 t0 c t \<Longrightarrow> t \<le> now \<Longrightarrow>
    core_reaches env c0 t0 (fst (core_apply env op now c)) now"

section \<open>What a decision does to the state\<close>

lemma finalize_state:
  fixes c :: "'a trusted_core"
  defines "c1 \<equiv> \<lambda>now. c\<lparr>tc_outbound_bucket := fst (bucket_try_take (tc_outbound_bucket c) 1 now)\<rparr>"
    and "cools \<equiv> \<lambda>c. (tc_user_cooldown c, tc_channel_cooldown c, tc_guild_cooldown c,
      tc_global_cooldown c)"
  shows "cools (fst (core_finalize ctx p s m now det c)) = cools c \<or>
      cools (fst (core_finalize ctx p s m now det c)) = cools (fst (cooldown_allows ctx now (c1 now)))"
    and "tc_outbound_bucket (fst (core_finalize ctx p s m now det c)) \<in>
      {tc_outbound_bucket c, fst (bucket_try_take (tc_outbound_bucket c) 1 now)}"
    and "tc_runtime (fst (core_finalize ctx p s m now det c)) = tc_runtime c"
    and "tc_bot_config (fst (core_finalize ctx p s m now det c)) = tc_bot_config c"
    and "tc_breaker (fst (core_finalize ctx p s m now det c)) = tc_breaker c"
    and "tc_duplicate_guard (fst (core_finalize ctx p s m now det c)) = tc_duplicate_guard c"
    and "tc_sandbox_failures (fst (core_finalize ctx p s m now det c)) = tc_sandbox_failures c"
  unfolding core_finalize_def Let_def case_prod_beta c1_def cools_def
  by (simp_all add: frame_simps)

definition reached_guard :: "'a trusted_core \<Rightarrow> message_context \<Rightarrow> instant \<Rightarrow> bool" where
  "reached_guard c ctx now \<longleftrightarrow> snd (recompute_mode now c) \<noteq> FullDisable \<and> \<not> author_is_bot ctx \<and>
     allow_guild c (guild_id ctx) \<and> allow_channel c (channel_id ctx)"

text \<open>The state after a decision, cut at the duplicate guard.\<close>

lemma decide_state:
  fixes c :: "'a trusted_core"
  obtains (stopped) m p s r where "\<not> reached_guard c ctx now"
      "decide_message env ctx content now c = core_drop m p s r (fst (recompute_mode now c))"
  | (duplicate) m p s r where "reached_guard c ctx now"
      "snd (is_duplicate_and_mark (env_order env) (tc_duplicate_guard c) (message_id ctx) now)"
      "decide_message env ctx content now c = core_drop m p s r
        (bump duplicate_suppressed_total_update ((fst (recompute_mode now c))\<lparr>tc_duplicate_guard :=
          fst (is_duplicate_and_mark (env_order env) (tc_duplicate_guard c) (message_id ctx) now)\<rparr>))"
  | (finalized) p s m where "reached_guard c ctx now"
      "\<not> snd (is_duplicate_and_mark (env_order env) (tc_duplicate_guard c) (message_id ctx) now)"
      "decide_message env ctx content now c = core_finalize ctx p s m now
        (Some (env_detect env content))
        (fst (request_proposal env content s (env_detect env content) now
          ((fst (recompute_mode now c))\<lparr>tc_duplicate_guard :=
              fst (is_duplicate_and_mark (env_order env) (tc_duplicate_guard c) (message_id ctx) now),
            tc_last_detection := Some (env_detect env content)\<rparr>)))"
proof -
  have lists: "allow_guild (fst (recompute_mode now c)) (guild_id ctx) = allow_guild c (guild_id ctx)"
    "allow_channel (fst (recompute_mode now c)) (channel_id ctx) = allow_channel c (channel_id ctx)"
    by (cases "guild_id ctx") (simp_all add: allow_guild_def allow_channel_def frame_simps)
  show thesis
  proof (cases "reached_guard c ctx now")
    case False
    then have "\<exists>m p s r. decide_message env ctx content now c =
        core_drop m p s r (fst (recompute_mode now c))"
      unfolding decide_message_def reached_guard_def Let_def case_prod_beta lists
      by (auto split: if_splits)
    with False stopped show thesis by blast
  next
    case True
    note passed = True[unfolded reached_guard_def]
    show thesis
    proof (cases "snd (is_duplicate_and_mark (env_order env) (tc_duplicate_guard c)
        (message_id ctx) now)")
      case dup: True
      show thesis
        by (rule duplicate[OF True dup])
          (use passed dup in \<open>simp add: decide_message_def Let_def case_prod_beta lists frame_simps\<close>)
    next
      case fresh: False
      show thesis
        by (rule finalized[OF True fresh])
          (use passed fresh in \<open>simp add: decide_message_def Let_def case_prod_beta lists frame_simps\<close>)
    qed
  qed
qed

lemma more_frames [frame_simps]:
  "tc_suspicious_cfg (fst (core_drop m p s r c)) = tc_suspicious_cfg c"
  "tc_session_budget (fst (core_drop m p s r c)) = tc_session_budget c"
  "tc_suspicious_cfg (fst (cooldown_allows ctx now c)) = tc_suspicious_cfg c"
  "tc_session_budget (fst (cooldown_allows ctx now c)) = tc_session_budget c"
  by (simp_all add: core_drop_def cooldown_allows_def Let_def split: option.split prod.split)

lemma finalize_frame [frame_simps]:
  "tc_runtime (fst (core_finalize ctx p s m now det c)) = tc_runtime c"
  "tc_bot_config (fst (core_finalize ctx p s m now det c)) = tc_bot_config c"
  "tc_breaker (fst (core_finalize ctx p s m now det c)) = tc_breaker c"
  "tc_duplicate_guard (fst (core_finalize ctx p s m now det c)) = tc_duplicate_guard c"
  "tc_sandbox_failures (fst (core_finalize ctx p s m now det c)) = tc_sandbox_failures c"
  "tc_suspicious_cfg (fst (core_finalize ctx p s m now det c)) = tc_suspicious_cfg c"
  "tc_session_budget (fst (core_finalize ctx p s m now det c)) = tc_session_budget c"
  unfolding core_finalize_def Let_def case_prod_beta by (simp_all add: frame_simps)

lemma decide_frame [frame_simps]:
  fixes c :: "'a trusted_core"
  shows "tc_runtime (fst (decide_message env ctx content now c)) = tc_runtime c"
    and "tc_bot_config (fst (decide_message env ctx content now c)) = tc_bot_config c"
    and "tc_breaker (fst (decide_message env ctx content now c)) = tc_breaker c"
    and "tc_suspicious_cfg (fst (decide_message env ctx content now c)) = tc_suspicious_cfg c"
    and "tc_session_budget (fst (decide_message env ctx content now c)) = tc_session_budget c"
    and "tc_duplicate_guard (fst (decide_message env ctx content now c)) =
      (if reached_guard c ctx now
       then fst (is_duplicate_and_mark (env_order env) (tc_duplicate_guard c) (message_id ctx) now)
       else tc_duplicate_guard c)"
  by (cases rule: decide_state[where c = c and ctx = ctx and now = now and env = env
        and content = content]; simp add: frame_simps)+

lemma decide_bucket:
  fixes c :: "'a trusted_core"
  shows "tc_outbound_bucket (fst (decide_message env ctx content now c)) \<in>
    {tc_outbound_bucket c, fst (bucket_try_take (tc_outbound_bucket c) 1 now)}"
proof (cases rule: decide_state[where c = c and ctx = ctx and now = now and env = env
      and content = content])
  case (finalized p s m)
  let ?c4 = "fst (request_proposal env content s (env_detect env content) now
    ((fst (recompute_mode now c))\<lparr>tc_duplicate_guard :=
        fst (is_duplicate_and_mark (env_order env) (tc_duplicate_guard c) (message_id ctx) now),
      tc_last_detection := Some (env_detect env content)\<rparr>))"
  show ?thesis
    using finalize_state(2)[where c = ?c4 and ctx = ctx and p = p and s = s and m = m and now = now
        and det = "Some (env_detect env content)"]
    by (simp add: finalized(3) frame_simps)
qed (simp_all add: frame_simps)

lemma decide_outbound_bucket:
  fixes c :: "'a trusted_core"
  assumes "dec_action (snd (decide_message env ctx content now c)) \<noteq> Noop"
  shows "snd (bucket_try_take (tc_outbound_bucket c) 1 now)"
    and "tc_outbound_bucket (fst (decide_message env ctx content now c)) =
      fst (bucket_try_take (tc_outbound_bucket c) 1 now)"
proof -
  obtain c4 p s where eq: "decide_message env ctx content now c =
      core_finalize ctx p s (snd (recompute_mode now c)) now (Some (env_detect env content)) c4"
    and field: "tc_outbound_bucket c4 = tc_outbound_bucket c"
    by (rule decide_outbound[OF assms]) (blast intro: that)
  have out: "dec_action (snd (core_finalize ctx p s (snd (recompute_mode now c)) now
      (Some (env_detect env content)) c4)) \<noteq> Noop"
    using assms eq by simp
  show "snd (bucket_try_take (tc_outbound_bucket c) 1 now)"
    using finalize_outbound(2)[OF out] by (simp add: field)
  show "tc_outbound_bucket (fst (decide_message env ctx content now c)) =
      fst (bucket_try_take (tc_outbound_bucket c) 1 now)"
    using finalize_outbound(5)[OF out] eq by (simp add: frame_simps field)
qed

text \<open>The sandbox failures are trimmed, and a failing analyzer call adds one.\<close>

lemma decide_failures:
  fixes c :: "'a trusted_core"
  defines "w \<equiv> from_millis (sandbox_failure_window_ms (tc_runtime c))"
  shows "tc_sandbox_failures (fst (decide_message env ctx content now c)) \<in>
    {trim_window w now (tc_sandbox_failures c),
     trim_window w now (trim_window w now (tc_sandbox_failures c) @ [now])}"
proof -
  have rec: "tc_sandbox_failures (fst (recompute_mode now c)) =
      trim_window w now (tc_sandbox_failures c)"
    by (simp add: recompute_mode_def Let_def case_prod_beta trim_sandbox_failures_def w_def)
  have req: "tc_sandbox_failures (fst (request_proposal env content s det now c')) \<in>
      {tc_sandbox_failures c', trim_window (from_millis (sandbox_failure_window_ms (tc_runtime c')))
        now (tc_sandbox_failures c' @ [now])}" for s det and c' :: "'a trusted_core"
    by (simp add: request_proposal_def record_analyzer_error_def trim_sandbox_failures_def Let_def
        split: prod.split sum.split analyzer_error.split)
  show ?thesis
  proof (cases rule: decide_state[where c = c and ctx = ctx and now = now and env = env
        and content = content])
    case (finalized p s m)
    then show ?thesis
      using req[of s "env_detect env content" "(fst (recompute_mode now c))\<lparr>tc_duplicate_guard :=
              fst (is_duplicate_and_mark (env_order env) (tc_duplicate_guard c) (message_id ctx) now),
            tc_last_detection := Some (env_detect env content)\<rparr>"]
      by (simp add: frame_simps rec w_def)
  qed (simp_all add: frame_simps rec)
qed

section \<open>Cooldowns keep answers apart\<close>

lemma decide_outbound_cools:
  fixes c :: "'a trusted_core"
  assumes "dec_action (snd (decide_message env ctx content now c)) \<noteq> Noop"
  defines "c' \<equiv> fst (decide_message env ctx content now c)"
  shows "\<not> is_cooling (tc_user_cooldown c) (author_id ctx) now"
    and "\<not> is_cooling (tc_channel_cooldown c) (channel_id ctx) now"
    and "guild_id ctx = Some g \<Longrightarrow> \<not> is_cooling (tc_guild_cooldown c) g now"
    and "\<not> is_cooling (tc_global_cooldown c) 0 now"
    and "tc_user_cooldown c' = cooldown_mark (tc_user_cooldown c) (author_id ctx) now"
    and "tc_channel_cooldown c' = cooldown_mark (tc_channel_cooldown c) (channel_id ctx) now"
    and "guild_id ctx = Some g \<Longrightarrow>
      tc_guild_cooldown c' = cooldown_mark (tc_guild_cooldown c) g now"
    and "guild_id ctx = None \<Longrightarrow> tc_guild_cooldown c' = tc_guild_cooldown c"
    and "tc_global_cooldown c' = cooldown_mark (tc_global_cooldown c) 0 now"
proof -
  obtain c4 p s where eq: "decide_message env ctx content now c =
      core_finalize ctx p s (snd (recompute_mode now c)) now (Some (env_detect env content)) c4"
    and fields: "tc_user_cooldown c4 = tc_user_cooldown c"
      "tc_channel_cooldown c4 = tc_channel_cooldown c" "tc_guild_cooldown c4 = tc_guild_cooldown c"
      "tc_global_cooldown c4 = tc_global_cooldown c"
    by (rule decide_outbound[OF assms(1)]) (blast intro: that)
  have out: "dec_action (snd (core_finalize ctx p s (snd (recompute_mode now c)) now
      (Some (env_detect env content)) c4)) \<noteq> Noop"
    using assms(1) eq by simp
  note allowed = cooldown_allows_true[OF finalize_outbound(4)[OF out]]
  have c': "c' = fst (cooldown_allows ctx now
      (c4\<lparr>tc_outbound_bucket := fst (bucket_try_take (tc_outbound_bucket c4) 1 now)\<rparr>))"
    using finalize_outbound(5)[OF out] eq by (simp add: c'_def)
  show "\<not> is_cooling (tc_user_cooldown c) (author_id ctx) now"
    and "\<not> is_cooling (tc_channel_cooldown c) (channel_id ctx) now"
    and "guild_id ctx = Some g \<Longrightarrow> \<not> is_cooling (tc_guild_cooldown c) g now"
    and "\<not> is_cooling (tc_global_cooldown c) 0 now"
    using allowed(1-4) by (simp_all add: fields)
  show "tc_user_cooldown c' = cooldown_mark (tc_user_cooldown c) (author_id ctx) now"
    and "tc_channel_cooldown c' = cooldown_mark (tc_channel_cooldown c) (channel_id ctx) now"
    and "guild_id ctx = Some g \<Longrightarrow>
      tc_guild_cooldown c' = cooldown_mark (tc_guild_cooldown c) g now"
    and "guild_id ctx = None \<Longrightarrow> tc_guild_cooldown c' = tc_guild_cooldown c"
    and "tc_global_cooldown c' = cooldown_mark (tc_global_cooldown c) 0 now"
    using allowed(5-8) by (simp_all add: fields c')
qed

text \<open>In every step each cooldown map is left alone or marked at an open key.\<close>

definition marked_or_same :: "cooldown_map \<Rightarrow> nat option \<Rightarrow> instant \<Rightarrow> cooldown_map \<Rightarrow> bool" where
  "marked_or_same m key now m' \<longleftrightarrow>
     m' = m \<or> (\<exists>k. key = Some k \<and> \<not> is_cooling m k now \<and> m' = cooldown_mark m k now)"

lemma marked_closed:
  "marked_or_same m key now m' \<Longrightarrow> cooldowns.closed m k x \<Longrightarrow> cooldowns.closed m' k x"
  by (auto simp: marked_or_same_def intro: cooldowns.closed_mark)

lemma marked_ttl: "marked_or_same m key now m' \<Longrightarrow> cd_ttl m' = cd_ttl m"
  by (auto simp: marked_or_same_def cooldown_mark_def)

lemma cooldown_allows_marked:
  "marked_or_same (tc_user_cooldown c) (Some (author_id ctx)) now
    (tc_user_cooldown (fst (cooldown_allows ctx now c)))"
  "marked_or_same (tc_channel_cooldown c) (Some (channel_id ctx)) now
    (tc_channel_cooldown (fst (cooldown_allows ctx now c)))"
  "marked_or_same (tc_guild_cooldown c) (guild_id ctx) now
    (tc_guild_cooldown (fst (cooldown_allows ctx now c)))"
  "marked_or_same (tc_global_cooldown c) (Some 0) now
    (tc_global_cooldown (fst (cooldown_allows ctx now c)))"
  by (auto simp: cooldown_allows_def Let_def marked_or_same_def split: option.split)

lemma marked_refl: "marked_or_same m key now m"
  by (simp add: marked_or_same_def)

lemma decide_marked:
  fixes c :: "'a trusted_core"
  defines "c' \<equiv> \<lambda>env ctx content now. fst (decide_message env ctx content now c)"
  shows "marked_or_same (tc_user_cooldown c) (Some (author_id ctx)) now
      (tc_user_cooldown (c' env ctx content now)) \<and>
    marked_or_same (tc_channel_cooldown c) (Some (channel_id ctx)) now
      (tc_channel_cooldown (c' env ctx content now)) \<and>
    marked_or_same (tc_guild_cooldown c) (guild_id ctx) now
      (tc_guild_cooldown (c' env ctx content now)) \<and>
    marked_or_same (tc_global_cooldown c) (Some 0) now
      (tc_global_cooldown (c' env ctx content now))"
proof (cases rule: decide_state[where c = c and ctx = ctx and now = now and env = env
      and content = content])
  case (finalized p s m)
  let ?c4 = "fst (request_proposal env content s (env_detect env content) now
    ((fst (recompute_mode now c))\<lparr>tc_duplicate_guard :=
        fst (is_duplicate_and_mark (env_order env) (tc_duplicate_guard c) (message_id ctx) now),
      tc_last_detection := Some (env_detect env content)\<rparr>))"
  let ?c5 = "?c4\<lparr>tc_outbound_bucket := fst (bucket_try_take (tc_outbound_bucket ?c4) 1 now)\<rparr>"
  show ?thesis
    using finalize_state(1)[where c = ?c4 and ctx = ctx and p = p and s = s and m = m and now = now
        and det = "Some (env_detect env content)"] finalized(3)
      cooldown_allows_marked[where c = ?c5 and ctx = ctx and now = now]
    by (auto simp: c'_def frame_simps marked_refl)
qed (simp_all add: c'_def frame_simps marked_refl)

text \<open>
  A keyed cooldown of the core over a run: \<open>cd\<close> reads the map, \<open>key\<close> the key of a message.
\<close>

locale separated_runs =
  fixes cd :: "'a trusted_core \<Rightarrow> cooldown_map" and key :: "message_context \<Rightarrow> nat option"
    and env :: "'a core_env"
  assumes step_marked: "marked_or_same (cd c) (case snd (core_apply env op now c) of
        Some (ctx, d) \<Rightarrow> key ctx | None \<Rightarrow> None) now (cd (fst (core_apply env op now c)))"
    and step_outbound: "snd (core_apply env op now c) = Some (ctx, d) \<Longrightarrow> dec_action d \<noteq> Noop \<Longrightarrow>
      key ctx = Some k \<Longrightarrow> \<not> is_cooling (cd c) k now \<and>
        cd (fst (core_apply env op now c)) = cooldown_mark (cd c) k now"
begin

lemma closed_run:
  "cooldowns.closed (cd c) k x \<Longrightarrow> (t, ctx) \<in> set (snd (core_run env c es)) \<Longrightarrow>
   key ctx = Some k \<Longrightarrow> x \<le> t"
proof (induction es arbitrary: c)
  case (Cons e es)
  obtain op now where e: "e = (op, now)" by (cases e)
  let ?c1 = "fst (core_apply env op now c)" and ?d = "snd (core_apply env op now c)"
  have closed: "cooldowns.closed (cd ?c1) k x"
    using step_marked Cons.prems(1) by (rule marked_closed)
  from Cons.prems(2) consider "(t, ctx) \<in> set (outbound_of now ?d)"
    | "(t, ctx) \<in> set (snd (core_run env ?c1 es))"
    by (auto simp: e case_prod_beta)
  then show ?case
  proof cases
    case 1
    then obtain d where "?d = Some (ctx, d)" "dec_action d \<noteq> Noop" "t = now"
      by (cases ?d) (auto split: if_splits)
    then show ?thesis
      using step_outbound Cons.prems(1,3) cooldowns.open_after by blast
  next
    case 2
    then show ?thesis using Cons.IH closed Cons.prems(3) by blast
  qed
qed simp

lemma ttl_step: "cd_ttl (cd (fst (core_apply env op now c))) = cd_ttl (cd c)"
  using step_marked by (rule marked_ttl)

lemma separated:
  "sorted_wrt (\<lambda>(t, x) (t', x'). \<forall>k. key x = Some k \<and> key x' = Some k \<longrightarrow> t + cd_ttl (cd c) \<le> t')
     (snd (core_run env c es))"
proof (induction es arbitrary: c)
  case (Cons e es)
  obtain op now where e: "e = (op, now)" by (cases e)
  let ?c1 = "fst (core_apply env op now c)" and ?d = "snd (core_apply env op now c)"
  have IH: "sorted_wrt (\<lambda>(t, x) (t', x'). \<forall>k. key x = Some k \<and> key x' = Some k \<longrightarrow>
      t + cd_ttl (cd c) \<le> t') (snd (core_run env ?c1 es))"
    using Cons.IH[of ?c1] by (simp add: ttl_step)
  have run: "snd (core_run env c (e # es)) = outbound_of now ?d @ snd (core_run env ?c1 es)"
    by (simp add: e case_prod_beta)
  show ?case
  proof (cases "outbound_of now ?d")
    case Nil
    then show ?thesis using IH by (simp add: run)
  next
    case (Cons y ys)
    then obtain x d where d: "?d = Some (x, d)" "dec_action d \<noteq> Noop"
      and y: "outbound_of now ?d = [(now, x)]"
      by (cases ?d) (auto split: if_splits)
    have "now + cd_ttl (cd c) \<le> t'"
      if "(t', x') \<in> set (snd (core_run env ?c1 es))" "key x = Some k" "key x' = Some k" for t' x' k
    proof (rule closed_run[OF _ that(1,3)])
      show "cooldowns.closed (cd ?c1) k (now + cd_ttl (cd c))"
        using step_outbound[OF d that(2)] cooldowns.closed_mark_self by simp
    qed
    then show ?thesis using IH unfolding run y by auto
  qed
qed simp

end

lemma bump_cools [frame_simps]:
  "tc_user_cooldown (record_http_status st now c) = tc_user_cooldown c"
  "tc_channel_cooldown (record_http_status st now c) = tc_channel_cooldown c"
  "tc_guild_cooldown (record_http_status st now c) = tc_guild_cooldown c"
  "tc_global_cooldown (record_http_status st now c) = tc_global_cooldown c"
  by (simp_all add: record_http_status_def Let_def)

lemmas setter_defs =
  set_mode_override_def set_emergency_kill_switch_def set_access_lists_def
  set_suspicious_thresholds_def reset_suspicious_thresholds_def update_session_budget_def
  record_reconnect_attempt_def record_resume_failure_def

text \<open>A step is a decision or changes no cooldown.\<close>

lemma core_apply_decide:
  "core_apply env (Decide ctx content) now c =
   (fst (decide_message env ctx content now c), Some (ctx, snd (decide_message env ctx content now c)))"
  by (simp add: core_apply_def case_prod_beta)

lemma core_apply_other:
  assumes "\<forall>ctx content. op \<noteq> Decide ctx content"
  shows "snd (core_apply env op now c) = None"
    and "tc_user_cooldown (fst (core_apply env op now c)) = tc_user_cooldown c"
    and "tc_channel_cooldown (fst (core_apply env op now c)) = tc_channel_cooldown c"
    and "tc_guild_cooldown (fst (core_apply env op now c)) = tc_guild_cooldown c"
    and "tc_global_cooldown (fst (core_apply env op now c)) = tc_global_cooldown c"
    and "tc_outbound_bucket (fst (core_apply env op now c)) = tc_outbound_bucket c"
    and "tc_duplicate_guard (fst (core_apply env op now c)) = tc_duplicate_guard c"
    and "tc_sandbox_failures (fst (core_apply env op now c)) = tc_sandbox_failures c"
  using assms
  by (cases op; simp add: core_apply_def setter_defs record_http_status_def Let_def)+

lemma core_apply_marked:
  "marked_or_same (tc_user_cooldown c) (case snd (core_apply env op now c) of
      Some (ctx, d) \<Rightarrow> Some (author_id ctx) | None \<Rightarrow> None) now
    (tc_user_cooldown (fst (core_apply env op now c)))"
  "marked_or_same (tc_channel_cooldown c) (case snd (core_apply env op now c) of
      Some (ctx, d) \<Rightarrow> Some (channel_id ctx) | None \<Rightarrow> None) now
    (tc_channel_cooldown (fst (core_apply env op now c)))"
  "marked_or_same (tc_guild_cooldown c) (case snd (core_apply env op now c) of
      Some (ctx, d) \<Rightarrow> guild_id ctx | None \<Rightarrow> None) now
    (tc_guild_cooldown (fst (core_apply env op now c)))"
  "marked_or_same (tc_global_cooldown c) (case snd (core_apply env op now c) of
      Some (ctx, d) \<Rightarrow> Some 0 | None \<Rightarrow> None) now
    (tc_global_cooldown (fst (core_apply env op now c)))"
  using decide_marked[of c _ now env]
  by (cases op; simp add: core_apply_decide core_apply_other marked_refl)+

lemma core_apply_outbound:
  assumes "snd (core_apply env op now c) = Some (ctx, d)" and "dec_action d \<noteq> Noop"
  obtains content where "op = Decide ctx content"
    "dec_action (snd (decide_message env ctx content now c)) \<noteq> Noop"
    "fst (core_apply env op now c) = fst (decide_message env ctx content now c)"
  using assms by (cases op) (auto simp: core_apply_def case_prod_beta)

interpretation user_runs: separated_runs tc_user_cooldown "\<lambda>x. Some (author_id x)" env for env
  by unfold_locales
    (auto simp: core_apply_marked elim!: core_apply_outbound dest: decide_outbound_cools(1,5))

interpretation channel_runs: separated_runs tc_channel_cooldown "\<lambda>x. Some (channel_id x)" env for env
  by unfold_locales
    (auto simp: core_apply_marked elim!: core_apply_outbound dest: decide_outbound_cools(2,6))

interpretation guild_runs: separated_runs tc_guild_cooldown guild_id env for env
  by unfold_locales
    (auto simp: core_apply_marked elim!: core_apply_outbound dest: decide_outbound_cools(3,7))

interpretation global_runs: separated_runs tc_global_cooldown "\<lambda>x. Some 0" env for env
  by unfold_locales
    (auto simp: core_apply_marked elim!: core_apply_outbound dest: decide_outbound_cools(4,9))

text \<open>C4: whatever happens in between and whenever it happens, two outbound actions are at least
  the global cooldown apart, and at least the cooldown of their common author, channel or guild.\<close>

theorem outbound_separated:
  assumes "i < j" and "j < length answers" and "answers = snd (core_run env c es)"
    and "answers ! i = (t, x)" and "answers ! j = (t', x')"
  shows "t + cd_ttl (tc_global_cooldown c) \<le> t' \<and>
    (author_id x = author_id x' \<longrightarrow> t + cd_ttl (tc_user_cooldown c) \<le> t') \<and>
    (channel_id x = channel_id x' \<longrightarrow> t + cd_ttl (tc_channel_cooldown c) \<le> t') \<and>
    (guild_id x = guild_id x' \<and> guild_id x \<noteq> None \<longrightarrow> t + cd_ttl (tc_guild_cooldown c) \<le> t')"
  using sorted_wrt_nth_less[OF user_runs.separated, of i j env c es]
    sorted_wrt_nth_less[OF channel_runs.separated, of i j env c es]
    sorted_wrt_nth_less[OF guild_runs.separated, of i j env c es]
    sorted_wrt_nth_less[OF global_runs.separated, of i j env c es] assms
  by auto

section \<open>The rate limit over a run\<close>

text \<open>The bucket of a run is the bucket of some calls, which grant at least the answers.\<close>

lemma run_bucket:
  "\<exists>calls. tc_outbound_bucket (fst (core_run env c es)) =
      fst (bucket_run (tc_outbound_bucket c) calls) \<and>
    length (snd (core_run env c es)) \<le> snd (bucket_run (tc_outbound_bucket c) calls) \<and>
    length calls \<le> length es \<and> (\<forall>(amount, t) \<in> set calls. amount = 1 \<and> t \<in> snd ` set es)"
proof (induction es arbitrary: c)
  case Nil
  then show ?case by (intro exI[of _ "[]"]) simp
next
  case (Cons e es)
  obtain op now where e: "e = (op, now)" by (cases e)
  let ?c1 = "fst (core_apply env op now c)" and ?d = "snd (core_apply env op now c)"
  let ?b = "tc_outbound_bucket c"
  obtain calls where IH: "tc_outbound_bucket (fst (core_run env ?c1 es)) =
        fst (bucket_run (tc_outbound_bucket ?c1) calls)"
      "length (snd (core_run env ?c1 es)) \<le> snd (bucket_run (tc_outbound_bucket ?c1) calls)"
      "length calls \<le> length es" "\<forall>(amount, t) \<in> set calls. amount = 1 \<and> t \<in> snd ` set es"
    using Cons.IH by blast
  have run: "fst (core_run env c (e # es)) = fst (core_run env ?c1 es)"
    "snd (core_run env c (e # es)) = outbound_of now ?d @ snd (core_run env ?c1 es)"
    by (simp_all add: e case_prod_beta)
  have head: "tc_outbound_bucket ?c1 = ?b \<and> outbound_of now ?d = [] \<or>
      tc_outbound_bucket ?c1 = fst (bucket_try_take ?b 1 now) \<and>
      length (outbound_of now ?d) \<le> granted 1 (snd (bucket_try_take ?b 1 now))"
  proof (cases "outbound_of now ?d")
    case Nil
    have "tc_outbound_bucket ?c1 \<in> {?b, fst (bucket_try_take ?b 1 now)}"
      using decide_bucket[of env _ _ now c]
      by (cases op) (simp_all add: core_apply_decide core_apply_other)
    with Nil show ?thesis by auto
  next
    case (Cons y ys)
    then obtain ctx d where "?d = Some (ctx, d)" "dec_action d \<noteq> Noop"
      by (cases ?d) (auto split: if_splits)
    then obtain content where out: "dec_action (snd (decide_message env ctx content now c)) \<noteq> Noop"
      and "fst (core_apply env op now c) = fst (decide_message env ctx content now c)"
      by (rule core_apply_outbound)
    then show ?thesis
      using decide_outbound_bucket[OF out] \<open>?d = Some (ctx, d)\<close> \<open>dec_action d \<noteq> Noop\<close>
      by (simp add: granted_def)
  qed
  then show ?case
  proof
    assume "tc_outbound_bucket ?c1 = ?b \<and> outbound_of now ?d = []"
    with IH show ?thesis unfolding run by (intro exI[of _ calls]) (auto simp: split_beta)
  next
    assume "tc_outbound_bucket ?c1 = fst (bucket_try_take ?b 1 now) \<and>
      length (outbound_of now ?d) \<le> granted 1 (snd (bucket_try_take ?b 1 now))"
    with IH show ?thesis
      unfolding run by (intro exI[of _ "(1, now) # calls"]) (auto simp: split_beta e Let_def)
  qed
qed

lemma run_rate_bound:
  assumes "global_rate_burst rt \<le> u32_max" and "t0 \<le> T" and "\<forall>(op, t) \<in> set es. t \<le> T"
  shows "of_nat (length (snd (core_run env (core_new analyzer cfg rt t0) es))) \<le>
    of_nat (max (global_rate_burst rt) 1)
      + exact_secs (T - t0) * max (global_rate_per_sec rt) (f64_round (1 / 10)) * drift
      + of_nat (length es) * (2 * of_nat (max (global_rate_burst rt) 1) * f64_unit)"
proof -
  let ?b = "token_bucket_new (global_rate_burst rt) (global_rate_per_sec rt) t0"
  let ?cap = "of_nat (max (global_rate_burst rt) 1) :: rat"
  obtain calls where len: "length (snd (core_run env (core_new analyzer cfg rt t0) es)) \<le>
        snd (bucket_run ?b calls)"
    and calls: "length calls \<le> length es"
      "\<forall>(amount, t) \<in> set calls. amount = 1 \<and> t \<in> snd ` set es"
    using run_bucket[of env "core_new analyzer cfg rt t0" es] by (auto simp: core_new_def)
  have "\<forall>(amount, t) \<in> set calls. amount \<le> u32_max \<and> t \<le> T"
    using calls(2) assms(3) by (fastforce simp: u32_max_def)
  moreover have "bucket_inv ?b" by (rule bucket_new_inv[OF assms(1)])
  moreover have "tb_last_refill ?b \<le> T" using assms(2) by (simp add: token_bucket_new_def Let_def)
  ultimately have "of_nat (snd (bucket_run ?b calls)) \<le> tb_tokens ?b
      + exact_secs (T - tb_last_refill ?b) * tb_refill_per_sec ?b * drift
      + of_nat (length calls) * (2 * tb_capacity ?b * f64_unit)"
    by (intro bucket_run_bound)
  also have "\<dots> = ?cap + exact_secs (T - t0) * max (global_rate_per_sec rt) (f64_round (1 / 10)) * drift
      + of_nat (length calls) * (2 * ?cap * f64_unit)"
    using f64_round_u32[OF max_u32[OF assms(1)]] by (simp add: token_bucket_new_def Let_def)
  also have "of_nat (length calls) * (2 * ?cap * f64_unit) \<le>
      of_nat (length es) * (2 * ?cap * f64_unit)"
    using calls(1) by (intro mult_right_mono) (simp_all add: f64_unit_def)
  finally show ?thesis
    using len by (meson add_left_mono of_nat_le_iff order_trans)
qed

text \<open>C5: no run answers more often than the token bucket refills: in the time \<open>T - t0\<close> at most the
  burst, plus the refill rate times that time, up to the rounding of double precision.\<close>

theorem outbound_rate_bound:
  assumes "global_rate_burst rt \<le> u32_max" and "t0 \<le> T" and "\<forall>(op, t) \<in> set es. t \<le> T"
  shows "of_nat (length (snd (core_run env (core_new analyzer cfg rt t0) es))) \<le>
    of_nat (max (global_rate_burst rt) 1)
      + exact_secs (T - t0) * max (global_rate_per_sec rt) (f64_round (1 / 10)) * drift
      + of_nat (length es) * (2 * of_nat (max (global_rate_burst rt) 1) * f64_unit)"
  using assms by (rule run_rate_bound)

section \<open>The duplicate guard over a run\<close>

text \<open>The messages a run shows to the duplicate guard, with their times.\<close>

fun core_marks ::
  "'a core_env \<Rightarrow> 'a trusted_core \<Rightarrow> (core_op \<times> instant) list \<Rightarrow> (nat \<times> instant) list" where
  "core_marks env c [] = []"
| "core_marks env c ((op, now) # es) =
     (case op of
        Decide ctx content \<Rightarrow> (if reached_guard c ctx now then [(message_id ctx, now)] else [])
      | _ \<Rightarrow> []) @ core_marks env (fst (core_apply env op now c)) es"

lemma step_guard:
  "tc_duplicate_guard (fst (core_apply env op now c)) =
   guard_run (env_order env) (tc_duplicate_guard c) (case op of
      Decide ctx content \<Rightarrow> (if reached_guard c ctx now then [(message_id ctx, now)] else [])
    | _ \<Rightarrow> [])"
  by (cases op)
    (simp_all add: core_apply_decide core_apply_other frame_simps guard_run_def)

lemma run_guard:
  "tc_duplicate_guard (fst (core_run env c es)) =
   guard_run (env_order env) (tc_duplicate_guard c) (core_marks env c es)"
  by (induction es arbitrary: c)
    (auto simp: guard_run_def step_guard case_prod_beta)

lemma core_run_append:
  "core_run env c (es @ fs) =
   (fst (core_run env (fst (core_run env c es)) fs),
    snd (core_run env c es) @ snd (core_run env (fst (core_run env c es)) fs))"
  by (induction es arbitrary: c) (auto simp: case_prod_beta)

lemma reaches_run:
  assumes "core_reaches env c0 t0 c t" and "sorted (map snd es)" and "\<forall>x\<in>set (map snd es). t \<le> x"
  shows "core_reaches env c0 t0 (fst (core_run env c es)) (last (t # map snd es))"
  using assms
proof (induction es arbitrary: c t)
  case (Cons e es)
  obtain op now where e: "e = (op, now)" by (cases e)
  have "core_reaches env c0 t0 (fst (core_apply env op now c)) now"
    using Cons.prems e by (auto intro: reach_step)
  from Cons.IH[OF this] Cons.prems e show ?case by (auto simp: case_prod_beta)
qed simp

lemma core_marks_append:
  "core_marks env c (es @ fs) = core_marks env c es @ core_marks env (fst (core_run env c es)) fs"
  by (induction es arbitrary: c) (auto simp: case_prod_beta)

lemma marks_times: "set (map snd (core_marks env c es)) \<subseteq> set (map snd es)"
  by (induction es arbitrary: c) (fastforce split: core_op.splits if_splits)+

lemma marks_sorted: "sorted (map snd es) \<Longrightarrow> sorted (map snd (core_marks env c es))"
proof (induction es arbitrary: c)
  case (Cons e es)
  obtain op now where e: "e = (op, now)" by (cases e)
  have le: "\<forall>t \<in> set (map snd (core_marks env (fst (core_apply env op now c)) es)). now \<le> t"
  proof
    fix t assume "t \<in> set (map snd (core_marks env (fst (core_apply env op now c)) es))"
    then have "t \<in> set (map snd es)" using marks_times by blast
    then show "now \<le> t" using Cons.prems by (auto simp: e)
  qed
  have IH: "sorted (map snd (core_marks env (fst (core_apply env op now c)) es))"
    using Cons by simp
  show ?case
  proof (cases op)
    case (Decide ctx content)
    then show ?thesis using le IH by (simp add: e)
  qed (use IH in \<open>simp_all add: e\<close>)
qed simp

text \<open>An answered message has been shown to the guard at its time.\<close>

lemma answered_marked:
  "(t, x) \<in> set (snd (core_run env c es)) \<Longrightarrow> (message_id x, t) \<in> set (core_marks env c es)"
proof (induction es arbitrary: c)
  case (Cons e es)
  obtain op now where e: "e = (op, now)" by (cases e)
  from Cons.prems consider "(t, x) \<in> set (outbound_of now (snd (core_apply env op now c)))"
    | "(t, x) \<in> set (snd (core_run env (fst (core_apply env op now c)) es))"
    by (auto simp: e case_prod_beta)
  then show ?case
  proof cases
    case 1
    then obtain d where d: "snd (core_apply env op now c) = Some (x, d)" "dec_action d \<noteq> Noop"
      and t: "t = now"
      by (cases "snd (core_apply env op now c)") (auto split: if_splits)
    obtain content where op: "op = Decide x content"
      and out: "dec_action (snd (decide_message env x content now c)) \<noteq> Noop"
      by (rule core_apply_outbound[OF d])
    have "reached_guard c x now"
      using outbound_permitted[OF out] by (simp add: reached_guard_def permitted_def)
    then show ?thesis by (simp add: e op t)
  next
    case 2
    then show ?thesis using Cons.IH by (simp add: e)
  qed
qed simp

text \<open>Where in a run an answer comes from.\<close>

lemma answer_split:
  "j < length (snd (core_run env c es)) \<Longrightarrow>
   \<exists>es1 op now es2. es = es1 @ (op, now) # es2 \<and> length (snd (core_run env c es1)) = j \<and>
     outbound_of now (snd (core_apply env op now (fst (core_run env c es1)))) =
       [snd (core_run env c es) ! j]"
proof (induction es arbitrary: c j)
  case (Cons e es)
  obtain op now where e: "e = (op, now)" by (cases e)
  let ?c1 = "fst (core_apply env op now c)" and ?o = "outbound_of now (snd (core_apply env op now c))"
  have run: "snd (core_run env c (e # es)) = ?o @ snd (core_run env ?c1 es)"
    by (simp add: e case_prod_beta)
  have one: "length ?o \<le> 1" by (cases "snd (core_apply env op now c)") (auto split: if_splits)
  show ?case
  proof (cases "j < length ?o")
    case True
    then have "j = 0" "?o = [?o ! 0]" using one by (cases ?o; simp)+
    then show ?thesis
      using True run by (intro exI[of _ "[]"] exI[of _ op] exI[of _ now] exI[of _ es])
        (simp add: e nth_append)
  next
    case False
    then have "j - length ?o < length (snd (core_run env ?c1 es))" using Cons.prems run by simp
    from Cons.IH[OF this] obtain es1 op' now' es2 where es: "es = es1 @ (op', now') # es2"
      and l: "length (snd (core_run env ?c1 es1)) = j - length ?o"
      and o: "outbound_of now' (snd (core_apply env op' now' (fst (core_run env ?c1 es1)))) =
        [snd (core_run env ?c1 es) ! (j - length ?o)]"
      by blast
    have "length (snd (core_run env c (e # es1))) = j"
      using l False by (simp add: e case_prod_beta)
    moreover have "outbound_of now' (snd (core_apply env op' now' (fst (core_run env c (e # es1))))) =
        [snd (core_run env c (e # es)) ! j]"
      using o False run by (simp add: e case_prod_beta nth_append)
    ultimately show ?thesis
      using es by (intro exI[of _ "e # es1"] exI[of _ op'] exI[of _ now'] exI[of _ es2]) simp
  qed
qed simp

lemma last_mark:
  "sorted (map snd ms) \<Longrightarrow> (i, t) \<in> set ms \<Longrightarrow> \<exists>u. t \<le> u \<and> map_of (rev ms) i = Some u"
proof (induction ms rule: rev_induct)
  case (snoc m ms)
  obtain k u where m: "m = (k, u)" by (cases m)
  have "v \<le> u" if "(i, v) \<in> set ms" for v
    using snoc.prems(1) that by (force simp: m sorted_append)
  then show ?case using snoc by (auto simp: m sorted_append)
qed simp

text \<open>C6: no message is answered twice within the duplicate window: over any run in order of
  time in which at most \<open>cap\<close> different messages are live in the window at once, two answers to
  the same message id are more than the TTL apart.\<close>

theorem answered_once:
  assumes "iteration_order (env_order env)" and "sorted (map snd es)"
    and "tc_duplicate_guard c = duplicate_guard_new ttl cap"
    and "\<forall>n < length (core_marks env c es). card (live_ids ttl (take (Suc n) (core_marks env c es))
      (snd (core_marks env c es ! n))) \<le> max cap 64"
    and "i < j" and "j < length answers" and "answers = snd (core_run env c es)"
    and "answers ! i = (t, x)" and "answers ! j = (t', x')" and "message_id x = message_id x'"
  shows "t + ttl < t'"
proof -
  obtain es1 op now es2 where es: "es = es1 @ (op, now) # es2"
    and len: "length (snd (core_run env c es1)) = j"
    and o: "outbound_of now (snd (core_apply env op now (fst (core_run env c es1)))) = [answers ! j]"
    using answer_split[of j env c es] assms(6,7) by blast
  let ?c1 = "fst (core_run env c es1)" and ?ms = "core_marks env c es1"
  obtain d where d: "snd (core_apply env op now ?c1) = Some (x', d)" "dec_action d \<noteq> Noop"
    and t': "t' = now"
    using o assms(9) by (cases "snd (core_apply env op now ?c1)") (auto split: if_splits)
  obtain content where out: "dec_action (snd (decide_message env x' content now ?c1)) \<noteq> Noop"
    by (rule core_apply_outbound[OF d]) blast
  from outbound_permitted[OF this]
  have "\<not> snd (is_duplicate_and_mark (env_order env) (tc_duplicate_guard ?c1)
      (message_id x') now)"
    by (simp add: permitted_def)
  then have fresh: "\<not> snd (is_duplicate_and_mark (env_order env)
      (guard_run (env_order env) (duplicate_guard_new ttl cap) ?ms) (message_id x') now)"
    by (simp add: run_guard assms(3))
  have sorted: "sorted (map snd es1)" and le: "\<forall>p \<in> set es1. snd p \<le> now"
    using assms(2) by (auto simp: es sorted_append)
  have ms_le: "\<forall>(k, u) \<in> set ?ms. u \<le> now"
  proof (clarify)
    fix k u assume "(k, u) \<in> set ?ms"
    then have "u \<in> set (map snd ?ms)" by force
    then have "u \<in> set (map snd es1)" using marks_times by blast
    then show "u \<le> now" using le by auto
  qed
  have prefix: "core_marks env c es = ?ms @ core_marks env ?c1 ((op, now) # es2)"
    unfolding es by (rule core_marks_append)
  have cap: "\<forall>n < length ?ms. card (live_ids ttl (take (Suc n) ?ms) (snd (?ms ! n))) \<le> max cap 64"
  proof (intro allI impI)
    fix n assume n: "n < length ?ms"
    then show "card (live_ids ttl (take (Suc n) ?ms) (snd (?ms ! n))) \<le> max cap 64"
      using assms(4)[rule_format, of n] unfolding prefix by (simp add: nth_append)
  qed
  have dead: "message_id x' \<notin> live_ids ttl ?ms now"
    using fresh guard_live[OF assms(1) marks_sorted[OF sorted] ms_le cap] by blast
  have "answers ! i = snd (core_run env c es1) ! i"
    using assms(5,7) len unfolding es core_run_append by (simp add: nth_append)
  then have "(t, x) \<in> set (snd (core_run env c es1))"
    using assms(5,8) len by (metis nth_mem)
  then have "(message_id x', t) \<in> set ?ms" using answered_marked assms(10) by metis
  then obtain u where "t \<le> u" "map_of (rev ?ms) (message_id x') = Some u"
    using last_mark[OF marks_sorted[OF sorted]] by blast
  then show ?thesis using dead by (auto simp: live_ids_def duration_since_def t')
qed

section \<open>Accounting\<close>

text \<open>The counters of suppressed messages, and their change in a decision.\<close>

definition suppression_counters :: "'a trusted_core \<Rightarrow> nat \<times> nat" where
  "suppression_counters c =
     (messages_dropped_total (tc_metrics c), outbound_suppressed_total (tc_metrics c))"

lemma suppression_frame [frame_simps]:
  "suppression_counters (fst (recompute_mode now c)) = suppression_counters c"
  "suppression_counters (fst (request_proposal env content s det now c)) = suppression_counters c"
  "suppression_counters (fst (cooldown_allows ctx now c)) = suppression_counters c"
  "suppression_counters (fst (core_drop m p s r c)) =
    (sat_add (fst (suppression_counters c)) 1, sat_add (snd (suppression_counters c)) 1)"
  "suppression_counters (c\<lparr>tc_outbound_bucket := b\<rparr>) = suppression_counters c"
  "suppression_counters (c\<lparr>tc_duplicate_guard := g\<rparr>) = suppression_counters c"
  "suppression_counters (c\<lparr>tc_last_detection := l\<rparr>) = suppression_counters c"
  "suppression_counters (c\<lparr>tc_duplicate_guard := g,
    tc_metrics := duplicate_suppressed_total_update f (tc_metrics c)\<rparr>) = suppression_counters c"
  "suppression_counters (c\<lparr>tc_metrics := cooldown_hits_total_update f (tc_metrics c)\<rparr>) =
    suppression_counters c"
  by (simp_all add: suppression_counters_def recompute_mode_def request_proposal_def
      record_analyzer_error_def trim_sandbox_failures_def core_drop_def Let_def frame_simps
      split: prod.split sum.split analyzer_error.split)

definition core_compiled ::
  "action_proposal \<Rightarrow> runtime_mode \<Rightarrow> suspicion_level \<Rightarrow> detection_report option \<Rightarrow>
    'a trusted_core \<Rightarrow> bot_action" where
  "core_compiled p m s det c = compile_response_from_detection p m s (tc_bot_config c)
    (max_send_chars (tc_runtime c)) (max_count_cap (tc_bot_config c)) det"

abbreviation bare_decision ::
  "bot_action \<Rightarrow> action_proposal \<Rightarrow> suspicion_level \<Rightarrow> runtime_mode \<Rightarrow> action_decision" where
  "bare_decision a p s m \<equiv> \<lparr>dec_action = a, dec_mode = m, dec_proposal = p, dec_suspicion = s,
    dec_suppress_reason = None\<rparr>"

abbreviation bucket_taken :: "nat \<Rightarrow> 'a trusted_core \<Rightarrow> 'a trusted_core" where
  "bucket_taken now c \<equiv>
    c\<lparr>tc_outbound_bucket := fst (bucket_try_take (tc_outbound_bucket c) 1 now)\<rparr>"

text \<open>The checks of the finalising step, in their order, on an action the compiler has already bounded.\<close>

lemma finalize_eq:
  fixes c :: "'a trusted_core" and ctx p s m now det
  defines "A \<equiv> core_compiled p m s det c" and "c1 \<equiv> bucket_taken now c"
  defines "c2 \<equiv> fst (cooldown_allows ctx now c1)"
  shows "core_finalize ctx p s m now det c =
    (if A = Noop
     then (if m \<noteq> Normal \<and> is_outbound_proposal p then core_drop m p s ModeRestricted c
           else if p = ProposeSuspicious then core_drop m p s Suspicious c
           else if is_outbound_proposal p then core_drop m p s InvalidAction c
           else (c, bare_decision Noop p s m))
     else if \<not> breaker_allows_outbound (tc_breaker c) now then core_drop m p s CircuitOpen c
     else if \<not> snd (bucket_try_take (tc_outbound_bucket c) 1 now) then core_drop m p s RateLimit c1
     else if max_actions_per_message (tc_runtime c1) = 0 then core_drop m p s InvalidAction c1
     else if \<not> snd (cooldown_allows ctx now c1)
     then core_drop m p s Cooldown (bump cooldown_hits_total_update c2)
     else (c2, bare_decision A p s m))"
proof -
  have caps: "enforce_action_caps A (max_send_chars (tc_runtime c2)) = A" "\<not> is_invalid_action A"
    by (simp_all add: A_def core_compiled_def c1_def c2_def frame_simps compiled_caps compiled_valid)
  show ?thesis
    unfolding core_finalize_def Let_def case_prod_beta core_compiled_def[symmetric]
      A_def[symmetric] c1_def[symmetric] c2_def[symmetric] caps(1) using caps(2) by simp
qed

lemma finalize_cases:
  fixes c :: "'a trusted_core"
  obtains (dropped) r c5 where "core_finalize ctx p s m now det c = core_drop m p s r c5"
      "suppression_counters c5 = suppression_counters c"
  | (silent) "core_finalize ctx p s m now det c = (c, bare_decision Noop p s m)"
      "\<not> is_outbound_proposal p" "p \<noteq> ProposeSuspicious"
  | (answered) a c5 where "core_finalize ctx p s m now det c = (c5, bare_decision a p s m)" "a \<noteq> Noop"
      "suppression_counters c5 = suppression_counters c"
proof -
  define A c1 where "A = core_compiled p m s det c" and "c1 = bucket_taken now c"
  define c2 where "c2 = fst (cooldown_allows ctx now c1)"
  have c12: "suppression_counters c1 = suppression_counters c"
    "suppression_counters c2 = suppression_counters c"
    by (simp_all add: c1_def c2_def frame_simps)
  then have counts: "suppression_counters (bump cooldown_hits_total_update c2) =
      suppression_counters c"
    by (simp add: frame_simps)
  note eq = finalize_eq[of ctx p s m now det c, folded A_def c1_def, folded c2_def]
  note drop = dropped[OF _ refl] dropped[OF _ c12(1)] dropped[OF _ counts]
  from eq show thesis
    by (auto split: if_splits intro: drop silent answered[OF _ _ c12(2)])
qed

definition inert_proposal :: "action_proposal \<Rightarrow> bool" where
  "inert_proposal p \<longleftrightarrow> (case p of ProposeNoop \<Rightarrow> True | Defer \<Rightarrow> True | Reject _ \<Rightarrow> True | _ \<Rightarrow> False)"

lemma accounted:
  "case decide_message env ctx content now c of (c', d) \<Rightarrow>
     (case dec_suppress_reason d of
        None \<Rightarrow>
          suppression_counters c' = suppression_counters c \<and>
          (dec_action d = Noop \<longrightarrow> inert_proposal (dec_proposal d))
      | Some _ \<Rightarrow>
          suppression_counters c' =
            (sat_add (fst (suppression_counters c)) 1, sat_add (snd (suppression_counters c)) 1) \<and>
          dec_action d = Noop)"
proof (cases rule: decide_state[where c = c and ctx = ctx and now = now and env = env
      and content = content])
  case (finalized p s m)
  let ?c4 = "fst (request_proposal env content s (env_detect env content) now
    ((fst (recompute_mode now c))\<lparr>tc_duplicate_guard :=
        fst (is_duplicate_and_mark (env_order env) (tc_duplicate_guard c) (message_id ctx) now),
      tc_last_detection := Some (env_detect env content)\<rparr>))"
  have inert: "\<not> is_outbound_proposal q \<Longrightarrow> q \<noteq> ProposeSuspicious \<Longrightarrow>
      inert_proposal q" for q
    by (cases q) (auto simp: is_outbound_proposal_def inert_proposal_def)
  show ?thesis
    by (cases rule: finalize_cases[where ctx = ctx and p = p and s = s and m = m and now = now
          and det = "Some (env_detect env content)" and c = ?c4])
      (use inert[of p] in \<open>auto simp: case_prod_beta finalized(3) frame_simps\<close>)
qed (simp_all add: case_prod_beta frame_simps)

section \<open>Reachable states\<close>

definition cooldown_bounded :: "cooldown_map \<Rightarrow> instant \<Rightarrow> bool" where
  "cooldown_bounded m clock \<longleftrightarrow> (\<forall>k v. cd_next_allowed m k = Some v \<longrightarrow> v \<le> clock + cd_ttl m)"

definition core_inv :: "'a trusted_core \<Rightarrow> instant \<Rightarrow> bool" where
  "core_inv c clock \<longleftrightarrow>
     guard_inv (tc_duplicate_guard c) \<and> bucket_inv (tc_outbound_bucket c) \<and>
     sorted (tc_sandbox_failures c) \<and> (\<forall>t \<in> set (tc_sandbox_failures c). t \<le> clock) \<and>
     sorted (cb_failures (tc_breaker c)) \<and> (\<forall>t \<in> set (cb_failures (tc_breaker c)). t \<le> clock) \<and>
     (\<forall>u. cb_open_until (tc_breaker c) = Some u \<longrightarrow> u \<le> clock + cb_open_for (tc_breaker c)) \<and>
     cooldown_bounded (tc_user_cooldown c) clock \<and> cooldown_bounded (tc_channel_cooldown c) clock \<and>
     cooldown_bounded (tc_guild_cooldown c) clock \<and> cooldown_bounded (tc_global_cooldown c) clock \<and>
     messages_dropped_total (tc_metrics c) = outbound_suppressed_total (tc_metrics c)"

lemma marked_bounded:
  "marked_or_same m key now m' \<Longrightarrow> cooldown_bounded m t \<Longrightarrow> t \<le> now \<Longrightarrow> cooldown_bounded m' now"
proof -
  assume "marked_or_same m key now m'" and le: "t \<le> now" and b: "cooldown_bounded m t"
  have b': "cooldown_bounded m now"
    using b le unfolding cooldown_bounded_def by (meson add_le_mono1 order_trans)
  from \<open>marked_or_same m key now m'\<close> consider "m' = m" | k where "m' = cooldown_mark m k now"
    by (auto simp: marked_or_same_def)
  then show ?thesis
    using b' by cases (auto simp: cooldown_bounded_def cooldown_mark_def)
qed

text \<open>C10: every decision accounts for itself: a reason is given exactly when the message is counted
  as dropped and as suppressed; a message with a reason is not answered; and silence without a
  reason means that nothing outbound was proposed.\<close>

theorem decision_accounted:
  "case decide_message env ctx content now c of (c', d) \<Rightarrow>
     (case dec_suppress_reason d of
        None \<Rightarrow>
          suppression_counters c' = suppression_counters c \<and>
          (dec_action d = Noop \<longrightarrow> inert_proposal (dec_proposal d))
      | Some _ \<Rightarrow>
          suppression_counters c' =
            (sat_add (fst (suppression_counters c)) 1, sat_add (snd (suppression_counters c)) 1) \<and>
          dec_action d = Noop)"
  by (rule accounted)

lemma take_inv: "bucket_inv b \<Longrightarrow> bucket_inv (fst (bucket_try_take b 1 now))"
  by (rule bucket_take_inv) (simp_all add: u32_max_def)

lemma trim_inv:
  "sorted ts \<Longrightarrow> \<forall>t \<in> set ts. t \<le> (clock :: nat) \<Longrightarrow>
   sorted (trim_window w now ts) \<and> (\<forall>t \<in> set (trim_window w now ts). t \<le> clock)"
  using set_trim_window[of w now ts] by (auto intro: sorted_trim_window)

lemma core_new_inv: "global_rate_burst rt \<le> u32_max \<Longrightarrow> core_inv (core_new a cfg rt t0) t0"
  by (simp add: core_inv_def core_new_def guard_new_inv bucket_new_inv breaker_new_def
      cooldown_map_new_def cooldown_bounded_def metrics_default_def)

lemma decide_guard_inv:
  "iteration_order (env_order env) \<Longrightarrow> guard_inv (tc_duplicate_guard c) \<Longrightarrow>
   guard_inv (tc_duplicate_guard (fst (decide_message env ctx content now c)))"
  by (simp add: decide_frame mark_inv)

lemma decide_failures_inv:
  assumes "sorted (tc_sandbox_failures c)" and "\<forall>t \<in> set (tc_sandbox_failures c). t \<le> clock"
    and "clock \<le> now"
  shows "sorted (tc_sandbox_failures (fst (decide_message env ctx content now c))) \<and>
    (\<forall>t \<in> set (tc_sandbox_failures (fst (decide_message env ctx content now c))). t \<le> now)"
proof -
  define w where "w = from_millis (sandbox_failure_window_ms (tc_runtime c))"
  let ?ts = "trim_window w now (tc_sandbox_failures c)"
  have le: "\<forall>t \<in> set (tc_sandbox_failures c). t \<le> now" using assms(2,3) by auto
  then have ts: "sorted ?ts \<and> (\<forall>t \<in> set ?ts. t \<le> now)"
    using assms(1) by (intro trim_inv) auto
  then have "sorted (?ts @ [now]) \<and> (\<forall>t \<in> set (?ts @ [now]). t \<le> now)"
    by (auto simp: sorted_append)
  then have "sorted (trim_window w now (?ts @ [now])) \<and>
      (\<forall>t \<in> set (trim_window w now (?ts @ [now])). t \<le> now)"
    by (intro trim_inv) auto
  with ts show ?thesis
    using decide_failures[of env ctx content now c] unfolding w_def[symmetric] by auto
qed

lemma decide_bucket_inv:
  "bucket_inv (tc_outbound_bucket c) \<Longrightarrow>
   bucket_inv (tc_outbound_bucket (fst (decide_message env ctx content now c)))"
  using decide_bucket[of env ctx content now c] take_inv by fastforce

lemma decide_counters:
  "messages_dropped_total (tc_metrics c) = outbound_suppressed_total (tc_metrics c) \<Longrightarrow>
   messages_dropped_total (tc_metrics (fst (decide_message env ctx content now c))) =
   outbound_suppressed_total (tc_metrics (fst (decide_message env ctx content now c)))"
proof (cases rule: decide_state[where c = c and ctx = ctx and now = now and env = env
      and content = content])
  case (finalized p s m)
  let ?c4 = "fst (request_proposal env content s (env_detect env content) now
    ((fst (recompute_mode now c))\<lparr>tc_duplicate_guard :=
        fst (is_duplicate_and_mark (env_order env) (tc_duplicate_guard c) (message_id ctx) now),
      tc_last_detection := Some (env_detect env content)\<rparr>))"
  assume eq: "messages_dropped_total (tc_metrics c) = outbound_suppressed_total (tc_metrics c)"
  have "fst (suppression_counters d) = snd (suppression_counters d)"
    if "suppression_counters d = suppression_counters ?c4" for d :: "'a trusted_core"
    using that eq by (simp add: frame_simps) (simp add: suppression_counters_def)
  then have "fst (suppression_counters (fst (core_finalize ctx p s m now
        (Some (env_detect env content)) ?c4))) =
      snd (suppression_counters (fst (core_finalize ctx p s m now
        (Some (env_detect env content)) ?c4)))"
    by (cases rule: finalize_cases[where ctx = ctx and p = p and s = s and m = m and now = now
          and det = "Some (env_detect env content)" and c = ?c4])
      (auto simp: suppression_frame(4))
  then show ?thesis by (simp add: finalized(3) suppression_counters_def)
qed (simp_all add: core_drop_def recompute_mode_def trim_sandbox_failures_def Let_def case_prod_beta)

lemma decide_inv:
  assumes "iteration_order (env_order env)" and "core_inv c clock" and "clock \<le> now"
  shows "core_inv (fst (decide_message env ctx content now c)) now"
proof -
  let ?c' = "fst (decide_message env ctx content now c)"
  have parts: "guard_inv (tc_duplicate_guard c)" "bucket_inv (tc_outbound_bucket c)"
    "sorted (tc_sandbox_failures c)" "\<forall>t \<in> set (tc_sandbox_failures c). t \<le> clock"
    "sorted (cb_failures (tc_breaker c))" "\<forall>t \<in> set (cb_failures (tc_breaker c)). t \<le> clock"
    "\<forall>u. cb_open_until (tc_breaker c) = Some u \<longrightarrow> u \<le> clock + cb_open_for (tc_breaker c)"
    "cooldown_bounded (tc_user_cooldown c) clock" "cooldown_bounded (tc_channel_cooldown c) clock"
    "cooldown_bounded (tc_guild_cooldown c) clock" "cooldown_bounded (tc_global_cooldown c) clock"
    "messages_dropped_total (tc_metrics c) = outbound_suppressed_total (tc_metrics c)"
    using assms(2) by (simp_all add: core_inv_def)
  have breaker: "\<forall>t \<in> set (cb_failures (tc_breaker c)). t \<le> now"
    "\<forall>u. cb_open_until (tc_breaker c) = Some u \<longrightarrow> u \<le> now + cb_open_for (tc_breaker c)"
    using parts(6,7) assms(3) by (fastforce intro: order_trans)+
  have cools: "cooldown_bounded (tc_user_cooldown ?c') now" "cooldown_bounded (tc_channel_cooldown ?c') now"
    "cooldown_bounded (tc_guild_cooldown ?c') now" "cooldown_bounded (tc_global_cooldown ?c') now"
    using decide_marked[of c ctx now env content] parts(8-11) assms(3)
    by (blast intro: marked_bounded)+
  show ?thesis
    unfolding core_inv_def
    using decide_guard_inv[OF assms(1) parts(1)] decide_bucket_inv[OF parts(2)]
      decide_failures_inv[OF parts(3,4) assms(3)] parts(5) breaker cools decide_counters[OF parts(12)]
    by (simp add: decide_frame)
qed

lemma core_inv_later:
  assumes "core_inv c clock" and "clock \<le> now"
  shows "core_inv c now"
proof -
  have "cooldown_bounded m clock \<Longrightarrow> cooldown_bounded m now" for m
    using marked_bounded[OF marked_refl _ assms(2)] by blast
  moreover have "u \<le> now + d" if "u \<le> clock + d" for u d using that assms(2) by linarith
  ultimately show ?thesis using assms unfolding core_inv_def by (meson order_trans)
qed

lemma http_inv:
  assumes "core_inv c now"
  shows "core_inv (record_http_status st now c) now"
proof -
  let ?b = "breaker_record_status (tc_breaker c) st now"
  have "sorted (cb_failures ?b) \<and> (\<forall>t \<in> set (cb_failures ?b). t \<le> now)"
    using assms by (intro breaker_failures.sorted_record) (simp_all add: core_inv_def)
  moreover have "\<forall>u. cb_open_until ?b = Some u \<longrightarrow> u \<le> now + cb_open_for ?b"
    using assms by (cases "breaker_status st")
      (auto simp: core_inv_def breaker_record_simps split: if_splits)
  ultimately show ?thesis
    using assms by (simp add: core_inv_def record_http_status_def Let_def)
qed

lemma apply_inv:
  assumes "iteration_order (env_order env)" and "core_inv c clock" and "clock \<le> now"
  shows "core_inv (fst (core_apply env op now c)) now"
proof (cases "\<exists>ctx content. op = Decide ctx content")
  case True
  then show ?thesis using decide_inv[OF assms] by (auto simp: core_apply_decide)
next
  case False
  have now: "core_inv c now" using assms(2,3) by (rule core_inv_later)
  show ?thesis
    using False now http_inv[OF now]
    by (cases op) (simp_all add: core_apply_def setter_defs core_inv_def)
qed

lemma reachable_inv:
  assumes "iteration_order (env_order env)" and "global_rate_burst rt \<le> u32_max"
    and "core_reaches env (core_new analyzer cfg rt t0) t0 c now"
  shows "core_inv c now"
  using assms(3)
proof (induction rule: core_reaches.induct)
  case reach_start
  then show ?case by (rule core_new_inv[OF assms(2)])
next
  case (reach_step c t now op)
  then show ?case using apply_inv[OF assms(1)] by blast
qed

text \<open>C7: every state the core can reach from its start, by any operations in order of time, is
  consistent: the duplicate cache and the token bucket are in bounds, the windows of the breaker
  and of the sandbox failures are in order and not in the future, no cooldown and no open breaker
  outlasts its configured time, and every dropped message is counted once as suppressed.\<close>

theorem reachable_consistent:
  assumes "iteration_order (env_order env)" and "global_rate_burst rt \<le> u32_max"
    and "core_reaches env (core_new analyzer cfg rt t0) t0 c now"
  shows "core_inv c now"
  using assms by (rule reachable_inv)

section \<open>A concrete run\<close>

definition sample_next :: "unit trusted_core" where
  "sample_next = fst (decide_message sample_env (sample_message 1) (lit ''oo'') 0 sample_core)"

lemma sample_out:
  "dec_action (snd (decide_message sample_env (sample_message 1) (lit ''oo'') 0 sample_core)) \<noteq> Noop"
  unfolding sample_answer by (simp add: as_react_def)

lemma sample_next_frame:
  "tc_runtime sample_next = sample_runtime" "tc_bot_config sample_next = sample_bot"
  "tc_breaker sample_next = tc_breaker sample_core"
  "tc_suspicious_cfg sample_next = tc_suspicious_cfg sample_core"
  "tc_session_budget sample_next = tc_session_budget sample_core"
  unfolding sample_next_def decide_frame by (simp_all add: sample_core_def core_new_def)

lemma sample_next_failures: "length (trim_window w now (tc_sandbox_failures sample_next)) < 10"
proof -
  have "tc_sandbox_failures sample_core = []" by (simp add: sample_core_def core_new_def)
  then have "tc_sandbox_failures sample_next = [] \<or> tc_sandbox_failures sample_next = [0]"
    using decide_failures[of sample_env "sample_message 1" "lit ''oo''" 0 sample_core]
    unfolding sample_next_def[symmetric] by auto
  then show ?thesis by auto
qed

lemma sample_next_mode: "snd (recompute_mode now sample_next) = Normal"
  using sample_next_failures
  by (simp add: recompute_mode_result mode_target_def trim_sandbox_failures_def sample_next_frame
      not_le[symmetric])
    (simp add: sample_core_def core_new_def sample_runtime_def budget_is_low_def
      session_budget_new_def breaker_is_open_def breaker_new_def)

lemma sample_next_bucket: "snd (bucket_try_take (tc_outbound_bucket sample_next) 1 now)"
proof -
  have 30: "f64_round 30 = 30" and 29: "f64_round 29 = 29"
    using f64_round_of_nat[of 30] f64_round_of_nat[of 29] by simp_all
  have "bucket_try_take (tc_outbound_bucket sample_core) 1 0 =
     ((tc_outbound_bucket sample_core)\<lparr>tb_tokens := 29\<rparr>, True)"
    using take_fresh_token[of "tc_outbound_bucket sample_core" 0] 30 29
    by (simp add: sample_core_def core_new_def token_bucket_new_def sample_runtime_def Let_def)
  then have "tc_outbound_bucket sample_next = (tc_outbound_bucket sample_core)\<lparr>tb_tokens := 29\<rparr>"
    using decide_outbound_bucket(2)[OF sample_out] unfolding sample_next_def by simp
  then show ?thesis
    using enough_tokens[of "tc_outbound_bucket sample_next" now] 30
    by (simp add: sample_core_def core_new_def token_bucket_new_def sample_runtime_def Let_def)
qed

lemma sample_next_guard:
  "\<not> snd (is_duplicate_and_mark (\<lambda>m. m) (tc_duplicate_guard sample_next) 2 0)"
  "\<not> snd (is_duplicate_and_mark (\<lambda>m. m) (tc_duplicate_guard sample_next) 1 200000000000)"
  "reached_guard sample_core (sample_message 1) 0"
proof -
  show r: "reached_guard sample_core (sample_message 1) 0"
    using outbound_permitted[OF sample_out] by (simp add: reached_guard_def permitted_def)
  have "tc_duplicate_guard sample_next =
      fst (is_duplicate_and_mark (\<lambda>m. m) (tc_duplicate_guard sample_core) 1 0)"
    using r unfolding sample_next_def decide_frame by (simp add: sample_env_def sample_message_def)
  then show "\<not> snd (is_duplicate_and_mark (\<lambda>m. m) (tc_duplicate_guard sample_next) 2 0)"
    and "\<not> snd (is_duplicate_and_mark (\<lambda>m. m) (tc_duplicate_guard sample_next) 1 200000000000)"
    by (simp_all add: sample_core_def core_new_def is_duplicate_and_mark_def duplicate_guard_new_def
        evict_old_def sample_runtime_def from_millis_def duration_since_def Let_def)
qed

lemma sample_next_open:
  assumes "(n, now) = (2, 0) \<or> (n, now) = (1, 200000000000)"
  shows "\<not> is_cooling (tc_user_cooldown sample_next) n now"
    and "\<not> is_cooling (tc_channel_cooldown sample_next) n now"
    and "\<not> is_cooling (tc_guild_cooldown sample_next) n now"
    and "\<not> is_cooling (tc_global_cooldown sample_next) 0 now"
  using assms decide_outbound_cools(5,6,9)[OF sample_out]
    decide_outbound_cools(7)[OF sample_out, of 1]
  unfolding sample_next_def[symmetric]
  by (auto simp: sample_message_def sample_core_def core_new_def cooldown_map_new_def
      cooldown_mark_def is_cooling_def sample_runtime_def from_millis_def)

lemma sample_next_permitted:
  assumes "(n, now) = (2, 0) \<or> (n, now) = (1, 200000000000)"
  shows "permitted sample_env (sample_message n) (lit ''oo'') now sample_next"
proof -
  have "\<not> snd (is_duplicate_and_mark (\<lambda>m. m) (tc_duplicate_guard sample_next) n now)"
    using assms sample_next_guard(1,2) by auto
  then show ?thesis
    using sample_next_bucket sample_calm sample_next_mode sample_next_open[OF assms]
    unfolding permitted_def sample_next_frame allow_guild_def allow_channel_def
    by (simp add: sample_message_def sample_env_def sample_runtime_def sample_core_def core_new_def
        breaker_allows_outbound_def breaker_new_def)
qed

lemma sample_next_answer:
  assumes "(n, now) = (2, 0) \<or> (n, now) = (1, 200000000000)"
  shows "dec_action (snd (decide_message sample_env (sample_message n) (lit ''oo'') now sample_next)) =
   as_react sample_bot"
  unfolding decide_answer governed_answer_def sample_next_frame sample_next_mode
  using sample_next_permitted[OF assms]
  by (simp add: sample_env_def compile_response_from_detection_def compile_exact
     proposed_action_def proposal_to_action_def sample_bot_def as_react_def guarded_react_def
     react_permitted_def valid_react_def lit_def)

lemma sample_run:
  assumes "(n, now) = (2, 0) \<or> (n, now) = (1, 200000000000)"
  shows "snd (core_run sample_env sample_core [(Decide (sample_message 1) (lit ''oo''), 0),
      (Decide (sample_message n) (lit ''oo''), now)]) =
    [(0, sample_message 1), (now, sample_message n)]"
proof -
  have "as_react sample_bot \<noteq> Noop" by (simp add: as_react_def)
  then show ?thesis
    unfolding core_run.simps core_apply_decide case_prod_beta Let_def fst_conv snd_conv
      sample_next_def[symmetric] outbound_of.simps sample_answer sample_next_answer[OF assms] by simp
qed

theorem outbound_separated_witness:
  "\<exists>x x'. snd (core_run sample_env sample_core [(Decide (sample_message 1) (lit ''oo''), 0),
      (Decide (sample_message 1) (lit ''oo''), 200000000000)]) = [(0, x), (200000000000, x')] \<and>
    author_id x = author_id x' \<and> 0 + cd_ttl (tc_user_cooldown sample_core) \<le> 200000000000"
proof -
  let ?es = "[(Decide (sample_message 1) (lit ''oo''), 0),
    (Decide (sample_message 1) (lit ''oo''), 200000000000)]"
  have run: "snd (core_run sample_env sample_core ?es) =
      [(0, sample_message 1), (200000000000, sample_message 1)]"
    by (rule sample_run) simp
  have "0 + cd_ttl (tc_user_cooldown sample_core) \<le> 200000000000"
    using outbound_separated[of 0 1 _ sample_env sample_core ?es 0 "sample_message 1" 200000000000
        "sample_message 1", OF _ _ refl] unfolding run by simp
  then show ?thesis unfolding run by simp
qed

theorem outbound_rate_bound_witness:
  "\<exists>n. length (snd (core_run sample_env (core_new () sample_bot sample_runtime 0)
      [(Decide (sample_message 1) (lit ''oo''), 0), (Decide (sample_message 2) (lit ''oo''), 0)])) = n \<and>
    of_nat n \<le> of_nat (max 30 1) + exact_secs (0 - 0) * max 20 (f64_round (1 / 10)) * drift
      + of_nat 2 * (2 * of_nat (max 30 1) * f64_unit)"
  using outbound_rate_bound[of sample_runtime 0 0 "[(Decide (sample_message 1) (lit ''oo''), 0),
      (Decide (sample_message 2) (lit ''oo''), 0)]" sample_env "()" sample_bot]
  by (simp add: sample_runtime_def u32_max_def)

theorem answered_once_witness:
  "snd (core_run sample_env sample_core [(Decide (sample_message 1) (lit ''oo''), 0),
      (Decide (sample_message 1) (lit ''oo''), 200000000000)]) =
     [(0, sample_message 1), (200000000000, sample_message 1)] \<and> (0::nat) + 180000000000 < 200000000000"
proof -
  let ?es = "[(Decide (sample_message 1) (lit ''oo''), 0),
    (Decide (sample_message 1) (lit ''oo''), 200000000000)]"
  have run: "snd (core_run sample_env sample_core ?es) =
      [(0, sample_message 1), (200000000000, sample_message 1)]"
    by (rule sample_run) simp
  have marks: "length (core_marks sample_env sample_core ?es) \<le> 2" by simp
  have guard: "tc_duplicate_guard sample_core = duplicate_guard_new 180000000000 8192"
    by (simp add: sample_core_def core_new_def sample_runtime_def from_millis_def)
  have cap: "\<forall>n < length (core_marks sample_env sample_core ?es).
    card (live_ids 180000000000 (take (Suc n) (core_marks sample_env sample_core ?es))
      (snd (core_marks sample_env sample_core ?es ! n))) \<le> max 8192 64"
  proof (intro allI impI)
    fix n
    have "card (live_ids 180000000000 (take (Suc n) (core_marks sample_env sample_core ?es)) u) \<le> 2"
      for u
      by (rule order_trans[OF card_live_ids]) (use marks in \<open>simp add: min_le_iff_disj\<close>)
    then show "card (live_ids 180000000000 (take (Suc n) (core_marks sample_env sample_core ?es))
        (snd (core_marks sample_env sample_core ?es ! n))) \<le> max 8192 64"
      by (rule order_trans) simp
  qed
  have "(0::nat) + 180000000000 < 200000000000"
    by (rule answered_once[OF _ _ guard cap, of 0 1 _ 0 "sample_message 1" _ "sample_message 1"])
      (simp_all only: run, simp_all add: sample_env_def iteration_order_def)
  with run show ?thesis by simp
qed

theorem reachable_consistent_witness:
  "core_inv (fst (core_apply sample_env (Decide (sample_message 1) (lit ''oo'')) 5 sample_core)) 5"
proof (rule reachable_consistent)
  show "iteration_order (env_order sample_env)" by (simp add: sample_env_def iteration_order_def)
  show "global_rate_burst sample_runtime \<le> u32_max" by (simp add: sample_runtime_def u32_max_def)
  show "core_reaches sample_env (core_new () sample_bot sample_runtime 0) 0
      (fst (core_apply sample_env (Decide (sample_message 1) (lit ''oo'')) 5 sample_core)) 5"
    unfolding sample_core_def by (rule reach_step[OF reach_start]) simp
qed

theorem decision_accounted_witness:
  "dec_suppress_reason (snd (decide_message sample_env (sample_message 1) (lit ''oo'') 0 sample_core)) = None \<and>
   suppression_counters sample_next = suppression_counters sample_core"
proof -
  let ?d = "decide_message sample_env (sample_message 1) (lit ''oo'') 0 sample_core"
  note all = decision_accounted[where env = sample_env and ctx = "sample_message 1"
      and content = "lit ''oo''" and now = 0 and c = sample_core]
  have none: "dec_suppress_reason (snd ?d) = None"
  proof (rule ccontr)
    assume "dec_suppress_reason (snd ?d) \<noteq> None"
    with all sample_out show False by (auto simp: case_prod_beta split: option.splits)
  qed
  with all show ?thesis by (simp add: case_prod_beta sample_next_def)
qed

end
