(* ===== verification/Rust_Fs.thy ===== *)
theory Rust_Fs
  imports Prelude
begin

text \<open>
  Paths and files of the Rust standard library, as the program uses them.

  A \<open>path\<close> is what \<^verbatim>\<open>Path::components\<close> reads of it, which is what \<^verbatim>\<open>Path\<close> compares: a root or
  none, then the components; a \<^verbatim>\<open>.\<close> is a component only at the front of a relative path.  The file
  system maps paths to directories and files with their bytes; two paths with different components
  are different files (no links, no \<^verbatim>\<open>..\<close> resolution).  The empty path names no file.  Every
  operation may be refused by the operating system: \<open>io_fault\<close> gives the error text of an
  operation that fails for a reason outside the map (permissions, a full disk).
\<close>

lemma lit_eq: "lit a = lit b \<longleftrightarrow> a = b"
proof -
  have "inj (of_char :: char \<Rightarrow> nat)" by (auto intro: injI)
  then show ?thesis by (simp add: lit_def inj_map_eq_map)
qed

section \<open>UTF-8 decoding\<close>

definition lead_len :: "nat \<Rightarrow> nat" where
  "lead_len b = (if b < 0x80 then 1 else if b < 0xE0 then 2 else if b < 0xF0 then 3 else 4)"

fun code_of :: "nat list \<Rightarrow> rchar" where
  "code_of [a] = a"
| "code_of [a, b] = (a - 0xC0) * 64 + (b - 0x80)"
| "code_of [a, b, c] = (a - 0xE0) * 4096 + (b - 0x80) * 64 + (c - 0x80)"
| "code_of [a, b, c, d] =
     (a - 0xF0) * 262144 + (b - 0x80) * 4096 + (c - 0x80) * 64 + (d - 0x80)"
| "code_of _ = 0"

lemma lead_len_pos: "lead_len b = Suc (lead_len b - 1)"
  by (simp add: lead_len_def)

text \<open>\<^verbatim>\<open>String::from_utf8\<close>: a sequence is accepted when it is the encoding of the scalar value it
  spells, which refuses overlong forms, surrogates and stray bytes.\<close>

function utf8_decode :: "nat list \<Rightarrow> rstr option" where
  "utf8_decode [] = Some []"
| "utf8_decode (b # bs) =
     (let n = lead_len b; c = code_of (take n (b # bs))
      in if scalar c \<and> utf8_char c = take n (b # bs)
         then map_option (Cons c) (utf8_decode (drop n (b # bs)))
         else None)"
  by pat_completeness auto
termination
  by (relation "measure length") (auto simp: lead_len_def)

declare utf8_decode.simps(2) [simp del]

lemma utf8_char_lead: "scalar c \<Longrightarrow> lead_len (hd (utf8_char c)) = length (utf8_char c)"
proof -
  assume "scalar c"
  then have "c < 0x110000" by (auto simp: scalar_def)
  then have "c < 0x800 \<Longrightarrow> c div 64 < 32" "c < 0x10000 \<Longrightarrow> c div 4096 < 16" "c div 262144 < 5"
    by (simp_all add: div_less_iff_less_mult)
  then show ?thesis by (auto simp: utf8_char_def lead_len_def)
qed

lemma utf8_char_code:
  assumes "scalar c"
  shows "code_of (utf8_char c) = c"
proof -
  have two: "c div 64 * 64 + c mod 64 = c" by simp
  have low: "c div 64 mod 64 * 64 + c mod 64 = c mod 4096"
    using mod_mult2_eq[of c 64 64] by simp
  have mid: "c div 4096 mod 64 * 4096 + c mod 4096 = c mod 262144"
    using mod_mult2_eq[of c 4096 64] by simp
  have three: "c div 4096 * 4096 + c div 64 mod 64 * 64 + c mod 64 = c"
    unfolding add.assoc low by simp
  have four: "c div 262144 * 262144 + c div 4096 mod 64 * 4096 + c div 64 mod 64 * 64 + c mod 64 = c"
    unfolding add.assoc low mid by simp
  show ?thesis
    unfolding utf8_char_def by (simp add: two three four)
qed

lemma utf8_decode_append:
  assumes "scalar c"
  shows "utf8_decode (utf8_char c @ bs) = map_option (Cons c) (utf8_decode bs)"
proof -
  obtain b r where u: "utf8_char c = b # r" by (cases "utf8_char c") auto
  then have n: "lead_len b = length (utf8_char c)" using utf8_char_lead[OF assms] by simp
  have "utf8_decode (b # (r @ bs)) = map_option (Cons c) (utf8_decode bs)"
    unfolding utf8_decode.simps(2)[of b "r @ bs"] Let_def n
    using utf8_char_code[OF assms] assms u by simp
  then show ?thesis by (simp add: u)
qed

lemma utf8_roundtrip: "wf_str s \<Longrightarrow> utf8_decode (utf8_encode s) = Some s"
  by (induction s) (auto simp: utf8_decode_append)

lemma utf8_decode_sound: "utf8_decode bs = Some s \<Longrightarrow> wf_str s \<and> utf8_encode s = bs"
proof (induction bs arbitrary: s rule: utf8_decode.induct)
  case (2 b bs)
  then show ?case
    by (auto simp: utf8_decode.simps(2)[of b bs] Let_def simp del: take_Suc_Cons drop_Suc_Cons
        split: if_splits)
qed simp

section \<open>Paths\<close>

datatype component = CurDir | ParentDir | NormalComp rstr

record path =
  rooted :: bool
  parts :: "component list"

definition empty_path :: path where
  "empty_path = \<lparr>rooted = False, parts = []\<rparr>"

fun split_slash :: "rstr \<Rightarrow> rstr list" where
  "split_slash [] = [[]]"
| "split_slash (c # s) =
     (if c = 47 then [] # split_slash s
      else (case split_slash s of [] \<Rightarrow> [[c]] | w # ws \<Rightarrow> (c # w) # ws))"

definition component_of :: "rstr \<Rightarrow> component" where
  "component_of w = (if w = lit ''..'' then ParentDir else NormalComp w)"

text \<open>\<^verbatim>\<open>Path::new\<close> and \<^verbatim>\<open>PathBuf::from\<close>.\<close>

definition path_of :: "rstr \<Rightarrow> path" where
  "path_of s =
     (let ws = split_slash s; root = (s \<noteq> [] \<and> hd s = 47);
          named = map component_of (filter (\<lambda>w. w \<noteq> [] \<and> w \<noteq> lit ''.'') ws)
      in \<lparr>rooted = root,
          parts = (if \<not> root \<and> hd ws = lit ''.'' then CurDir # named else named)\<rparr>)"

definition path_parent :: "path \<Rightarrow> path option" where
  "path_parent p = (if parts p = [] then None else Some (p\<lparr>parts := butlast (parts p)\<rparr>))"

definition path_file_name :: "path \<Rightarrow> rstr option" where
  "path_file_name p =
     (if parts p = [] then None
      else (case last (parts p) of NormalComp w \<Rightarrow> Some w | _ \<Rightarrow> None))"

definition path_join :: "path \<Rightarrow> path \<Rightarrow> path" where
  "path_join p q =
     (if rooted q then q
      else if p = empty_path then q
      else p\<lparr>parts := parts p @ (case parts q of CurDir # r \<Rightarrow> r | r \<Rightarrow> r)\<rparr>)"

definition path_child :: "path \<Rightarrow> rstr \<Rightarrow> path" where
  "path_child p w = p\<lparr>parts := parts p @ [NormalComp w]\<rparr>"

definition beneath :: "path \<Rightarrow> path \<Rightarrow> bool" where
  "beneath d p \<longleftrightarrow> rooted d = rooted p \<and> prefix (parts d) (parts p)"

lemma path_child_simps [simp]:
  "path_parent (path_child d w) = Some d"
  "path_file_name (path_child d w) = Some w"
  "beneath d (path_child d w)"
  "path_child d w = path_child d w' \<longleftrightarrow> w = w'"
  "path_child d w \<noteq> d"
proof -
  have "parts (path_child d w) \<noteq> parts d" by (simp add: path_child_def)
  then show "path_child d w \<noteq> d" by metis
  show "path_child d w = path_child d w' \<longleftrightarrow> w = w'"
    by (auto simp: path_child_def dest: arg_cong[where f = parts])
qed (simp_all add: path_parent_def path_file_name_def path_child_def beneath_def)

lemma path_of_name: "path_parent p = Some d \<Longrightarrow> path_file_name p = Some w \<Longrightarrow> p = path_child d w"
proof -
  assume d: "path_parent p = Some d" and w: "path_file_name p = Some w"
  then have ne: "parts p \<noteq> []" and "last (parts p) = NormalComp w"
    by (auto simp: path_parent_def path_file_name_def split: if_splits component.splits)
  then have "parts p = butlast (parts p) @ [NormalComp w]" by (metis append_butlast_last_id)
  moreover have "d = p\<lparr>parts := butlast (parts p)\<rparr>" using d ne by (simp add: path_parent_def)
  ultimately show ?thesis by (simp add: path_child_def)
qed

section \<open>Fallible steps on a state\<close>

text \<open>A step of type \<open>'s \<Rightarrow> 's \<times> ('e + 'a)\<close> changes the state and returns or fails.  The state a
  failed step leaves is kept, as the file system is.\<close>

definition io_return :: "'a \<Rightarrow> 's \<Rightarrow> 's \<times> ('e + 'a)" where
  "io_return a s = (s, Inr a)"

definition io_lift :: "'e + 'a \<Rightarrow> 's \<Rightarrow> 's \<times> ('e + 'a)" where
  "io_lift r s = (s, r)"

definition io_bind ::
  "('s \<Rightarrow> 's \<times> ('e + 'a)) \<Rightarrow> ('a \<Rightarrow> 's \<Rightarrow> 's \<times> ('e + 'b)) \<Rightarrow> 's \<Rightarrow> 's \<times> ('e + 'b)" where
  "io_bind m f s = (case m s of (s', Inl e) \<Rightarrow> (s', Inl e) | (s', Inr a) \<Rightarrow> f a s')"

definition map_err :: "('e \<Rightarrow> 'f) \<Rightarrow> ('s \<Rightarrow> 's \<times> ('e + 'a)) \<Rightarrow> 's \<Rightarrow> 's \<times> ('f + 'a)" where
  "map_err g m s = (case m s of (s', Inl e) \<Rightarrow> (s', Inl (g e)) | (s', Inr a) \<Rightarrow> (s', Inr a))"

lemma io_simps [simp]:
  "io_return a s = (s, Inr a)"
  "io_lift r s = (s, r)"
  by (simp_all add: io_return_def io_lift_def)

text \<open>What a step keeps of the state it keeps in every branch.\<close>

lemma io_bind_keeps:
  assumes "\<And>s. R s (fst (m s))" and "\<And>a s. R s (fst (f a s))"
    and "\<And>s t u. R s t \<Longrightarrow> R t u \<Longrightarrow> R s u"
  shows "R s (fst (io_bind m f s))"
proof -
  obtain t r where ms: "m s = (t, r)" by force
  show ?thesis
  proof (cases r)
    case (Inl e)
    with ms assms(1)[of s] show ?thesis by (simp add: io_bind_def)
  next
    case (Inr a)
    with ms assms(1)[of s] show ?thesis
      using assms(3)[OF _ assms(2)[of t a]] by (simp add: io_bind_def)
  qed
qed

lemma io_bind_Inr:
  "snd (io_bind m f s) = Inr b \<longleftrightarrow>
   (\<exists>t a. m s = (t, Inr a) \<and> snd (f a t) = Inr b)"
  by (auto simp: io_bind_def split: prod.splits sum.splits)

lemma map_err_fst [simp]: "fst (map_err g m s) = fst (m s)"
  by (auto simp: map_err_def split: prod.splits sum.splits)

lemma map_err_Inr [simp]: "snd (map_err g m s) = Inr a \<longleftrightarrow> snd (m s) = Inr a"
  by (auto simp: map_err_def split: prod.splits sum.splits)

section \<open>Files\<close>

datatype node = Dir | File "nat list"

type_synonym fs = "path \<Rightarrow> node option"

datatype io_op =
  IoRead path | IoMkdir path | IoCreate path | IoSyncDir path | IoRename path path
| IoTempDir path | IoRemoveTree path | IoRemove path

record io_env =
  io_fault :: "io_op \<Rightarrow> rstr option"
  io_temp_dir :: "path \<Rightarrow> path"

definition not_found :: rstr where
  "not_found = lit ''No such file or directory (os error 2)''"

definition fs_node :: "fs \<Rightarrow> path \<Rightarrow> node option" where
  "fs_node s p = (if p = empty_path then None else s p)"

definition fs_exists :: "fs \<Rightarrow> path \<Rightarrow> bool" where
  "fs_exists s p \<longleftrightarrow> fs_node s p \<noteq> None"

definition fs_is_dir :: "fs \<Rightarrow> path \<Rightarrow> bool" where
  "fs_is_dir s p \<longleftrightarrow> fs_node s p = Some Dir"

text \<open>A relative path of one component lives in the working directory, which exists.\<close>

definition fs_in_dir :: "fs \<Rightarrow> path \<Rightarrow> bool" where
  "fs_in_dir s p \<longleftrightarrow>
     (case path_parent p of None \<Rightarrow> False
      | Some d \<Rightarrow> d = empty_path \<or> parts d = [] \<or> fs_is_dir s d)"

definition guarded ::
  "io_env \<Rightarrow> io_op \<Rightarrow> (fs \<Rightarrow> fs \<times> (rstr + 'a)) \<Rightarrow> fs \<Rightarrow> fs \<times> (rstr + 'a)" where
  "guarded env op m s = (case io_fault env op of Some e \<Rightarrow> (s, Inl e) | None \<Rightarrow> m s)"

definition fs_read :: "io_env \<Rightarrow> path \<Rightarrow> fs \<Rightarrow> rstr + nat list" where
  "fs_read env p s =
     (case io_fault env (IoRead p) of
        Some e \<Rightarrow> Inl e
      | None \<Rightarrow>
          (case fs_node s p of
             Some (File bytes) \<Rightarrow> Inr bytes
           | Some Dir \<Rightarrow> Inl (lit ''Is a directory (os error 21)'')
           | None \<Rightarrow> Inl not_found))"

definition fs_read_to_string :: "io_env \<Rightarrow> path \<Rightarrow> fs \<Rightarrow> rstr + rstr" where
  "fs_read_to_string env p s =
     rbind (fs_read env p s) (\<lambda>bytes.
       (case utf8_decode bytes of
          Some t \<Rightarrow> Inr t
        | None \<Rightarrow> Inl (lit ''stream did not contain valid UTF-8'')))"

definition fs_mkdir :: "io_env \<Rightarrow> path \<Rightarrow> fs \<Rightarrow> fs \<times> (rstr + unit)" where
  "fs_mkdir env p s =
     (if p = empty_path \<or> fs_node s p = Some Dir then (s, Inr ())
      else guarded env (IoMkdir p)
        (\<lambda>s. if fs_exists s p then (s, Inl (lit ''File exists (os error 17)''))
             else (s(p \<mapsto> Dir), Inr ())) s)"

fun fs_mkdirs :: "io_env \<Rightarrow> path list \<Rightarrow> fs \<Rightarrow> fs \<times> (rstr + unit)" where
  "fs_mkdirs env [] s = (s, Inr ())"
| "fs_mkdirs env (p # ps) s = io_bind (fs_mkdir env p) (\<lambda>_. fs_mkdirs env ps) s"

text \<open>\<^verbatim>\<open>fs::create_dir_all\<close>: every missing ancestor, from the outside in.\<close>

definition ancestors :: "path \<Rightarrow> path list" where
  "ancestors p = map (\<lambda>cs. p\<lparr>parts := cs\<rparr>) (filter (\<lambda>cs. cs \<noteq> []) (prefixes (parts p)))"

definition fs_create_dir_all :: "io_env \<Rightarrow> path \<Rightarrow> fs \<Rightarrow> fs \<times> (rstr + unit)" where
  "fs_create_dir_all env p s =
     (if p = empty_path \<or> fs_is_dir s p then (s, Inr ()) else fs_mkdirs env (ancestors p) s)"

text \<open>\<^verbatim>\<open>OpenOptions::write.create_new\<close> and \<^verbatim>\<open>write_all\<close>: the file must not exist.\<close>

definition fs_write_new :: "io_env \<Rightarrow> path \<Rightarrow> nat list \<Rightarrow> fs \<Rightarrow> fs \<times> (rstr + unit)" where
  "fs_write_new env p bytes s =
     guarded env (IoCreate p)
       (\<lambda>s. if fs_exists s p then (s, Inl (lit ''File exists (os error 17)''))
            else if \<not> fs_in_dir s p then (s, Inl not_found)
            else (s(p \<mapsto> File bytes), Inr ())) s"

definition fs_sync_dir :: "io_env \<Rightarrow> path \<Rightarrow> fs \<Rightarrow> fs \<times> (rstr + unit)" where
  "fs_sync_dir env p s =
     guarded env (IoSyncDir p)
       (\<lambda>s. if fs_exists s p then (s, Inr ()) else (s, Inl not_found)) s"

text \<open>\<^verbatim>\<open>fs::rename\<close> of a file replaces the target in one step.\<close>

definition fs_rename :: "io_env \<Rightarrow> path \<Rightarrow> path \<Rightarrow> fs \<Rightarrow> fs \<times> (rstr + unit)" where
  "fs_rename env p q s =
     guarded env (IoRename p q)
       (\<lambda>s. (case fs_node s p of
               None \<Rightarrow> (s, Inl not_found)
             | Some n \<Rightarrow>
                 if \<not> fs_in_dir s q then (s, Inl not_found)
                 else if fs_is_dir s q then (s, Inl (lit ''Is a directory (os error 21)''))
                 else ((s(p := None))(q \<mapsto> n), Inr ()))) s"

text \<open>A temporary directory is made for a step and removed after it, whether or not it failed;
  an error of the removal is ignored.\<close>

definition remove_tree :: "path \<Rightarrow> fs \<Rightarrow> fs" where
  "remove_tree d s = (\<lambda>p. if beneath d p then None else s p)"

definition with_temp_dir ::
  "io_env \<Rightarrow> path \<Rightarrow> (rstr \<Rightarrow> 'e) \<Rightarrow> (path \<Rightarrow> fs \<Rightarrow> fs \<times> ('e + 'a)) \<Rightarrow> fs \<Rightarrow> fs \<times> ('e + 'a)" where
  "with_temp_dir env d wrap body s =
     (let t = io_temp_dir env d
      in case io_fault env (IoTempDir d) of
           Some e \<Rightarrow> (s, Inl (wrap e))
         | None \<Rightarrow>
             (case body t (s(t \<mapsto> Dir)) of
                (s', r) \<Rightarrow>
                  (if io_fault env (IoRemoveTree t) = None then remove_tree t s' else s', r)))"

section \<open>What the operations can do\<close>

definition fs_file :: "fs \<Rightarrow> path \<Rightarrow> nat list option" where
  "fs_file s p = (case s p of Some (File b) \<Rightarrow> Some b | _ \<Rightarrow> None)"

lemma fs_file_upd [simp]:
  "fs_file (s(p \<mapsto> File b)) q = (if q = p then Some b else fs_file s q)"
  "fs_file (s(p := None)) q = (if q = p then None else fs_file s q)"
  "s p = None \<Longrightarrow> fs_file (s(p \<mapsto> Dir)) q = fs_file s q"
  by (auto simp: fs_file_def)

text \<open>A step that at most makes directories.\<close>

definition same_files :: "fs \<Rightarrow> fs \<Rightarrow> bool" where
  "same_files s s' \<longleftrightarrow> (\<forall>p. s' p = s p \<or> (s p = None \<and> s' p = Some Dir))"

lemma same_files_refl [simp]: "same_files s s"
  by (simp add: same_files_def)

lemma same_files_trans: "same_files s t \<Longrightarrow> same_files t u \<Longrightarrow> same_files s u"
  unfolding same_files_def by (metis option.distinct(1))

lemma same_files_file:
  assumes "same_files s s'"
  shows "fs_file s' p = fs_file s p"
proof -
  from assms have "s' p = s p \<or> (s p = None \<and> s' p = Some Dir)" by (simp add: same_files_def)
  then show ?thesis by (auto simp: fs_file_def)
qed

lemma same_files_Some: "same_files s s' \<Longrightarrow> s p = Some n \<Longrightarrow> s' p = Some n"
  unfolding same_files_def by (metis option.distinct(1))

lemma mkdir_same: "same_files s (fst (fs_mkdir env p s))"
proof (cases "p = empty_path \<or> fs_node s p = Some Dir \<or> io_fault env (IoMkdir p) \<noteq> None \<or> fs_exists s p")
  case True
  then have "fst (fs_mkdir env p s) = s" by (auto simp: fs_mkdir_def guarded_def split: option.split)
  then show ?thesis by simp
next
  case False
  then have "s p = None" and "fst (fs_mkdir env p s) = s(p \<mapsto> Dir)"
    by (auto simp: fs_mkdir_def guarded_def fs_exists_def fs_node_def)
  then show ?thesis by (simp add: same_files_def)
qed

lemma mkdirs_same: "same_files s (fst (fs_mkdirs env ps s))"
proof (induction ps arbitrary: s)
  case (Cons p ps)
  show ?case
    unfolding fs_mkdirs.simps
    by (rule io_bind_keeps[where R = same_files]) (rule mkdir_same Cons | erule (1) same_files_trans)+
qed simp

lemma create_dir_all_same: "same_files s (fst (fs_create_dir_all env p s))"
  by (simp add: fs_create_dir_all_def mkdirs_same)

lemma write_new_cases:
  obtains (refused) e where "fs_write_new env p b s = (s, Inl e)"
  | (written) "fs_write_new env p b s = (s(p \<mapsto> File b), Inr ())" "fs_node s p = None"
      "p \<noteq> empty_path"
proof (cases "io_fault env (IoCreate p)")
  case (Some e)
  then show ?thesis by (intro refused[of e]) (simp add: fs_write_new_def guarded_def)
next
  case None
  show ?thesis
  proof (cases "fs_exists s p \<or> \<not> fs_in_dir s p")
    case True
    then show ?thesis
      by (cases "fs_exists s p") (auto intro: refused simp: fs_write_new_def guarded_def None)
  next
    case False
    moreover from False have "p \<noteq> empty_path"
      by (auto simp: fs_in_dir_def path_parent_def empty_path_def)
    ultimately show ?thesis
      by (intro written) (auto simp: fs_write_new_def guarded_def None fs_exists_def)
  qed
qed

lemma sync_dir_cases:
  obtains (refused) e where "fs_sync_dir env p s = (s, Inl e)"
  | (synced) "fs_sync_dir env p s = (s, Inr ())" "fs_exists s p"
  by (cases "io_fault env (IoSyncDir p)"; cases "fs_exists s p")
    (auto simp: fs_sync_dir_def guarded_def intro: that)

lemma rename_cases:
  obtains (refused) e where "fs_rename env p q s = (s, Inl e)"
  | (renamed) n where "fs_rename env p q s = ((s(p := None))(q \<mapsto> n), Inr ())" "fs_node s p = Some n"
proof (cases "io_fault env (IoRename p q)")
  case (Some e)
  then show ?thesis by (intro refused[of e]) (simp add: fs_rename_def guarded_def)
next
  case None
  show ?thesis
  proof (cases "fs_node s p")
    case None': None
    show ?thesis by (rule refused) (simp add: fs_rename_def guarded_def None None')
  next
    case (Some n)
    show ?thesis
    proof (cases "fs_in_dir s q \<and> \<not> fs_is_dir s q")
      case True
      then show ?thesis by (intro renamed[OF _ Some]) (simp add: fs_rename_def guarded_def None Some)
    next
      case False
      then show ?thesis
        by (cases "fs_in_dir s q") (auto intro: refused simp: fs_rename_def guarded_def None Some)
    qed
  qed
qed

lemma map_err_pair [simp]:
  "m s = (s', Inl e) \<Longrightarrow> map_err g m s = (s', Inl (g e))"
  "m s = (s', Inr a) \<Longrightarrow> map_err g m s = (s', Inr a)"
  by (simp_all add: map_err_def)

lemma io_bind_pair:
  "m s = (s', Inl e) \<Longrightarrow> io_bind m f s = (s', Inl e)"
  "m s = (s', Inr a) \<Longrightarrow> io_bind m f s = f a s'"
  by (simp_all add: io_bind_def)

lemma remove_tree_file:
  "\<not> beneath t p \<Longrightarrow> fs_file (remove_tree t s) p = fs_file s p"
  by (simp add: remove_tree_def fs_file_def)

lemma beneath_child: "beneath t (path_child t w)"
  by simp

end
