(* ===== verification/Rust_Text.thy ===== *)
theory Rust_Text
  imports Rust_Fs
begin

text \<open>
  More of the string routines of the Rust standard library: lines, splitting and joining, lossy
  decoding and the parsing of integers.
\<close>

section \<open>Lines\<close>

text \<open>\<^verbatim>\<open>str::lines\<close>: a line ends with a line feed, before which one carriage return is dropped;
  the last line need not have an ending.\<close>

definition strip_cr :: "rstr \<Rightarrow> rstr" where
  "strip_cr l = (if l \<noteq> [] \<and> last l = 13 then butlast l else l)"

fun raw_lines :: "rstr \<Rightarrow> rstr list" where
  "raw_lines [] = [[]]"
| "raw_lines (c # s) =
     (if c = 10 then [] # raw_lines s
      else (case raw_lines s of [] \<Rightarrow> [[c]] | w # ws \<Rightarrow> (c # w) # ws))"

definition str_lines :: "rstr \<Rightarrow> rstr list" where
  "str_lines s =
     (let ws = raw_lines s
      in map strip_cr (butlast ws) @ (if last ws = [] then [] else [last ws]))"

lemma raw_lines_not_Nil [simp]: "raw_lines s \<noteq> []"
  by (induction s) (auto split: list.split)

lemma raw_lines_plain [simp]: "10 \<notin> set l \<Longrightarrow> raw_lines l = [l]"
  by (induction l) auto

lemma raw_lines_line: "10 \<notin> set l \<Longrightarrow> raw_lines (l @ 10 # s) = l # raw_lines s"
  by (induction l) auto

lemma str_lines_plain: "10 \<notin> set l \<Longrightarrow> str_lines l = (if l = [] then [] else [l])"
  by (simp add: str_lines_def)

lemma str_lines_line: "10 \<notin> set l \<Longrightarrow> str_lines (l @ 10 # s) = strip_cr l # str_lines s"
  by (simp add: str_lines_def Let_def raw_lines_line)

lemma raw_lines_clean: "\<forall>l \<in> set (raw_lines s). 10 \<notin> set l"
  by (induction s) (auto split: list.splits)

lemma str_lines_clean: "\<forall>l \<in> set (str_lines s). 10 \<notin> set l"
proof -
  have "set (strip_cr l) \<subseteq> set l" for l by (auto simp: strip_cr_def dest: in_set_butlastD)
  moreover have "\<forall>l \<in> set (butlast (raw_lines s)). 10 \<notin> set l" "10 \<notin> set (last (raw_lines s))"
    using raw_lines_clean[of s] by (auto dest: in_set_butlastD)
  ultimately show ?thesis by (auto simp: str_lines_def Let_def)
qed

definition unlines :: "rstr list \<Rightarrow> rstr" where
  "unlines ls = concat (map (\<lambda>l. l @ [10]) ls)"

lemma lines_unlines_append:
  "\<forall>l \<in> set ls. 10 \<notin> set l \<Longrightarrow> str_lines (unlines ls @ s) = map strip_cr ls @ str_lines s"
  by (induction ls) (simp_all add: unlines_def str_lines_line)

section \<open>Splitting and joining\<close>

fun str_split :: "rchar \<Rightarrow> rstr \<Rightarrow> rstr list" where
  "str_split sep [] = [[]]"
| "str_split sep (c # s) =
     (if c = sep then [] # str_split sep s
      else (case str_split sep s of [] \<Rightarrow> [[c]] | w # ws \<Rightarrow> (c # w) # ws))"

fun str_join :: "rstr \<Rightarrow> rstr list \<Rightarrow> rstr" where
  "str_join sep [] = []"
| "str_join sep [w] = w"
| "str_join sep (w # ws) = w @ sep @ str_join sep ws"

lemma str_split_not_Nil [simp]: "str_split sep s \<noteq> []"
  by (induction s) (auto split: list.split)

lemma str_split_plain: "sep \<notin> set w \<Longrightarrow> str_split sep w = [w]"
  by (induction w) auto

lemma str_split_word: "sep \<notin> set w \<Longrightarrow> str_split sep (w @ sep # s) = w # str_split sep s"
  by (induction w) auto

lemma split_join:
  "ws \<noteq> [] \<Longrightarrow> \<forall>w \<in> set ws. sep \<notin> set w \<Longrightarrow> str_split sep (str_join [sep] ws) = ws"
  by (induction "[sep]" ws rule: str_join.induct) (simp_all add: str_split_plain str_split_word)

section \<open>Lossy decoding\<close>

definition replacement :: rchar where "replacement = 0xFFFD"

definition is_cont :: "nat \<Rightarrow> bool" where
  "is_cont b \<longleftrightarrow> 0x80 \<le> b \<and> b < 0xC0"

text \<open>Which second byte may follow the first, \<^verbatim>\<open>Utf8Chunks::next\<close>.\<close>

definition second_ok :: "nat \<Rightarrow> nat \<Rightarrow> bool" where
  "second_ok a b \<longleftrightarrow>
     (if a = 0xE0 then 0xA0 \<le> b \<and> b \<le> 0xBF
      else if a = 0xED then 0x80 \<le> b \<and> b \<le> 0x9F
      else if a = 0xF0 then 0x90 \<le> b \<and> b \<le> 0xBF
      else if a = 0xF4 then 0x80 \<le> b \<and> b \<le> 0x8F
      else is_cont b)"

definition byte_at :: "nat list \<Rightarrow> nat \<Rightarrow> nat" where
  "byte_at bs i = (if i < length bs then bs ! i else 0)"

text \<open>The bytes taken and whether they are a character.\<close>

definition lossy_step :: "nat list \<Rightarrow> nat \<times> bool" where
  "lossy_step bs =
     (let a = byte_at bs 0
      in if a < 0x80 then (1, True)
         else if 0xC2 \<le> a \<and> a < 0xE0 then (if is_cont (byte_at bs 1) then (2, True) else (1, False))
         else if 0xE0 \<le> a \<and> a < 0xF0
         then (if \<not> second_ok a (byte_at bs 1) then (1, False)
               else if \<not> is_cont (byte_at bs 2) then (2, False) else (3, True))
         else if 0xF0 \<le> a \<and> a < 0xF5
         then (if \<not> second_ok a (byte_at bs 1) then (1, False)
               else if \<not> is_cont (byte_at bs 2) then (2, False)
               else if \<not> is_cont (byte_at bs 3) then (3, False) else (4, True))
         else (1, False))"

lemma lossy_step_pos: "0 < fst (lossy_step bs)"
  by (simp add: lossy_step_def Let_def)

function utf8_lossy :: "nat list \<Rightarrow> rstr" where
  "utf8_lossy [] = []"
| "utf8_lossy (b # bs) =
     (let (n, ok) = lossy_step (b # bs)
      in (if ok then code_of (take n (b # bs)) else replacement) # utf8_lossy (drop n (b # bs)))"
  by pat_completeness auto
termination
proof (relation "measure length", goal_cases)
  case (2 b bs p n ok)
  then have "0 < n" using lossy_step_pos[of "b # bs"] by (metis fst_conv)
  then show ?case by (simp add: Suc_diff_le)
qed simp

declare utf8_lossy.simps(2) [simp del]

text \<open>On well-formed bytes nothing is lost.\<close>

lemma second_ok_three:
  assumes "0x800 \<le> c" "c < 0x10000" and "scalar c"
  shows "second_ok (0xE0 + c div 4096) (0x80 + c div 64 mod 64)"
proof -
  have lead: "c div 4096 < 16" using assms(2) by (simp add: div_less_iff_less_mult)
  have split: "c div 64 = c div 4096 * 64 + c div 64 mod 64"
    using div_mult2_eq[of c 64 64] div_mult_mod_eq[of "c div 64" 64] by simp
  have low: "32 \<le> c div 64 mod 64" if "c div 4096 = 0"
  proof -
    have "32 \<le> c div 64" using assms(1) by (simp add: less_eq_div_iff_mult_less_eq)
    then show ?thesis using split that by simp
  qed
  have surr: "c div 64 mod 64 < 32" if "c div 4096 = 13"
  proof -
    have "c < 57344" using that div_mult_mod_eq[of c 4096] mod_less_divisor[of 4096 c] by simp
    then have "c < 55296" using assms(3) by (auto simp: scalar_def)
    then have "c div 64 < 864" by (simp add: div_less_iff_less_mult)
    then show ?thesis using split that by simp
  qed
  have "c div 64 mod 64 < 64" by simp
  then show ?thesis using low surr lead by (auto simp: second_ok_def is_cont_def)
qed

lemma second_ok_four:
  assumes "0x10000 \<le> c" "c < 0x110000"
  shows "second_ok (0xF0 + c div 262144) (0x80 + c div 4096 mod 64)"
proof -
  have lead: "c div 262144 < 5" using assms(2) by (simp add: div_less_iff_less_mult)
  have split: "c div 4096 = c div 262144 * 64 + c div 4096 mod 64"
    using div_mult2_eq[of c 4096 64] div_mult_mod_eq[of "c div 4096" 64] by simp
  have low: "16 \<le> c div 4096 mod 64" if "c div 262144 = 0"
  proof -
    have "16 \<le> c div 4096" using assms(1) by (simp add: less_eq_div_iff_mult_less_eq)
    then show ?thesis using split that by simp
  qed
  have top: "c div 4096 mod 64 < 16" if "c div 262144 = 4"
  proof -
    have "c div 4096 < 272" using assms(2) by (simp add: div_less_iff_less_mult)
    then show ?thesis using split that by simp
  qed
  have "c div 4096 mod 64 < 64" by simp
  then show ?thesis using low top lead by (auto simp: second_ok_def is_cont_def)
qed

lemma lossy_step_char:
  assumes "scalar c"
  shows "lossy_step (utf8_char c @ bs) = (length (utf8_char c), True)"
proof -
  have hi: "c < 0x110000" using assms by (auto simp: scalar_def)
  have cont: "is_cont (0x80 + n mod 64)" for n by (simp add: is_cont_def)
  consider "c < 0x80" | "0x80 \<le> c" "c < 0x800" | "0x800 \<le> c" "c < 0x10000" | "0x10000 \<le> c" by linarith
  then show ?thesis
  proof cases
    case 1
    then show ?thesis by (simp add: lossy_step_def byte_at_def utf8_char_def)
  next
    case 2
    then have "2 \<le> c div 64" "c div 64 < 32"
      by (simp_all add: div_less_iff_less_mult less_eq_div_iff_mult_less_eq)
    with 2 cont show ?thesis by (simp add: lossy_step_def byte_at_def utf8_char_def)
  next
    case 3
    then have "c div 4096 < 16" by (simp add: div_less_iff_less_mult)
    with 3 cont second_ok_three[OF 3 assms] show ?thesis
      by (simp add: lossy_step_def byte_at_def utf8_char_def Let_def)
  next
    case 4
    have "c div 262144 < 5" using hi by (simp add: div_less_iff_less_mult)
    with 4 cont second_ok_four[OF 4 hi] show ?thesis
      by (simp add: lossy_step_def byte_at_def utf8_char_def Let_def)
  qed
qed

lemma utf8_lossy_append: "scalar c \<Longrightarrow> utf8_lossy (utf8_char c @ bs) = c # utf8_lossy bs"
proof -
  assume c: "scalar c"
  obtain b r where u: "utf8_char c = b # r" by (cases "utf8_char c") auto
  from lossy_step_char[OF c, of bs] have "lossy_step (b # (r @ bs)) = (length (utf8_char c), True)"
    by (simp add: u)
  then have "utf8_lossy (b # (r @ bs)) = c # utf8_lossy bs"
    unfolding utf8_lossy.simps(2)[of b "r @ bs"] using utf8_char_code[OF c] u by simp
  then show ?thesis by (simp add: u)
qed

lemma utf8_lossy_exact: "utf8_decode bs = Some s \<Longrightarrow> utf8_lossy bs = s"
proof -
  assume "utf8_decode bs = Some s"
  then have "wf_str s" and "bs = utf8_encode s" using utf8_decode_sound by auto
  moreover have "wf_str t \<Longrightarrow> utf8_lossy (utf8_encode t) = t" for t
    by (induction t) (auto simp: utf8_lossy_append)
  ultimately show ?thesis by simp
qed

section \<open>Integers\<close>

datatype int_error = IntEmpty | InvalidDigit | PosOverflow | NegOverflow

definition int_error_text :: "int_error \<Rightarrow> rstr" where
  "int_error_text e =
     (case e of
        IntEmpty \<Rightarrow> lit ''cannot parse integer from empty string''
      | InvalidDigit \<Rightarrow> lit ''invalid digit found in string''
      | PosOverflow \<Rightarrow> lit ''number too large to fit in target type''
      | NegOverflow \<Rightarrow> lit ''number too small to fit in target type'')"

definition is_digit :: "rchar \<Rightarrow> bool" where
  "is_digit c \<longleftrightarrow> 48 \<le> c \<and> c \<le> 57"

fun parse_digits :: "nat \<Rightarrow> int_error \<Rightarrow> nat \<Rightarrow> rstr \<Rightarrow> int_error + nat" where
  "parse_digits hi overflow acc [] = Inr acc"
| "parse_digits hi overflow acc (c # s) =
     (if \<not> is_digit c then Inl InvalidDigit
      else if hi < acc * 10 + (c - 48) then Inl overflow
      else parse_digits hi overflow (acc * 10 + (c - 48)) s)"

text \<open>\<^verbatim>\<open>str::parse\<close> at an unsigned type with largest value \<open>hi\<close>, and at \<^verbatim>\<open>i32\<close>.\<close>

definition parse_unsigned :: "nat \<Rightarrow> rstr \<Rightarrow> int_error + nat" where
  "parse_unsigned hi s =
     (case s of
        [] \<Rightarrow> Inl IntEmpty
      | c # r \<Rightarrow>
          if r = [] \<and> (c = 43 \<or> c = 45) then Inl InvalidDigit
          else if c = 43 then parse_digits hi PosOverflow 0 r
          else parse_digits hi PosOverflow 0 s)"

definition parse_i32 :: "rstr \<Rightarrow> int_error + int" where
  "parse_i32 s =
     (case s of
        [] \<Rightarrow> Inl IntEmpty
      | c # r \<Rightarrow>
          if r = [] \<and> (c = 43 \<or> c = 45) then Inl InvalidDigit
          else if c = 45 then rbind (parse_digits (2 ^ 31) NegOverflow 0 r) (\<lambda>n. Inr (- int n))
          else if c = 43 then rbind (parse_digits (2 ^ 31 - 1) PosOverflow 0 r) (\<lambda>n. Inr (int n))
          else rbind (parse_digits (2 ^ 31 - 1) PosOverflow 0 s) (\<lambda>n. Inr (int n)))"

text \<open>Parsing reads the digits printed by \<open>dec\<close>.\<close>

lemma parse_digits_append:
  "parse_digits hi e acc s = Inr n \<Longrightarrow> parse_digits hi e acc (s @ r) = parse_digits hi e n r"
  by (induction s arbitrary: acc) (auto split: if_splits)

lemma parse_digits_dec: "n \<le> hi \<Longrightarrow> parse_digits hi e 0 (dec n) = Inr n"
proof (induction n rule: dec.induct)
  case (1 n)
  show ?case
  proof (cases "n < 10")
    case True
    with 1 show ?thesis by (subst dec.simps) (simp add: is_digit_def)
  next
    case False
    have "parse_digits hi e 0 (dec (n div 10)) = Inr (n div 10)" using 1 False by simp
    then have "parse_digits hi e 0 (dec (n div 10) @ [48 + n mod 10]) =
        parse_digits hi e (n div 10) [48 + n mod 10]" by (rule parse_digits_append)
    moreover have "48 + n mod 10 \<le> 57" by (simp add: Suc_leI less_Suc_eq_le[symmetric])
    ultimately show ?thesis
      using 1(2) False by (subst dec.simps) (simp add: is_digit_def)
  qed
qed

lemma parse_unsigned_dec: "n \<le> hi \<Longrightarrow> parse_unsigned hi (dec n) = Inr n"
proof -
  assume n: "n \<le> hi"
  obtain c r where d: "dec n = c # r" by (cases "dec n") auto
  then have "48 \<le> c" using dec_digits[of n] by simp
  then show ?thesis using parse_digits_dec[OF n, of PosOverflow] d by (simp add: parse_unsigned_def)
qed

lemma parse_digits_bound: "parse_digits hi e acc s = Inr n \<Longrightarrow> acc \<le> hi \<Longrightarrow> n \<le> hi"
  by (induction s arbitrary: acc) (auto split: if_splits)

lemma parse_unsigned_bound: "parse_unsigned hi s = Inr n \<Longrightarrow> n \<le> hi"
  by (auto simp: parse_unsigned_def dest: parse_digits_bound split: list.splits if_splits)

end
