(* ===== verification/Config.thy ===== *)
theory Config
  imports Rust_Fs Core_Governor
begin

text \<open>
  The start-up configuration, \<^verbatim>\<open>src/config.rs\<close>: its structures, what \<^verbatim>\<open>validate_config\<close> demands
  of them, the policies made from them, and the canonical defaults read out of the embedded YAML
  text.  The crate \<^verbatim>\<open>serde_yaml\<close> is a parameter: \<open>cl_embedded_value\<close> and
  \<open>cl_embedded_config\<close> are what it makes of the embedded text, and \<open>value_decoders\<close> is
  \<^verbatim>\<open>serde_yaml::from_value\<close> at each type the code reads.  A value of type \<open>yaml\<close> is a
  \<^verbatim>\<open>serde_yaml::Value\<close> without tags.  A function that may panic returns an option.
\<close>

section \<open>Structures\<close>

record detector_config =
  dc_backend :: detector_backend_kind
  dc_target_readings :: "rstr list"
  dc_literal_sequence_patterns :: "rstr list"
  dc_special_phrases :: "rstr list"

record bot_policy_config =
  bp_stamp_text :: rstr
  bp_send_template :: rstr
  bp_reaction :: reaction_config
  bp_max_count_cap :: nat
  bp_max_send_chars :: nat
  bp_action_policy :: action_policy

record audit_config =
  ac_sqlite_path :: path
  ac_export_max_rows :: nat
  ac_query_max_rows :: nat
  ac_busy_timeout_ms :: nat

record config_signature_config =
  detached_hmac_sha256_path :: path
  hmac_key_env :: rstr

record integrity_config =
  config_signature :: "config_signature_config option"
  pseudo_id_hmac_key_env :: "rstr option"

datatype dependency_security_check_mode = Disabled | OfflineSnapshot

record diagnostics_config =
  local_self_check_on_startup :: bool
  verify_hardening_artifacts :: bool
  verify_generated_artifacts :: bool
  audit_verify_max_rows :: nat
  security_snapshot_path :: path
  dependency_security_check_mode :: dependency_security_check_mode

record startup_config =
  cfg_detector :: detector_config
  cfg_bot :: bot_policy_config
  cfg_runtime :: runtime_protection_config
  cfg_audit :: audit_config
  cfg_diagnostics :: diagnostics_config
  cfg_integrity :: integrity_config

datatype startup_config_error =
    ReadConfig rstr
  | CreateConfigDir rstr
  | WriteConfig rstr
  | TooLarge
  | ParseConfig rstr
  | Validate rstr
  | Signature rstr
  | EmbeddedDefault rstr

section \<open>Policies\<close>

definition as_policy :: "detector_config \<Rightarrow> detector_policy" where
  "as_policy d =
     \<lparr>target_readings = dc_target_readings d,
      literal_sequence_patterns = dc_literal_sequence_patterns d,
      special_phrases = dc_special_phrases d\<rparr>"

definition first_phrase :: "rstr list \<Rightarrow> rstr" where
  "first_phrase phrases = (case phrases of [] \<Rightarrow> [] | p # _ \<Rightarrow> p)"

definition as_bot_config :: "bot_policy_config \<Rightarrow> detector_config \<Rightarrow> bot_config" where
  "as_bot_config b d =
     \<lparr>special_phrase = first_phrase (dc_special_phrases d), stamp_text = bp_stamp_text b,
      reaction = bp_reaction b, max_count_cap = bp_max_count_cap b,
      bot_max_send_chars = bp_max_send_chars b, send_template = bp_send_template b,
      bot_action_policy = bp_action_policy b\<rparr>"

section \<open>Validation\<close>

definition MAX_CONFIG_BYTES :: nat where "MAX_CONFIG_BYTES = 64 * 1024"
definition MAX_DETECTOR_ITEMS :: nat where "MAX_DETECTOR_ITEMS = 64"
definition MAX_SPECIAL_PHRASES :: nat where "MAX_SPECIAL_PHRASES = 64"
definition MAX_PATTERN_LEN :: nat where "MAX_PATTERN_LEN = 32"
definition MAX_READING_LEN :: nat where "MAX_READING_LEN = 32"
definition MAX_TEMPLATE_LEN :: nat where "MAX_TEMPLATE_LEN = 512"
definition MAX_STAMP_LEN :: nat where "MAX_STAMP_LEN = 128"
definition MAX_EMOJI_NAME_LEN :: nat where "MAX_EMOJI_NAME_LEN = 64"

lemmas config_limits = MAX_CONFIG_BYTES_def MAX_DETECTOR_ITEMS_def MAX_SPECIAL_PHRASES_def
  MAX_PATTERN_LEN_def MAX_READING_LEN_def MAX_TEMPLATE_LEN_def MAX_STAMP_LEN_def
  MAX_EMOJI_NAME_LEN_def

definition is_allowed_placeholder :: "rstr \<Rightarrow> bool" where
  "is_allowed_placeholder v \<longleftrightarrow>
     v = lit ''count'' \<or> v = lit ''stamp'' \<or> v = lit ''matched_backend'' \<or>
     v = lit ''matched_reading'' \<or> v = lit ''action_kind''"

text \<open>The scan of the template, on what is left after the cursor; a failure is its message.\<close>

function template_scan :: "rstr \<Rightarrow> rstr + unit" where
  "template_scan rest =
     (case str_find (lit ''${'') rest of
        None \<Rightarrow> Inr ()
      | Some start \<Rightarrow>
          (let opened = drop (start + 2) rest
           in case str_find (lit ''}'') opened of
                None \<Rightarrow> Inl (lit ''template placeholder is not closed'')
              | Some close \<Rightarrow>
                  (let key = take close opened
                   in if is_allowed_placeholder key then template_scan (drop (close + 1) opened)
                      else Inl (lit ''template contains undefined placeholder: '' @ key))))"
  by pat_completeness auto
termination
  by (relation "measure length") (auto dest!: str_find_bound simp: lit_def)

declare template_scan.simps [simp del]

definition validate_template :: "rstr \<Rightarrow> rstr + unit" where
  "validate_template template = template_scan template"

definition invalid :: "string \<Rightarrow> startup_config_error + unit" where
  "invalid msg = Inl (Validate (lit msg))"

definition validate_config :: "startup_config \<Rightarrow> startup_config_error + unit" where
  "validate_config cfg =
     (let d = cfg_detector cfg; b = cfg_bot cfg; a = cfg_audit cfg; g = cfg_diagnostics cfg
      in if length (dc_target_readings d) > MAX_DETECTOR_ITEMS
         then invalid ''target_readings exceeds max entries''
         else if length (dc_literal_sequence_patterns d) > MAX_DETECTOR_ITEMS
         then invalid ''literal_sequence_patterns exceeds max entries''
         else if length (dc_special_phrases d) > MAX_SPECIAL_PHRASES
         then invalid ''special_phrases exceeds max entries''
         else if dc_special_phrases d = []
         then invalid ''special_phrases must not be empty''
         else if dc_backend d = MorphologicalReading \<and> dc_target_readings d = []
         then invalid ''target_readings must not be empty for morphological_reading backend''
         else if dc_backend d = Fallback
         then invalid ''detector.backend=fallback is internal-only and cannot be configured''
         else if list_ex (\<lambda>e. str_len e > MAX_READING_LEN) (dc_target_readings d)
         then invalid ''target_readings entry too long''
         else if list_ex (\<lambda>e. str_len e > MAX_PATTERN_LEN) (dc_literal_sequence_patterns d)
         then invalid ''literal_sequence_patterns entry too long''
         else if bp_stamp_text b = [] \<or> str_len (bp_stamp_text b) > MAX_STAMP_LEN
         then invalid ''stamp_text length is invalid''
         else if bp_send_template b = [] \<or> str_len (bp_send_template b) > MAX_TEMPLATE_LEN
         then invalid ''send_template length is invalid''
         else if emoji_name (bp_reaction b) = [] \<or>
           str_len (emoji_name (bp_reaction b)) > MAX_EMOJI_NAME_LEN
         then invalid ''reaction.emoji_name length is invalid''
         else if emoji_id (bp_reaction b) = 0
         then invalid ''reaction.emoji_id must be non-zero''
         else if bp_max_count_cap b = 0 \<or> bp_max_count_cap b > 4096
         then invalid ''max_count_cap must be 1..=4096''
         else if bp_max_send_chars b = 0 \<or> bp_max_send_chars b > 8000
         then invalid ''max_send_chars must be 1..=8000''
         else if ac_export_max_rows a = 0 \<or> ac_export_max_rows a > 1000000
         then invalid ''audit.export_max_rows is invalid''
         else if ac_query_max_rows a = 0 \<or> ac_query_max_rows a > 1000000
         then invalid ''audit.query_max_rows is invalid''
         else if audit_verify_max_rows g = 0 \<or> audit_verify_max_rows g > 100000
         then invalid ''diagnostics.audit_verify_max_rows is invalid''
         else (case validate_template (bp_send_template b) of
             Inl err \<Rightarrow> Inl (Validate err)
           | Inr u \<Rightarrow> Inr ()))"

definition validate_startup_config :: "startup_config \<Rightarrow> startup_config_error + unit" where
  "validate_startup_config cfg = validate_config cfg"

section \<open>The specification of a template\<close>

text \<open>A template is literal text with holes: each \<^verbatim>\<open>${\<close> opens a known placeholder, closed by the
  next brace.\<close>

inductive template_form :: "rstr \<Rightarrow> bool" where
  plain: "\<not> sublist (lit ''${'') t \<Longrightarrow> template_form t"
| hole: "\<not> sublist (lit ''${'') t \<Longrightarrow> is_allowed_placeholder key \<Longrightarrow> template_form rest \<Longrightarrow>
    template_form (t @ lit ''${'' @ key @ lit ''}'' @ rest)"

lemma placeholder_no_brace: "is_allowed_placeholder key \<Longrightarrow> 125 \<notin> set key"
  by (auto simp: is_allowed_placeholder_def lit_def)

lemma find_open:
  assumes "\<not> sublist (lit ''${'') t"
  shows "str_find (lit ''${'') (t @ lit ''${'' @ r) = Some (length t)"
proof (rule str_find_unique)
  show "\<forall>j < length t. \<not> prefix (lit ''${'') (drop j (t @ lit ''${'' @ r))"
  proof (intro allI impI notI)
    fix j assume j: "j < length t" and p: "prefix (lit ''${'') (drop j (t @ lit ''${'' @ r))"
    then obtain a u where dj: "drop j t = a # u" by (cases "drop j t") auto
    have t: "t = take j t @ a # u" by (metis append_take_drop_id dj)
    show False
    proof (cases u)
      case Nil
      with p j dj show False by (simp add: lit_def)
    next
      case (Cons b v)
      with p j dj have "a # u = lit ''${'' @ v" by (simp add: lit_def)
      with t assms show False by (metis sublist_appendI)
    qed
  qed
qed auto

lemma find_close: "125 \<notin> set key \<Longrightarrow> str_find (lit ''}'') (key @ lit ''}'' @ r) = Some (length key)"
  by (induction key) (auto simp: lit_def)

lemma find_split:
  assumes "str_find n s = Some i"
  shows "s = take i s @ n @ drop (i + length n) s" and "\<not> sublist n (take i s) \<or> n = []"
proof -
  from str_find_Some[OF assms] obtain r where d: "drop i s = n @ r" by (auto simp: prefix_def)
  then have "r = drop (i + length n) s" by (metis add.commute append_eq_conv_conj drop_drop)
  with d show "s = take i s @ n @ drop (i + length n) s" by (metis append_take_drop_id)
  show "\<not> sublist n (take i s) \<or> n = []"
  proof (rule disjCI, rule notI)
    assume "n \<noteq> []" and "sublist n (take i s)"
    then obtain a b where ab: "take i s = a @ n @ b" by (auto simp: sublist_def)
    then have len: "length a + length n \<le> i"
      by (metis add_leD1 length_append length_take min.bounded_iff nat_le_linear le_add1 order_refl
          add.assoc)
    then have "length a < i" using \<open>n \<noteq> []\<close> by (cases n) auto
    moreover have "s = a @ n @ b @ drop i s" by (metis ab append.assoc append_take_drop_id)
    then have "prefix n (drop (length a) s)" by (metis append_eq_conv_conj prefixI)
    ultimately show False using str_find_least[OF assms] by blast
  qed
qed

lemma scan_form: "template_scan s = Inr () \<Longrightarrow> template_form s"
proof (induction s rule: template_scan.induct)
  case (1 s)
  show ?case
  proof (cases "str_find (lit ''${'') s")
    case None
    then show ?thesis by (simp add: str_find_None plain)
  next
    case (Some i)
    let ?o = "drop (i + 2) s"
    from 1(2) Some obtain k where k: "str_find (lit ''}'') ?o = Some k"
      and key: "is_allowed_placeholder (take k ?o)"
      and more: "template_scan (drop (k + 1) ?o) = Inr ()"
      by (subst (asm) template_scan.simps) (auto simp: Let_def split: option.splits if_splits)
    have rest: "template_form (drop (k + 1) ?o)"
      using 1(1)[OF Some refl k refl key more] .
    have s: "s = take i s @ lit ''${'' @ ?o" and clean: "\<not> sublist (lit ''${'') (take i s)"
      using find_split[OF Some] by (auto simp: lit_def)
    have "?o = take k ?o @ lit ''}'' @ drop (k + 1) ?o"
      using find_split(1)[OF k] by (simp add: lit_def)
    with s show ?thesis using hole[OF clean key rest] by metis
  qed
qed

lemma form_scan: "template_form s \<Longrightarrow> template_scan s = Inr ()"
proof (induction rule: template_form.induct)
  case (plain t)
  then have "str_find (lit ''${'') t = None" by (simp add: str_find_None)
  then show ?case by (subst template_scan.simps) simp
next
  case (hole t key rest)
  let ?s = "t @ lit ''${'' @ key @ lit ''}'' @ rest"
  have two: "length (lit ''${'') = 2" by (simp add: lit_def)
  have opened: "drop (length t + 2) ?s = key @ lit ''}'' @ rest" using two by simp
  show ?case
    unfolding template_scan.simps[of ?s] find_open[OF hole(1)] option.case Let_def opened
      find_close[OF placeholder_no_brace[OF hole(2)]]
    using hole by (simp add: lit_def)
qed

text \<open>A template is accepted exactly when it is text with known, closed placeholders.\<close>

theorem validate_template_iff: "validate_template s = Inr () \<longleftrightarrow> template_form s"
  unfolding validate_template_def using scan_form form_scan by blast

section \<open>What an accepted configuration guarantees\<close>

lemma if_invalid: "(if c then invalid m else r) = Inr () \<longleftrightarrow> \<not> c \<and> r = Inr ()"
  by (simp add: invalid_def)

definition bytes_within :: "nat \<Rightarrow> rstr \<Rightarrow> bool" where
  "bytes_within n v \<longleftrightarrow> str_len v \<le> n"

definition detector_ok :: "detector_config \<Rightarrow> bool" where
  "detector_ok d \<longleftrightarrow>
     dc_backend d = MorphologicalReading \<and>
     length (dc_target_readings d) \<in> {1..64} \<and> length (dc_literal_sequence_patterns d) \<le> 64 \<and>
     length (dc_special_phrases d) \<in> {1..64} \<and>
     list_all (bytes_within 32) (dc_target_readings d) \<and>
     list_all (bytes_within 32) (dc_literal_sequence_patterns d)"

definition bot_ok :: "bot_policy_config \<Rightarrow> bool" where
  "bot_ok b \<longleftrightarrow>
     bp_stamp_text b \<noteq> [] \<and> bytes_within 128 (bp_stamp_text b) \<and>
     bp_send_template b \<noteq> [] \<and> bytes_within 512 (bp_send_template b) \<and>
     template_form (bp_send_template b) \<and>
     emoji_name (bp_reaction b) \<noteq> [] \<and> bytes_within 64 (emoji_name (bp_reaction b)) \<and>
     emoji_id (bp_reaction b) \<noteq> 0 \<and> bp_max_count_cap b \<in> {1..4096} \<and>
     bp_max_send_chars b \<in> {1..8000}"

definition rows_ok :: "audit_config \<Rightarrow> diagnostics_config \<Rightarrow> bool" where
  "rows_ok a g \<longleftrightarrow>
     ac_export_max_rows a \<in> {1..1000000} \<and> ac_query_max_rows a \<in> {1..1000000} \<and>
     audit_verify_max_rows g \<in> {1..100000}"

lemma validate_iff:
  "validate_config cfg = Inr () \<longleftrightarrow>
   detector_ok (cfg_detector cfg) \<and> bot_ok (cfg_bot cfg) \<and>
   rows_ok (cfg_audit cfg) (cfg_diagnostics cfg)"
proof -
  have result: "(case r of Inl err \<Rightarrow> Inl (Validate err) | Inr u \<Rightarrow> Inr ()) =
      (Inr () :: startup_config_error + unit) \<longleftrightarrow> r = Inr ()" for r
    by (cases r) auto
  have backend: "b = MorphologicalReading \<longleftrightarrow> b \<noteq> Fallback" for b by (cases b) auto
  have template: "validate_template t = Inr () \<longleftrightarrow> template_form t" for t
    unfolding validate_template_def using scan_form form_scan by blast
  have one: "1 \<le> length xs \<longleftrightarrow> xs \<noteq> []" "1 \<le> n \<longleftrightarrow> n \<noteq> 0" for xs :: "rstr list" and n :: nat
    by (cases xs) auto
  show ?thesis
    unfolding validate_config_def Let_def if_invalid result template detector_ok_def bot_ok_def
      rows_ok_def bytes_within_def config_limits atLeastAtMost_iff one backend list_ex_iff list_all_iff
    by (simp add: not_less) blast
qed


text \<open>With an accepted configuration a proposed reaction is never lost to an invalid emoji: once
  the message is permitted in a mode that reacts, and the policy allows anything, the core answers
  with the configured reaction.\<close>

theorem accepted_config_reacts:
  assumes "validate_config cfg = Inr ()"
    and "tc_bot_config c = as_bot_config (cfg_bot cfg) (cfg_detector cfg)"
    and "permitted env ctx content now c"
    and "snd (env_propose env (tc_analyzer c) (message_request env content)) = Inr ReactOnce"
    and "snd (recompute_mode now c) \<in> {Normal, ReactOnly}"
    and "bp_action_policy (cfg_bot cfg) \<noteq> NoOutbound"
  shows "dec_action (snd (decide_message env ctx content now c)) =
    React (emoji_id (bp_reaction (cfg_bot cfg))) (emoji_name (bp_reaction (cfg_bot cfg)))
      (animated (bp_reaction (cfg_bot cfg)))"
proof -
  have "bot_ok (cfg_bot cfg)" using assms(1) by (simp add: validate_iff)
  then have "valid_react (tc_bot_config c)"
    by (simp add: assms(2) valid_react_def as_bot_config_def bot_ok_def)
  then show ?thesis
    using assms(2-)
    by (simp add: decide_answer governed_answer_def compile_response_from_detection_def compile_exact
        proposed_action_def proposal_to_action_def guarded_react_def react_permitted_def
        as_react_def as_bot_config_def)
qed

section \<open>A concrete configuration\<close>

lemma stamp_template: "template_form (lit ''${stamp}'')"
  using template_form.hole[of "[]" "lit ''stamp''" "[]"]
  by (simp add: template_form.plain is_allowed_placeholder_def lit_def)

definition sample_startup :: startup_config where
  "sample_startup =
     \<lparr>cfg_detector =
        \<lparr>dc_backend = MorphologicalReading, dc_target_readings = [lit ''oo''],
         dc_literal_sequence_patterns = [lit ''oo''], dc_special_phrases = [lit ''so oo'']\<rparr>,
      cfg_bot =
        \<lparr>bp_stamp_text = lit ''<:oo:1>'', bp_send_template = lit ''${stamp}'',
         bp_reaction = \<lparr>emoji_id = 1, emoji_name = lit ''oo'', animated = False\<rparr>,
         bp_max_count_cap = 48, bp_max_send_chars = 20, bp_action_policy = ReactOrSend\<rparr>,
      cfg_runtime = sample_runtime,
      cfg_audit =
        \<lparr>ac_sqlite_path = path_of (lit ''audit.sqlite3''), ac_export_max_rows = 100,
         ac_query_max_rows = 100, ac_busy_timeout_ms = 10\<rparr>,
      cfg_diagnostics =
        \<lparr>local_self_check_on_startup = True, verify_hardening_artifacts = False,
         verify_generated_artifacts = False, audit_verify_max_rows = 512,
         security_snapshot_path = path_of (lit ''report.json''),
         dependency_security_check_mode = Disabled\<rparr>,
      cfg_integrity = \<lparr>config_signature = None, pseudo_id_hmac_key_env = None\<rparr>\<rparr>"

lemma sample_startup_bot: "as_bot_config (cfg_bot sample_startup) (cfg_detector sample_startup) = sample_bot"
  by (simp add: as_bot_config_def sample_startup_def sample_bot_def first_phrase_def)

lemma sample_startup_valid: "validate_config sample_startup = Inr ()"
  unfolding validate_iff
  by (simp add: sample_startup_def detector_ok_def bot_ok_def rows_ok_def bytes_within_def
      stamp_template) (simp add: str_len_def utf8_char_def lit_def)

theorem accepted_config_reacts_witness:
  "dec_action (snd (decide_message sample_env (sample_message 1) (lit ''oo'') 0 sample_core)) =
     React 1 (lit ''oo'') False"
proof -
  have bot: "tc_bot_config sample_core = as_bot_config (cfg_bot sample_startup) (cfg_detector sample_startup)"
    unfolding sample_startup_bot by (simp add: sample_core_def core_new_def)
  have proposed: "snd (env_propose sample_env (tc_analyzer sample_core)
      (message_request sample_env (lit ''oo''))) = Inr ReactOnce"
    by (simp add: sample_env_def)
  have mode: "snd (recompute_mode 0 sample_core) \<in> {Normal, ReactOnly}" by (simp add: sample_mode)
  have policy: "bp_action_policy (cfg_bot sample_startup) \<noteq> NoOutbound"
    by (simp add: sample_startup_def)
  have emoji: "bp_reaction (cfg_bot sample_startup) =
      \<lparr>emoji_id = 1, emoji_name = lit ''oo'', animated = False\<rparr>"
    by (simp add: sample_startup_def)
  from accepted_config_reacts[OF sample_startup_valid bot sample_permitted proposed mode policy]
  show ?thesis unfolding emoji by simp
qed

end
