(* ===== verification/Config_Defaults.thy ===== *)
theory Config_Defaults
  imports Config
begin

text \<open>
  The canonical defaults of \<^verbatim>\<open>src/config.rs\<close>: every default is looked up in the embedded YAML
  text at its own path and decoded at its own type, and panics if that fails.  The cells that
  hold the parsed text once are the values \<open>cl_embedded_value\<close> and \<open>cl_embedded_config\<close>.
\<close>

section \<open>Values of the embedded text\<close>

datatype yaml =
    YNull
  | YBool bool
  | YInt int
  | YFloat rat
  | YStr rstr
  | YSeq "yaml list"
  | YMap "(rstr \<times> yaml) list"

text \<open>\<^verbatim>\<open>Value::get\<close> with a string key.\<close>

fun yaml_get :: "yaml \<Rightarrow> rstr \<Rightarrow> yaml option" where
  "yaml_get (YMap m) key = map_of m key"
| "yaml_get _ _ = None"

record value_decoders =
  de_backend :: "yaml \<Rightarrow> rstr + detector_backend_kind"
  de_string :: "yaml \<Rightarrow> rstr + rstr"
  de_usize :: "yaml \<Rightarrow> rstr + nat"
  de_u64 :: "yaml \<Rightarrow> rstr + nat"
  de_u32 :: "yaml \<Rightarrow> rstr + nat"
  de_u8 :: "yaml \<Rightarrow> rstr + nat"
  de_f64 :: "yaml \<Rightarrow> rstr + rat"
  de_pathbuf :: "yaml \<Rightarrow> rstr + path"
  de_bool :: "yaml \<Rightarrow> rstr + bool"
  de_signature :: "yaml \<Rightarrow> rstr + (config_signature_config option)"
  de_opt_string :: "yaml \<Rightarrow> rstr + (rstr option)"
  de_check_mode :: "yaml \<Rightarrow> rstr + dependency_security_check_mode"
  de_strings :: "yaml \<Rightarrow> rstr + (rstr list)"
  de_detector :: "yaml \<Rightarrow> rstr + detector_config"
  de_action_policy :: "yaml \<Rightarrow> rstr + action_policy"
  de_reaction :: "yaml \<Rightarrow> rstr + reaction_config"
  de_audit :: "yaml \<Rightarrow> rstr + audit_config"
  de_integrity :: "yaml \<Rightarrow> rstr + integrity_config"
  de_diagnostics :: "yaml \<Rightarrow> rstr + diagnostics_config"
  de_ids :: "yaml \<Rightarrow> rstr + (nat list)"
  de_mode :: "yaml \<Rightarrow> rstr + (runtime_mode option)"

record config_lib =
  cl_embedded_value :: "rstr + yaml"
  cl_embedded_config :: "rstr + startup_config"
  cl_decoders :: value_decoders

definition dotted :: "rstr list \<Rightarrow> rstr" where
  "dotted p = concat (case p of [] \<Rightarrow> [] | w # ws \<Rightarrow> w # map (\<lambda>v. lit ''.'' @ v) ws)"

section \<open>Looking up\<close>

definition embedded_default_startup_config ::
  "config_lib \<Rightarrow> startup_config_error + startup_config" where
  "embedded_default_startup_config lib =
     (case cl_embedded_config lib of
        Inl err \<Rightarrow> Inl (EmbeddedDefault err)
      | Inr cfg \<Rightarrow> rbind (validate_config cfg) (\<lambda>_. Inr cfg))"

definition embedded_default_yaml :: "config_lib \<Rightarrow> startup_config_error + yaml" where
  "embedded_default_yaml lib =
     (case cl_embedded_value lib of Inl err \<Rightarrow> Inl (EmbeddedDefault err) | Inr y \<Rightarrow> Inr y)"

fun lookup_segments :: "rstr list \<Rightarrow> yaml \<Rightarrow> rstr list \<Rightarrow> startup_config_error + yaml" where
  "lookup_segments p current [] = Inr current"
| "lookup_segments p current (segment # segments) =
     (case yaml_get current segment of
        None \<Rightarrow> Inl (EmbeddedDefault (lit ''missing key: '' @ dotted p))
      | Some v \<Rightarrow> lookup_segments p v segments)"

definition embedded_yaml_lookup ::
  "config_lib \<Rightarrow> rstr list \<Rightarrow> startup_config_error + yaml" where
  "embedded_yaml_lookup lib p =
     rbind (embedded_default_yaml lib) (\<lambda>current. lookup_segments p current p)"

definition embedded_default_value ::
  "config_lib \<Rightarrow> (yaml \<Rightarrow> rstr + 'a) \<Rightarrow> rstr list \<Rightarrow> startup_config_error + 'a" where
  "embedded_default_value lib from_value p =
     rbind (embedded_yaml_lookup lib p)
       (\<lambda>v. case from_value v of Inl err \<Rightarrow> Inl (EmbeddedDefault err) | Inr a \<Rightarrow> Inr a)"

text \<open>\<^verbatim>\<open>Result::expect\<close>: \<open>None\<close> is the panic.\<close>

definition expect :: "'e + 'a \<Rightarrow> 'a option" where
  "expect r = (case r of Inl _ \<Rightarrow> None | Inr a \<Rightarrow> Some a)"

section \<open>Defaults\<close>

definition canonical_startup_config :: "config_lib \<Rightarrow> startup_config option" where
  "canonical_startup_config lib = expect (embedded_default_startup_config lib)"

definition default_detector_backend :: "config_lib \<Rightarrow> detector_backend_kind option" where
  "default_detector_backend lib =
     expect (embedded_default_value lib (de_backend (cl_decoders lib))
       [lit ''detector'', lit ''backend''])"

definition default_stamp_text :: "config_lib \<Rightarrow> rstr option" where
  "default_stamp_text lib =
     expect (embedded_default_value lib (de_string (cl_decoders lib))
       [lit ''bot'', lit ''stamp_text''])"

definition default_send_template :: "config_lib \<Rightarrow> rstr option" where
  "default_send_template lib =
     expect (embedded_default_value lib (de_string (cl_decoders lib))
       [lit ''bot'', lit ''send_template''])"

definition default_max_count_cap :: "config_lib \<Rightarrow> nat option" where
  "default_max_count_cap lib =
     expect (embedded_default_value lib (de_usize (cl_decoders lib))
       [lit ''bot'', lit ''max_count_cap''])"

definition default_max_send_chars :: "config_lib \<Rightarrow> nat option" where
  "default_max_send_chars lib =
     expect (embedded_default_value lib (de_usize (cl_decoders lib))
       [lit ''bot'', lit ''max_send_chars''])"

definition default_audit_path :: "config_lib \<Rightarrow> path option" where
  "default_audit_path lib =
     expect (embedded_default_value lib (de_pathbuf (cl_decoders lib))
       [lit ''audit'', lit ''sqlite_path''])"

definition default_local_self_check_on_startup :: "config_lib \<Rightarrow> bool option" where
  "default_local_self_check_on_startup lib =
     expect (embedded_default_value lib (de_bool (cl_decoders lib))
       [lit ''diagnostics'', lit ''local_self_check_on_startup''])"

definition default_verify_hardening_artifacts :: "config_lib \<Rightarrow> bool option" where
  "default_verify_hardening_artifacts lib =
     expect (embedded_default_value lib (de_bool (cl_decoders lib))
       [lit ''diagnostics'', lit ''verify_hardening_artifacts''])"

definition default_verify_generated_artifacts :: "config_lib \<Rightarrow> bool option" where
  "default_verify_generated_artifacts lib =
     expect (embedded_default_value lib (de_bool (cl_decoders lib))
       [lit ''diagnostics'', lit ''verify_generated_artifacts''])"

definition default_config_signature :: "config_lib \<Rightarrow> (config_signature_config option) option" where
  "default_config_signature lib =
     expect (embedded_default_value lib (de_signature (cl_decoders lib))
       [lit ''integrity'', lit ''config_signature''])"

definition default_pseudo_id_hmac_key_env :: "config_lib \<Rightarrow> (rstr option) option" where
  "default_pseudo_id_hmac_key_env lib =
     expect (embedded_default_value lib (de_opt_string (cl_decoders lib))
       [lit ''integrity'', lit ''pseudo_id_hmac_key_env''])"

definition default_audit_verify_rows :: "config_lib \<Rightarrow> nat option" where
  "default_audit_verify_rows lib =
     expect (embedded_default_value lib (de_usize (cl_decoders lib))
       [lit ''diagnostics'', lit ''audit_verify_max_rows''])"

definition default_security_snapshot_path :: "config_lib \<Rightarrow> path option" where
  "default_security_snapshot_path lib =
     expect (embedded_default_value lib (de_pathbuf (cl_decoders lib))
       [lit ''diagnostics'', lit ''security_snapshot_path''])"

definition default_dependency_security_check_mode :: "config_lib \<Rightarrow> dependency_security_check_mode option" where
  "default_dependency_security_check_mode lib =
     expect (embedded_default_value lib (de_check_mode (cl_decoders lib))
       [lit ''diagnostics'', lit ''dependency_security_check_mode''])"

definition default_target_readings :: "config_lib \<Rightarrow> (rstr list) option" where
  "default_target_readings lib =
     expect (embedded_default_value lib (de_strings (cl_decoders lib))
       [lit ''detector'', lit ''target_readings''])"

definition default_literal_sequence_patterns :: "config_lib \<Rightarrow> (rstr list) option" where
  "default_literal_sequence_patterns lib =
     expect (embedded_default_value lib (de_strings (cl_decoders lib))
       [lit ''detector'', lit ''literal_sequence_patterns''])"

definition default_special_phrases :: "config_lib \<Rightarrow> (rstr list) option" where
  "default_special_phrases lib =
     expect (embedded_default_value lib (de_strings (cl_decoders lib))
       [lit ''detector'', lit ''special_phrases''])"

definition canonical_detector_config :: "config_lib \<Rightarrow> detector_config option" where
  "canonical_detector_config lib =
     expect (embedded_default_value lib (de_detector (cl_decoders lib))
       [lit ''detector''])"

definition default_action_policy :: "config_lib \<Rightarrow> action_policy option" where
  "default_action_policy lib =
     expect (embedded_default_value lib (de_action_policy (cl_decoders lib))
       [lit ''bot'', lit ''action_policy''])"

definition default_reaction_config :: "config_lib \<Rightarrow> reaction_config option" where
  "default_reaction_config lib =
     expect (embedded_default_value lib (de_reaction (cl_decoders lib))
       [lit ''bot'', lit ''reaction''])"

definition default_audit_export_max_rows :: "config_lib \<Rightarrow> nat option" where
  "default_audit_export_max_rows lib =
     expect (embedded_default_value lib (de_usize (cl_decoders lib))
       [lit ''audit'', lit ''export_max_rows''])"

definition default_audit_query_max_rows :: "config_lib \<Rightarrow> nat option" where
  "default_audit_query_max_rows lib =
     expect (embedded_default_value lib (de_usize (cl_decoders lib))
       [lit ''audit'', lit ''query_max_rows''])"

definition default_audit_busy_timeout_ms :: "config_lib \<Rightarrow> nat option" where
  "default_audit_busy_timeout_ms lib =
     expect (embedded_default_value lib (de_u64 (cl_decoders lib))
       [lit ''audit'', lit ''busy_timeout_ms''])"

definition canonical_audit_config :: "config_lib \<Rightarrow> audit_config option" where
  "canonical_audit_config lib =
     expect (embedded_default_value lib (de_audit (cl_decoders lib))
       [lit ''audit''])"

definition canonical_integrity_config :: "config_lib \<Rightarrow> integrity_config option" where
  "canonical_integrity_config lib =
     expect (embedded_default_value lib (de_integrity (cl_decoders lib))
       [lit ''integrity''])"

definition canonical_diagnostics_config :: "config_lib \<Rightarrow> diagnostics_config option" where
  "canonical_diagnostics_config lib =
     expect (embedded_default_value lib (de_diagnostics (cl_decoders lib))
       [lit ''diagnostics''])"

section \<open>Defaults made of several values\<close>

definition canonical_detector_policy :: "config_lib \<Rightarrow> detector_policy option" where
  "canonical_detector_policy lib =
     Option.bind (default_target_readings lib) (\<lambda>readings.
     Option.bind (default_literal_sequence_patterns lib) (\<lambda>patterns.
     Option.bind (default_special_phrases lib) (\<lambda>phrases.
     Some \<lparr>target_readings = readings, literal_sequence_patterns = patterns,
       special_phrases = phrases\<rparr>)))"

definition canonical_reaction_config :: "config_lib \<Rightarrow> reaction_config option" where
  "canonical_reaction_config lib = default_reaction_config lib"

definition canonical_bot_policy_config :: "config_lib \<Rightarrow> bot_policy_config option" where
  "canonical_bot_policy_config lib =
     Option.bind (default_stamp_text lib) (\<lambda>stamp.
     Option.bind (default_send_template lib) (\<lambda>template.
     Option.bind (canonical_reaction_config lib) (\<lambda>react.
     Option.bind (default_max_count_cap lib) (\<lambda>cap.
     Option.bind (default_max_send_chars lib) (\<lambda>chars.
     Option.bind (default_action_policy lib) (\<lambda>policy.
     Some \<lparr>bp_stamp_text = stamp, bp_send_template = template, bp_reaction = react,
       bp_max_count_cap = cap, bp_max_send_chars = chars, bp_action_policy = policy\<rparr>))))))"

definition canonical_bot_config :: "config_lib \<Rightarrow> bot_config option" where
  "canonical_bot_config lib =
     Option.bind (default_special_phrases lib) (\<lambda>phrases.
     Option.bind (default_stamp_text lib) (\<lambda>stamp.
     Option.bind (canonical_reaction_config lib) (\<lambda>react.
     Option.bind (default_max_count_cap lib) (\<lambda>cap.
     Option.bind (default_max_send_chars lib) (\<lambda>chars.
     Option.bind (default_send_template lib) (\<lambda>template.
     Option.bind (default_action_policy lib) (\<lambda>policy.
     Some \<lparr>special_phrase = first_phrase phrases, stamp_text = stamp, reaction = react,
       max_count_cap = cap, bot_max_send_chars = chars, send_template = template,
       bot_action_policy = policy\<rparr>)))))))"

definition runtime_default ::
  "config_lib \<Rightarrow> (value_decoders \<Rightarrow> yaml \<Rightarrow> rstr + 'a) \<Rightarrow> rstr \<Rightarrow> 'a option" where
  "runtime_default lib d key =
     expect (embedded_default_value lib (d (cl_decoders lib)) [lit ''runtime'', key])"

definition default_runtime_protection_config ::
  "config_lib \<Rightarrow> runtime_protection_config option" where
  "default_runtime_protection_config lib =
     Option.bind (runtime_default lib de_u64 (lit ''duplicate_ttl_ms'')) (\<lambda>f1.
     Option.bind (runtime_default lib de_usize (lit ''duplicate_cache_cap'')) (\<lambda>f2.
     Option.bind (runtime_default lib de_u64 (lit ''per_user_cooldown_ms'')) (\<lambda>f3.
     Option.bind (runtime_default lib de_u64 (lit ''per_channel_cooldown_ms'')) (\<lambda>f4.
     Option.bind (runtime_default lib de_u64 (lit ''per_guild_cooldown_ms'')) (\<lambda>f5.
     Option.bind (runtime_default lib de_u64 (lit ''global_cooldown_ms'')) (\<lambda>f6.
     Option.bind (runtime_default lib de_f64 (lit ''global_rate_per_sec'')) (\<lambda>f7.
     Option.bind (runtime_default lib de_u32 (lit ''global_rate_burst'')) (\<lambda>f8.
     Option.bind (runtime_default lib de_u8 (lit ''max_actions_per_message'')) (\<lambda>f9.
     Option.bind (runtime_default lib de_usize (lit ''max_send_chars'')) (\<lambda>f10.
     Option.bind (runtime_default lib de_usize (lit ''long_message_soft_chars'')) (\<lambda>f11.
     Option.bind (runtime_default lib de_usize (lit ''long_message_hard_chars'')) (\<lambda>f12.
     Option.bind (runtime_default lib de_usize (lit ''suspicious_repetition_threshold'')) (\<lambda>f13.
     Option.bind (runtime_default lib de_u64 (lit ''breaker_window_ms'')) (\<lambda>f14.
     Option.bind (runtime_default lib de_usize (lit ''breaker_threshold'')) (\<lambda>f15.
     Option.bind (runtime_default lib de_u64 (lit ''breaker_open_ms'')) (\<lambda>f16.
     Option.bind (runtime_default lib de_u64 (lit ''sandbox_failure_window_ms'')) (\<lambda>f17.
     Option.bind (runtime_default lib de_usize (lit ''sandbox_failure_threshold'')) (\<lambda>f18.
     Option.bind (runtime_default lib de_ids (lit ''allow_guild_ids'')) (\<lambda>f19.
     Option.bind (runtime_default lib de_ids (lit ''deny_guild_ids'')) (\<lambda>f20.
     Option.bind (runtime_default lib de_ids (lit ''allow_channel_ids'')) (\<lambda>f21.
     Option.bind (runtime_default lib de_ids (lit ''deny_channel_ids'')) (\<lambda>f22.
     Option.bind (runtime_default lib de_mode (lit ''mode_override'')) (\<lambda>f23.
     Option.bind (runtime_default lib de_bool (lit ''emergency_kill_switch'')) (\<lambda>f24.
     Option.bind (runtime_default lib de_u32 (lit ''session_budget_low_watermark'')) (\<lambda>f25.
     Some \<lparr>duplicate_ttl_ms = f1, duplicate_cache_cap = f2, per_user_cooldown_ms = f3,
       per_channel_cooldown_ms = f4, per_guild_cooldown_ms = f5, global_cooldown_ms = f6,
       global_rate_per_sec = f7, global_rate_burst = f8, max_actions_per_message = f9,
       max_send_chars = f10, long_message_soft_chars = f11, long_message_hard_chars = f12,
       suspicious_repetition_threshold = f13, breaker_window_ms = f14, breaker_threshold = f15,
       breaker_open_ms = f16, sandbox_failure_window_ms = f17, sandbox_failure_threshold = f18,
       allow_guild_ids = f19, deny_guild_ids = f20, allow_channel_ids = f21,
       deny_channel_ids = f22, mode_override = f23, emergency_kill_switch = f24,
       session_budget_low_watermark = f25\<rparr>)))))))))))))))))))))))))"

section \<open>One source of truth\<close>

text \<open>
  What a derived decoder of a structure promises when the value is a mapping that has the field:
  the field of the result is the field of the mapping, decoded at its type.
\<close>

definition reads :: "(yaml \<Rightarrow> rstr + 'a) \<Rightarrow> yaml \<Rightarrow> rstr \<Rightarrow> 'a \<Rightarrow> bool" where
  "reads d y key x \<longleftrightarrow> (\<exists>v. yaml_get y key = Some v \<and> d v = Inr x)"

definition detector_read :: "value_decoders \<Rightarrow> yaml \<Rightarrow> detector_config \<Rightarrow> bool" where
  "detector_read ds y d \<longleftrightarrow>
     reads (de_backend ds) y (lit ''backend'') (dc_backend d) \<and>
     reads (de_strings ds) y (lit ''target_readings'') (dc_target_readings d) \<and>
     reads (de_strings ds) y (lit ''literal_sequence_patterns'') (dc_literal_sequence_patterns d) \<and>
     reads (de_strings ds) y (lit ''special_phrases'') (dc_special_phrases d)"

definition bot_read :: "value_decoders \<Rightarrow> yaml \<Rightarrow> bot_policy_config \<Rightarrow> bool" where
  "bot_read ds y b \<longleftrightarrow>
     reads (de_string ds) y (lit ''stamp_text'') (bp_stamp_text b) \<and>
     reads (de_string ds) y (lit ''send_template'') (bp_send_template b) \<and>
     reads (de_reaction ds) y (lit ''reaction'') (bp_reaction b) \<and>
     reads (de_usize ds) y (lit ''max_count_cap'') (bp_max_count_cap b) \<and>
     reads (de_usize ds) y (lit ''max_send_chars'') (bp_max_send_chars b) \<and>
     reads (de_action_policy ds) y (lit ''action_policy'') (bp_action_policy b)"

definition runtime_read :: "value_decoders \<Rightarrow> yaml \<Rightarrow> runtime_protection_config \<Rightarrow> bool" where
  "runtime_read ds y r \<longleftrightarrow>
     reads (de_u64 ds) y (lit ''duplicate_ttl_ms'') (duplicate_ttl_ms r) \<and>
     reads (de_usize ds) y (lit ''duplicate_cache_cap'') (duplicate_cache_cap r) \<and>
     reads (de_u64 ds) y (lit ''per_user_cooldown_ms'') (per_user_cooldown_ms r) \<and>
     reads (de_u64 ds) y (lit ''per_channel_cooldown_ms'') (per_channel_cooldown_ms r) \<and>
     reads (de_u64 ds) y (lit ''per_guild_cooldown_ms'') (per_guild_cooldown_ms r) \<and>
     reads (de_u64 ds) y (lit ''global_cooldown_ms'') (global_cooldown_ms r) \<and>
     reads (de_f64 ds) y (lit ''global_rate_per_sec'') (global_rate_per_sec r) \<and>
     reads (de_u32 ds) y (lit ''global_rate_burst'') (global_rate_burst r) \<and>
     reads (de_u8 ds) y (lit ''max_actions_per_message'') (max_actions_per_message r) \<and>
     reads (de_usize ds) y (lit ''max_send_chars'') (max_send_chars r) \<and>
     reads (de_usize ds) y (lit ''long_message_soft_chars'') (long_message_soft_chars r) \<and>
     reads (de_usize ds) y (lit ''long_message_hard_chars'') (long_message_hard_chars r) \<and>
     reads (de_usize ds) y (lit ''suspicious_repetition_threshold'') (suspicious_repetition_threshold r) \<and>
     reads (de_u64 ds) y (lit ''breaker_window_ms'') (breaker_window_ms r) \<and>
     reads (de_usize ds) y (lit ''breaker_threshold'') (breaker_threshold r) \<and>
     reads (de_u64 ds) y (lit ''breaker_open_ms'') (breaker_open_ms r) \<and>
     reads (de_u64 ds) y (lit ''sandbox_failure_window_ms'') (sandbox_failure_window_ms r) \<and>
     reads (de_usize ds) y (lit ''sandbox_failure_threshold'') (sandbox_failure_threshold r) \<and>
     reads (de_ids ds) y (lit ''allow_guild_ids'') (allow_guild_ids r) \<and>
     reads (de_ids ds) y (lit ''deny_guild_ids'') (deny_guild_ids r) \<and>
     reads (de_ids ds) y (lit ''allow_channel_ids'') (allow_channel_ids r) \<and>
     reads (de_ids ds) y (lit ''deny_channel_ids'') (deny_channel_ids r) \<and>
     reads (de_mode ds) y (lit ''mode_override'') (mode_override r) \<and>
     reads (de_bool ds) y (lit ''emergency_kill_switch'') (emergency_kill_switch r) \<and>
     reads (de_u32 ds) y (lit ''session_budget_low_watermark'') (session_budget_low_watermark r)"

definition startup_read :: "value_decoders \<Rightarrow> yaml \<Rightarrow> startup_config \<Rightarrow> bool" where
  "startup_read ds y cfg \<longleftrightarrow>
     (\<exists>d. yaml_get y (lit ''detector'') = Some d \<and> de_detector ds d = Inr (cfg_detector cfg) \<and>
       detector_read ds d (cfg_detector cfg)) \<and>
     (\<exists>b. yaml_get y (lit ''bot'') = Some b \<and> bot_read ds b (cfg_bot cfg)) \<and>
     (\<exists>r. yaml_get y (lit ''runtime'') = Some r \<and> runtime_read ds r (cfg_runtime cfg)) \<and>
     reads (de_audit ds) y (lit ''audit'') (cfg_audit cfg) \<and>
     reads (de_diagnostics ds) y (lit ''diagnostics'') (cfg_diagnostics cfg) \<and>
     reads (de_integrity ds) y (lit ''integrity'') (cfg_integrity cfg)"

lemma default_at:
  assumes "cl_embedded_value lib = Inr y" and "yaml_get y s = Some v" and "reads d v key x"
  shows "expect (embedded_default_value lib d [s, key]) = Some x"
  using assms
  by (auto simp: embedded_default_value_def embedded_yaml_lookup_def embedded_default_yaml_def
      reads_def expect_def)

lemma default_section:
  assumes "cl_embedded_value lib = Inr y" and "reads d y s x"
  shows "expect (embedded_default_value lib d [s]) = Some x"
  using assms
  by (auto simp: embedded_default_value_def embedded_yaml_lookup_def embedded_default_yaml_def
      reads_def expect_def)

lemmas single_defaults = default_detector_backend_def default_stamp_text_def default_send_template_def
  default_max_count_cap_def default_max_send_chars_def default_target_readings_def
  default_literal_sequence_patterns_def default_special_phrases_def default_action_policy_def
  default_reaction_config_def canonical_reaction_config_def

text \<open>The canonical defaults have one source: if the embedded text decodes to a valid
  configuration, no default panics and every canonical part, whichever way it is assembled, is the
  part of that one configuration.\<close>

theorem canonical_defaults_agree:
  assumes parsed: "cl_embedded_value lib = Inr y" "cl_embedded_config lib = Inr cfg"
    and valid: "validate_config cfg = Inr ()"
    and fields_read: "startup_read (cl_decoders lib) y cfg"
  shows "canonical_startup_config lib = Some cfg \<and>
    canonical_detector_config lib = Some (cfg_detector cfg) \<and>
    canonical_detector_policy lib = Some (as_policy (cfg_detector cfg)) \<and>
    canonical_bot_policy_config lib = Some (cfg_bot cfg) \<and>
    canonical_bot_config lib = Some (as_bot_config (cfg_bot cfg) (cfg_detector cfg)) \<and>
    default_runtime_protection_config lib = Some (cfg_runtime cfg) \<and>
    canonical_audit_config lib = Some (cfg_audit cfg) \<and>
    canonical_diagnostics_config lib = Some (cfg_diagnostics cfg) \<and>
    canonical_integrity_config lib = Some (cfg_integrity cfg)"
proof (intro conjI)
  from fields_read obtain d b r where
    d: "yaml_get y (lit ''detector'') = Some d" "de_detector (cl_decoders lib) d = Inr (cfg_detector cfg)"
      "detector_read (cl_decoders lib) d (cfg_detector cfg)"
    and b: "yaml_get y (lit ''bot'') = Some b" "bot_read (cl_decoders lib) b (cfg_bot cfg)"
    and r: "yaml_get y (lit ''runtime'') = Some r"
      "runtime_read (cl_decoders lib) r (cfg_runtime cfg)"
    and rest: "reads (de_audit (cl_decoders lib)) y (lit ''audit'') (cfg_audit cfg)"
      "reads (de_diagnostics (cl_decoders lib)) y (lit ''diagnostics'') (cfg_diagnostics cfg)"
      "reads (de_integrity (cl_decoders lib)) y (lit ''integrity'') (cfg_integrity cfg)"
    unfolding startup_read_def by blast
  note bot = default_at[OF parsed(1) b(1)] and det = default_at[OF parsed(1) d(1)]
    and run = default_at[OF parsed(1) r(1)]
  show "canonical_startup_config lib = Some cfg"
    by (simp add: canonical_startup_config_def embedded_default_startup_config_def parsed valid
        expect_def)
  show "canonical_detector_config lib = Some (cfg_detector cfg)"
    unfolding canonical_detector_config_def
    by (rule default_section[OF parsed(1)]) (simp add: reads_def d)
  show "canonical_detector_policy lib = Some (as_policy (cfg_detector cfg))"
    using d(3) unfolding detector_read_def
    by (auto dest!: det simp: canonical_detector_policy_def single_defaults as_policy_def)
  show "canonical_bot_policy_config lib = Some (cfg_bot cfg)"
    using b(2) unfolding bot_read_def
    by (auto dest!: bot simp: canonical_bot_policy_config_def single_defaults)
  show "canonical_bot_config lib = Some (as_bot_config (cfg_bot cfg) (cfg_detector cfg))"
    using b(2) d(3) unfolding bot_read_def detector_read_def
    by (auto dest!: bot det simp: canonical_bot_config_def single_defaults as_bot_config_def)
  show "default_runtime_protection_config lib = Some (cfg_runtime cfg)"
    using r(2) unfolding runtime_read_def
    by (auto dest!: run simp: default_runtime_protection_config_def runtime_default_def)
  show "canonical_audit_config lib = Some (cfg_audit cfg)"
    unfolding canonical_audit_config_def by (rule default_section[OF parsed(1) rest(1)])
  show "canonical_diagnostics_config lib = Some (cfg_diagnostics cfg)"
    unfolding canonical_diagnostics_config_def by (rule default_section[OF parsed(1) rest(2)])
  show "canonical_integrity_config lib = Some (cfg_integrity cfg)"
    unfolding canonical_integrity_config_def by (rule default_section[OF parsed(1) rest(3)])
qed

section \<open>The shipped text\<close>

text \<open>The mapping in \<^verbatim>\<open>config/oo-bot.yaml\<close> and the configuration it stands for.\<close>

definition shipped_runtime :: runtime_protection_config where
  "shipped_runtime =
     \<lparr>duplicate_ttl_ms = 180000, duplicate_cache_cap = 8192, per_user_cooldown_ms = 900,
      per_channel_cooldown_ms = 400, per_guild_cooldown_ms = 250, global_cooldown_ms = 100,
      global_rate_per_sec = 20, global_rate_burst = 30, max_actions_per_message = 1,
      max_send_chars = 1900, long_message_soft_chars = 2000, long_message_hard_chars = 8000,
      suspicious_repetition_threshold = 256, breaker_window_ms = 60000, breaker_threshold = 64,
      breaker_open_ms = 120000, sandbox_failure_window_ms = 30000, sandbox_failure_threshold = 10,
      allow_guild_ids = [], deny_guild_ids = [], allow_channel_ids = [],
      deny_channel_ids = [], mode_override = None, emergency_kill_switch = False,
      session_budget_low_watermark = 5\<rparr>"

definition shipped_config :: startup_config where
  "shipped_config =
     \<lparr>cfg_detector =
        \<lparr>dc_backend = MorphologicalReading,
         dc_target_readings = [[0x304A, 0x304A], [0x30AA, 0x30AA], lit ''oo''],
         dc_literal_sequence_patterns = [[0x304A, 0x304A], [0x30AA, 0x30AA], lit ''oo''],
         dc_special_phrases = [[0x3053, 0x308C, 0x306F, 0x304A, 0x304A]]\<rparr>,
      cfg_bot =
        \<lparr>bp_stamp_text = lit ''<:Omilfy:1489695886773587978>'', bp_send_template = lit ''${stamp}'',
         bp_reaction = \<lparr>emoji_id = 1489695886773587978, emoji_name = lit ''Omilfy'', animated = False\<rparr>,
         bp_max_count_cap = 48, bp_max_send_chars = 1900, bp_action_policy = ReactOrSend\<rparr>,
      cfg_runtime = shipped_runtime,
      cfg_audit =
        \<lparr>ac_sqlite_path = path_of (lit ''state/audit/events.sqlite3''), ac_export_max_rows = 50000,
         ac_query_max_rows = 10000, ac_busy_timeout_ms = 3000\<rparr>,
      cfg_diagnostics =
        \<lparr>local_self_check_on_startup = True, verify_hardening_artifacts = True,
         verify_generated_artifacts = True, audit_verify_max_rows = 512,
         security_snapshot_path = path_of (lit ''state/security/offline-security-report.json''),
         dependency_security_check_mode = OfflineSnapshot\<rparr>,
      cfg_integrity =
        \<lparr>config_signature = None, pseudo_id_hmac_key_env = Some (lit ''OO_PSEUDO_ID_HMAC_KEY'')\<rparr>\<rparr>"

definition shipped_runtime_yaml :: yaml where
  "shipped_runtime_yaml = YMap
     [(lit ''duplicate_ttl_ms'', YInt 180000),
      (lit ''duplicate_cache_cap'', YInt 8192),
      (lit ''per_user_cooldown_ms'', YInt 900),
      (lit ''per_channel_cooldown_ms'', YInt 400),
      (lit ''per_guild_cooldown_ms'', YInt 250),
      (lit ''global_cooldown_ms'', YInt 100),
      (lit ''global_rate_per_sec'', YFloat 20),
      (lit ''global_rate_burst'', YInt 30),
      (lit ''max_actions_per_message'', YInt 1),
      (lit ''max_send_chars'', YInt 1900),
      (lit ''long_message_soft_chars'', YInt 2000),
      (lit ''long_message_hard_chars'', YInt 8000),
      (lit ''suspicious_repetition_threshold'', YInt 256),
      (lit ''breaker_window_ms'', YInt 60000),
      (lit ''breaker_threshold'', YInt 64),
      (lit ''breaker_open_ms'', YInt 120000),
      (lit ''sandbox_failure_window_ms'', YInt 30000),
      (lit ''sandbox_failure_threshold'', YInt 10),
      (lit ''allow_guild_ids'', YSeq []),
      (lit ''deny_guild_ids'', YSeq []),
      (lit ''allow_channel_ids'', YSeq []),
      (lit ''deny_channel_ids'', YSeq []),
      (lit ''mode_override'', YNull),
      (lit ''emergency_kill_switch'', YBool False),
      (lit ''session_budget_low_watermark'', YInt 5)]"

definition shipped_yaml :: yaml where
  "shipped_yaml = YMap
     [(lit ''detector'', YMap
        [(lit ''backend'', YStr (lit ''morphological_reading'')),
         (lit ''target_readings'', YSeq [YStr [0x304A, 0x304A], YStr [0x30AA, 0x30AA], YStr (lit ''oo'')]),
         (lit ''literal_sequence_patterns'', YSeq [YStr [0x304A, 0x304A], YStr [0x30AA, 0x30AA], YStr (lit ''oo'')]),
         (lit ''special_phrases'', YSeq [YStr [0x3053, 0x308C, 0x306F, 0x304A, 0x304A]])]),
      (lit ''bot'', YMap
        [(lit ''stamp_text'', YStr (lit ''<:Omilfy:1489695886773587978>'')),
         (lit ''send_template'', YStr (lit ''${stamp}'')),
         (lit ''reaction'', YMap
            [(lit ''emoji_id'', YInt 1489695886773587978), (lit ''emoji_name'', YStr (lit ''Omilfy'')),
             (lit ''animated'', YBool False)]),
         (lit ''max_count_cap'', YInt 48), (lit ''max_send_chars'', YInt 1900),
         (lit ''action_policy'', YStr (lit ''react_or_send''))]),
      (lit ''runtime'', shipped_runtime_yaml),
      (lit ''audit'', YMap
        [(lit ''sqlite_path'', YStr (lit ''state/audit/events.sqlite3'')),
         (lit ''export_max_rows'', YInt 50000), (lit ''query_max_rows'', YInt 10000),
         (lit ''busy_timeout_ms'', YInt 3000)]),
      (lit ''diagnostics'', YMap
        [(lit ''local_self_check_on_startup'', YBool True),
         (lit ''verify_hardening_artifacts'', YBool True),
         (lit ''verify_generated_artifacts'', YBool True),
         (lit ''audit_verify_max_rows'', YInt 512),
         (lit ''security_snapshot_path'', YStr (lit ''state/security/offline-security-report.json'')),
         (lit ''dependency_security_check_mode'', YStr (lit ''offline_snapshot''))]),
      (lit ''integrity'', YMap
        [(lit ''config_signature'', YNull),
         (lit ''pseudo_id_hmac_key_env'', YStr (lit ''OO_PSEUDO_ID_HMAC_KEY''))])]"

text \<open>Decoders that accept the shapes of the shipped text.\<close>

fun sample_nat :: "yaml \<Rightarrow> rstr + nat" where
  "sample_nat (YInt n) = (if 0 \<le> n then Inr (nat n) else Inl (lit ''negative''))"
| "sample_nat _ = Inl (lit ''not an integer'')"

fun sample_string :: "yaml \<Rightarrow> rstr + rstr" where
  "sample_string (YStr v) = Inr v"
| "sample_string _ = Inl (lit ''not a string'')"

fun sample_bool :: "yaml \<Rightarrow> rstr + bool" where
  "sample_bool (YBool v) = Inr v"
| "sample_bool _ = Inl (lit ''not a boolean'')"

fun sample_seq :: "(yaml \<Rightarrow> rstr + 'a) \<Rightarrow> yaml list \<Rightarrow> rstr + 'a list" where
  "sample_seq d [] = Inr []"
| "sample_seq d (v # vs) = rbind (d v) (\<lambda>x. rbind (sample_seq d vs) (\<lambda>xs. Inr (x # xs)))"

fun sample_list :: "(yaml \<Rightarrow> rstr + 'a) \<Rightarrow> yaml \<Rightarrow> rstr + 'a list" where
  "sample_list d (YSeq vs) = sample_seq d vs"
| "sample_list d _ = Inl (lit ''not a sequence'')"

fun sample_opt :: "(yaml \<Rightarrow> rstr + 'a) \<Rightarrow> yaml \<Rightarrow> rstr + 'a option" where
  "sample_opt d v = (if v = YNull then Inr None else rbind (d v) (\<lambda>x. Inr (Some x)))"

fun sample_rat :: "yaml \<Rightarrow> rstr + rat" where
  "sample_rat (YFloat q) = Inr q"
| "sample_rat _ = Inl (lit ''not a number'')"

definition sample_enum :: "(rstr \<times> 'a) list \<Rightarrow> yaml \<Rightarrow> rstr + 'a" where
  "sample_enum names v = rbind (sample_string v)
     (\<lambda>n. case map_of names n of Some x \<Rightarrow> Inr x | None \<Rightarrow> Inl (lit ''unknown variant''))"

definition sample_field :: "(yaml \<Rightarrow> rstr + 'a) \<Rightarrow> yaml \<Rightarrow> string \<Rightarrow> ('a \<Rightarrow> rstr + 'b) \<Rightarrow> rstr + 'b" where
  "sample_field d v key f =
     (case yaml_get v (lit key) of None \<Rightarrow> Inl (lit ''missing field'') | Some w \<Rightarrow> rbind (d w) f)"

definition sample_path :: "yaml \<Rightarrow> rstr + path" where
  "sample_path v = rbind (sample_string v) (\<lambda>t. Inr (path_of t))"

definition sample_backend :: "yaml \<Rightarrow> rstr + detector_backend_kind" where
  "sample_backend = sample_enum
     [(lit ''morphological_reading'', MorphologicalReading), (lit ''fallback'', Fallback)]"

definition sample_detector :: "yaml \<Rightarrow> rstr + detector_config" where
  "sample_detector v =
     sample_field sample_backend v ''backend'' (\<lambda>a.
     sample_field (sample_list sample_string) v ''target_readings'' (\<lambda>b.
     sample_field (sample_list sample_string) v ''literal_sequence_patterns'' (\<lambda>c.
     sample_field (sample_list sample_string) v ''special_phrases'' (\<lambda>d.
     Inr \<lparr>dc_backend = a, dc_target_readings = b, dc_literal_sequence_patterns = c,
       dc_special_phrases = d\<rparr>))))"

definition sample_reaction :: "yaml \<Rightarrow> rstr + reaction_config" where
  "sample_reaction v =
     sample_field sample_nat v ''emoji_id'' (\<lambda>a. sample_field sample_string v ''emoji_name'' (\<lambda>b.
     sample_field sample_bool v ''animated'' (\<lambda>c.
     Inr \<lparr>emoji_id = a, emoji_name = b, animated = c\<rparr>)))"

definition sample_audit :: "yaml \<Rightarrow> rstr + audit_config" where
  "sample_audit v =
     sample_field sample_path v ''sqlite_path'' (\<lambda>a. sample_field sample_nat v ''export_max_rows'' (\<lambda>b.
     sample_field sample_nat v ''query_max_rows'' (\<lambda>c. sample_field sample_nat v ''busy_timeout_ms'' (\<lambda>d.
     Inr \<lparr>ac_sqlite_path = a, ac_export_max_rows = b, ac_query_max_rows = c,
       ac_busy_timeout_ms = d\<rparr>))))"

definition sample_check_mode :: "yaml \<Rightarrow> rstr + dependency_security_check_mode" where
  "sample_check_mode = sample_enum [(lit ''disabled'', Disabled), (lit ''offline_snapshot'', OfflineSnapshot)]"

definition sample_diagnostics :: "yaml \<Rightarrow> rstr + diagnostics_config" where
  "sample_diagnostics v =
     sample_field sample_bool v ''local_self_check_on_startup'' (\<lambda>a.
     sample_field sample_bool v ''verify_hardening_artifacts'' (\<lambda>b.
     sample_field sample_bool v ''verify_generated_artifacts'' (\<lambda>c.
     sample_field sample_nat v ''audit_verify_max_rows'' (\<lambda>d.
     sample_field sample_path v ''security_snapshot_path'' (\<lambda>e.
     sample_field sample_check_mode v ''dependency_security_check_mode'' (\<lambda>f.
     Inr \<lparr>local_self_check_on_startup = a, verify_hardening_artifacts = b,
       verify_generated_artifacts = c, audit_verify_max_rows = d, security_snapshot_path = e,
       dependency_security_check_mode = f\<rparr>))))))"

definition sample_signature :: "yaml \<Rightarrow> rstr + config_signature_config" where
  "sample_signature v =
     sample_field sample_path v ''detached_hmac_sha256_path'' (\<lambda>a.
     sample_field sample_string v ''hmac_key_env'' (\<lambda>b.
     Inr \<lparr>detached_hmac_sha256_path = a, hmac_key_env = b\<rparr>))"

definition sample_integrity :: "yaml \<Rightarrow> rstr + integrity_config" where
  "sample_integrity v =
     sample_field (sample_opt sample_signature) v ''config_signature'' (\<lambda>a.
     sample_field (sample_opt sample_string) v ''pseudo_id_hmac_key_env'' (\<lambda>b.
     Inr \<lparr>config_signature = a, pseudo_id_hmac_key_env = b\<rparr>))"

definition sample_decoders :: value_decoders where
  "sample_decoders =
     \<lparr>de_backend = sample_backend, de_string = sample_string, de_usize = sample_nat,
      de_u64 = sample_nat, de_u32 = sample_nat, de_u8 = sample_nat, de_f64 = sample_rat,
      de_pathbuf = sample_path, de_bool = sample_bool, de_signature = sample_opt sample_signature,
      de_opt_string = sample_opt sample_string, de_check_mode = sample_check_mode,
      de_strings = sample_list sample_string, de_detector = sample_detector,
      de_action_policy = sample_enum [(lit ''react_or_send'', ReactOrSend),
        (lit ''react_only'', PolicyReactOnly), (lit ''no_outbound'', NoOutbound)],
      de_reaction = sample_reaction, de_audit = sample_audit, de_integrity = sample_integrity,
      de_diagnostics = sample_diagnostics, de_ids = sample_list sample_nat,
      de_mode = sample_opt (sample_enum [(lit ''normal'', Normal), (lit ''full_disable'', FullDisable)])\<rparr>"

definition shipped_lib :: config_lib where
  "shipped_lib =
     \<lparr>cl_embedded_value = Inr shipped_yaml, cl_embedded_config = Inr shipped_config,
      cl_decoders = sample_decoders\<rparr>"

lemmas sample_defs = sample_decoders_def sample_backend_def sample_enum_def sample_detector_def
  sample_field_def sample_reaction_def sample_path_def sample_audit_def sample_check_mode_def
  sample_diagnostics_def sample_integrity_def sample_signature_def

lemma shipped_valid: "validate_config shipped_config = Inr ()"
  unfolding validate_iff
  by (simp add: shipped_config_def detector_ok_def bot_ok_def rows_ok_def bytes_within_def
      stamp_template) (simp add: str_len_def utf8_char_def lit_def)

lemma shipped_detector_read:
  "detector_read sample_decoders (the (yaml_get shipped_yaml (lit ''detector''))) (cfg_detector shipped_config)"
  by (simp add: detector_read_def reads_def shipped_yaml_def shipped_config_def sample_defs lit_eq)

lemma shipped_bot_read:
  "bot_read sample_decoders (the (yaml_get shipped_yaml (lit ''bot''))) (cfg_bot shipped_config)"
  by (simp add: bot_read_def reads_def shipped_yaml_def shipped_config_def sample_defs lit_eq)

lemma shipped_runtime_read: "runtime_read sample_decoders shipped_runtime_yaml shipped_runtime"
  by (simp add: runtime_read_def reads_def shipped_runtime_yaml_def shipped_runtime_def sample_defs lit_eq)

theorem canonical_defaults_agree_witness:
  "canonical_bot_config shipped_lib =
     Some (as_bot_config (cfg_bot shipped_config) (cfg_detector shipped_config)) \<and>
   canonical_startup_config shipped_lib = Some shipped_config"
proof -
  have "startup_read (cl_decoders shipped_lib) shipped_yaml shipped_config"
    unfolding startup_read_def
    using shipped_detector_read shipped_bot_read shipped_runtime_read
    by (simp add: shipped_lib_def shipped_yaml_def shipped_config_def reads_def sample_defs lit_eq)
  from canonical_defaults_agree[OF _ _ shipped_valid this] show ?thesis
    by (simp add: shipped_lib_def)
qed

end
