(* ===== verification/Config_Store.thy ===== *)
theory Config_Store
  imports Config
begin

text \<open>
  Reading and writing the configuration file with its detached signature, \<^verbatim>\<open>src/config.rs\<close>.
  The crates are parameters: YAML parsing and rendering, JSON encoding, HMAC-SHA256 (from a key to
  the digest of a text), SHA-256 and hexadecimal digits.  Environment variables are a map; the file
  system is the one of \<open>Rust_Fs\<close>, where every operation may be refused.
\<close>

section \<open>Parameters\<close>

record store_lib =
  sl_parse :: "nat list \<Rightarrow> rstr + startup_config"
  sl_render :: "startup_config \<Rightarrow> rstr + rstr"
  sl_json :: "startup_config \<Rightarrow> rstr + nat list"
  sl_hmac :: "nat list \<Rightarrow> rstr + (nat list \<Rightarrow> nat list)"
  sl_sha256 :: "nat list \<Rightarrow> nat list"
  sl_hex_encode :: "nat list \<Rightarrow> rstr"
  sl_hex_decode :: "rstr \<Rightarrow> rstr + nat list"

record store_env =
  se_io :: io_env
  se_var :: "rstr \<Rightarrow> rstr option"

record loaded_startup_config =
  ld_app :: startup_config
  ld_config_path :: path
  ld_config_fingerprint :: rstr
  ld_pseudo_id_hmac_key :: "nat list option"

section \<open>Keys, signatures and fingerprints\<close>

definition DEFAULT_CONFIG_PATH :: rstr where
  "DEFAULT_CONFIG_PATH = lit ''config/oo-bot.yaml''"

definition startup_config_path :: "store_env \<Rightarrow> path" where
  "startup_config_path env =
     (case se_var env (lit ''OO_CONFIG_PATH'') of
        Some p \<Rightarrow> path_of p | None \<Rightarrow> path_of DEFAULT_CONFIG_PATH)"

definition resolve_config_relative_path :: "path \<Rightarrow> path \<Rightarrow> path" where
  "resolve_config_relative_path config_path target =
     (if rooted target then target
      else (case path_parent config_path of
              Some parent \<Rightarrow> path_join parent target | None \<Rightarrow> target))"

definition build_hmac_from_env ::
  "store_env \<Rightarrow> store_lib \<Rightarrow> rstr \<Rightarrow> startup_config_error + (nat list \<Rightarrow> nat list)" where
  "build_hmac_from_env env lib key_env =
     (case se_var env key_env of
        None \<Rightarrow> Inl (Signature (lit ''missing signature HMAC key env var''))
      | Some key \<Rightarrow>
          (case sl_hmac lib (utf8_encode key) of Inl err \<Rightarrow> Inl (Signature err) | Inr mac \<Rightarrow> Inr mac))"

definition compute_signature_digest ::
  "store_env \<Rightarrow> store_lib \<Rightarrow> nat list \<Rightarrow> rstr \<Rightarrow> startup_config_error + nat list" where
  "compute_signature_digest env lib bytes key_env =
     rbind (build_hmac_from_env env lib key_env) (\<lambda>mac. Inr (mac bytes))"

definition config_signature_hex ::
  "store_env \<Rightarrow> store_lib \<Rightarrow> path \<Rightarrow> startup_config \<Rightarrow> nat list \<Rightarrow>
   startup_config_error + (path \<times> rstr) option" where
  "config_signature_hex env lib config_path config bytes =
     (case config_signature (cfg_integrity config) of
        None \<Rightarrow> Inr None
      | Some signature \<Rightarrow>
          rbind (compute_signature_digest env lib bytes (hmac_key_env signature)) (\<lambda>digest.
            Inr (Some (resolve_config_relative_path config_path
                (detached_hmac_sha256_path signature), sl_hex_encode lib digest))))"

definition verify_detached_hmac ::
  "store_env \<Rightarrow> store_lib \<Rightarrow> path \<Rightarrow> nat list \<Rightarrow> config_signature_config \<Rightarrow> fs \<Rightarrow>
   startup_config_error + unit" where
  "verify_detached_hmac env lib config_path bytes signature s =
     (let signature_path =
            resolve_config_relative_path config_path (detached_hmac_sha256_path signature)
      in case fs_read_to_string (se_io env) signature_path s of
           Inl err \<Rightarrow> Inl (Signature err)
         | Inr signature_hex \<Rightarrow>
             (case sl_hex_decode lib (str_trim signature_hex) of
                Inl err \<Rightarrow> Inl (Signature err)
              | Inr supplied \<Rightarrow>
                  rbind (build_hmac_from_env env lib (hmac_key_env signature)) (\<lambda>mac.
                    if mac bytes = supplied then Inr ()
                    else Inl (Signature (lit ''detached config signature mismatch'')))))"

definition resolve_optional_hmac_key :: "store_env \<Rightarrow> rstr option \<Rightarrow> nat list option" where
  "resolve_optional_hmac_key env env_name =
     (case env_name of
        None \<Rightarrow> None
      | Some name \<Rightarrow>
          (case se_var env name of
             Some v \<Rightarrow> if str_trim v \<noteq> [] then Some (utf8_encode v) else None
           | None \<Rightarrow> None))"

definition redact_keys :: "startup_config \<Rightarrow> startup_config" where
  "redact_keys cfg =
     cfg\<lparr>cfg_integrity :=
       \<lparr>config_signature = map_option (\<lambda>g. g\<lparr>hmac_key_env := lit ''<redacted>''\<rparr>)
          (config_signature (cfg_integrity cfg)),
        pseudo_id_hmac_key_env = map_option (\<lambda>_. lit ''<redacted>'')
          (pseudo_id_hmac_key_env (cfg_integrity cfg))\<rparr>\<rparr>"

definition fingerprint_config ::
  "store_lib \<Rightarrow> startup_config \<Rightarrow> startup_config_error + rstr" where
  "fingerprint_config lib cfg =
     (case sl_json lib (redact_keys cfg) of
        Inl err \<Rightarrow> Inl (Validate err)
      | Inr encoded \<Rightarrow> Inr (sl_hex_encode lib (sl_sha256 lib encoded)))"

section \<open>Loading\<close>

definition load_startup_config_from_path ::
  "store_env \<Rightarrow> store_lib \<Rightarrow> path \<Rightarrow> fs \<Rightarrow> startup_config_error + loaded_startup_config" where
  "load_startup_config_from_path env lib config_path s =
     (case fs_read (se_io env) config_path s of
        Inl err \<Rightarrow> Inl (ReadConfig err)
      | Inr bytes \<Rightarrow>
          if length bytes > MAX_CONFIG_BYTES then Inl TooLarge
          else (case sl_parse lib bytes of
             Inl err \<Rightarrow> Inl (ParseConfig err)
           | Inr cfg \<Rightarrow>
               rbind (validate_config cfg) (\<lambda>_.
               rbind (case config_signature (cfg_integrity cfg) of
                        Some signature \<Rightarrow> verify_detached_hmac env lib config_path bytes signature s
                      | None \<Rightarrow> Inr ()) (\<lambda>_.
               rbind (fingerprint_config lib cfg) (\<lambda>fingerprint.
               Inr \<lparr>ld_app = cfg, ld_config_path = config_path,
                 ld_config_fingerprint = fingerprint,
                 ld_pseudo_id_hmac_key =
                   resolve_optional_hmac_key env (pseudo_id_hmac_key_env (cfg_integrity cfg))\<rparr>)))))"

definition load_startup_config ::
  "store_env \<Rightarrow> store_lib \<Rightarrow> fs \<Rightarrow> startup_config_error + loaded_startup_config" where
  "load_startup_config env lib s =
     load_startup_config_from_path env lib (startup_config_path env) s"

section \<open>Writing\<close>

definition ends_with :: "rstr \<Rightarrow> rchar \<Rightarrow> bool" where
  "ends_with t c \<longleftrightarrow> t \<noteq> [] \<and> last t = c"

definition render_startup_config_yaml ::
  "store_lib \<Rightarrow> startup_config \<Rightarrow> startup_config_error + rstr" where
  "render_startup_config_yaml lib config =
     rbind (validate_config config) (\<lambda>_.
       (case sl_render lib config of
          Inl err \<Rightarrow> Inl (Validate err)
        | Inr rendered \<Rightarrow> Inr (if ends_with rendered 10 then rendered else rendered @ [10])))"

definition current_dir :: path where
  "current_dir = path_of (lit ''.'')"

definition parent_or_current :: "path \<Rightarrow> path" where
  "parent_or_current p = (case path_parent p of Some d \<Rightarrow> d | None \<Rightarrow> current_dir)"

definition make_parent :: "io_env \<Rightarrow> path \<Rightarrow> fs \<Rightarrow> fs \<times> (startup_config_error + unit)" where
  "make_parent io p =
     (case path_parent p of
        Some parent \<Rightarrow> map_err CreateConfigDir (fs_create_dir_all io parent)
      | None \<Rightarrow> io_return ())"

text \<open>The signature is written beside the new configuration in the temporary directory; what is
  left to do is one renaming.\<close>

definition stage_signature ::
  "io_env \<Rightarrow> path \<Rightarrow> path \<Rightarrow> (path \<times> rstr) option \<Rightarrow> fs \<Rightarrow>
   fs \<times> (startup_config_error + (path \<times> path) option)" where
  "stage_signature io config_parent temp sig =
     (case sig of
        None \<Rightarrow> io_return None
      | Some (signature_path, hex) \<Rightarrow>
          io_bind (make_parent io signature_path) (\<lambda>_.
            if parent_or_current signature_path \<noteq> config_parent
            then io_lift (Inl (WriteConfig
              (lit ''signature path must share config parent directory for atomic install'')))
            else (case path_file_name signature_path of
              None \<Rightarrow> io_lift (Inl (WriteConfig (lit ''signature path must include file name'')))
            | Some name \<Rightarrow>
                io_bind (map_err WriteConfig
                    (fs_write_new io (path_child temp name) (utf8_encode (hex @ [10])))) (\<lambda>_.
                  io_return (Some (path_child temp name, signature_path))))))"

definition rename_signature ::
  "io_env \<Rightarrow> (path \<times> path) option \<Rightarrow> fs \<Rightarrow> fs \<times> (startup_config_error + unit)" where
  "rename_signature io signature_rename =
     (case signature_rename of
        None \<Rightarrow> io_return ()
      | Some (staged, signature_path) \<Rightarrow> map_err WriteConfig (fs_rename io staged signature_path))"

definition commit_config ::
  "io_env \<Rightarrow> path \<Rightarrow> path \<Rightarrow> path \<Rightarrow> path \<Rightarrow> (path \<times> path) option \<Rightarrow> fs \<Rightarrow>
   fs \<times> (startup_config_error + unit)" where
  "commit_config io config_path config_parent temp staged_config signature_rename =
     io_bind (map_err WriteConfig (fs_sync_dir io temp)) (\<lambda>_.
     io_bind (map_err WriteConfig (fs_rename io staged_config config_path)) (\<lambda>_.
     io_bind (rename_signature io signature_rename) (\<lambda>_.
     map_err WriteConfig (fs_sync_dir io config_parent))))"

definition install_config ::
  "io_env \<Rightarrow> path \<Rightarrow> path \<Rightarrow> rstr \<Rightarrow> rstr \<Rightarrow> (path \<times> rstr) option \<Rightarrow> path \<Rightarrow> fs \<Rightarrow>
   fs \<times> (startup_config_error + unit)" where
  "install_config io config_path config_parent name rendered sig temp =
     io_bind (map_err WriteConfig
         (fs_write_new io (path_child temp name) (utf8_encode rendered))) (\<lambda>_.
     io_bind (stage_signature io config_parent temp sig)
       (commit_config io config_path config_parent temp (path_child temp name)))"

definition write_startup_config_to_path ::
  "store_env \<Rightarrow> store_lib \<Rightarrow> path \<Rightarrow> startup_config \<Rightarrow> fs \<Rightarrow>
   fs \<times> (startup_config_error + unit)" where
  "write_startup_config_to_path env lib config_path config =
     io_bind (io_lift (render_startup_config_yaml lib config)) (\<lambda>rendered.
     io_bind (io_lift (config_signature_hex env lib config_path config (utf8_encode rendered))) (\<lambda>sig.
     io_bind (make_parent (se_io env) config_path) (\<lambda>_.
     (case path_file_name config_path of
        None \<Rightarrow> io_lift (Inl (WriteConfig (lit ''config path must include file name'')))
      | Some name \<Rightarrow>
          with_temp_dir (se_io env) (parent_or_current config_path) CreateConfigDir
            (install_config (se_io env) config_path (parent_or_current config_path) name rendered
              sig)))))"

definition ensure_startup_config_exists ::
  "store_env \<Rightarrow> store_lib \<Rightarrow> startup_config \<Rightarrow> path \<Rightarrow> fs \<Rightarrow> fs \<times> (startup_config_error + bool)" where
  "ensure_startup_config_exists env lib canonical config_path s =
     (if fs_exists s config_path then (s, Inr False)
      else io_bind (write_startup_config_to_path env lib config_path canonical)
        (\<lambda>_. io_return True) s)"

section \<open>What an installation can leave behind\<close>

lemma path_child_not_empty [simp]: "path_child d w \<noteq> empty_path" "empty_path \<noteq> path_child d w"
  by (auto simp: path_child_def empty_path_def dest: arg_cong[where f = parts])

lemma make_parent_same: "same_files s (fst (make_parent io p s))"
  by (cases "path_parent p") (simp_all add: make_parent_def create_dir_all_same)

lemma stage_cases:
  obtains (unsigned) "sig = None" "stage_signature io d t sig s = (s, Inr None)"
  | (refused) s' e where "stage_signature io d t sig s = (s', Inl e)" "same_files s s'"
  | (staged) s' sp hex n where "sig = Some (sp, hex)" "same_files s s'"
      "s' (path_child t n) = None" "path_file_name sp = Some n"
      "stage_signature io d t sig s =
        (s'(path_child t n \<mapsto> File (utf8_encode (hex @ [10]))), Inr (Some (path_child t n, sp)))"
proof (cases sig)
  case None
  then show ?thesis by (intro unsigned) (simp_all add: stage_signature_def)
next
  case (Some a)
  obtain sp hex where a: "a = (sp, hex)" by force
  obtain s1 r where mp: "make_parent io sp s = (s1, r)" by force
  have same: "same_files s s1" using make_parent_same[of s io sp] by (simp add: mp)
  show ?thesis
  proof (cases r)
    case (Inl e)
    with mp show ?thesis
      by (intro refused[OF _ same, of e]) (simp add: stage_signature_def Some a io_bind_def)
  next
    case (Inr u)
    note bind = io_bind_pair(2)[where m = "make_parent io sp", OF mp[unfolded Inr]]
    show ?thesis
    proof (cases "parent_or_current sp = d \<and> path_file_name sp \<noteq> None")
      case False
      then show ?thesis
        by (cases "parent_or_current sp = d")
          (auto simp: stage_signature_def Some a bind split: option.split intro: refused[OF _ same])
    next
      case True
      then obtain n where n: "path_file_name sp = Some n" and d: "parent_or_current sp = d" by auto
      have eq: "stage_signature io d t sig s =
          io_bind (map_err WriteConfig (fs_write_new io (path_child t n) (utf8_encode (hex @ [10]))))
            (\<lambda>_. io_return (Some (path_child t n, sp))) s1"
        by (simp add: stage_signature_def Some a bind n d)
      show ?thesis
      proof (cases rule: write_new_cases[where env = io and p = "path_child t n"
            and b = "utf8_encode (hex @ [10])" and s = s1])
        case (refused e)
        then show ?thesis
          by (intro that(2)[OF _ same, of "WriteConfig e"]) (simp add: eq io_bind_def)
      next
        case written
        then show ?thesis
          by (intro that(3)[OF Some[unfolded a] same _ n])
            (simp_all add: eq io_bind_def fs_node_def)
      qed
    qed
  qed
qed

text \<open>An installation either leaves every file outside the temporary directory as it was, or has
  put the whole new text in place, and then the signature is the old or the new one.\<close>

definition kept_outside :: "path \<Rightarrow> path set \<Rightarrow> fs \<Rightarrow> fs \<Rightarrow> bool" where
  "kept_outside t X s s' \<longleftrightarrow> (\<forall>p. \<not> beneath t p \<and> p \<notin> X \<longrightarrow> fs_file s' p = fs_file s p)"

lemma kept_same: "same_files s s' \<Longrightarrow> kept_outside t X s s'"
  by (simp add: kept_outside_def same_files_file)

definition signature_bytes :: "rstr \<Rightarrow> nat list" where
  "signature_bytes hex = utf8_encode (hex @ [10])"

definition moved_to :: "(path \<times> path) option \<Rightarrow> path set" where
  "moved_to r = snd ` set_option r"

lemma rename_signature_cases:
  assumes "\<And>a q. r = Some (a, q) \<Longrightarrow> beneath t a \<and> fs_node s a = Some (File b)"
  obtains (refused) e where "rename_signature io r s = (s, Inl e)"
  | (renamed) s' where "rename_signature io r s = (s', Inr ())" "kept_outside t (moved_to r) s s'"
      "\<And>a q. r = Some (a, q) \<Longrightarrow> fs_file s' q = Some b"
proof (cases r)
  case None
  then show thesis
    by (intro renamed[of s]) (simp_all add: rename_signature_def kept_outside_def)
next
  case (Some aq)
  obtain a q where aq: "aq = (a, q)" by force
  note a = assms[OF Some[unfolded aq]]
  show thesis
  proof (cases rule: rename_cases[where env = io and p = a and q = q and s = s])
    case refused: (refused e)
    then show thesis by (intro that(1)) (simp add: rename_signature_def Some aq)
  next
    case renamed: (renamed n)
    with a have n: "n = File b" by simp
    show thesis
      by (rule that(2)[of "(s(a := None))(q \<mapsto> n)"])
        (use renamed a in \<open>auto simp: rename_signature_def Some aq kept_outside_def moved_to_def n\<close>)
  qed
qed

lemma kept_trans: "kept_outside t X s u \<Longrightarrow> kept_outside t Y u v \<Longrightarrow> kept_outside t (X \<union> Y) s v"
  by (simp add: kept_outside_def)

lemma commit_cases:
  assumes new: "beneath t new" "fs_node s new = Some (File b)"
    and cp: "\<not> beneath t cp"
    and r: "\<And>a q. r = Some (a, q) \<Longrightarrow>
      beneath t a \<and> a \<noteq> new \<and> q \<noteq> cp \<and> \<not> beneath t q \<and> fs_node s a = Some (File sb)"
  obtains (kept) e where "commit_config io cp d t new r s = (s, Inl e)"
  | (config) s' e where "commit_config io cp d t new r s = (s', Inl e)" "kept_outside t {cp} s s'"
      "fs_file s' cp = Some b"
  | (both) s' res where "commit_config io cp d t new r s = (s', res)"
      "kept_outside t (insert cp (moved_to r)) s s'" "fs_file s' cp = Some b"
      "\<And>a q. r = Some (a, q) \<Longrightarrow> fs_file s' q = Some sb" "res = Inr () \<Longrightarrow> fs_exists s' d"
proof (cases rule: sync_dir_cases[where env = io and p = t and s = s])
  case (refused e)
  then show thesis by (intro kept) (simp add: commit_config_def io_bind_def)
next
  case synced
  show thesis
  proof (cases rule: rename_cases[where env = io and p = new and q = cp and s = s])
    case (refused e)
    with synced show thesis by (intro kept) (simp add: commit_config_def io_bind_def)
  next
    case (renamed n)
    define s1 where "s1 = (s(new := None))(cp \<mapsto> n)"
    have n: "n = File b" using renamed(2) new(2) by simp
    have k1: "kept_outside t {cp} s s1" "fs_file s1 cp = Some b"
      using new(1) by (auto simp: kept_outside_def s1_def n)
    have eq: "commit_config io cp d t new r s =
        io_bind (rename_signature io r) (\<lambda>_. map_err WriteConfig (fs_sync_dir io d)) s1"
      using synced renamed by (simp add: commit_config_def io_bind_def s1_def)
    have r1: "beneath t a \<and> fs_node s1 a = Some (File sb)" if "r = Some (a, q)" for a q
      using r[OF that] cp by (auto simp: s1_def fs_node_def)
    show thesis
    proof (rule rename_signature_cases[where r = r and t = t and s = s1 and io = io and b = sb])
      show "\<And>a q. r = Some (a, q) \<Longrightarrow> beneath t a \<and> fs_node s1 a = Some (File sb)" by (rule r1)
    next
      fix e assume "rename_signature io r s1 = (s1, Inl e)"
      with k1 show thesis by (intro config[of s1 e]) (simp_all add: eq io_bind_def)
    next
      fix s2 assume renamed2: "rename_signature io r s1 = (s2, Inr ())"
        and kept2: "kept_outside t (moved_to r) s1 s2"
        and moved: "\<And>a q. r = Some (a, q) \<Longrightarrow> fs_file s2 q = Some sb"
      have cp2: "fs_file s2 cp = Some b"
        using kept2 k1(2) cp r by (cases r) (auto simp: kept_outside_def moved_to_def)
      have k2: "kept_outside t (insert cp (moved_to r)) s s2" using kept_trans[OF k1(1) kept2] by simp
      show thesis
        by (cases rule: sync_dir_cases[where env = io and p = d and s = s2])
          (use renamed2 cp2 k2 moved in \<open>auto simp: eq io_bind_def intro: both\<close>)
    qed
  qed
qed

lemma commit_from_cases:
  assumes cp: "\<not> beneath t cp"
    and k3: "kept_outside t {} s s3" and new3: "s3 (path_child t name) = Some (File b)"
    and r: "\<And>a q. r = Some (a, q) \<Longrightarrow> beneath t a \<and> a \<noteq> path_child t name \<and> q \<noteq> cp \<and>
      \<not> beneath t q \<and> fs_node s3 a = Some (File sb)"
  obtains (kept) s' e where "commit_config io cp d t (path_child t name) r s3 = (s', Inl e)"
      "kept_outside t {} s s'"
  | (config) s' e where "commit_config io cp d t (path_child t name) r s3 = (s', Inl e)"
      "kept_outside t {cp} s s'" "fs_file s' cp = Some b"
  | (both) s' res where "commit_config io cp d t (path_child t name) r s3 = (s', res)"
      "kept_outside t (insert cp (moved_to r)) s s'" "fs_file s' cp = Some b"
      "\<And>a q. r = Some (a, q) \<Longrightarrow> fs_file s' q = Some sb" "res = Inr () \<Longrightarrow> fs_exists s' d"
proof (rule commit_cases[where io = io and t = t and new = "path_child t name" and s = s3 and b = b
      and cp = cp and r = r and d = d and sb = sb])
  show "fs_node s3 (path_child t name) = Some (File b)" using new3 by (simp add: fs_node_def)
  fix e assume "commit_config io cp d t (path_child t name) r s3 = (s3, Inl e)"
  with k3 show thesis by (rule_tac kept)
next
  fix s' e assume "commit_config io cp d t (path_child t name) r s3 = (s', Inl e)"
    and "kept_outside t {cp} s3 s'" and "fs_file s' cp = Some b"
  then show thesis using kept_trans[OF k3] by (intro config[of s' e]) simp_all
next
  fix s' res assume "commit_config io cp d t (path_child t name) r s3 = (s', res)"
    and k: "kept_outside t (insert cp (moved_to r)) s3 s'" and "fs_file s' cp = Some b"
    and "\<And>a q. r = Some (a, q) \<Longrightarrow> fs_file s' q = Some sb" and "res = Inr () \<Longrightarrow> fs_exists s' d"
  then show thesis using kept_trans[OF k3 k] by (intro both[of s' res]) simp_all
qed (use cp r in simp_all)

text \<open>The staged files, before anything outside the temporary directory is touched.\<close>

lemma staged_cases:
  assumes cp: "path_file_name cp = Some name"
    and sp: "\<And>q hex. sig = Some (q, hex) \<Longrightarrow> \<not> beneath t q"
  obtains (refused) s' e where "install_config io cp d name rendered sig t s = (s', Inl e)"
      "kept_outside t {} s s'"
  | (staged) r sb s3 where "install_config io cp d name rendered sig t s =
        commit_config io cp d t (path_child t name) r s3"
      "kept_outside t {} s s3" "s3 (path_child t name) = Some (File (utf8_encode rendered))"
      "\<And>a q. r = Some (a, q) \<Longrightarrow> beneath t a \<and> a \<noteq> path_child t name \<and> q \<noteq> cp \<and>
        \<not> beneath t q \<and> fs_node s3 a = Some (File sb)"
      "moved_to r = fst ` set_option sig"
      "\<And>q hex. sig = Some (q, hex) \<Longrightarrow>
        sb = signature_bytes hex \<and> path_file_name q \<noteq> None \<and> (\<exists>a. r = Some (a, q))"
proof (cases rule: write_new_cases[where env = io and p = "path_child t name"
      and b = "utf8_encode rendered" and s = s])
  case (refused e)
  then show thesis
    by (intro that(1)[of s "WriteConfig e"])
      (simp_all add: install_config_def io_bind_def kept_outside_def)
next
  case written
  let ?new = "path_child t name"
  define s1 where "s1 = s(?new \<mapsto> File (utf8_encode rendered))"
  have k1: "kept_outside t {} s s1" by (auto simp: kept_outside_def s1_def)
  have bind1: "install_config io cp d name rendered sig t s =
      io_bind (stage_signature io d t sig) (commit_config io cp d t ?new) s1"
    unfolding install_config_def by (rule io_bind_pair(2)) (simp add: written s1_def)
  note bind2 = io_bind_pair(2)[where m = "stage_signature io d t sig"]
  show thesis
  proof (cases rule: stage_cases[where io = io and d = d and t = t and sig = sig and s = s1])
    case (refused s' e)
    have "kept_outside t {} s s'"
      using k1 refused(2) by (simp add: kept_outside_def same_files_file)
    with refused show ?thesis by (intro that(1)[of s' e]) (simp_all add: bind1 io_bind_def)
  next
    case unsigned
    have eq: "install_config io cp d name rendered sig t s = commit_config io cp d t ?new None s1"
      unfolding bind1 by (rule bind2[OF unsigned(2)])
    show ?thesis by (rule that(2)[OF eq k1]) (simp_all add: s1_def unsigned(1) moved_to_def)
  next
    case (staged s2 q hex m)
    define s3 where "s3 = s2(path_child t m \<mapsto> File (signature_bytes hex))"
    have "s2 ?new = Some (File (utf8_encode rendered))"
      using same_files_Some[OF staged(2), of ?new] by (simp add: s1_def)
    then have m: "m \<noteq> name" and new3: "s3 ?new = Some (File (utf8_encode rendered))"
      using staged(3) by (auto simp: s3_def)
    have k3: "kept_outside t {} s s3"
      using k1 same_files_file[OF staged(2)] by (auto simp: kept_outside_def s3_def)
    have stage: "stage_signature io d t sig s1 = (s3, Inr (Some (path_child t m, q)))"
      using staged(5) by (simp add: s3_def signature_bytes_def)
    show ?thesis
      by (rule that(2)[OF bind1[unfolded bind2[OF stage]] k3 new3, where sb = "signature_bytes hex"])
        (use m staged(1,4) cp sp in \<open>auto simp: s3_def fs_node_def moved_to_def\<close>)
  qed
qed

lemma install_cases:
  assumes cp: "path_file_name cp = Some name" "\<not> beneath t cp"
    and sp: "\<And>q hex. sig = Some (q, hex) \<Longrightarrow> \<not> beneath t q"
  obtains (kept) s' e where "install_config io cp d name rendered sig t s = (s', Inl e)"
      "kept_outside t {} s s'"
  | (config) s' e where "install_config io cp d name rendered sig t s = (s', Inl e)"
      "kept_outside t {cp} s s'" "fs_file s' cp = Some (utf8_encode rendered)"
  | (both) s' res where "install_config io cp d name rendered sig t s = (s', res)"
      "kept_outside t (insert cp (fst ` set_option sig)) s s'"
      "fs_file s' cp = Some (utf8_encode rendered)"
      "\<And>q hex. sig = Some (q, hex) \<Longrightarrow>
        path_file_name q \<noteq> None \<and> fs_file s' q = Some (signature_bytes hex)"
      "res = Inr () \<Longrightarrow> fs_exists s' d"
proof (rule staged_cases[OF cp(1) sp, where io = io and d = d and rendered = rendered and s = s])
  fix s' e assume "install_config io cp d name rendered sig t s = (s', Inl e)"
    and "kept_outside t {} s s'"
  then show thesis by (rule kept)
next
  fix r sb s3
  assume eq: "install_config io cp d name rendered sig t s =
      commit_config io cp d t (path_child t name) r s3"
    and start: "kept_outside t {} s s3" "s3 (path_child t name) = Some (File (utf8_encode rendered))"
      "\<And>a q. r = Some (a, q) \<Longrightarrow> beneath t a \<and> a \<noteq> path_child t name \<and> q \<noteq> cp \<and>
        \<not> beneath t q \<and> fs_node s3 a = Some (File sb)"
    and moved: "moved_to r = fst ` set_option sig"
    and bytes: "\<And>q hex. sig = Some (q, hex) \<Longrightarrow>
        sb = signature_bytes hex \<and> path_file_name q \<noteq> None \<and> (\<exists>a. r = Some (a, q))"
  note outcome = kept[unfolded eq] config[unfolded eq] both[unfolded eq, folded moved]
  show thesis
    by (rule commit_from_cases[OF cp(2) start, where io = io and d = d])
      (use outcome bytes in blast)+
qed

section \<open>Writing is all or nothing per file\<close>

definition signature_target :: "path \<Rightarrow> startup_config \<Rightarrow> path option" where
  "signature_target config_path config =
     map_option (\<lambda>g. resolve_config_relative_path config_path (detached_hmac_sha256_path g))
       (config_signature (cfg_integrity config))"

text \<open>What the signature file of a text holds.\<close>

definition signed_by ::
  "store_env \<Rightarrow> store_lib \<Rightarrow> startup_config \<Rightarrow> nat list \<Rightarrow> nat list option \<Rightarrow> bool" where
  "signed_by env lib config bytes content \<longleftrightarrow>
     (\<exists>g digest. config_signature (cfg_integrity config) = Some g \<and>
        compute_signature_digest env lib bytes (hmac_key_env g) = Inr digest \<and>
        content = Some (signature_bytes (sl_hex_encode lib digest)))"

lemma signature_hex_cases:
  assumes "config_signature_hex env lib cp config bytes = Inr sig"
  shows "map_option fst sig = signature_target cp config"
    and "sig = Some (q, hex) \<Longrightarrow> content = Some (signature_bytes hex) \<Longrightarrow>
      signed_by env lib config bytes content"
  using assms
  by (auto simp: config_signature_hex_def signature_target_def signed_by_def rbind_Inr
      split: option.splits)

abbreviation write_temp :: "store_env \<Rightarrow> path \<Rightarrow> path" where
  "write_temp env config_path \<equiv> io_temp_dir (se_io env) (parent_or_current config_path)"

text \<open>What a write leaves once its temporary directory is removed, as far as that works.\<close>

definition clean_dir :: "io_env \<Rightarrow> path \<Rightarrow> fs \<Rightarrow> fs" where
  "clean_dir io t s = (if io_fault io (IoRemoveTree t) = None then remove_tree t s else s)"

lemma clean_dir_file: "\<not> beneath t p \<Longrightarrow> fs_file (clean_dir io t s) p = fs_file s p"
  by (simp add: clean_dir_def remove_tree_file)

lemma clean_dir_kept:
  assumes "same_files s s1" and "kept_outside t X (s1(t \<mapsto> Dir)) s'"
  shows "kept_outside t X s (clean_dir io t s')"
proof -
  have "fs_file (s1(t \<mapsto> Dir)) p = fs_file s1 p" if "\<not> beneath t p" for p
    using that by (auto simp: fs_file_def beneath_def)
  then show ?thesis
    using kept_same[OF assms(1), of t X] assms(2) by (simp add: kept_outside_def clean_dir_file)
qed

lemma write_stages:
  obtains (failed) s' e where "write_startup_config_to_path env lib cp config s = (s', Inl e)"
      "same_files s s'"
  | (installed) rendered sig s1 name where "render_startup_config_yaml lib config = Inr rendered"
      "config_signature_hex env lib cp config (utf8_encode rendered) = Inr sig"
      "path_file_name cp = Some name" "same_files s s1"
      "write_startup_config_to_path env lib cp config s =
        (case install_config (se_io env) cp (parent_or_current cp) name rendered sig
            (write_temp env cp) (s1(write_temp env cp \<mapsto> Dir)) of
          (s', r) \<Rightarrow> (clean_dir (se_io env) (write_temp env cp) s', r))"
proof (cases "render_startup_config_yaml lib config")
  case (Inl e)
  then show thesis
    by (intro failed[of s e]) (simp_all add: write_startup_config_to_path_def io_bind_def same_files_def)
next
  case (Inr rendered)
  let ?io = "se_io env"
  note rendered = Inr
  show thesis
  proof (cases "config_signature_hex env lib cp config (utf8_encode rendered)")
    case (Inl e)
    then show thesis
      by (intro failed[of s e])
        (simp_all add: write_startup_config_to_path_def io_bind_def same_files_def rendered)
  next
    case (Inr sig)
    obtain s1 r1 where mp: "make_parent ?io cp s = (s1, r1)" by force
    have same: "same_files s s1" using make_parent_same[of s ?io cp] by (simp add: mp)
    note unfolded = write_startup_config_to_path_def io_bind_def rendered Inr mp with_temp_dir_def
    show thesis
    proof (cases "r1 = Inr () \<and> path_file_name cp \<noteq> None \<and>
        io_fault ?io (IoTempDir (parent_or_current cp)) = None")
      case False
      then have "\<exists>e. write_startup_config_to_path env lib cp config s = (s1, Inl e)"
        by (cases r1) (auto simp: unfolded split: option.splits)
      with same show thesis by (auto intro: failed)
    next
      case True
      then obtain name where "path_file_name cp = Some name" by auto
      with True show thesis
        by (intro installed[OF rendered Inr _ same]) (simp_all add: unfolded Let_def clean_dir_def)
    qed
  qed
qed

lemma write_cases:
  assumes cp: "\<not> beneath (write_temp env cp) cp"
    and sp: "\<And>q. signature_target cp config = Some q \<Longrightarrow> \<not> beneath (write_temp env cp) q"
  obtains (kept) s' e where "write_startup_config_to_path env lib cp config s = (s', Inl e)"
      "kept_outside (write_temp env cp) {} s s'"
  | (config) s' e rendered where "write_startup_config_to_path env lib cp config s = (s', Inl e)"
      "render_startup_config_yaml lib config = Inr rendered"
      "kept_outside (write_temp env cp) {cp} s s'" "fs_file s' cp = Some (utf8_encode rendered)"
  | (both) s' res rendered where "write_startup_config_to_path env lib cp config s = (s', res)"
      "render_startup_config_yaml lib config = Inr rendered"
      "kept_outside (write_temp env cp) (insert cp (set_option (signature_target cp config))) s s'"
      "fs_file s' cp = Some (utf8_encode rendered)" "path_file_name cp \<noteq> None"
      "\<And>q. signature_target cp config = Some q \<Longrightarrow> path_file_name q \<noteq> None \<and>
        signed_by env lib config (utf8_encode rendered) (fs_file s' q)"
      "res = Inr () \<Longrightarrow> parent_or_current cp \<noteq> empty_path"
proof (cases rule: write_stages[where env = env and lib = lib and cp = cp and config = config and s = s])
  case (failed s' e)
  with kept_same show thesis by (intro kept[of s' e]) simp_all
next
  case (installed rendered sig s1 name)
  let ?io = "se_io env" and ?t = "write_temp env cp"
  let ?s = "s1(?t \<mapsto> Dir)" and ?d = "parent_or_current cp"
  note target = signature_hex_cases(1)[OF installed(2)] and signed = signature_hex_cases(2)[OF installed(2)]
  note clean = clean_dir_kept[OF installed(4)] clean_dir_file
  have out: "\<not> beneath ?t q" if "sig = Some (q, hex)" for q hex
    using sp target that by (metis fst_conv option.simps(9))
  have dests: "fst ` set_option sig = set_option (signature_target cp config)"
    by (simp add: target[symmetric] option.set_map)
  show thesis
  proof (cases rule: install_cases[OF installed(3) cp, where sig = sig and io = ?io
        and d = ?d and rendered = rendered and s = ?s, case_names dest kept config both])
    case (dest q hex)
    then show ?case by (rule out)
  next
    case (kept s' e)
    then show thesis using installed by (intro that(1)[of "clean_dir ?io ?t s'" e]) (simp_all add: clean)
  next
    case (config s' e)
    then show thesis
      using installed cp by (intro that(2)[of "clean_dir ?io ?t s'" e]) (simp_all add: clean)
  next
    case (both s' res)
    have "path_file_name q \<noteq> None \<and>
        signed_by env lib config (utf8_encode rendered) (fs_file (clean_dir ?io ?t s') q)"
      if q: "signature_target cp config = Some q" for q
    proof -
      obtain hex where hex: "sig = Some (q, hex)" using q target by (cases sig) auto
      with both(4) have "path_file_name q \<noteq> None" "fs_file s' q = Some (signature_bytes hex)" by blast+
      with signed[OF hex this(2)] sp[OF q] show ?thesis by (simp add: clean_dir_file)
    qed
    then show thesis
      using installed both cp
      by (intro that(3)[of "clean_dir ?io ?t s'" res rendered])
        (auto simp: clean dests fs_exists_def fs_node_def split: if_splits)
  qed
qed

text \<open>C14: whatever the operating system refuses along the way, a write leaves the configuration
  file as it was or holding the whole rendered text, never a part of it; no other file is touched
  but the signature, which is the old one or the new one; and a write that reports success has put
  both in place.\<close>

theorem write_all_or_nothing:
  assumes "\<not> beneath (write_temp env cp) cp"
    and "\<And>q. signature_target cp config = Some q \<Longrightarrow> \<not> beneath (write_temp env cp) q"
  shows "case write_startup_config_to_path env lib cp config s of (s', res) \<Rightarrow>
    (res \<noteq> Inr () \<and> kept_outside (write_temp env cp) {} s s') \<or>
    (\<exists>rendered. render_startup_config_yaml lib config = Inr rendered \<and>
       fs_file s' cp = Some (utf8_encode rendered) \<and>
       (res \<noteq> Inr () \<and> kept_outside (write_temp env cp) {cp} s s' \<or>
        kept_outside (write_temp env cp) (insert cp (set_option (signature_target cp config))) s s' \<and>
        (\<forall>q. signature_target cp config = Some q \<longrightarrow>
           signed_by env lib config (utf8_encode rendered) (fs_file s' q))))"
  by (rule write_cases[where env = env and lib = lib and cp = cp and config = config and s = s])
    (use assms in auto)

section \<open>Reading back\<close>

text \<open>What the code relies on of the crates: a rendered text parses to what it renders, with or
  without a newline at its end; hexadecimal digits are characters without white space and decode
  to the bytes they encode; a digest is made of bytes.\<close>

definition yaml_laws :: "store_lib \<Rightarrow> startup_config \<Rightarrow> bool" where
  "yaml_laws lib config \<longleftrightarrow>
     (\<forall>t. sl_render lib config = Inr t \<longrightarrow>
        sl_parse lib (utf8_encode t) = Inr config \<and> sl_parse lib (utf8_encode (t @ [10])) = Inr config)"

definition hex_laws :: "store_lib \<Rightarrow> bool" where
  "hex_laws lib \<longleftrightarrow>
     (\<forall>d. list_all (\<lambda>b. b < 256) d \<longrightarrow>
        sl_hex_decode lib (sl_hex_encode lib d) = Inr d \<and> wf_str (sl_hex_encode lib d) \<and>
        list_all (\<lambda>c. \<not> is_whitespace c) (sl_hex_encode lib d)) \<and>
     (\<forall>key mac m. sl_hmac lib key = Inr mac \<longrightarrow> list_all (\<lambda>b. b < 256) (mac m))"

lemma trim_line:
  assumes "list_all (\<lambda>c. \<not> is_whitespace c) t"
  shows "str_trim (t @ [10]) = t"
proof (cases t)
  case Nil
  then show ?thesis by (simp add: str_trim_def str_trim_start_def str_trim_end_def is_whitespace_def)
next
  case (Cons c u)
  have "dropWhile is_whitespace (rev t) = rev t"
    using assms by (cases "rev t") (auto simp: list_all_iff rev_swap)
  with Cons assms show ?thesis
    by (simp add: str_trim_def str_trim_start_def str_trim_end_def is_whitespace_def[of 10])
qed

lemma signed_verifies:
  assumes laws: "hex_laws lib"
    and signed: "signed_by env lib config bytes (fs_file s q)" "config_signature (cfg_integrity config) = Some g"
    and q: "q = resolve_config_relative_path cp (detached_hmac_sha256_path g)" "path_file_name q \<noteq> None"
    and io: "io_fault (se_io env) (IoRead q) = None"
  shows "verify_detached_hmac env lib cp bytes g s = Inr ()"
proof -
  from signed obtain mac where mac: "build_hmac_from_env env lib (hmac_key_env g) = Inr mac"
    and content: "fs_file s q = Some (signature_bytes (sl_hex_encode lib (mac bytes)))"
    by (auto simp: signed_by_def compute_signature_digest_def rbind_Inr)
  let ?hex = "sl_hex_encode lib (mac bytes)"
  from mac obtain key where "sl_hmac lib key = Inr mac"
    by (auto simp: build_hmac_from_env_def split: option.splits sum.splits)
  then have hex: "sl_hex_decode lib ?hex = Inr (mac bytes)" "wf_str ?hex"
    "list_all (\<lambda>c. \<not> is_whitespace c) ?hex"
    using laws unfolding hex_laws_def by blast+
  have "q \<noteq> empty_path" using q(2) by (auto simp: path_file_name_def empty_path_def)
  then have node: "fs_node s q = Some (File (signature_bytes ?hex))"
    using content by (auto simp: fs_file_def fs_node_def split: option.splits node.splits)
  have "utf8_decode (signature_bytes ?hex) = Some (?hex @ [10])"
    unfolding signature_bytes_def using hex(2) by (intro utf8_roundtrip) (simp add: scalar_def)
  with node io have "fs_read_to_string (se_io env) q s = Inr (?hex @ [10])"
    by (simp add: fs_read_to_string_def fs_read_def)
  then show ?thesis
    by (simp add: verify_detached_hmac_def q(1)[symmetric] trim_line[OF hex(3)] hex(1) mac)
qed

text \<open>C15: what a successful write leaves is what a later start reads: the loaded configuration is
  the written one, its signature is accepted, and the fingerprint is that of the configuration.\<close>

theorem write_then_load:
  assumes outside: "\<not> beneath (write_temp env cp) cp"
      "\<And>q. signature_target cp config = Some q \<Longrightarrow> \<not> beneath (write_temp env cp) q"
    and written: "write_startup_config_to_path env lib cp config s = (s', Inr ())"
    and laws: "yaml_laws lib config" "hex_laws lib"
    and small: "\<And>t. render_startup_config_yaml lib config = Inr t \<Longrightarrow> str_len t \<le> MAX_CONFIG_BYTES"
    and readable: "io_fault (se_io env) (IoRead cp) = None"
      "\<And>q. signature_target cp config = Some q \<Longrightarrow> io_fault (se_io env) (IoRead q) = None"
    and json: "fingerprint_config lib config = Inr fingerprint"
  shows "load_startup_config_from_path env lib cp s' =
    Inr \<lparr>ld_app = config, ld_config_path = cp, ld_config_fingerprint = fingerprint,
      ld_pseudo_id_hmac_key =
        resolve_optional_hmac_key env (pseudo_id_hmac_key_env (cfg_integrity config))\<rparr>"
proof (rule write_cases[where env = env and lib = lib and cp = cp and config = config and s = s, OF outside])
  fix s2 res t
  assume eq: "write_startup_config_to_path env lib cp config s = (s2, res)"
    and t: "render_startup_config_yaml lib config = Inr t"
    and content: "fs_file s2 cp = Some (utf8_encode t)" and name: "path_file_name cp \<noteq> None"
    and q: "\<And>q. signature_target cp config = Some q \<Longrightarrow> path_file_name q \<noteq> None \<and>
        signed_by env lib config (utf8_encode t) (fs_file s2 q)"
  have s2: "s2 = s'" using eq written by simp
  have valid: "validate_config config = Inr ()" and parse: "sl_parse lib (utf8_encode t) = Inr config"
    using t laws(1) by (auto simp: render_startup_config_yaml_def yaml_laws_def rbind_Inr split: sum.splits)
  have "cp \<noteq> empty_path" using name by (auto simp: path_file_name_def empty_path_def)
  then have "fs_node s' cp = Some (File (utf8_encode t))"
    using content by (auto simp: s2 fs_file_def fs_node_def split: option.splits node.splits)
  then have read: "fs_read (se_io env) cp s' = Inr (utf8_encode t)" by (simp add: fs_read_def readable)
  have verified: "verify_detached_hmac env lib cp (utf8_encode t) g s' = Inr ()"
    if "config_signature (cfg_integrity config) = Some g" for g
    using that q[of "resolve_config_relative_path cp (detached_hmac_sha256_path g)"]
    by (intro signed_verifies[OF laws(2) _ that refl]) (simp_all add: signature_target_def s2 readable)
  show ?thesis
    using small[OF t] verified
    by (cases "config_signature (cfg_integrity config)")
      (simp_all add: load_startup_config_from_path_def read parse valid json str_len_def)
qed (use written in simp_all)

text \<open>A configuration that is loaded was small, parsed and valid, and if it names a signature
  then the signature file spells the digest of exactly these bytes under the key of the
  environment: other bytes with the same signature would be a collision.\<close>

theorem load_accepts:
  assumes "load_startup_config_from_path env lib cp s = Inr l"
  shows "\<exists>bytes. fs_file s cp = Some bytes \<and> length bytes \<le> MAX_CONFIG_BYTES \<and>
    sl_parse lib bytes = Inr (ld_app l) \<and> validate_config (ld_app l) = Inr () \<and>
    fingerprint_config lib (ld_app l) = Inr (ld_config_fingerprint l) \<and>
    (\<forall>g. config_signature (cfg_integrity (ld_app l)) = Some g \<longrightarrow>
       (\<exists>key mac hex. se_var env (hmac_key_env g) = Some key \<and> sl_hmac lib (utf8_encode key) = Inr mac \<and>
          fs_file s (resolve_config_relative_path cp (detached_hmac_sha256_path g)) =
            Some (utf8_encode hex) \<and>
          sl_hex_decode lib (str_trim hex) = Inr (mac bytes)))"
proof -
  from assms obtain bytes where read: "fs_read (se_io env) cp s = Inr bytes"
    by (auto simp: load_startup_config_from_path_def split: sum.splits)
  have content: "fs_file s p = Some b" if "fs_read (se_io env) p s = Inr b" for p b
    using that by (auto simp: fs_read_def fs_node_def fs_file_def split: option.splits node.splits if_splits)
  have signature: "\<exists>key mac hex. se_var env (hmac_key_env g) = Some key \<and>
      sl_hmac lib (utf8_encode key) = Inr mac \<and>
      fs_file s (resolve_config_relative_path cp (detached_hmac_sha256_path g)) = Some (utf8_encode hex) \<and>
      sl_hex_decode lib (str_trim hex) = Inr (mac bytes)"
    if v: "verify_detached_hmac env lib cp bytes g s = Inr ()" for g
  proof -
    let ?q = "resolve_config_relative_path cp (detached_hmac_sha256_path g)"
    from v obtain hex mac where hex: "fs_read_to_string (se_io env) ?q s = Inr hex"
      and mac: "build_hmac_from_env env lib (hmac_key_env g) = Inr mac"
      and decoded: "sl_hex_decode lib (str_trim hex) = Inr (mac bytes)"
      by (auto simp: verify_detached_hmac_def Let_def rbind_Inr split: sum.splits if_splits)
    from hex obtain b where "fs_read (se_io env) ?q s = Inr b" "utf8_decode b = Some hex"
      by (auto simp: fs_read_to_string_def rbind_Inr split: option.splits)
    then have "fs_file s ?q = Some (utf8_encode hex)" using content utf8_decode_sound by metis
    with mac decoded show ?thesis
      by (auto simp: build_hmac_from_env_def split: option.splits sum.splits)
  qed
  show ?thesis
    using assms content[OF read] signature
    by (auto simp: load_startup_config_from_path_def read rbind_Inr split: sum.splits if_splits option.splits)
qed

text \<open>A configuration path that is a bare file name never reports success: its parent is the
  empty path, which is not the working directory for the final synchronisation, so the write fails
  after the file may already be in place.\<close>

theorem bare_name_write_fails:
  assumes "path_parent cp = Some empty_path"
    and "\<not> beneath (write_temp env cp) cp"
    and "\<And>q. signature_target cp config = Some q \<Longrightarrow> \<not> beneath (write_temp env cp) q"
  shows "snd (write_startup_config_to_path env lib cp config s) \<noteq> Inr ()"
  by (rule write_cases[where env = env and lib = lib and cp = cp and config = config and s = s, OF assms(2,3)])
    (use assms(1) in \<open>auto simp: parent_or_current_def\<close>)

section \<open>A concrete installation\<close>

definition sample_dir :: path where
  "sample_dir = \<lparr>rooted = True, parts = [NormalComp (lit ''etc'')]\<rparr>"

definition sample_signed :: startup_config where
  "sample_signed = sample_startup\<lparr>cfg_integrity :=
     \<lparr>config_signature = Some
        \<lparr>detached_hmac_sha256_path = \<lparr>rooted = False, parts = [NormalComp (lit ''sig'')]\<rparr>,
         hmac_key_env = lit ''KEY''\<rparr>,
      pseudo_id_hmac_key_env = None\<rparr>\<rparr>"

definition sample_lib :: store_lib where
  "sample_lib =
     \<lparr>sl_parse = (\<lambda>_. Inr sample_signed), sl_render = (\<lambda>_. Inr (lit ''oo'')), sl_json = (\<lambda>_. Inr []),
      sl_hmac = (\<lambda>key. Inr (\<lambda>m. [length key mod 256, length m mod 256])),
      sl_sha256 = (\<lambda>_. [1]), sl_hex_encode = map (\<lambda>b. b + 256),
      sl_hex_decode = (\<lambda>t. Inr (map (\<lambda>c. c - 256) t))\<rparr>"

definition sample_store :: store_env where
  "sample_store =
     \<lparr>se_io = \<lparr>io_fault = (\<lambda>_. None), io_temp_dir = (\<lambda>d. path_child d (lit ''tmp''))\<rparr>,
      se_var = (\<lambda>v. if v = lit ''KEY'' then Some (lit ''k'') else None)\<rparr>"

definition sample_fs :: fs where
  "sample_fs = (\<lambda>p. if p = sample_dir then Some Dir else None)"

abbreviation sample_path :: path where
  "sample_path \<equiv> path_child sample_dir (lit ''oo'')"

lemma sample_signed_valid: "validate_config sample_signed = Inr ()"
  using sample_startup_valid by (simp add: validate_iff sample_signed_def)

lemma sample_target: "signature_target sample_path sample_signed = Some (path_child sample_dir (lit ''sig''))"
  by (simp add: signature_target_def sample_signed_def resolve_config_relative_path_def path_join_def
      path_child_def sample_dir_def empty_path_def path_parent_def)

lemma sample_temp: "write_temp sample_store sample_path = path_child sample_dir (lit ''tmp'')"
  by (simp add: sample_store_def parent_or_current_def)

lemma sample_outside: "\<not> beneath (path_child sample_dir (lit ''tmp'')) (path_child sample_dir (lit ''oo''))"
  "\<not> beneath (path_child sample_dir (lit ''tmp'')) (path_child sample_dir (lit ''sig''))"
  by (simp_all add: beneath_def path_child_def sample_dir_def lit_def)

lemma sample_rendered: "render_startup_config_yaml sample_lib sample_signed = Inr (lit ''oo'' @ [10])"
  by (simp add: render_startup_config_yaml_def sample_signed_valid sample_lib_def ends_with_def lit_def)

lemma sample_signature:
  "config_signature_hex sample_store sample_lib sample_path sample_signed (utf8_encode (lit ''oo'' @ [10])) =
   Inr (Some (path_child sample_dir (lit ''sig''), [257, 259]))"
  by (simp add: config_signature_hex_def compute_signature_digest_def build_hmac_from_env_def
      sample_signed_def sample_store_def sample_lib_def resolve_config_relative_path_def path_join_def
      path_child_def sample_dir_def empty_path_def path_parent_def lit_def utf8_char_def)

lemma sample_parent: "make_parent (se_io sample_store) (path_child sample_dir w) sample_fs = (sample_fs, Inr ())"
  by (simp add: make_parent_def fs_create_dir_all_def fs_is_dir_def fs_node_def sample_fs_def
      map_err_def sample_dir_def empty_path_def)

lemma sample_dirs:
  "sample_dir \<noteq> empty_path" "path_child (path_child sample_dir (lit ''tmp'')) w \<noteq> path_child sample_dir v"
  "sample_dir \<noteq> path_child (path_child sample_dir (lit ''tmp'')) w" "sample_dir \<noteq> path_child sample_dir w"
  "path_child sample_dir v \<noteq> path_child (path_child sample_dir (lit ''tmp'')) w"
  "path_child (path_child sample_dir (lit ''tmp'')) w \<noteq> sample_dir"
  by (auto simp: sample_dir_def empty_path_def path_child_def)

lemma sample_no_fault: "io_fault (se_io sample_store) = (\<lambda>_. None)"
  by (simp add: sample_store_def)

lemma sample_temp_dir: "io_temp_dir (se_io sample_store) d = path_child d (lit ''tmp'')"
  by (simp add: sample_store_def)

lemma sample_written:
  "snd (write_startup_config_to_path sample_store sample_lib sample_path sample_signed sample_fs) = Inr ()"
proof -
  let ?t = "path_child sample_dir (lit ''tmp'')"
  have "snd (install_config (se_io sample_store) sample_path sample_dir (lit ''oo'') (lit ''oo'' @ [10])
      (Some (path_child sample_dir (lit ''sig''), [257, 259])) ?t (sample_fs(?t \<mapsto> Dir))) = Inr ()"
    by (simp add: install_config_def commit_config_def stage_signature_def rename_signature_def io_bind_def
        map_err_def fs_write_new_def fs_sync_dir_def fs_rename_def guarded_def sample_no_fault
        fs_exists_def fs_in_dir_def fs_is_dir_def fs_node_def sample_dirs sample_fs_def lit_eq
        make_parent_def fs_create_dir_all_def parent_or_current_def)
  then show ?thesis
    by (simp add: write_startup_config_to_path_def sample_rendered io_bind_def sample_signature
        sample_parent parent_or_current_def with_temp_dir_def sample_no_fault sample_temp_dir Let_def
        case_prod_beta del: utf8_encode_simps)
qed

text \<open>The witnesses of the theorems above at this installation.\<close>

lemma sample_target_outside:
  "signature_target sample_path sample_signed = Some q \<Longrightarrow> \<not> beneath (write_temp sample_store sample_path) q"
  using sample_outside(2) by (auto simp: sample_target sample_temp)

lemma sample_path_outside: "\<not> beneath (write_temp sample_store sample_path) sample_path"
  by (simp add: sample_temp sample_outside)

definition sample_installed :: fs where
  "sample_installed =
     fst (write_startup_config_to_path sample_store sample_lib sample_path sample_signed sample_fs)"

lemma sample_write:
  "write_startup_config_to_path sample_store sample_lib sample_path sample_signed sample_fs =
   (sample_installed, Inr ())"
  using sample_written by (simp add: sample_installed_def prod_eq_iff)

theorem write_all_or_nothing_witness:
  "fs_file sample_installed sample_path = Some (utf8_encode (lit ''oo'' @ [10]))"
proof -
  from write_all_or_nothing[where env = sample_store and cp = sample_path and config = sample_signed
      and lib = sample_lib and s = sample_fs, OF sample_path_outside sample_target_outside]
  show ?thesis by (simp only: sample_write prod.case sample_rendered) auto
qed

lemma sample_yaml: "yaml_laws sample_lib sample_signed"
  by (simp add: yaml_laws_def sample_lib_def)

lemma sample_hex: "hex_laws sample_lib"
proof -
  have byte: "b < 256 \<Longrightarrow> scalar (b + 256) \<and> \<not> is_whitespace (b + 256)" for b
    by (auto simp: scalar_def is_whitespace_def)
  then have "list_all (\<lambda>b. b < 256) d \<Longrightarrow> wf_str (map (\<lambda>b. b + 256) d) \<and>
      list_all (\<lambda>c. \<not> is_whitespace c) (map (\<lambda>b. b + 256) d)" for d
    by (induction d) auto
  then show ?thesis by (auto simp: hex_laws_def sample_lib_def comp_def)
qed

lemma sample_fingerprint: "fingerprint_config sample_lib sample_signed = Inr [257]"
  by (simp add: fingerprint_config_def sample_lib_def)

lemma sample_small:
  "render_startup_config_yaml sample_lib sample_signed = Inr t \<Longrightarrow> str_len t \<le> MAX_CONFIG_BYTES"
  unfolding sample_rendered by (auto simp: str_len_def lit_def utf8_char_def MAX_CONFIG_BYTES_def)

theorem write_then_load_witness:
  "\<exists>l. load_startup_config_from_path sample_store sample_lib sample_path sample_installed = Inr l \<and>
     ld_app l = sample_signed"
  using write_then_load[OF sample_path_outside sample_target_outside sample_write sample_yaml sample_hex
      sample_small _ _ sample_fingerprint] by (simp add: sample_no_fault)

lemma sample_file: "fs_file sample_installed sample_path = Some (utf8_encode (lit ''oo'' @ [10]))"
  by (rule write_cases[where env = sample_store and cp = sample_path and config = sample_signed
        and lib = sample_lib and s = sample_fs, OF sample_path_outside sample_target_outside])
    (simp_all add: sample_write sample_rendered)

definition sample_unsigned_lib :: store_lib where
  "sample_unsigned_lib = sample_lib\<lparr>sl_parse := (\<lambda>_. Inr sample_startup)\<rparr>"

theorem load_accepts_witness:
  "\<exists>bytes. fs_file sample_installed sample_path = Some bytes \<and> length bytes \<le> MAX_CONFIG_BYTES"
proof -
  have "fs_node sample_installed sample_path = Some (File (utf8_encode (lit ''oo'' @ [10])))"
    using sample_file by (auto simp: fs_file_def fs_node_def split: option.splits node.splits)
  then have "\<exists>l. load_startup_config_from_path sample_store sample_unsigned_lib sample_path
      sample_installed = Inr l"
    by (simp add: load_startup_config_from_path_def fs_read_def sample_no_fault sample_startup_valid
        sample_unsigned_lib_def sample_lib_def fingerprint_config_def MAX_CONFIG_BYTES_def lit_def
        utf8_char_def) (simp add: sample_startup_def)
  then show ?thesis using load_accepts by blast
qed

theorem bare_name_write_fails_witness:
  "snd (write_startup_config_to_path sample_store sample_lib (path_of (lit ''oo.yaml'')) sample_startup
     sample_fs) \<noteq> Inr ()"
proof -
  have "path_of (lit ''oo.yaml'') = \<lparr>rooted = False, parts = [NormalComp (lit ''oo.yaml'')]\<rparr>"
    by (simp add: path_of_def lit_def component_of_def)
  then have "path_parent (path_of (lit ''oo.yaml'')) = Some empty_path"
    and "\<not> beneath (write_temp sample_store (path_of (lit ''oo.yaml''))) (path_of (lit ''oo.yaml''))"
    by (simp_all add: path_parent_def empty_path_def beneath_def parent_or_current_def sample_store_def
        path_child_def lit_eq)
  moreover have "signature_target cp sample_startup = None" for cp
    by (simp add: signature_target_def sample_startup_def)
  ultimately show ?thesis by (intro bare_name_write_fails) simp_all
qed

end
