(* ===== verification/Audit_Store.thy ===== *)
theory Audit_Store
  imports Rust_Fs
begin

text \<open>
  The audit store, \<^verbatim>\<open>src/audit/mod.rs\<close>: an append-only table of events, each chained to the one
  before by a hash, with manifests over every thousand rows.  SQLite is modelled by what the SQL
  of the source asks of it: a table is the list of its rows in the order of their keys, an inserted
  row without a key gets the largest key plus one, and any statement may be refused (\<open>ae_fault\<close>).
  JSON, SHA-256, HMAC, hexadecimal digits, the clock, the CSV and Parquet writers are parameters.
  A column of type \<^verbatim>\<open>INTEGER\<close> is an \<open>int\<close>; \<open>as_i64\<close> is the cast from \<^verbatim>\<open>usize\<close>.
\<close>

section \<open>Events\<close>

datatype audit_event_type =
    ProcessStart
  | ProcessShutdown
  | ConfigLoaded
  | ConfigSignatureVerified
  | ConfigSignatureFailed
  | DetectorMatch
  | SpecialPhraseMatch
  | ResponseCompiled
  | ActionSent
  | ActionSuppressed
  | BreakerOpen
  | BreakerClose
  | ModeChanged
  | SuspiciousInputDetected
  | DuplicateSuppressed
  | CooldownSuppressed
  | RateLimitSuppressed
  | SandboxFault
  | AuditIntegrityWarning
  | AuditIntegrityDegraded
  | ExportStarted
  | ExportFinished

definition event_type_str :: "audit_event_type \<Rightarrow> rstr" where
  "event_type_str t =
     (case t of
        ProcessStart \<Rightarrow> lit ''process_start''
      | ProcessShutdown \<Rightarrow> lit ''process_shutdown''
      | ConfigLoaded \<Rightarrow> lit ''config_loaded''
      | ConfigSignatureVerified \<Rightarrow> lit ''config_signature_verified''
      | ConfigSignatureFailed \<Rightarrow> lit ''config_signature_failed''
      | DetectorMatch \<Rightarrow> lit ''detector_match''
      | SpecialPhraseMatch \<Rightarrow> lit ''special_phrase_match''
      | ResponseCompiled \<Rightarrow> lit ''response_compiled''
      | ActionSent \<Rightarrow> lit ''action_sent''
      | ActionSuppressed \<Rightarrow> lit ''action_suppressed''
      | BreakerOpen \<Rightarrow> lit ''breaker_open''
      | BreakerClose \<Rightarrow> lit ''breaker_close''
      | ModeChanged \<Rightarrow> lit ''mode_changed''
      | SuspiciousInputDetected \<Rightarrow> lit ''suspicious_input_detected''
      | DuplicateSuppressed \<Rightarrow> lit ''duplicate_suppressed''
      | CooldownSuppressed \<Rightarrow> lit ''cooldown_suppressed''
      | RateLimitSuppressed \<Rightarrow> lit ''rate_limit_suppressed''
      | SandboxFault \<Rightarrow> lit ''sandbox_fault''
      | AuditIntegrityWarning \<Rightarrow> lit ''audit_integrity_warning''
      | AuditIntegrityDegraded \<Rightarrow> lit ''audit_integrity_degraded''
      | ExportStarted \<Rightarrow> lit ''export_started''
      | ExportFinished \<Rightarrow> lit ''export_finished'')"

record audit_event_input =
  in_event_type :: audit_event_type
  in_binary_version :: rstr
  in_config_fingerprint :: rstr
  in_detector_backend :: rstr
  in_matched_readings :: "rstr list"
  in_sequence_hits :: nat
  in_kanji_hits :: nat
  in_total_count :: nat
  in_special_phrase_hit :: bool
  in_selected_action :: rstr
  in_suppressed_reason :: "rstr option"
  in_mode :: rstr
  in_active_lsm :: rstr
  in_hardening_status :: rstr
  in_processing_time_ms :: nat
  in_message_length :: nat
  in_normalized_length :: nat
  in_token_count :: nat
  in_suspicious_flags :: "rstr list"
  in_truncated_flag :: bool
  in_guild_id :: "nat option"
  in_channel_id :: "nat option"
  in_user_id :: "nat option"
  in_message_id :: "nat option"

record audit_event_row =
  ev_event_id :: int
  ev_ts_utc :: rstr
  ev_event_type :: rstr
  ev_schema_version :: int
  ev_binary_version :: rstr
  ev_config_fingerprint :: rstr
  ev_detector_backend :: rstr
  ev_matched_readings_json :: rstr
  ev_sequence_hits :: int
  ev_kanji_hits :: int
  ev_total_count :: int
  ev_special_phrase_hit :: int
  ev_selected_action :: rstr
  ev_suppressed_reason :: rstr
  ev_mode :: rstr
  ev_active_lsm :: rstr
  ev_hardening_status :: rstr
  ev_processing_time_ms :: int
  ev_message_length :: int
  ev_normalized_length :: int
  ev_token_count :: int
  ev_suspicious_flags_json :: rstr
  ev_truncated_flag :: int
  ev_pseudo_guild_id :: rstr
  ev_pseudo_channel_id :: rstr
  ev_pseudo_user_id :: rstr
  ev_pseudo_message_id :: rstr
  ev_prev_hash :: rstr
  ev_row_hash :: rstr

text \<open>The default input; \<open>version\<close> is the package version the build fills in.\<close>

definition audit_event_input_default :: "rstr \<Rightarrow> audit_event_input" where
  "audit_event_input_default version =
     \<lparr>in_event_type = DetectorMatch, in_binary_version = version, in_config_fingerprint = lit ''unknown'',
      in_detector_backend = lit ''unknown'', in_matched_readings = [], in_sequence_hits = 0,
      in_kanji_hits = 0, in_total_count = 0, in_special_phrase_hit = False,
      in_selected_action = lit ''noop'', in_suppressed_reason = None, in_mode = lit ''normal'',
      in_active_lsm = lit ''unknown'', in_hardening_status = lit ''unknown'', in_processing_time_ms = 0,
      in_message_length = 0, in_normalized_length = 0, in_token_count = 0,
      in_suspicious_flags = [], in_truncated_flag = False, in_guild_id = None,
      in_channel_id = None, in_user_id = None, in_message_id = None\<rparr>"

text \<open>A stored row has one more column than the row that is read back.\<close>

record stored_event = audit_event_row +
  normalized_payload_json :: rstr

record audit_query_filter =
  qf_start_ts_utc :: "rstr option"
  qf_end_ts_utc :: "rstr option"
  qf_event_type :: "rstr option"
  qf_detector_backend :: "rstr option"
  qf_suppressed_reason :: "rstr option"
  qf_mode :: "rstr option"
  qf_limit :: "nat option"

record audit_stats =
  st_total :: nat
  st_by_event_type :: "rstr \<rightharpoonup> nat"
  st_by_backend :: "rstr \<rightharpoonup> nat"
  st_by_suppressed_reason :: "rstr \<rightharpoonup> nat"
  st_by_mode :: "rstr \<rightharpoonup> nat"

record verify_report =
  checked_rows :: nat
  broken_rows :: nat
  details :: "rstr list"

datatype export_format = Jsonl | Csv | Parquet

datatype audit_store_mode = ReadOnly | ReadWrite

record audit_manifest =
  mf_ts_utc :: rstr
  mf_start_event_id :: int
  mf_end_event_id :: int
  mf_manifest_hash :: rstr

record audit_db =
  db_events :: "stored_event list"
  db_manifests :: "audit_manifest list"
  db_snapshots :: "(rstr \<times> rstr \<times> rstr) list"

record audit_store =
  as_db :: audit_db
  as_mode :: audit_store_mode
  as_pseudo_id_hmac_key :: "nat list option"
  as_export_max_rows :: nat
  as_query_max_rows :: nat

datatype json =
    JNull
  | JBool bool
  | JNum int
  | JStr rstr
  | JArr "json list"
  | JObj "(string \<times> json) list"

datatype db_stmt =
    SelectLastHash | InsertEvent | SelectManifestHashes | InsertManifest | InsertSnapshot
  | SelectVerify | SelectStartHash | SelectEvents | SelectOne

record audit_env =
  ae_fault :: "db_stmt \<Rightarrow> rstr option"
  ae_now :: "rstr + rstr"
  ae_json :: "json \<Rightarrow> rstr + rstr"
  ae_row_json :: "audit_event_row \<Rightarrow> rstr + rstr"
  ae_sha256 :: "nat list \<Rightarrow> nat list"
  ae_hex :: "nat list \<Rightarrow> rstr"
  ae_hmac :: "nat list \<Rightarrow> rstr + (nat list \<Rightarrow> nat list)"

section \<open>Helpers\<close>

definition SCHEMA_VERSION :: int where "SCHEMA_VERSION = 1"
definition MANIFEST_INTERVAL :: int where "MANIFEST_INTERVAL = 1000"

definition genesis :: rstr where "genesis = lit ''GENESIS''"

definition as_i64 :: "nat \<Rightarrow> int" where
  "as_i64 n = (if n < 2 ^ 63 then int n else int n - 2 ^ 64)"

definition i64_of_bool :: "bool \<Rightarrow> int" where
  "i64_of_bool b = (if b then 1 else 0)"

definition decimal :: "int \<Rightarrow> rstr" where
  "decimal n = (if n < 0 then lit ''-'' @ dec (nat (- n)) else dec (nat n))"

definition db_try :: "audit_env \<Rightarrow> db_stmt \<Rightarrow> 'a \<Rightarrow> rstr + 'a" where
  "db_try env stmt a = (case ae_fault env stmt of Some err \<Rightarrow> Inl err | None \<Rightarrow> Inr a)"

definition next_row_id :: "stored_event list \<Rightarrow> int" where
  "next_row_id rows = (if rows = [] then 1 else ev_event_id (last rows) + 1)"

definition ensure_writable :: "audit_store \<Rightarrow> rstr + unit" where
  "ensure_writable store =
     (if as_mode store = ReadOnly then Inl (lit ''audit store is read-only'') else Inr ())"

definition compute_row_hash :: "audit_env \<Rightarrow> rstr \<Rightarrow> rstr \<Rightarrow> rstr" where
  "compute_row_hash env prev payload =
     ae_hex env (ae_sha256 env (utf8_encode prev @ utf8_encode payload))"

definition pseudo_id :: "audit_env \<Rightarrow> audit_store \<Rightarrow> nat option \<Rightarrow> rstr" where
  "pseudo_id env store raw =
     (case raw of
        None \<Rightarrow> []
      | Some raw_id \<Rightarrow>
          (case as_pseudo_id_hmac_key store of
             None \<Rightarrow> []
           | Some key \<Rightarrow>
               (case ae_hmac env key of
                  Inl _ \<Rightarrow> []
                | Inr mac \<Rightarrow> ae_hex env (mac (utf8_encode (dec raw_id))))))"

section \<open>Recording\<close>

definition last_row_hash :: "stored_event list \<Rightarrow> rstr" where
  "last_row_hash rows = (if rows = [] then genesis else ev_row_hash (last rows))"

definition event_payload ::
  "audit_env \<Rightarrow> audit_store \<Rightarrow> audit_event_input \<Rightarrow> rstr \<Rightarrow> rstr \<Rightarrow> rstr \<Rightarrow> json" where
  "event_payload env store input ts readings flags =
     JObj
       [(''ts_utc'', JStr ts),
        (''event_type'', JStr (event_type_str (in_event_type input))),
        (''schema_version'', JNum SCHEMA_VERSION),
        (''binary_version'', JStr (in_binary_version input)),
        (''config_fingerprint'', JStr (in_config_fingerprint input)),
        (''detector_backend'', JStr (in_detector_backend input)),
        (''matched_readings_json'', JStr readings),
        (''sequence_hits'', JNum (int (in_sequence_hits input))),
        (''kanji_hits'', JNum (int (in_kanji_hits input))),
        (''total_count'', JNum (int (in_total_count input))),
        (''special_phrase_hit'', JBool (in_special_phrase_hit input)),
        (''selected_action'', JStr (in_selected_action input)),
        (''suppressed_reason'', (case in_suppressed_reason input of None \<Rightarrow> JNull | Some r \<Rightarrow> JStr r)),
        (''mode'', JStr (in_mode input)),
        (''active_lsm'', JStr (in_active_lsm input)),
        (''hardening_status'', JStr (in_hardening_status input)),
        (''processing_time_ms'', JNum (int (in_processing_time_ms input))),
        (''message_length'', JNum (int (in_message_length input))),
        (''normalized_length'', JNum (int (in_normalized_length input))),
        (''token_count'', JNum (int (in_token_count input))),
        (''suspicious_flags_json'', JStr flags),
        (''truncated_flag'', JBool (in_truncated_flag input)),
        (''pseudo_guild_id'', JStr (pseudo_id env store (in_guild_id input))),
        (''pseudo_channel_id'', JStr (pseudo_id env store (in_channel_id input))),
        (''pseudo_user_id'', JStr (pseudo_id env store (in_user_id input))),
        (''pseudo_message_id'', JStr (pseudo_id env store (in_message_id input)))]"

definition stored_row ::
  "audit_env \<Rightarrow> audit_store \<Rightarrow> audit_event_input \<Rightarrow> rstr \<Rightarrow> rstr \<Rightarrow> rstr \<Rightarrow> rstr \<Rightarrow> rstr \<Rightarrow> rstr \<Rightarrow>
   stored_event" where
  "stored_row env store input ts readings flags prev hash payload =
     \<lparr>ev_event_id = next_row_id (db_events (as_db store)),
       ev_ts_utc = ts,
       ev_event_type = event_type_str (in_event_type input),
       ev_schema_version = SCHEMA_VERSION,
       ev_binary_version = in_binary_version input,
       ev_config_fingerprint = in_config_fingerprint input,
       ev_detector_backend = in_detector_backend input,
       ev_matched_readings_json = readings,
       ev_sequence_hits = as_i64 (in_sequence_hits input),
       ev_kanji_hits = as_i64 (in_kanji_hits input),
       ev_total_count = as_i64 (in_total_count input),
       ev_special_phrase_hit = i64_of_bool (in_special_phrase_hit input),
       ev_selected_action = in_selected_action input,
       ev_suppressed_reason = (case in_suppressed_reason input of None \<Rightarrow> [] | Some r \<Rightarrow> r),
       ev_mode = in_mode input,
       ev_active_lsm = in_active_lsm input,
       ev_hardening_status = in_hardening_status input,
       ev_processing_time_ms = as_i64 (in_processing_time_ms input),
       ev_message_length = as_i64 (in_message_length input),
       ev_normalized_length = as_i64 (in_normalized_length input),
       ev_token_count = as_i64 (in_token_count input),
       ev_suspicious_flags_json = flags,
       ev_truncated_flag = i64_of_bool (in_truncated_flag input),
       ev_pseudo_guild_id = pseudo_id env store (in_guild_id input),
       ev_pseudo_channel_id = pseudo_id env store (in_channel_id input),
       ev_pseudo_user_id = pseudo_id env store (in_user_id input),
       ev_pseudo_message_id = pseudo_id env store (in_message_id input),
       ev_prev_hash = prev,
       ev_row_hash = hash,
       normalized_payload_json = payload\<rparr>"

text \<open>Every thousandth row closes a manifest over the hashes of the last thousand rows.\<close>

definition manifest_hash :: "audit_env \<Rightarrow> stored_event list \<Rightarrow> int \<Rightarrow> int \<Rightarrow> rstr" where
  "manifest_hash env rows from_event last_event =
     ae_hex env (ae_sha256 env (utf8_encode (concat (map ev_row_hash
       (filter (\<lambda>r. from_event \<le> ev_event_id r \<and> ev_event_id r \<le> last_event) rows)))))"

definition maybe_create_manifest ::
  "audit_env \<Rightarrow> int \<Rightarrow> audit_store \<Rightarrow> audit_store \<times> (rstr + unit)" where
  "maybe_create_manifest env last_event store =
     (if last_event mod MANIFEST_INTERVAL \<noteq> 0 then (store, Inr ())
      else (let from_event = last_event - MANIFEST_INTERVAL + 1;
                built =
                  rbind (db_try env SelectManifestHashes
                      (manifest_hash env (db_events (as_db store)) from_event last_event)) (\<lambda>hash.
                  rbind (ae_now env) (\<lambda>now.
                  db_try env InsertManifest
                    \<lparr>mf_ts_utc = now, mf_start_event_id = from_event, mf_end_event_id = last_event,
                     mf_manifest_hash = hash\<rparr>))
            in case built of
                 Inl err \<Rightarrow> (store, Inl err)
               | Inr m \<Rightarrow>
                   (store\<lparr>as_db := (as_db store)\<lparr>db_manifests := db_manifests (as_db store) @ [m]\<rparr>\<rparr>,
                    Inr ())))"

definition build_event ::
  "audit_env \<Rightarrow> audit_event_input \<Rightarrow> audit_store \<Rightarrow> rstr + stored_event" where
  "build_event env input store =
     rbind (ensure_writable store) (\<lambda>_.
     rbind (db_try env SelectLastHash (last_row_hash (db_events (as_db store)))) (\<lambda>prev.
     rbind (ae_now env) (\<lambda>ts.
     rbind (ae_json env (JArr (map JStr (in_matched_readings input)))) (\<lambda>readings.
     rbind (ae_json env (JArr (map JStr (in_suspicious_flags input)))) (\<lambda>flags.
     rbind (ae_json env (event_payload env store input ts readings flags)) (\<lambda>payload.
     db_try env InsertEvent
       (stored_row env store input ts readings flags prev (compute_row_hash env prev payload)
         payload)))))))"

definition record_event ::
  "audit_env \<Rightarrow> audit_event_input \<Rightarrow> audit_store \<Rightarrow> audit_store \<times> (rstr + int)" where
  "record_event env input store =
     (case build_event env input store of
        Inl err \<Rightarrow> (store, Inl err)
      | Inr row \<Rightarrow>
          (let store1 = store\<lparr>as_db := (as_db store)\<lparr>db_events := db_events (as_db store) @ [row]\<rparr>\<rparr>;
               event_id = ev_event_id row;
               (store2, manifest) = maybe_create_manifest env event_id store1
           in (store2, rbind manifest (\<lambda>_. Inr event_id))))"

definition record_config_snapshot ::
  "audit_env \<Rightarrow> rstr \<Rightarrow> rstr \<Rightarrow> audit_store \<Rightarrow> audit_store \<times> (rstr + unit)" where
  "record_config_snapshot env fingerprint config_json store =
     (case rbind (ensure_writable store) (\<lambda>_. rbind (ae_now env) (\<lambda>now.
          db_try env InsertSnapshot (now, fingerprint, config_json))) of
        Inl err \<Rightarrow> (store, Inl err)
      | Inr snapshot \<Rightarrow>
          (store\<lparr>as_db := (as_db store)\<lparr>db_snapshots := db_snapshots (as_db store) @ [snapshot]\<rparr>\<rparr>,
           Inr ()))"

section \<open>Queries\<close>

definition passes_filter :: "audit_event_row \<Rightarrow> audit_query_filter \<Rightarrow> bool" where
  "passes_filter row q \<longleftrightarrow>
     (case qf_start_ts_utc q of Some start \<Rightarrow> \<not> ev_ts_utc row < start | None \<Rightarrow> True) \<and>
     (case qf_end_ts_utc q of Some end_ts \<Rightarrow> \<not> ev_ts_utc row > end_ts | None \<Rightarrow> True) \<and>
     (case qf_event_type q of Some t \<Rightarrow> ev_event_type row = t | None \<Rightarrow> True) \<and>
     (case qf_detector_backend q of Some b \<Rightarrow> ev_detector_backend row = b | None \<Rightarrow> True) \<and>
     (case qf_suppressed_reason q of Some r \<Rightarrow> ev_suppressed_reason row = r | None \<Rightarrow> True) \<and>
     (case qf_mode q of Some m \<Rightarrow> ev_mode row = m | None \<Rightarrow> True)"

definition map_audit_event_row :: "stored_event \<Rightarrow> audit_event_row" where
  "map_audit_event_row r = audit_event_row.truncate r"

text \<open>\<^verbatim>\<open>LIMIT\<close> with a negative number does not limit.\<close>

definition sql_limit :: "int \<Rightarrow> 'a list \<Rightarrow> 'a list" where
  "sql_limit n rows = (if n < 0 then rows else take (nat n) rows)"

definition query_events_capped ::
  "audit_env \<Rightarrow> audit_query_filter \<Rightarrow> audit_store \<Rightarrow> rstr + audit_event_row list" where
  "query_events_capped env q store =
     (let raw_limit = min (case qf_limit q of Some n \<Rightarrow> n | None \<Rightarrow> as_query_max_rows store)
            (as_query_max_rows store)
      in rbind (db_try env SelectEvents
             (map map_audit_event_row (sql_limit (as_i64 raw_limit) (rev (db_events (as_db store))))))
           (\<lambda>rows. Inr (filter (\<lambda>r. passes_filter r q) rows)))"

definition audit_tail ::
  "audit_env \<Rightarrow> audit_query_filter \<Rightarrow> audit_store \<Rightarrow> rstr + audit_event_row list" where
  "audit_tail env q store =
     rbind (query_events_capped env q store) (\<lambda>events.
       (let sorted_events = sort_key (\<lambda>e. - ev_event_id e) events;
            cap = min (case qf_limit q of Some n \<Rightarrow> n | None \<Rightarrow> 100) (as_query_max_rows store)
        in Inr (take cap sorted_events)))"

definition audit_inspect ::
  "audit_env \<Rightarrow> int \<Rightarrow> audit_store \<Rightarrow> rstr + audit_event_row option" where
  "audit_inspect env event_id store =
     db_try env SelectOne
       (map_option map_audit_event_row (find (\<lambda>r. ev_event_id r = event_id) (db_events (as_db store))))"

definition bump_key :: "rstr \<Rightarrow> (rstr \<rightharpoonup> nat) \<Rightarrow> rstr \<rightharpoonup> nat" where
  "bump_key k m = m(k \<mapsto> (case m k of Some n \<Rightarrow> n | None \<Rightarrow> 0) + 1)"

definition add_event :: "audit_event_row \<Rightarrow> audit_stats \<Rightarrow> audit_stats" where
  "add_event e st =
     st\<lparr>st_by_event_type := bump_key (ev_event_type e) (st_by_event_type st),
        st_by_backend := bump_key (ev_detector_backend e) (st_by_backend st),
        st_by_suppressed_reason :=
          (if ev_suppressed_reason e = [] then st_by_suppressed_reason st
           else bump_key (ev_suppressed_reason e) (st_by_suppressed_reason st)),
        st_by_mode := bump_key (ev_mode e) (st_by_mode st)\<rparr>"

definition audit_stats_of ::
  "audit_env \<Rightarrow> audit_query_filter \<Rightarrow> audit_store \<Rightarrow> rstr + audit_stats" where
  "audit_stats_of env q store =
     rbind (query_events_capped env q store) (\<lambda>events.
       Inr (fold add_event events
         \<lparr>st_total = length events, st_by_event_type = Map.empty, st_by_backend = Map.empty,
          st_by_suppressed_reason = Map.empty, st_by_mode = Map.empty\<rparr>))"

section \<open>Verifying\<close>

definition complain :: "int \<Rightarrow> string \<Rightarrow> verify_report \<Rightarrow> verify_report" where
  "complain event_id msg r =
     r\<lparr>broken_rows := sat_add (broken_rows r) 1,
       details := details r @ [lit ''event_id='' @ decimal event_id @ lit msg]\<rparr>"

text \<open>One row of the loop: its link to the row before and its own hash.\<close>

definition verify_row ::
  "audit_env \<Rightarrow> stored_event \<Rightarrow> rstr \<times> verify_report \<Rightarrow> rstr \<times> verify_report" where
  "verify_row env row = (\<lambda>(expected_prev, report).
     (let r1 = report\<lparr>checked_rows := sat_add (checked_rows report) 1\<rparr>;
          r2 = (if ev_prev_hash row \<noteq> expected_prev
                then complain (ev_event_id row) '' prev_hash mismatch'' r1 else r1);
          recomputed = compute_row_hash env (ev_prev_hash row) (normalized_payload_json row);
          r3 = (if recomputed \<noteq> ev_row_hash row
                then complain (ev_event_id row) '' row_hash mismatch'' r2 else r2)
      in (ev_row_hash row, r3)))"

fun verify_loop ::
  "audit_env \<Rightarrow> stored_event list \<Rightarrow> rstr \<times> verify_report \<Rightarrow> rstr \<times> verify_report" where
  "verify_loop env [] acc = acc"
| "verify_loop env (row # rows) acc = verify_loop env rows (verify_row env row acc)"

definition empty_report :: verify_report where
  "empty_report = \<lparr>checked_rows = 0, broken_rows = 0, details = []\<rparr>"

definition verify_start ::
  "audit_env \<Rightarrow> int option \<Rightarrow> audit_store \<Rightarrow> rstr + rstr" where
  "verify_start env start_event_id store =
     (case start_event_id of
        None \<Rightarrow> Inr genesis
      | Some start_id \<Rightarrow>
          if start_id \<le> 1 then Inr genesis
          else rbind (db_try env SelectStartHash
                 (find (\<lambda>r. ev_event_id r = start_id - 1) (db_events (as_db store)))) (\<lambda>found.
               (case found of
                  Some r \<Rightarrow> Inr (ev_row_hash r)
                | None \<Rightarrow> Inl (lit ''failed to initialize verify chain: missing row_hash for event_id=''
                    @ decimal (start_id - 1)))))"

definition in_range :: "int option \<Rightarrow> int option \<Rightarrow> stored_event \<Rightarrow> bool" where
  "in_range lo hi r \<longleftrightarrow>
     (case lo of None \<Rightarrow> True | Some a \<Rightarrow> a \<le> ev_event_id r) \<and>
     (case hi of None \<Rightarrow> True | Some b \<Rightarrow> ev_event_id r \<le> b)"

definition audit_verify ::
  "audit_env \<Rightarrow> int option \<Rightarrow> int option \<Rightarrow> audit_store \<Rightarrow> rstr + verify_report" where
  "audit_verify env lo hi store =
     rbind (db_try env SelectVerify (filter (in_range lo hi) (db_events (as_db store)))) (\<lambda>rows.
     rbind (verify_start env lo store) (\<lambda>expected_prev.
     Inr (snd (verify_loop env rows (expected_prev, empty_report)))))"

section \<open>Opening\<close>

record audit_store_config =
  sc_sqlite_path :: path
  sc_busy_timeout_ms :: nat
  sc_export_max_rows :: nat
  sc_query_max_rows :: nat

text \<open>\<open>opened\<close> is the database the file holds after the pragmas and the migration, or an error.\<close>

definition open_rw ::
  "io_env \<Rightarrow> audit_store_config \<Rightarrow> nat list option \<Rightarrow> rstr + audit_db \<Rightarrow> fs \<Rightarrow>
   fs \<times> (rstr + audit_store)" where
  "open_rw io cfg key opened =
     io_bind (case path_parent (sc_sqlite_path cfg) of
         Some parent \<Rightarrow> fs_create_dir_all io parent
       | None \<Rightarrow> io_return ()) (\<lambda>_.
     io_bind (io_lift opened) (\<lambda>db.
     io_return
       \<lparr>as_db = db, as_mode = ReadWrite, as_pseudo_id_hmac_key = key,
        as_export_max_rows = sc_export_max_rows cfg, as_query_max_rows = sc_query_max_rows cfg\<rparr>))"

definition open_ro :: "audit_store_config \<Rightarrow> rstr + audit_db \<Rightarrow> rstr + audit_store" where
  "open_ro cfg opened =
     rbind opened (\<lambda>db.
       Inr \<lparr>as_db = db, as_mode = ReadOnly, as_pseudo_id_hmac_key = None,
         as_export_max_rows = sc_export_max_rows cfg, as_query_max_rows = sc_query_max_rows cfg\<rparr>)"

section \<open>Exporting\<close>

record export_env =
  ex_io :: io_env
  ex_is_symlink :: "path \<Rightarrow> bool"
  ex_csv :: "audit_event_row list \<Rightarrow> nat list \<times> rstr option"
  ex_parquet :: "rstr list \<Rightarrow> nat list \<times> rstr option"

definition validate_export_output_path ::
  "export_env \<Rightarrow> path \<Rightarrow> fs \<Rightarrow> fs \<times> (rstr + unit)" where
  "validate_export_output_path ex p s =
     (if p = empty_path then (s, Inl (lit ''export path is empty''))
      else if ParentDir \<in> set (parts p) then (s, Inl (lit ''export path must not contain '' @ [39, 46, 46, 39]))
      else if fs_is_dir s p then (s, Inl (lit ''export path points to a directory''))
      else if fs_exists s p
      then (s, Inl (lit ''export destination already exists; refusing to overwrite''))
      else (case path_parent p of
              None \<Rightarrow> (s, Inr ())
            | Some parent \<Rightarrow>
                if parent = empty_path then (s, Inr ())
                else io_bind (fs_create_dir_all (ex_io ex) parent) (\<lambda>_.
                  io_lift (if ex_is_symlink ex parent
                    then Inl (lit ''export parent directory must not be a symlink'')
                    else Inr ())) s))"

text \<open>The file is created first; what a writer has produced before it fails stays in the file.\<close>

definition write_output ::
  "export_env \<Rightarrow> path \<Rightarrow> nat list \<times> rstr option \<Rightarrow> fs \<Rightarrow> fs \<times> (rstr + unit)" where
  "write_output ex p output =
     io_bind (fs_write_new (ex_io ex) p (fst output)) (\<lambda>_.
       io_lift (case snd output of Some err \<Rightarrow> Inl err | None \<Rightarrow> Inr ()))"

fun jsonl_lines :: "audit_env \<Rightarrow> audit_event_row list \<Rightarrow> nat list \<times> rstr option" where
  "jsonl_lines env [] = ([], None)"
| "jsonl_lines env (row # rows) =
     (case ae_row_json env row of
        Inl err \<Rightarrow> ([], Some err)
      | Inr line \<Rightarrow>
          (case jsonl_lines env rows of (bytes, err) \<Rightarrow> (utf8_encode (line @ [10]) @ bytes, err)))"

definition export_jsonl ::
  "export_env \<Rightarrow> audit_env \<Rightarrow> path \<Rightarrow> audit_event_row list \<Rightarrow> fs \<Rightarrow> fs \<times> (rstr + unit)" where
  "export_jsonl ex env p rows = write_output ex p (jsonl_lines env rows)"

definition export_csv ::
  "export_env \<Rightarrow> path \<Rightarrow> audit_event_row list \<Rightarrow> fs \<Rightarrow> fs \<times> (rstr + unit)" where
  "export_csv ex p rows = write_output ex p (ex_csv ex rows)"

fun collect_json :: "audit_env \<Rightarrow> audit_event_row list \<Rightarrow> rstr + rstr list" where
  "collect_json env [] = Inr []"
| "collect_json env (row # rows) =
     (case ae_row_json env row of
        Inl err \<Rightarrow> Inl (lit ''failed to serialize audit row for parquet export (event_id=''
          @ decimal (ev_event_id row) @ lit ''): '' @ err)
      | Inr line \<Rightarrow> rbind (collect_json env rows) (\<lambda>lines. Inr (line # lines)))"

definition export_parquet ::
  "export_env \<Rightarrow> audit_env \<Rightarrow> path \<Rightarrow> audit_event_row list \<Rightarrow> fs \<Rightarrow> fs \<times> (rstr + unit)" where
  "export_parquet ex env p rows =
     io_bind (io_lift (collect_json env rows)) (\<lambda>json_values.
       write_output ex p (ex_parquet ex json_values))"

definition audit_export ::
  "export_env \<Rightarrow> audit_env \<Rightarrow> export_format \<Rightarrow> path \<Rightarrow> audit_query_filter \<Rightarrow> audit_store \<Rightarrow> fs \<Rightarrow>
   fs \<times> (rstr + nat)" where
  "audit_export ex env fmt p q store =
     io_bind (validate_export_output_path ex p) (\<lambda>_.
     (let q' = q\<lparr>qf_limit := Some (min
            (case qf_limit q of Some n \<Rightarrow> n | None \<Rightarrow> as_export_max_rows store)
            (as_export_max_rows store))\<rparr>
      in io_bind (io_lift (query_events_capped env q' store)) (\<lambda>queried.
         (let rows = sort_key ev_event_id queried
          in io_bind (case fmt of
                 Jsonl \<Rightarrow> export_jsonl ex env p rows
               | Csv \<Rightarrow> export_csv ex p rows
               | Parquet \<Rightarrow> export_parquet ex env p rows) (\<lambda>_.
             io_return (length rows))))))"

end
