(* ===== verification/Audit_Chain.thy ===== *)
theory Audit_Chain
  imports Audit_Store
begin

text \<open>
  What the hash chain of the audit store is worth: the states recording can reach, the chain and
  numbering invariant they keep, that verifying them finds nothing broken on any range, that two
  chains with the same last hash hold the same payloads unless a collision of SHA-256 is at hand,
  and what verifying does not look at.
\<close>

section \<open>Chains\<close>

fun chain_from :: "audit_env \<Rightarrow> rstr \<Rightarrow> stored_event list \<Rightarrow> bool" where
  "chain_from env prev [] \<longleftrightarrow> True"
| "chain_from env prev (r # rs) \<longleftrightarrow>
     ev_prev_hash r = prev \<and> ev_row_hash r = compute_row_hash env prev (normalized_payload_json r) \<and>
     chain_from env (ev_row_hash r) rs"

definition end_hash :: "rstr \<Rightarrow> stored_event list \<Rightarrow> rstr" where
  "end_hash prev rows = (if rows = [] then prev else ev_row_hash (last rows))"

lemma end_hash_simps [simp]:
  "end_hash prev [] = prev"
  "end_hash prev (r # rs) = end_hash (ev_row_hash r) rs"
  "end_hash prev (rs @ [r]) = ev_row_hash r"
  by (simp_all add: end_hash_def)

lemma chain_append:
  "chain_from env prev (xs @ ys) \<longleftrightarrow> chain_from env prev xs \<and> chain_from env (end_hash prev xs) ys"
  by (induction xs arbitrary: prev) auto

lemma last_row_end: "last_row_hash rows = end_hash genesis rows"
  by (simp add: last_row_hash_def end_hash_def)

text \<open>The number of complaints the verifying loop makes, without saturation.\<close>

fun mismatches :: "audit_env \<Rightarrow> rstr \<Rightarrow> stored_event list \<Rightarrow> nat" where
  "mismatches env prev [] = 0"
| "mismatches env prev (r # rs) =
     (if ev_prev_hash r \<noteq> prev then 1 else 0) +
     (if compute_row_hash env (ev_prev_hash r) (normalized_payload_json r) \<noteq> ev_row_hash r then 1 else 0) +
     mismatches env (ev_row_hash r) rs"

lemma mismatches_0: "mismatches env prev rows = 0 \<longleftrightarrow> chain_from env prev rows"
  by (induction rows arbitrary: prev) auto

lemma verify_loop_counts:
  assumes "broken_rows rep \<le> u64_max" and "checked_rows rep \<le> u64_max"
  shows "broken_rows (snd (verify_loop env rows (prev, rep))) =
      min (broken_rows rep + mismatches env prev rows) u64_max \<and>
    checked_rows (snd (verify_loop env rows (prev, rep))) =
      min (checked_rows rep + length rows) u64_max"
  using assms
proof (induction rows arbitrary: prev rep)
  case (Cons r rs)
  obtain e1 rep1 where step: "verify_row env r (prev, rep) = (e1, rep1)" by force
  have e1: "e1 = ev_row_hash r" using step by (simp add: verify_row_def Let_def)
  have rep1: "broken_rows rep1 = min (broken_rows rep +
        (if ev_prev_hash r \<noteq> prev then 1 else 0) +
        (if compute_row_hash env (ev_prev_hash r) (normalized_payload_json r) \<noteq> ev_row_hash r
         then 1 else 0)) u64_max"
      "checked_rows rep1 = min (checked_rows rep + 1) u64_max"
    using step Cons.prems
    by (auto simp: verify_row_def Let_def complain_def sat_add_def split: if_splits)
  have "broken_rows rep1 \<le> u64_max" "checked_rows rep1 \<le> u64_max" by (simp_all add: rep1)
  from Cons.IH[OF this, of e1] show ?case
    by (simp add: step e1 rep1 min_add_distrib_left) (auto simp: min_def)
qed simp

lemma verify_loop_details:
  "chain_from env prev rows \<Longrightarrow> details (snd (verify_loop env rows (prev, rep))) = details rep"
proof (induction rows arbitrary: prev rep)
  case (Cons r rs)
  then show ?case by (auto simp: verify_row_def Let_def)
qed simp

lemma loop_broken_0:
  "broken_rows (snd (verify_loop env rows (prev, empty_report))) = 0 \<longleftrightarrow> chain_from env prev rows"
proof -
  have "broken_rows (snd (verify_loop env rows (prev, empty_report))) =
      min (mismatches env prev rows) u64_max"
    using verify_loop_counts[of empty_report env rows prev] by (simp add: empty_report_def)
  then show ?thesis by (auto simp: mismatches_0[symmetric] min_def u64_max_def)
qed

lemma verify_clean:
  assumes "chain_from env prev rows"
  shows "snd (verify_loop env rows (prev, empty_report)) =
    \<lparr>checked_rows = min (length rows) u64_max, broken_rows = 0, details = []\<rparr>"
proof -
  let ?r = "snd (verify_loop env rows (prev, empty_report))"
  have "checked_rows ?r = min (length rows) u64_max" "broken_rows ?r = 0" "details ?r = []"
    using verify_loop_counts[of empty_report env rows prev] verify_loop_details[OF assms, of empty_report]
      loop_broken_0[of env rows prev] assms
    by (simp_all add: empty_report_def)
  then show ?thesis by (cases ?r) simp
qed

section \<open>What recording can reach\<close>

definition empty_db :: audit_db where
  "empty_db = \<lparr>db_events = [], db_manifests = [], db_snapshots = []\<rparr>"

text \<open>Any sequence of recordings, by stores with any keys and modes, under any clock and with any
  statement refused; the hash functions stay the same.\<close>

inductive audit_reach :: "(nat list \<Rightarrow> nat list) \<Rightarrow> (nat list \<Rightarrow> rstr) \<Rightarrow> audit_db \<Rightarrow> bool"
  for sha :: "nat list \<Rightarrow> nat list" and hex :: "nat list \<Rightarrow> rstr" where
  fresh: "audit_reach sha hex empty_db"
| event: "audit_reach sha hex (as_db store) \<Longrightarrow> ae_sha256 env = sha \<Longrightarrow> ae_hex env = hex \<Longrightarrow>
    audit_reach sha hex (as_db (fst (record_event env input store)))"
| snapshot: "audit_reach sha hex (as_db store) \<Longrightarrow>
    audit_reach sha hex (as_db (fst (record_config_snapshot env fingerprint text_json store)))"

definition numbered :: "stored_event list \<Rightarrow> bool" where
  "numbered rows \<longleftrightarrow> map ev_event_id rows = map int [1..<Suc (length rows)]"

definition manifest_ok :: "audit_env \<Rightarrow> stored_event list \<Rightarrow> audit_manifest \<Rightarrow> bool" where
  "manifest_ok env rows m \<longleftrightarrow>
     mf_end_event_id m mod MANIFEST_INTERVAL = 0 \<and>
     mf_start_event_id m = mf_end_event_id m - MANIFEST_INTERVAL + 1 \<and>
     1 \<le> mf_start_event_id m \<and> mf_end_event_id m \<le> int (length rows) \<and>
     mf_manifest_hash m = manifest_hash env rows (mf_start_event_id m) (mf_end_event_id m)"

definition audit_inv :: "audit_env \<Rightarrow> audit_db \<Rightarrow> bool" where
  "audit_inv env db \<longleftrightarrow>
     chain_from env genesis (db_events db) \<and> numbered (db_events db) \<and>
     (\<forall>m \<in> set (db_manifests db). manifest_ok env (db_events db) m)"

lemma numbered_nth: "numbered rows \<Longrightarrow> i < length rows \<Longrightarrow> ev_event_id (rows ! i) = int i + 1"
  unfolding numbered_def by (drule arg_cong[where f = "\<lambda>xs. xs ! i"]) (simp del: upt_Suc)

lemma numbered_next: "numbered rows \<Longrightarrow> next_row_id rows = int (length rows) + 1"
  using numbered_nth[of rows "length rows - 1"]
  by (cases rows rule: rev_cases) (auto simp: next_row_id_def nth_append)

lemma numbered_append: "numbered rows \<Longrightarrow> ev_event_id r = int (length rows) + 1 \<Longrightarrow> numbered (rows @ [r])"
  by (simp add: numbered_def)

lemma manifest_hash_append:
  assumes "ev_event_id r > last_event"
  shows "manifest_hash env (rows @ [r]) from_event last_event = manifest_hash env rows from_event last_event"
  using assms by (simp add: manifest_hash_def)

lemma same_hashes:
  assumes "ae_sha256 env = ae_sha256 env'" and "ae_hex env = ae_hex env'"
  shows "chain_from env prev rows = chain_from env' prev rows" and "manifest_ok env rows m = manifest_ok env' rows m"
proof -
  have h: "compute_row_hash env = compute_row_hash env'" using assms by (intro ext) (simp add: compute_row_hash_def)
  show "chain_from env prev rows = chain_from env' prev rows"
    by (induction rows arbitrary: prev) (simp_all add: h)
  show "manifest_ok env rows m = manifest_ok env' rows m"
    using assms by (simp add: manifest_ok_def manifest_hash_def)
qed

text \<open>A built row continues the chain.\<close>

lemma build_event_row:
  assumes "build_event env input store = Inr row"
  shows "ev_prev_hash row = last_row_hash (db_events (as_db store))"
    and "ev_row_hash row = compute_row_hash env (ev_prev_hash row) (normalized_payload_json row)"
    and "ev_event_id row = next_row_id (db_events (as_db store))"
    and "as_mode store = ReadWrite"
proof -
  from assms obtain prev ts readings flags payload where
      "prev = last_row_hash (db_events (as_db store))"
      "row = stored_row env store input ts readings flags prev (compute_row_hash env prev payload) payload"
    and mode: "as_mode store \<noteq> ReadOnly"
    by (auto simp: build_event_def rbind_Inr db_try_def ensure_writable_def split: option.splits if_splits)
  then show "ev_prev_hash row = last_row_hash (db_events (as_db store))"
    "ev_row_hash row = compute_row_hash env (ev_prev_hash row) (normalized_payload_json row)"
    "ev_event_id row = next_row_id (db_events (as_db store))"
    by (simp_all add: stored_row_def)
  show "as_mode store = ReadWrite" using mode by (cases "as_mode store") auto
qed

lemma manifest_step:
  assumes "maybe_create_manifest env e store = (store', r)"
  shows "db_events (as_db store') = db_events (as_db store) \<and>
    (db_manifests (as_db store') = db_manifests (as_db store) \<or>
     (\<exists>m. db_manifests (as_db store') = db_manifests (as_db store) @ [m] \<and>
        e mod MANIFEST_INTERVAL = 0 \<and> mf_end_event_id m = e \<and>
        mf_start_event_id m = e - MANIFEST_INTERVAL + 1 \<and>
        mf_manifest_hash m = manifest_hash env (db_events (as_db store)) (mf_start_event_id m) e))"
  using assms
  by (auto simp: maybe_create_manifest_def Let_def rbind_Inr db_try_def
      split: if_splits sum.splits option.splits)

lemma event_keeps_inv:
  assumes inv: "audit_inv env (as_db store)"
  shows "audit_inv env (as_db (fst (record_event env input store)))"
proof (cases "build_event env input store")
  case (Inl err)
  with inv show ?thesis by (simp add: record_event_def)
next
  case (Inr row)
  let ?rows = "db_events (as_db store)"
  define store1 where "store1 = store\<lparr>as_db := (as_db store)\<lparr>db_events := ?rows @ [row]\<rparr>\<rparr>"
  obtain store2 r where step: "maybe_create_manifest env (ev_event_id row) store1 = (store2, r)" by force
  have eq: "fst (record_event env input store) = store2"
    using Inr step by (simp add: record_event_def store1_def[symmetric] Let_def)
  from inv have chain: "chain_from env genesis ?rows" and num: "numbered ?rows"
    and man: "\<And>m. m \<in> set (db_manifests (as_db store)) \<Longrightarrow> manifest_ok env ?rows m"
    by (auto simp: audit_inv_def)
  have id: "ev_event_id row = int (length ?rows) + 1"
    using build_event_row(3)[OF Inr] numbered_next[OF num] by simp
  have rows2: "db_events (as_db store2) = ?rows @ [row]"
    using manifest_step[OF step] by (simp add: store1_def)
  have "chain_from env genesis (?rows @ [row])"
    using chain build_event_row(1,2)[OF Inr] by (simp add: chain_append last_row_end)
  moreover have "numbered (?rows @ [row])" using num id by (rule numbered_append)
  moreover have "manifest_ok env (?rows @ [row]) m" if "m \<in> set (db_manifests (as_db store2))" for m
  proof (cases "m \<in> set (db_manifests (as_db store))")
    case True
    from man[OF this] show ?thesis
      using id by (auto simp: manifest_ok_def manifest_hash_append)
  next
    case False
    with that manifest_step[OF step] have "ev_event_id row mod MANIFEST_INTERVAL = 0"
      "mf_end_event_id m = ev_event_id row" "mf_start_event_id m = ev_event_id row - MANIFEST_INTERVAL + 1"
      "mf_manifest_hash m = manifest_hash env (?rows @ [row]) (mf_start_event_id m) (ev_event_id row)"
      by (auto simp: store1_def)
    moreover have "MANIFEST_INTERVAL \<le> ev_event_id row"
      using calculation(1) id by (auto intro!: zdvd_imp_le)
    ultimately show ?thesis using id by (simp add: manifest_ok_def)
  qed
  ultimately show ?thesis by (simp add: audit_inv_def eq rows2)
qed

lemma snapshot_events:
  "db_events (as_db (fst (record_config_snapshot env f j store))) = db_events (as_db store)"
  "db_manifests (as_db (fst (record_config_snapshot env f j store))) = db_manifests (as_db store)"
  by (simp_all add: record_config_snapshot_def split: sum.split)

lemma reach_inv:
  "audit_reach sha hex db \<Longrightarrow> ae_sha256 env = sha \<Longrightarrow> ae_hex env = hex \<Longrightarrow> audit_inv env db"
proof (induction rule: audit_reach.induct)
  case fresh
  then show ?case by (simp add: audit_inv_def empty_db_def numbered_def)
next
  case (event store env' input)
  then have "audit_inv env' (as_db store)"
    using same_hashes[of env env'] by (simp add: audit_inv_def)
  from event_keeps_inv[OF this, of input] show ?case
    using same_hashes[of env env'] event by (simp add: audit_inv_def)
next
  case (snapshot store)
  then show ?case by (simp add: audit_inv_def snapshot_events)
qed

section \<open>Ranges\<close>

lemma numbered_snoc: "numbered (rows @ [r]) \<longleftrightarrow> numbered rows \<and> ev_event_id r = int (length rows) + 1"
  by (auto simp: numbered_def)

lemma find_app: "find P (xs @ ys) = (case find P xs of None \<Rightarrow> find P ys | Some x \<Rightarrow> Some x)"
  by (induction xs) auto

definition skipped :: "int option \<Rightarrow> nat" where
  "skipped lo = (case lo of None \<Rightarrow> 0 | Some a \<Rightarrow> nat (a - 1))"

definition last_kept :: "int option \<Rightarrow> stored_event list \<Rightarrow> nat" where
  "last_kept hi rows = (case hi of None \<Rightarrow> length rows | Some b \<Rightarrow> min (nat b) (length rows))"

lemma range_filter:
  "numbered rows \<Longrightarrow> filter (in_range lo hi) rows = drop (skipped lo) (take (last_kept hi rows) rows)"
proof (induction rows rule: rev_induct)
  case (snoc r rows)
  then have ih: "filter (in_range lo hi) rows = drop (skipped lo) (take (last_kept hi rows) rows)"
    and id: "ev_event_id r = int (length rows) + 1" by (simp_all add: numbered_snoc)
  have low: "(case lo of None \<Rightarrow> True | Some a \<Rightarrow> a \<le> ev_event_id r) \<longleftrightarrow> skipped lo \<le> length rows"
    by (auto simp: skipped_def id split: option.split)
  have high: "(case hi of None \<Rightarrow> True | Some b \<Rightarrow> ev_event_id r \<le> b) \<longleftrightarrow> last_kept hi (rows @ [r]) = Suc (length rows)"
    by (auto simp: last_kept_def id split: option.split)
  have short: "last_kept hi (rows @ [r]) \<noteq> Suc (length rows) \<Longrightarrow>
      last_kept hi (rows @ [r]) = last_kept hi rows \<and> last_kept hi rows \<le> length rows"
    by (auto simp: last_kept_def split: option.splits)
  have full: "last_kept hi (rows @ [r]) = Suc (length rows) \<Longrightarrow> last_kept hi rows = length rows"
    by (auto simp: last_kept_def split: option.splits)
  have new: "in_range lo hi r \<longleftrightarrow> skipped lo \<le> length rows \<and> last_kept hi (rows @ [r]) = Suc (length rows)"
    by (simp add: in_range_def low high)
  show ?case
    using short full by (auto simp: ih new)
qed (simp add: last_kept_def)

lemma find_numbered:
  assumes "numbered rows" and "1 \<le> k" and "k \<le> int (length rows)"
  shows "find (\<lambda>r. ev_event_id r = k) rows = Some (rows ! nat (k - 1))"
  using assms
proof (induction rows rule: rev_induct)
  case (snoc r rows)
  then have n: "numbered rows" "ev_event_id r = int (length rows) + 1" by (simp_all add: numbered_snoc)
  show ?case
  proof (cases "k \<le> int (length rows)")
    case True
    then have "find (\<lambda>r. ev_event_id r = k) rows = Some (rows ! nat (k - 1))" using snoc n by blast
    moreover have "nat (k - 1) < length rows" using True snoc.prems(2) by linarith
    ultimately show ?thesis by (simp add: find_app nth_append)
  next
    case False
    then have k: "k = int (length rows) + 1" using snoc.prems by simp
    have "ev_event_id x \<noteq> k" if member: "x \<in> set rows" for x
    proof -
      from member obtain j where "j < length rows" "x = rows ! j" by (auto simp: in_set_conv_nth)
      then show ?thesis using numbered_nth[OF n(1)] k by simp
    qed
    then have "find (\<lambda>r. ev_event_id r = k) rows = None" by (simp add: find_None_iff)
    with k n show ?thesis by (simp add: find_app nth_append)
  qed
qed simp

lemma chain_segment:
  assumes "chain_from env genesis rows"
  shows "chain_from env (end_hash genesis (take a rows)) (drop a (take b rows))"
proof (cases "a \<le> b")
  case True
  then have parts: "take b rows = take a rows @ drop a (take b rows)"
    by (metis append_take_drop_id min.absorb1 take_take)
  have "chain_from env genesis (take b rows)"
    using assms chain_append[of env genesis "take b rows" "drop b rows"] by simp
  then show ?thesis using chain_append parts by metis
qed simp

lemma start_hash:
  assumes "numbered (db_events (as_db store))"
    and "case lo of None \<Rightarrow> True | Some a \<Rightarrow> a \<le> int (length (db_events (as_db store))) + 1"
    and "ae_fault env SelectStartHash = None"
  shows "verify_start env lo store = Inr (end_hash genesis (take (skipped lo) (db_events (as_db store))))"
proof (cases lo)
  case (Some a)
  let ?rows = "db_events (as_db store)"
  show ?thesis
  proof (cases "a \<le> 1")
    case True
    with Some show ?thesis by (simp add: verify_start_def skipped_def)
  next
    case False
    define n where "n = nat (a - 2)"
    from False Some assms(2) have n: "n < length ?rows" "nat (a - 1) = Suc n" "a - 1 - 1 = int n"
      by (auto simp: n_def)
    have "find (\<lambda>r. ev_event_id r = a - 1) ?rows = Some (?rows ! n)"
      using find_numbered[OF assms(1), of "a - 1"] False Some assms(2) n by simp
    with n False Some assms(3) show ?thesis
      by (simp add: verify_start_def skipped_def db_try_def end_hash_def take_Suc_conv_app_nth)
  qed
qed (simp add: verify_start_def skipped_def)

section \<open>Properties\<close>

lemma recorded_clean:
  assumes "audit_reach (ae_sha256 env) (ae_hex env) (as_db store)"
    and "case lo of None \<Rightarrow> True | Some a \<Rightarrow> a \<le> int (length (db_events (as_db store))) + 1"
    and "ae_fault env SelectVerify = None" and "ae_fault env SelectStartHash = None"
  shows "\<exists>n \<le> length (db_events (as_db store)). audit_verify env lo hi store =
    Inr \<lparr>checked_rows = min n u64_max, broken_rows = 0, details = []\<rparr>"
proof -
  let ?rows = "db_events (as_db store)"
  from reach_inv[OF assms(1) refl refl] have chain: "chain_from env genesis ?rows" and num: "numbered ?rows"
    by (simp_all add: audit_inv_def)
  let ?seg = "drop (skipped lo) (take (last_kept hi ?rows) ?rows)"
  have "audit_verify env lo hi store =
      Inr (snd (verify_loop env ?seg (end_hash genesis (take (skipped lo) ?rows), empty_report)))"
    by (simp add: audit_verify_def db_try_def assms(3) start_hash[OF num assms(2,4)] range_filter[OF num])
  moreover have "length ?seg \<le> length ?rows" by simp
  ultimately show ?thesis unfolding verify_clean[OF chain_segment[OF chain]] by blast
qed

text \<open>C17: whatever is recorded, and whichever statements are refused on the way, the store verifies:
  on every range of rows that starts within the table the report has no broken row.\<close>

theorem recorded_chain_verifies:
  assumes "audit_reach (ae_sha256 env) (ae_hex env) (as_db store)"
    and "case lo of None \<Rightarrow> True | Some a \<Rightarrow> a \<le> int (length (db_events (as_db store))) + 1"
    and "ae_fault env SelectVerify = None" and "ae_fault env SelectStartHash = None"
  shows "\<exists>n \<le> length (db_events (as_db store)). audit_verify env lo hi store =
    Inr \<lparr>checked_rows = min n u64_max, broken_rows = 0, details = []\<rparr>"
  using assms by (rule recorded_clean)

text \<open>The columns of every manifest are right: it ends at a multiple of a thousand, covers the
  thousand rows up to there, and its hash is that of exactly these rows; rows are numbered from one
  without a gap and every row links to the one before.\<close>

theorem audit_reachable_inv:
  assumes "audit_reach (ae_sha256 env) (ae_hex env) db"
  shows "audit_inv env db"
  by (rule reach_inv[OF assms refl refl])

section \<open>Tampering\<close>

definition hashed_rows :: "stored_event list \<Rightarrow> nat list set" where
  "hashed_rows rows = (\<lambda>r. utf8_encode (ev_prev_hash r) @ utf8_encode (normalized_payload_json r)) ` set rows"

text \<open>Hexadecimal digests: 64 ASCII characters, none of them the first letter of the start marker.\<close>

definition digest_law :: "audit_env \<Rightarrow> bool" where
  "digest_law env \<longleftrightarrow>
     (\<forall>b. length (ae_hex env (ae_sha256 env b)) = 64 \<and>
        list_all (\<lambda>c. c < 128 \<and> c \<noteq> 71) (ae_hex env (ae_sha256 env b)))"

definition row_digest :: "audit_env \<Rightarrow> nat list \<Rightarrow> rstr" where
  "row_digest env b = ae_hex env (ae_sha256 env b)"

lemma row_hash_digest: "compute_row_hash env prev payload = row_digest env (utf8_encode prev @ utf8_encode payload)"
  by (simp add: compute_row_hash_def row_digest_def)

lemma ascii_encode: "list_all (\<lambda>c. c < 128) t \<Longrightarrow> utf8_encode t = t"
  by (induction t) (simp_all add: utf8_char_def)

lemma genesis_encode: "utf8_encode genesis = genesis" "genesis \<noteq> []" "hd genesis = 71" "length genesis = 7"
  by (simp_all add: genesis_def lit_def utf8_char_def)

lemma chain_end_cases:
  assumes "chain_from env genesis rows"
  shows "end_hash genesis rows = genesis \<and> rows = [] \<or> (\<exists>b. end_hash genesis rows = row_digest env b)"
proof (cases rows rule: rev_cases)
  case (snoc xs r)
  with assms have "ev_row_hash r = row_digest env
      (utf8_encode (ev_prev_hash r) @ utf8_encode (normalized_payload_json r))"
    by (auto simp: chain_append row_hash_digest)
  with snoc show ?thesis by auto
qed simp

lemma digest_not_genesis:
  assumes "digest_law env"
  shows "row_digest env b \<noteq> genesis" "utf8_encode (row_digest env b) = row_digest env b"
    "hd (row_digest env b @ t) \<noteq> 71" "length (row_digest env b) = 64"
proof -
  have d: "length (row_digest env b) = 64" "list_all (\<lambda>c. c < 128 \<and> c \<noteq> 71) (row_digest env b)"
    using assms by (auto simp: digest_law_def row_digest_def)
  then show "length (row_digest env b) = 64" by simp
  show "utf8_encode (row_digest env b) = row_digest env b"
    using d(2) by (intro ascii_encode) (auto simp: list_all_iff)
  have "row_digest env b \<noteq> []" using d(1) by auto
  then show hd: "hd (row_digest env b @ t) \<noteq> 71" for t
    using d(2) by (cases "row_digest env b") auto
  show "row_digest env b \<noteq> genesis" using hd[of "[]"] genesis_encode by auto
qed

text \<open>A hashed text determines its two parts.\<close>

lemma hash_input_parts:
  assumes law: "digest_law env"
    and ends: "e1 = genesis \<or> (\<exists>b. e1 = row_digest env b)" "e2 = genesis \<or> (\<exists>b. e2 = row_digest env b)"
    and eq: "utf8_encode e1 @ p1 = utf8_encode e2 @ p2"
  shows "e1 = e2 \<and> p1 = p2"
proof -
  note d = digest_not_genesis[OF law]
  have enc: "utf8_encode e1 = e1" "utf8_encode e2 = e2" using ends d(2) genesis_encode(1) by auto
  have head: "hd (e1 @ p1) = hd (e2 @ p2)" using eq by (simp add: enc)
  have "length e1 = length e2"
    using ends head d(3,4) genesis_encode by (auto simp: hd_append)
  with eq show ?thesis by (simp add: enc)
qed

lemma end_hash_commits:
  assumes law: "digest_law env"
  shows "chain_from env genesis xs \<Longrightarrow> chain_from env genesis ys \<Longrightarrow>
    end_hash genesis xs = end_hash genesis ys \<Longrightarrow>
    map (utf8_encode \<circ> normalized_payload_json) xs = map (utf8_encode \<circ> normalized_payload_json) ys \<or>
    (\<exists>a \<in> hashed_rows xs. \<exists>b \<in> hashed_rows ys. a \<noteq> b \<and> row_digest env a = row_digest env b)"
proof (induction xs arbitrary: ys rule: rev_induct)
  case Nil
  then have "ys = []" using chain_end_cases[of env ys] digest_not_genesis(1)[OF law] by (metis end_hash_simps(1))
  then show ?case by simp
next
  case (snoc x xs)
  have xs: "chain_from env genesis xs" "ev_prev_hash x = end_hash genesis xs"
    and x: "ev_row_hash x = row_digest env (utf8_encode (ev_prev_hash x) @ utf8_encode (normalized_payload_json x))"
    using snoc.prems(1) by (auto simp: chain_append row_hash_digest)
  show ?case
  proof (cases ys rule: rev_cases)
    case Nil
    with snoc.prems(3) x digest_not_genesis(1)[OF law] show ?thesis by auto
  next
    case (snoc zs z)
    have zs: "chain_from env genesis zs" "ev_prev_hash z = end_hash genesis zs"
      and z: "ev_row_hash z = row_digest env (utf8_encode (ev_prev_hash z) @ utf8_encode (normalized_payload_json z))"
      using \<open>chain_from env genesis ys\<close> by (auto simp: snoc chain_append row_hash_digest)
    let ?a = "utf8_encode (ev_prev_hash x) @ utf8_encode (normalized_payload_json x)"
      and ?b = "utf8_encode (ev_prev_hash z) @ utf8_encode (normalized_payload_json z)"
    have digest: "row_digest env ?a = row_digest env ?b" using \<open>end_hash genesis (xs @ [x]) = _\<close> x z snoc by simp
    show ?thesis
    proof (cases "?a = ?b")
      case False
      with digest show ?thesis by (auto simp: snoc hashed_rows_def)
    next
      case True
      then have "ev_prev_hash x = ev_prev_hash z \<and>
          utf8_encode (normalized_payload_json x) = utf8_encode (normalized_payload_json z)"
        using chain_end_cases[OF xs(1)] chain_end_cases[OF zs(1)]
        by (intro hash_input_parts[OF law]) (auto simp: xs(2) zs(2))
      with snoc.IH[OF xs(1) zs(1)] show ?thesis by (auto simp: snoc xs(2) zs(2) hashed_rows_def)
    qed
  qed
qed

text \<open>C18: the last row hash commits to the whole history: two stores that both verify without a
  broken row and end in the same hash hold the same payloads, byte for byte and in the same order,
  unless two different texts hashed in them have the same digest.\<close>

theorem tamper_evident:
  assumes law: "digest_law env"
    and clean: "audit_verify env None None s1 = Inr r1" "broken_rows r1 = 0"
      "audit_verify env None None s2 = Inr r2" "broken_rows r2 = 0"
    and same_end: "last_row_hash (db_events (as_db s1)) = last_row_hash (db_events (as_db s2))"
  shows "map (utf8_encode \<circ> normalized_payload_json) (db_events (as_db s1)) =
      map (utf8_encode \<circ> normalized_payload_json) (db_events (as_db s2)) \<or>
    (\<exists>a \<in> hashed_rows (db_events (as_db s1)). \<exists>b \<in> hashed_rows (db_events (as_db s2)).
       a \<noteq> b \<and> row_digest env a = row_digest env b)"
proof -
  have chained: "chain_from env genesis (db_events (as_db s))"
    if "audit_verify env None None s = Inr r" "broken_rows r = 0" for s r
  proof -
    have "filter (in_range None None) rows = rows" for rows by (simp add: in_range_def)
    with that show ?thesis
      by (auto simp: audit_verify_def verify_start_def rbind_Inr db_try_def loop_broken_0 split: option.splits)
  qed
  show ?thesis
    using end_hash_commits[OF law chained[OF clean(1,2)] chained[OF clean(3,4)]] same_end by (simp add: last_row_end)
qed

section \<open>What is not protected\<close>

definition rewrite_columns :: "rstr \<Rightarrow> rstr \<Rightarrow> audit_store \<Rightarrow> audit_store" where
  "rewrite_columns action reason store =
     store\<lparr>as_db := (as_db store)\<lparr>db_events := map (\<lambda>r. r\<lparr>ev_selected_action := action,
       ev_suppressed_reason := reason\<rparr>) (db_events (as_db store))\<rparr>\<rparr>"

lemma verify_loop_columns:
  "verify_loop env (map (\<lambda>r. r\<lparr>ev_selected_action := a, ev_suppressed_reason := b\<rparr>) rows) acc =
   verify_loop env rows acc"
proof (induction rows arbitrary: acc)
  case (Cons r rows)
  have "verify_row env (r\<lparr>ev_selected_action := a, ev_suppressed_reason := b\<rparr>) acc = verify_row env r acc"
    by (simp add: verify_row_def case_prod_beta Let_def)
  with Cons show ?case by simp
qed simp

lemma filter_columns:
  "filter (in_range lo hi) (map (\<lambda>r. r\<lparr>ev_selected_action := a, ev_suppressed_reason := b\<rparr>) rows) =
   map (\<lambda>r. r\<lparr>ev_selected_action := a, ev_suppressed_reason := b\<rparr>) (filter (in_range lo hi) rows)"
  proof -
  have "in_range lo hi (r\<lparr>ev_selected_action := a, ev_suppressed_reason := b\<rparr>) = in_range lo hi r" for r
    by (simp add: in_range_def cong: option.case_cong)
  then show ?thesis by (simp add: filter_map comp_def)
qed

lemma find_columns:
  "find (\<lambda>r. ev_event_id r = k) (map (\<lambda>r. r\<lparr>ev_selected_action := a, ev_suppressed_reason := b\<rparr>) rows) =
   map_option (\<lambda>r. r\<lparr>ev_selected_action := a, ev_suppressed_reason := b\<rparr>) (find (\<lambda>r. ev_event_id r = k) rows)"
  by (induction rows) auto

lemma verify_columns:
  "audit_verify env lo hi (rewrite_columns action reason store) = audit_verify env lo hi store \<and>
   (\<forall>k. audit_inspect env k (rewrite_columns action reason store) =
      rbind (audit_inspect env k store) (\<lambda>row. Inr (map_option
        (\<lambda>r. r\<lparr>ev_selected_action := action, ev_suppressed_reason := reason\<rparr>) row)))"
proof -
  have start: "verify_start env lo (rewrite_columns action reason store) = verify_start env lo store"
    by (cases lo) (auto simp: verify_start_def rewrite_columns_def find_columns rbind_def db_try_def
        split: option.splits sum.splits)
  have cols: "map_audit_event_row (r\<lparr>ev_selected_action := action, ev_suppressed_reason := reason\<rparr>) =
      (map_audit_event_row r)\<lparr>ev_selected_action := action, ev_suppressed_reason := reason\<rparr>" for r
    by (simp add: map_audit_event_row_def audit_event_row.truncate_def)
  have events: "db_events (as_db (rewrite_columns action reason store)) =
      map (\<lambda>r. r\<lparr>ev_selected_action := action, ev_suppressed_reason := reason\<rparr>) (db_events (as_db store))"
    by (simp add: rewrite_columns_def)
  have "audit_verify env lo hi (rewrite_columns action reason store) = audit_verify env lo hi store"
    unfolding audit_verify_def start events filter_columns
    by (cases "ae_fault env SelectVerify") (simp_all add: db_try_def verify_loop_columns)
  moreover have "audit_inspect env k (rewrite_columns action reason store) =
      rbind (audit_inspect env k store) (\<lambda>row. Inr (map_option
        (\<lambda>r. r\<lparr>ev_selected_action := action, ev_suppressed_reason := reason\<rparr>) row))" for k
    unfolding audit_inspect_def events find_columns
    by (cases "ae_fault env SelectOne") (simp_all add: db_try_def option.map_comp comp_def cols)
  ultimately show ?thesis by blast
qed

text \<open>Verification reads four columns only: a table whose displayed action and reason are
  rewritten row by row verifies exactly as before, while the rows shown to the operator are the
  rewritten ones.\<close>

theorem verify_ignores_columns:
  "audit_verify env lo hi (rewrite_columns action reason store) = audit_verify env lo hi store \<and>
   (\<forall>k. audit_inspect env k (rewrite_columns action reason store) =
      rbind (audit_inspect env k store) (\<lambda>row. Inr (map_option
        (\<lambda>r. r\<lparr>ev_selected_action := action, ev_suppressed_reason := reason\<rparr>) row)))"
  by (rule verify_columns)

section \<open>Queries and exports\<close>

text \<open>The rows a query looks at: the newest ones within the limit.\<close>

definition newest :: "nat \<Rightarrow> audit_store \<Rightarrow> audit_event_row list" where
  "newest n store = map map_audit_event_row (take n (rev (db_events (as_db store))))"

definition query_limit :: "audit_query_filter \<Rightarrow> audit_store \<Rightarrow> nat" where
  "query_limit q store =
     min (case qf_limit q of Some n \<Rightarrow> n | None \<Rightarrow> as_query_max_rows store) (as_query_max_rows store)"

lemma query_capped:
  assumes "as_query_max_rows store < 2 ^ 63" and "query_events_capped env q store = Inr rows"
  shows "rows = filter (\<lambda>r. passes_filter r q) (newest (query_limit q store) store)"
proof -
  have "query_limit q store < 2 ^ 63" using assms(1) by (simp add: query_limit_def)
  then have "sql_limit (as_i64 (query_limit q store)) xs = take (query_limit q store) xs" for xs :: "stored_event list"
    by (simp add: sql_limit_def as_i64_def)
  then show ?thesis
    using assms(2)
    by (auto simp: query_events_capped_def query_limit_def[symmetric] Let_def rbind_Inr db_try_def
        newest_def split: option.splits)
qed

lemma newest_sorted:
  assumes "numbered (db_events (as_db store))"
  shows "sorted (map (\<lambda>e. - ev_event_id e) (newest n store))"
proof -
  have id: "ev_event_id (map_audit_event_row r) = ev_event_id r" for r
    by (simp add: map_audit_event_row_def audit_event_row.truncate_def)
  have "sorted (map ev_event_id (db_events (as_db store)))"
    using assms unfolding numbered_def by (simp del: upt_Suc add: sorted_wrt_map)
  then have "sorted (map (\<lambda>e. - ev_event_id e) (rev (db_events (as_db store))))"
    by (simp add: sorted_wrt_rev sorted_wrt_map)
  then have "sorted (take n (map (\<lambda>e. - ev_event_id e) (rev (db_events (as_db store)))))" by simp
  then show ?thesis by (simp add: newest_def comp_def id take_map)
qed

text \<open>C19: a tail shows the newest matching rows first, but only of the rows within the limit: the
  limit is applied before the filter, so a matching row that is older than the newest \<open>limit\<close> rows
  is never shown, however few rows match.\<close>

theorem audit_tail_exact:
  assumes "numbered (db_events (as_db store))" and "as_query_max_rows store < 2 ^ 63"
    and "audit_tail env q store = Inr rows"
  shows "rows = take (min (case qf_limit q of Some n \<Rightarrow> n | None \<Rightarrow> 100) (as_query_max_rows store))
    (filter (\<lambda>r. passes_filter r q) (newest (query_limit q store) store))"
proof -
  from assms(3) obtain events where ev: "query_events_capped env q store = Inr events"
    and rows: "rows = take (min (case qf_limit q of Some n \<Rightarrow> n | None \<Rightarrow> 100) (as_query_max_rows store))
      (sort_key (\<lambda>e. - ev_event_id e) events)"
    by (auto simp: audit_tail_def rbind_Inr Let_def)
  have events: "events = filter (\<lambda>r. passes_filter r q) (newest (query_limit q store) store)"
    by (rule query_capped[OF assms(2) ev])
  have "sorted (map (\<lambda>e. - ev_event_id e) events)"
    unfolding events using newest_sorted[OF assms(1)] by (rule sorted_filter)
  then have "sort_key (\<lambda>e. - ev_event_id e) events = events" by (rule sort_key_id_if_sorted)
  with rows events show ?thesis by simp
qed

definition others_kept :: "path \<Rightarrow> fs \<Rightarrow> fs \<Rightarrow> bool" where
  "others_kept p s s' \<longleftrightarrow> (\<forall>f. f \<noteq> p \<longrightarrow> fs_file s' f = fs_file s f)"

lemma others_refl: "others_kept p s s"
  and others_trans: "others_kept p s t \<Longrightarrow> others_kept p t u \<Longrightarrow> others_kept p s u"
  and others_same: "same_files s t \<Longrightarrow> others_kept p s t"
  by (simp_all add: others_kept_def same_files_file)

lemma others_bind:
  "(\<And>s. others_kept p s (fst (m s))) \<Longrightarrow> (\<And>a s. others_kept p s (fst (f a s))) \<Longrightarrow>
   others_kept p s (fst (io_bind m f s))"
  by (rule io_bind_keeps[where R = "others_kept p"]) (auto intro: others_trans)

lemma others_lift: "others_kept p s (fst (io_lift r s))" "others_kept p s (fst (io_return a s))"
  by (simp_all add: others_refl)

lemma validate_others: "others_kept p s (fst (validate_export_output_path ex p s))"
proof -
  have "others_kept p s (fst (io_bind (fs_create_dir_all io d) (\<lambda>_. io_lift r) s))"
    for io d s and r :: "rstr + unit"
    by (rule others_bind[OF others_same[OF create_dir_all_same] others_lift(1)])
  then show ?thesis
    by (auto simp: validate_export_output_path_def others_refl simp del: io_simps split: option.split)
qed

lemma write_others: "others_kept p s (fst (write_output ex p out s))"
proof -
  have "others_kept p s (fst (fs_write_new (ex_io ex) p b s))" for b s
    by (cases rule: write_new_cases[where env = "ex_io ex" and p = p and b = b and s = s])
      (simp_all add: others_refl, simp add: others_kept_def)
  then show ?thesis
    unfolding write_output_def by (intro others_bind others_lift)
qed

lemma export_others: "others_kept p s (fst (audit_export ex env fmt p q store s))"
  unfolding audit_export_def Let_def
  by (intro others_bind validate_others others_lift; cases fmt)
    (auto simp: export_jsonl_def export_csv_def export_parquet_def simp del: io_simps
      intro!: write_others others_bind others_lift)

text \<open>C20: an export never touches a file that exists: it is refused then and changes nothing, and
  in any case no file but the destination is written; the number of rows it reports is within both
  the export limit and the query limit.\<close>

theorem audit_export_safe:
  "case audit_export ex env fmt p q store s of (s', res) \<Rightarrow>
     (\<forall>f. f \<noteq> p \<longrightarrow> fs_file s' f = fs_file s f) \<and>
     (fs_exists s p \<longrightarrow> s' = s \<and> (\<exists>err. res = Inl err)) \<and>
     (\<forall>n. res = Inr n \<longrightarrow> as_query_max_rows store < 2 ^ 63 \<longrightarrow>
        n \<le> as_export_max_rows store \<and> n \<le> as_query_max_rows store)"
proof -
  let ?q = "q\<lparr>qf_limit := Some (min
      (case qf_limit q of Some n \<Rightarrow> n | None \<Rightarrow> as_export_max_rows store) (as_export_max_rows store))\<rparr>"
  have refused: "audit_export ex env fmt p q store s = (s, Inl e)"
    if "validate_export_output_path ex p s = (s, Inl e)" for e
    using that by (simp add: audit_export_def io_bind_def)
  have exists: "\<exists>e. validate_export_output_path ex p s = (s, Inl e)" if "fs_exists s p"
    using that by (auto simp: validate_export_output_path_def fs_exists_def fs_node_def)
  have counted: "n \<le> as_export_max_rows store \<and> n \<le> as_query_max_rows store"
    if "snd (audit_export ex env fmt p q store s) = Inr n" "as_query_max_rows store < 2 ^ 63" for n
  proof -
    from that(1) obtain rows where rows: "query_events_capped env ?q store = Inr rows" "n = length rows"
      by (auto simp: audit_export_def io_bind_Inr Let_def)
    have "n \<le> query_limit ?q store"
      unfolding rows(2) query_capped[OF that(2) rows(1)]
      by (rule order_trans[OF length_filter_le]) (simp add: newest_def)
    then show ?thesis by (simp add: query_limit_def split: option.splits)
  qed
  show ?thesis
    using export_others[of p s ex env fmt q store] exists refused counted
    by (auto simp: others_kept_def case_prod_beta)
qed

text \<open>Without a key no identifier leaves a trace: the table after recording an event does not
  depend on the user, message, channel or guild it names.\<close>

theorem unkeyed_ids_vanish:
  assumes "as_pseudo_id_hmac_key store = None"
  shows "record_event env (input\<lparr>in_guild_id := g, in_channel_id := c, in_user_id := u,
      in_message_id := m\<rparr>) store = record_event env input store"
proof -
  have "pseudo_id env store i = []" for i
    using assms by (simp add: pseudo_id_def split: option.split)
  then have "event_payload env store (input\<lparr>in_guild_id := g, in_channel_id := c, in_user_id := u,
      in_message_id := m\<rparr>) = event_payload env store input"
    and "stored_row env store (input\<lparr>in_guild_id := g, in_channel_id := c, in_user_id := u,
      in_message_id := m\<rparr>) = stored_row env store input"
    by (simp_all add: event_payload_def stored_row_def fun_eq_iff)
  then have "build_event env (input\<lparr>in_guild_id := g, in_channel_id := c, in_user_id := u,
      in_message_id := m\<rparr>) store = build_event env input store"
    by (simp add: build_event_def)
  then show ?thesis by (simp add: record_event_def)
qed

section \<open>A concrete store\<close>

definition sample_audit :: audit_env where
  "sample_audit =
     \<lparr>ae_fault = (\<lambda>_. None), ae_now = Inr (lit ''t''), ae_json = (\<lambda>_. Inr (lit ''{}'')),
      ae_row_json = (\<lambda>_. Inr (lit ''{}'')), ae_sha256 = (\<lambda>b. b),
      ae_hex = (\<lambda>b. replicate 63 48 @ [48 + sum_list b mod 10]), ae_hmac = (\<lambda>_. Inr (\<lambda>m. m))\<rparr>"

definition sample_new_store :: audit_store where
  "sample_new_store =
     \<lparr>as_db = empty_db, as_mode = ReadWrite, as_pseudo_id_hmac_key = None,
      as_export_max_rows = 100, as_query_max_rows = 100\<rparr>"

definition sample_event :: audit_event_input where
  "sample_event = audit_event_input_default (lit ''1'')"

definition sample_audit_store :: audit_store where
  "sample_audit_store = fst (record_event sample_audit sample_event sample_new_store)"

lemma sample_audit_reach: "audit_reach (ae_sha256 sample_audit) (ae_hex sample_audit) (as_db sample_audit_store)"
  unfolding sample_audit_store_def
  by (rule audit_reach.event) (simp_all add: sample_new_store_def audit_reach.fresh)

lemma sample_audit_rows: "length (db_events (as_db sample_audit_store)) = 1" "as_query_max_rows sample_audit_store = 100"
  by (simp_all add: sample_audit_store_def record_event_def build_event_def sample_audit_def sample_new_store_def
      ensure_writable_def db_try_def maybe_create_manifest_def stored_row_def next_row_id_def empty_db_def
      MANIFEST_INTERVAL_def)

lemma sample_no_audit_fault: "ae_fault sample_audit = (\<lambda>_. None)"
  by (simp add: sample_audit_def)

theorem recorded_chain_verifies_witness:
  "\<exists>r. audit_verify sample_audit (Some 1) None sample_audit_store = Inr r \<and> broken_rows r = 0"
  using recorded_chain_verifies[OF sample_audit_reach, of "Some 1" None]
  by (auto simp: sample_audit_rows sample_no_audit_fault)

theorem audit_reachable_inv_witness: "audit_inv sample_audit (as_db sample_audit_store)"
  by (rule audit_reachable_inv[OF sample_audit_reach])

lemma sample_clean: "\<exists>r. audit_verify sample_audit None None sample_audit_store = Inr r \<and> broken_rows r = 0"
proof -
  have "chain_from sample_audit genesis (db_events (as_db sample_audit_store))"
    using reach_inv[OF sample_audit_reach refl refl] by (simp add: audit_inv_def)
  then show ?thesis
    by (auto simp: audit_verify_def verify_start_def db_try_def sample_no_audit_fault in_range_def loop_broken_0)
qed

lemma sample_digests: "digest_law sample_audit"
  unfolding digest_law_def
proof
  fix b :: "nat list"
  have "sum_list b mod 10 < 10" by simp
  then have "48 + sum_list b mod 10 < 128 \<and> 48 + sum_list b mod 10 \<noteq> 71" by linarith
  then show "length (ae_hex sample_audit (ae_sha256 sample_audit b)) = 64 \<and>
      list_all (\<lambda>c. c < 128 \<and> c \<noteq> 71) (ae_hex sample_audit (ae_sha256 sample_audit b))"
    by (simp add: sample_audit_def list_all_iff)
qed

abbreviation sample_rewritten :: audit_store where
  "sample_rewritten \<equiv> rewrite_columns (lit ''noop'') (lit ''cooldown'') sample_audit_store"

lemma sample_rewritten_clean:
  "\<exists>r. audit_verify sample_audit None None sample_rewritten = Inr r \<and> broken_rows r = 0"
  using sample_clean verify_columns[of sample_audit None None] by simp

theorem tamper_evident_witness:
  "map (utf8_encode \<circ> normalized_payload_json) (db_events (as_db sample_rewritten)) =
     map (utf8_encode \<circ> normalized_payload_json) (db_events (as_db sample_audit_store)) \<or>
   (\<exists>x \<in> hashed_rows (db_events (as_db sample_rewritten)).
      \<exists>y \<in> hashed_rows (db_events (as_db sample_audit_store)).
        x \<noteq> y \<and> row_digest sample_audit x = row_digest sample_audit y)"
proof -
  have "last_row_hash (db_events (as_db sample_rewritten)) = last_row_hash (db_events (as_db sample_audit_store))"
    by (simp add: rewrite_columns_def last_row_hash_def last_map)
  then show ?thesis
    using sample_clean sample_rewritten_clean tamper_evident[OF sample_digests] by blast
qed

theorem verify_ignores_columns_witness:
  "audit_verify sample_audit None None sample_rewritten = audit_verify sample_audit None None sample_audit_store"
  using verify_ignores_columns by blast

definition any_event :: audit_query_filter where
  "any_event =
     \<lparr>qf_start_ts_utc = None, qf_end_ts_utc = None, qf_event_type = None, qf_detector_backend = None,
      qf_suppressed_reason = None, qf_mode = None, qf_limit = Some 1\<rparr>"

theorem audit_tail_exact_witness:
  "\<exists>rows. audit_tail sample_audit any_event sample_audit_store = Inr rows \<and> length rows \<le> 1"
proof -
  have num: "numbered (db_events (as_db sample_audit_store))"
    using reach_inv[OF sample_audit_reach refl refl] by (simp add: audit_inv_def)
  obtain rows where rows: "audit_tail sample_audit any_event sample_audit_store = Inr rows"
    by (auto simp: audit_tail_def query_events_capped_def db_try_def sample_no_audit_fault Let_def)
  have small: "as_query_max_rows sample_audit_store < 2 ^ 63" by (simp add: sample_audit_rows)
  from audit_tail_exact[OF num small rows] rows show ?thesis by (auto simp: any_event_def)
qed

definition sample_export :: export_env where
  "sample_export =
     \<lparr>ex_io = \<lparr>io_fault = (\<lambda>_. None), io_temp_dir = (\<lambda>d. d)\<rparr>, ex_is_symlink = (\<lambda>_. False),
      ex_csv = (\<lambda>_. ([], None)), ex_parquet = (\<lambda>_. ([], None))\<rparr>"

theorem audit_export_safe_witness:
  "fst (audit_export sample_export sample_audit Jsonl (path_of (lit ''a'')) any_event sample_audit_store
     (\<lambda>p. Some (File [1]))) = (\<lambda>p. Some (File [1]))"
proof -
  have "path_of (lit ''a'') \<noteq> empty_path"
    by (simp add: path_of_def lit_def empty_path_def component_of_def)
  then have "fs_exists (\<lambda>p. Some (File [1])) (path_of (lit ''a''))"
    by (simp add: fs_exists_def fs_node_def)
  with audit_export_safe[where ex = sample_export and env = sample_audit and fmt = Jsonl and
      p = "path_of (lit ''a'')" and q = any_event and store = sample_audit_store
      and s = "\<lambda>p. Some (File [1])"]
  show ?thesis by (auto simp: case_prod_beta)
qed

theorem unkeyed_ids_vanish_witness:
  "record_event sample_audit (sample_event\<lparr>in_guild_id := Some 7, in_channel_id := Some 8,
     in_user_id := Some 9, in_message_id := Some 10\<rparr>) sample_new_store =
   record_event sample_audit sample_event sample_new_store"
  by (rule unkeyed_ids_vanish) (simp add: sample_new_store_def)

end
