(* ===== verification/Core_Recovery.thy ===== *)
theory Core_Recovery
  imports Core_Runs
begin

text \<open>
  The core comes back: nothing that happened in the past silences it for longer than a quiet
  period read off its configuration.  Open breaker, sandbox failures, cooldowns, remembered
  messages and spent tokens all expire.
\<close>

text \<open>The longest that any of them lasts; twenty seconds earn more than one token at the slowest rate.\<close>

definition quiet_period :: "runtime_protection_config \<Rightarrow> duration" where
  "quiet_period rt =
     Max {20000000000, from_millis (duplicate_ttl_ms rt) + 1,
          from_millis (sandbox_failure_window_ms rt) + 1, from_millis (breaker_open_ms rt),
          from_millis (per_user_cooldown_ms rt), from_millis (per_channel_cooldown_ms rt),
          from_millis (per_guild_cooldown_ms rt), from_millis (global_cooldown_ms rt)}"

section \<open>What no operation changes\<close>

definition settings_kept :: "runtime_protection_config \<Rightarrow> 'a trusted_core \<Rightarrow> bool" where
  "settings_kept rt c \<longleftrightarrow>
     cd_ttl (tc_user_cooldown c) = from_millis (per_user_cooldown_ms rt) \<and>
     cd_ttl (tc_channel_cooldown c) = from_millis (per_channel_cooldown_ms rt) \<and>
     cd_ttl (tc_guild_cooldown c) = from_millis (per_guild_cooldown_ms rt) \<and>
     cd_ttl (tc_global_cooldown c) = from_millis (global_cooldown_ms rt) \<and>
     cb_open_for (tc_breaker c) = from_millis (breaker_open_ms rt) \<and>
     dg_ttl (tc_duplicate_guard c) = from_millis (duplicate_ttl_ms rt) \<and>
     1 \<le> tb_capacity (tc_outbound_bucket c) \<and>
     f64_round (1 / 10) \<le> tb_refill_per_sec (tc_outbound_bucket c) \<and>
     sandbox_failure_window_ms (tc_runtime c) = sandbox_failure_window_ms rt \<and>
     sandbox_failure_threshold (tc_runtime c) = sandbox_failure_threshold rt \<and>
     max_actions_per_message (tc_runtime c) = max_actions_per_message rt"

lemma settings_new:
  assumes "global_rate_burst rt \<le> u32_max"
  shows "settings_kept rt (core_new a cfg rt t0)"
  using f64_round_u32[OF max_u32[OF assms]]
  by (simp add: settings_kept_def core_new_def cooldown_map_new_def breaker_new_def
      duplicate_guard_new_def token_bucket_new_def Let_def)

lemma bucket_kept:
  "tb_capacity (tc_outbound_bucket (fst (core_apply env op now c))) = tb_capacity (tc_outbound_bucket c) \<and>
   tb_refill_per_sec (tc_outbound_bucket (fst (core_apply env op now c))) =
   tb_refill_per_sec (tc_outbound_bucket c)"
proof (cases "\<exists>ctx content. op = Decide ctx content")
  case True
  then obtain ctx content where "op = Decide ctx content" by blast
  then show ?thesis using decide_bucket[of env ctx content now c] by (auto simp: core_apply_decide)
next
  case False
  then have "tc_outbound_bucket (fst (core_apply env op now c)) = tc_outbound_bucket c"
    by (intro core_apply_other(6)) blast
  then show ?thesis by simp
qed

lemma settings_apply:
  "settings_kept rt c \<Longrightarrow> settings_kept rt (fst (core_apply env op now c))"
  unfolding settings_kept_def user_runs.ttl_step channel_runs.ttl_step guild_runs.ttl_step
    global_runs.ttl_step bucket_kept[THEN conjunct1] bucket_kept[THEN conjunct2]
  by (cases op)
    (simp_all add: core_apply_def case_prod_beta frame_simps setter_defs record_http_status_def
      breaker_record_fields Let_def)

section \<open>What is not in the future\<close>

definition past_only :: "'a trusted_core \<Rightarrow> instant \<Rightarrow> bool" where
  "past_only c clock \<longleftrightarrow>
     (\<forall>i t. map_of (dg_seen (tc_duplicate_guard c)) i = Some t \<longrightarrow> t \<le> clock) \<and>
     tb_last_refill (tc_outbound_bucket c) \<le> clock"

lemma past_new: "past_only (core_new a cfg rt t0) t0"
  by (simp add: past_only_def core_new_def duplicate_guard_new_def token_bucket_new_def Let_def)

lemma past_apply:
  assumes "iteration_order (env_order env)" and "guard_inv (tc_duplicate_guard c)"
    and "past_only c clock" and "clock \<le> now"
  shows "past_only (fst (core_apply env op now c)) now"
proof (cases "\<exists>ctx content. op = Decide ctx content")
  case True
  then obtain ctx content where op: "op = Decide ctx content" by blast
  have "t \<le> now" if "map_of (dg_seen (fst (is_duplicate_and_mark (env_order env) (tc_duplicate_guard c)
      (message_id ctx) now))) i = Some t" for i t
    using mark_map_subset[OF assms(1,2) that] assms(3,4) unfolding past_only_def
    by (auto intro: order_trans)
  moreover have "tb_last_refill (bucket_refill (tc_outbound_bucket c) now) \<le> now"
    using last_refill_credit[of "tc_outbound_bucket c" now] assms(3,4) unfolding past_only_def by simp
  moreover have "t \<le> now" if "map_of (dg_seen (tc_duplicate_guard c)) i = Some t" for i t
    using that assms(3,4) unfolding past_only_def by (blast intro: order_trans)
  ultimately show ?thesis
    using decide_bucket[of env ctx content now c] assms(3,4)
    by (auto simp: past_only_def op core_apply_decide frame_simps)
next
  case False
  moreover have "t \<le> now" if "map_of (dg_seen (tc_duplicate_guard c)) i = Some t" for i t
    using that assms(3,4) unfolding past_only_def by (blast intro: order_trans)
  ultimately show ?thesis using assms(3,4) by (auto simp: past_only_def core_apply_other)
qed

lemma reachable_settled:
  assumes "iteration_order (env_order env)" and "global_rate_burst rt \<le> u32_max"
    and "core_reaches env (core_new analyzer cfg rt t0) t0 c now"
  shows "core_inv c now \<and> settings_kept rt c \<and> past_only c now"
  using assms(3)
proof (induction rule: core_reaches.induct)
  case reach_start
  show ?case by (simp add: core_new_inv settings_new past_new assms(2))
next
  case (reach_step c t now op)
  then show ?case
    using apply_inv[OF assms(1)] settings_apply past_apply[OF assms(1)] core_inv_def by blast
qed

section \<open>Everything expires\<close>

lemma guard_forgets:
  assumes "guard_inv g" and "\<forall>i t. map_of (dg_seen g) i = Some t \<longrightarrow> t \<le> clock"
    and "clock + dg_ttl g < now"
  shows "\<not> snd (is_duplicate_and_mark ord g i now)"
  using assms(2,3) by (fastforce simp: mark_verdict[OF assms(1)] duration_since_def)

lemma window_empties:
  "\<forall>t \<in> set ts. t \<le> clock \<Longrightarrow> clock + w < (now :: nat) \<Longrightarrow> trim_window w now ts = []"
  by (induction ts) (auto simp: duration_since_def)

lemma cooldown_ends:
  assumes "cooldown_bounded m clock" and "clock + cd_ttl m \<le> now"
  shows "\<not> is_cooling m k now"
proof (cases "cd_next_allowed m k")
  case (Some v)
  with assms(1) have "v \<le> clock + cd_ttl m" by (simp add: cooldown_bounded_def)
  with Some assms(2) show ?thesis by (simp add: is_cooling_def)
qed (simp add: is_cooling_def)

text \<open>Twenty seconds earn a token, whatever the rounding.\<close>

lemma twenty_seconds: "d \<ge> 20000000000 \<Longrightarrow> 19 \<le> as_secs_f64 d"
proof -
  assume "d \<ge> 20000000000"
  then have "20000000000 div 1000000000 \<le> d div 1000000000" by (rule div_le_mono)
  then have "20 \<le> d div 1000000000" by simp
  then have s: "(20 :: rat) \<le> of_nat (d div 1000000000)" by (metis of_nat_le_iff of_nat_numeral)
  have "20 * (1 - f64_unit) \<le> of_nat (d div 1000000000) * (1 - f64_unit)"
    using s by (intro mult_right_mono) (simp_all add: f64_unit_def)
  also have "\<dots> \<le> f64_round (of_nat (d div 1000000000))" by (rule f64_round_lower) simp
  finally have a: "20 * (1 - f64_unit) \<le> f64_round (of_nat (d div 1000000000)) +
      f64_round (of_nat (d mod 1000000000) / 1000000000)"
    by (rule add_increasing2[rotated]) simp
  have "19 \<le> 20 * (1 - f64_unit) * (1 - f64_unit)" by (simp add: f64_unit_def)
  also have "\<dots> \<le> (f64_round (of_nat (d div 1000000000)) +
      f64_round (of_nat (d mod 1000000000) / 1000000000)) * (1 - f64_unit)"
    using a by (rule mult_right_mono) (simp add: f64_unit_def)
  also have "\<dots> \<le> as_secs_f64 d"
    unfolding as_secs_f64_def by (rule f64_round_lower) (simp add: add_nonneg_nonneg)
  finally show ?thesis .
qed

lemma token_earned:
  assumes "bucket_inv b" and "1 \<le> tb_capacity b" and "f64_round (1 / 10) \<le> tb_refill_per_sec b"
    and "tb_last_refill b + 20000000000 \<le> now"
  shows "snd (bucket_try_take b 1 now)"
proof -
  let ?e = "as_secs_f64 (duration_since now (tb_last_refill b))"
  have e: "19 \<le> ?e" using assms(4) by (intro twenty_seconds) (simp add: duration_since_def)
  have lo: "1 / 10 * (1 - f64_unit) \<le> tb_refill_per_sec b"
    using f64_round_lower[of "1 / 10"] assms(3) by simp
  have "19 * (1 / 10 * (1 - f64_unit)) \<le> ?e * tb_refill_per_sec b"
    using e lo by (intro mult_mono) (simp_all add: f64_unit_def)
  then have "19 * (1 / 10 * (1 - f64_unit)) * (1 - f64_unit) \<le> ?e * tb_refill_per_sec b * (1 - f64_unit)"
    by (rule mult_right_mono) (simp add: f64_unit_def)
  also have "\<dots> \<le> f64_round (?e * tb_refill_per_sec b)"
    using e assms(1) by (intro f64_round_lower) (simp add: bucket_inv_def)
  finally have gain: "3 / 2 \<le> f64_round (?e * tb_refill_per_sec b)"
    by (rule order_trans[rotated]) (simp add: f64_unit_def)
  then have "3 / 2 * (1 - f64_unit) \<le> (tb_tokens b + f64_round (?e * tb_refill_per_sec b)) * (1 - f64_unit)"
    using assms(1) by (intro mult_right_mono) (auto simp: bucket_inv_def f64_unit_def)
  also have "\<dots> \<le> f64_round (tb_tokens b + f64_round (?e * tb_refill_per_sec b))"
    using assms(1) by (intro f64_round_lower) (simp add: bucket_inv_def)
  finally have "1 \<le> f64_round (tb_tokens b + f64_round (?e * tb_refill_per_sec b))"
    by (rule order_trans[rotated]) (simp add: f64_unit_def)
  then have "1 \<le> tb_tokens (bucket_refill b now)"
    using e assms(2) by (simp add: bucket_refill_def Let_def)
  moreover have "f64_round 1 = 1" using f64_round_of_nat[of 1] by simp
  ultimately show ?thesis by (simp add: bucket_try_take_def Let_def)
qed

lemma quiet_bounds:
  assumes "t + quiet_period rt \<le> now"
  shows "t + 20000000000 \<le> now" and "t + from_millis (duplicate_ttl_ms rt) < now"
    and "t + from_millis (sandbox_failure_window_ms rt) < now"
    and "t + from_millis (breaker_open_ms rt) \<le> now"
    and "t + from_millis (per_user_cooldown_ms rt) \<le> now"
    and "t + from_millis (per_channel_cooldown_ms rt) \<le> now"
    and "t + from_millis (per_guild_cooldown_ms rt) \<le> now"
    and "t + from_millis (global_cooldown_ms rt) \<le> now"
proof -
  have le: "x \<le> quiet_period rt" if "x \<in> {20000000000, from_millis (duplicate_ttl_ms rt) + 1,
      from_millis (sandbox_failure_window_ms rt) + 1, from_millis (breaker_open_ms rt),
      from_millis (per_user_cooldown_ms rt), from_millis (per_channel_cooldown_ms rt),
      from_millis (per_guild_cooldown_ms rt), from_millis (global_cooldown_ms rt)}" for x
    using that unfolding quiet_period_def by (intro Max_ge finite.intros)
  show "t + 20000000000 \<le> now" using assms le[of 20000000000] by simp
  show "t + from_millis (duplicate_ttl_ms rt) < now"
    using assms le[of "from_millis (duplicate_ttl_ms rt) + 1"] by simp
  show "t + from_millis (sandbox_failure_window_ms rt) < now"
    using assms le[of "from_millis (sandbox_failure_window_ms rt) + 1"] by simp
  show "t + from_millis (breaker_open_ms rt) \<le> now"
    using assms le[of "from_millis (breaker_open_ms rt)"] by simp
  show "t + from_millis (per_user_cooldown_ms rt) \<le> now"
    using assms le[of "from_millis (per_user_cooldown_ms rt)"] by simp
  show "t + from_millis (per_channel_cooldown_ms rt) \<le> now"
    using assms le[of "from_millis (per_channel_cooldown_ms rt)"] by simp
  show "t + from_millis (per_guild_cooldown_ms rt) \<le> now"
    using assms le[of "from_millis (per_guild_cooldown_ms rt)"] by simp
  show "t + from_millis (global_cooldown_ms rt) \<le> now"
    using assms le[of "from_millis (global_cooldown_ms rt)"] by simp
qed

section \<open>Recovery\<close>

text \<open>What stays under the control of the operator and of Discord.\<close>

definition operator_permits ::
  "'a core_env \<Rightarrow> message_context \<Rightarrow> rstr \<Rightarrow> 'a trusted_core \<Rightarrow> bool" where
  "operator_permits env ctx content c \<longleftrightarrow>
     \<not> emergency_kill_switch (tc_runtime c) \<and> mode_override (tc_runtime c) = None \<and>
     \<not> budget_is_low (tc_session_budget c) \<and> \<not> author_is_bot ctx \<and>
     allow_guild c (guild_id ctx) \<and> allow_channel c (channel_id ctx) \<and>
     classify_suspicious_input (env_nfkc env) content (tc_suspicious_cfg c) \<noteq> SuspicionHard"

lemma quiet_core_permits:
  assumes "core_inv c t" and "settings_kept rt c" and "past_only c t"
    and quiet: "t + quiet_period rt \<le> now"
    and "0 < sandbox_failure_threshold rt" and "0 < max_actions_per_message rt"
    and "operator_permits env ctx content c"
  shows "snd (recompute_mode now c) = Normal \<and> permitted env ctx content now c"
proof -
  note q = quiet_bounds[OF quiet]
  note inv = assms(1)[unfolded core_inv_def] and kept = assms(2)[unfolded settings_kept_def]
  have guard: "\<not> snd (is_duplicate_and_mark (env_order env) (tc_duplicate_guard c) (message_id ctx) now)"
    using inv kept q(2) assms(3) by (intro guard_forgets[where clock = t]) (auto simp: past_only_def)
  have breaker: "\<not> breaker_is_open (tc_breaker c) now"
  proof (cases "cb_open_until (tc_breaker c)")
    case (Some u)
    with inv have "u \<le> t + cb_open_for (tc_breaker c)" by blast
    with Some q(4) kept show ?thesis by (simp add: breaker_is_open_def)
  qed (simp add: breaker_is_open_def)
  have failures: "tc_sandbox_failures (trim_sandbox_failures now c) = []"
  proof -
    have "trim_window (from_millis (sandbox_failure_window_ms rt)) now (tc_sandbox_failures c) = []"
      using inv q(3) by (intro window_empties) blast
    then show ?thesis using kept by (simp add: trim_sandbox_failures_def)
  qed
  have cools: "\<not> is_cooling (tc_user_cooldown c) k now" "\<not> is_cooling (tc_channel_cooldown c) k now"
    "\<not> is_cooling (tc_guild_cooldown c) k now" "\<not> is_cooling (tc_global_cooldown c) k now" for k
    by (rule cooldown_ends[where clock = t]; use inv kept q(5-8) in simp)+
  have bucket: "snd (bucket_try_take (tc_outbound_bucket c) 1 now)"
    using inv kept q(1) assms(3) by (intro token_earned) (auto simp: past_only_def)
  have mode: "snd (recompute_mode now c) = Normal"
    using assms(5,7) kept breaker failures
    by (simp add: recompute_mode_result mode_target_def operator_permits_def)
      (simp add: trim_sandbox_failures_def)
  then show ?thesis
    using assms(6,7) kept guard cools bucket breaker_open_iff_not_allowed[of "tc_breaker c" now] breaker
    by (simp add: permitted_def operator_permits_def split: option.split)
qed

text \<open>C22: the core recovers: from every reachable state, whatever went before, once the quiet period
  has passed, a message the operator's settings permit is decided in normal mode and answered with
  the compiled proposal of the analyzer.\<close>

theorem core_recovers:
  assumes "iteration_order (env_order env)" and "global_rate_burst rt \<le> u32_max"
    and "0 < sandbox_failure_threshold rt" and "0 < max_actions_per_message rt"
    and "core_reaches env (core_new analyzer cfg rt t0) t0 c t" and "t + quiet_period rt \<le> now"
    and "operator_permits env ctx content c"
    and "env_propose env (tc_analyzer c) (message_request env content) = (a, Inr p)"
  shows "dec_action (snd (decide_message env ctx content now c)) =
    compile_response_from_detection p Normal
      (classify_suspicious_input (env_nfkc env) content (tc_suspicious_cfg c)) (tc_bot_config c)
      (max_send_chars (tc_runtime c)) (max_count_cap (tc_bot_config c)) (Some (env_detect env content))"
  using reachable_settled[OF assms(1,2,5)] quiet_core_permits[OF _ _ _ assms(6,3,4,7)] assms(8)
  by (simp add: decide_answer governed_answer_def)

theorem core_recovers_witness:
  "dec_action (snd (decide_message sample_env (sample_message 1) (lit ''oo'') 300000000000 sample_next)) =
   as_react sample_bot"
proof -
  have reached: "core_reaches sample_env (core_new () sample_bot sample_runtime 0) 0 sample_next 0"
    using reach_step[OF reach_start order_refl, of sample_env sample_core 0
        "Decide (sample_message 1) (lit ''oo'')"]
    by (simp add: core_apply_decide sample_next_def sample_core_def)
  have permits: "operator_permits sample_env (sample_message 1) (lit ''oo'') sample_next"
    using sample_calm
    unfolding operator_permits_def allow_guild_def allow_channel_def sample_next_frame
    by (simp add: sample_env_def sample_message_def sample_runtime_def sample_core_def core_new_def
        budget_is_low_def session_budget_new_def)
  have "dec_action (snd (decide_message sample_env (sample_message 1) (lit ''oo'') 300000000000 sample_next)) =
    compile_response_from_detection ReactOnce Normal
      (classify_suspicious_input (env_nfkc sample_env) (lit ''oo'') (tc_suspicious_cfg sample_next))
      (tc_bot_config sample_next) (max_send_chars (tc_runtime sample_next))
      (max_count_cap (tc_bot_config sample_next)) (Some (env_detect sample_env (lit ''oo'')))"
    by (rule core_recovers[OF _ _ _ _ reached _ permits])
      (simp_all add: sample_env_def iteration_order_def sample_runtime_def u32_max_def
        quiet_period_def from_millis_def)
  also have "\<dots> = as_react sample_bot"
    unfolding sample_next_frame using sample_calm
    by (simp add: sample_env_def compile_response_from_detection_def compile_exact proposed_action_def
        proposal_to_action_def sample_bot_def as_react_def guarded_react_def react_permitted_def
        valid_react_def lit_def)
  finally show ?thesis .
qed

end
