(* ===== verification/Replay.thy ===== *)
theory Replay
  imports Core_Runs Config_Defaults
begin

text \<open>
  The replay harness, \<^verbatim>\<open>src/app/replay.rs\<close> and \<^verbatim>\<open>src/bin/replay.rs\<close>: recorded cases are run
  against the ungoverned analysis or against a trusted core whose analyzer can be made to fail.
  Parsing of fixtures, the hash of a name, the listing of a directory and the instants read by a
  case (\<open>clock k\<close> is its k-th reading) are parameters.
\<close>

section \<open>Cases\<close>

datatype expected_action =
    ExpectNoop
  | ExpectReact nat rstr bool
  | ExpectSend rstr

fun expected_of :: "bot_action \<Rightarrow> expected_action" where
  "expected_of Noop = ExpectNoop"
| "expected_of (React i n a) = ExpectReact i n a"
| "expected_of (SendMessage c) = ExpectSend c"

record replay_runtime_overrides =
  rr_mode_override :: "runtime_mode option"
  rr_emergency_kill_switch :: bool
  rr_allow_guild_ids :: "nat list"
  rr_deny_guild_ids :: "nat list"
  rr_allow_channel_ids :: "nat list"
  rr_deny_channel_ids :: "nat list"
  rr_inject_statuses :: "nat list"
  rr_soft_char_limit :: "nat option"
  rr_hard_char_limit :: "nat option"
  rr_repetition_threshold :: "nat option"
  rr_preserve_state :: bool

record replay_case =
  rc_name :: rstr
  rc_content :: rstr
  rc_message_id :: nat
  rc_author_id :: nat
  rc_channel_id :: nat
  rc_guild_id :: "nat option"
  rc_author_is_bot :: bool
  rc_expected :: expected_action
  rc_expected_mode :: "runtime_mode option"
  rc_expected_suppress_reason :: "suppress_reason option"
  rc_runtime :: replay_runtime_overrides

text \<open>A difference, with what its message shows.\<close>

datatype replay_diff =
    ActionDiff rstr expected_action expected_action "action_decision option"
  | ModeDiff rstr runtime_mode runtime_mode
  | ReasonDiff rstr "suppress_reason option" "suppress_reason option"

section \<open>The analyzer of the harness\<close>

definition harness_propose ::
  "wasmtime_analyzer \<Rightarrow> analyzer_request \<Rightarrow> wasmtime_analyzer \<times> (analyzer_error + action_proposal)" where
  "harness_propose inner req =
     (if str_contains (req_content req) (lit ''[[sandbox_trap]]'')
      then (inner, Inl (Trap (lit ''injected trap'')))
      else if str_contains (req_content req) (lit ''[[sandbox_timeout]]'')
      then (inner, Inl AnalyzerTimeout)
      else wasmtime_propose inner req)"

interpretation harness: proposal_analyzer wa_abi_version harness_propose
  by unfold_locales
    (auto simp: harness_propose_def wasmtime.version_stable
      dest: wasmtime.version_checked wasmtime.wire_carries split: if_splits)

section \<open>Running a case\<close>

definition run_replay_case ::
  "(rstr \<Rightarrow> bool \<Rightarrow> bot_config \<Rightarrow> bot_action) \<Rightarrow> replay_case \<Rightarrow> bot_config \<Rightarrow> replay_diff + unit" where
  "run_replay_case analyze c config =
     (let actual = expected_of (analyze (rc_content c) (rc_author_is_bot c) config)
      in if actual = rc_expected c then Inr ()
         else Inl (ActionDiff (rc_name c) (rc_expected c) actual None))"

fun inject_statuses ::
  "(nat \<Rightarrow> instant) \<Rightarrow> nat \<Rightarrow> nat list \<Rightarrow> 'a trusted_core \<Rightarrow> 'a trusted_core" where
  "inject_statuses clock k [] core = core"
| "inject_statuses clock k (status # statuses) core =
     inject_statuses clock (Suc k) statuses (record_http_status status (clock k) core)"

definition case_message :: "(rstr \<Rightarrow> nat) \<Rightarrow> replay_case \<Rightarrow> message_context" where
  "case_message stable_id c =
     \<lparr>message_id = (if rc_message_id c = 0 then stable_id (rc_name c) else rc_message_id c),
      author_id = rc_author_id c, channel_id = rc_channel_id c, guild_id = rc_guild_id c,
      author_is_bot = rc_author_is_bot c\<rparr>"

definition compare_decision :: "replay_case \<Rightarrow> action_decision \<Rightarrow> replay_diff + unit" where
  "compare_decision c d =
     (let actual = expected_of (dec_action d)
      in if actual \<noteq> rc_expected c
         then Inl (ActionDiff (rc_name c) (rc_expected c) actual (Some d))
         else (case rc_expected_mode c of
             Some m \<Rightarrow>
               if dec_mode d \<noteq> m then Inl (ModeDiff (rc_name c) m (dec_mode d))
               else if rc_expected_suppress_reason c \<noteq> dec_suppress_reason d
               then Inl (ReasonDiff (rc_name c) (rc_expected_suppress_reason c) (dec_suppress_reason d))
               else Inr ()
           | None \<Rightarrow>
               if rc_expected_suppress_reason c \<noteq> dec_suppress_reason d
               then Inl (ReasonDiff (rc_name c) (rc_expected_suppress_reason c) (dec_suppress_reason d))
               else Inr ()))"

definition run_replay_case_with_core ::
  "(rstr \<Rightarrow> nat) \<Rightarrow> 'a core_env \<Rightarrow> (nat \<Rightarrow> instant) \<Rightarrow> replay_case \<Rightarrow> 'a trusted_core \<Rightarrow>
   'a trusted_core \<times> (replay_diff + unit)" where
  "run_replay_case_with_core stable_id env clock c core =
     (let r = rc_runtime c;
          c1 = set_mode_override (rr_mode_override r) core;
          c2 = set_emergency_kill_switch (rr_emergency_kill_switch r) c1;
          c3 = set_access_lists (rr_allow_guild_ids r) (rr_deny_guild_ids r)
            (rr_allow_channel_ids r) (rr_deny_channel_ids r) c2;
          c4 = (case (rr_soft_char_limit r, rr_hard_char_limit r) of
              (Some soft, Some hard) \<Rightarrow>
                set_suspicious_thresholds soft hard
                  (case rr_repetition_threshold r of Some t \<Rightarrow> t | None \<Rightarrow> 256) c3
            | _ \<Rightarrow> reset_suspicious_thresholds c3);
          c5 = inject_statuses clock 0 (rr_inject_statuses r) c4;
          (c6, d) = decide_message env (case_message stable_id c) (rc_content c)
            (clock (length (rr_inject_statuses r))) c5
      in (c6, compare_decision c d))"

definition replay_runtime :: "runtime_protection_config \<Rightarrow> runtime_protection_config" where
  "replay_runtime defaults =
     defaults\<lparr>per_user_cooldown_ms := 0, per_channel_cooldown_ms := 0, per_guild_cooldown_ms := 0,
       global_cooldown_ms := 0, breaker_threshold := 2, long_message_soft_chars := 20000,
       long_message_hard_chars := 30000\<rparr>"

text \<open>None is a panic: the defaults come out of the embedded configuration text.\<close>

definition build_replay_core ::
  "config_lib \<Rightarrow> rstr option \<Rightarrow> host_outcome stream \<Rightarrow> instant \<Rightarrow> bot_config \<Rightarrow>
   (rstr + wasmtime_analyzer trusted_core) option" where
  "build_replay_core lib compile_error engine now config =
     (case wasmtime_new compile_error (sandbox_config_default\<lparr>fuel_limit := 800000\<rparr>) engine of
        Inl e \<Rightarrow> Some (Inl e)
      | Inr analyzer \<Rightarrow>
          map_option (\<lambda>defaults. Inr (core_new analyzer config (replay_runtime defaults) now))
            (default_runtime_protection_config lib))"

section \<open>Fixtures\<close>

datatype replay_error = ReadFixture rstr | ParseFixture rstr

text \<open>\<^verbatim>\<open>Path::extension\<close> of a file name: what follows the last dot, unless that dot is the first
  character.\<close>

definition extension :: "rstr \<Rightarrow> rstr option" where
  "extension name =
     (let tail = takeWhile (\<lambda>c. c \<noteq> 46) (rev name)
      in if name = lit ''..'' \<or> length tail + 1 \<ge> length name then None else Some (rev tail))"

definition fixture_ext :: "path \<Rightarrow> rstr option" where
  "fixture_ext p = Option.bind (path_file_name p) extension"

definition is_supported_fixture :: "path \<Rightarrow> bool" where
  "is_supported_fixture p \<longleftrightarrow>
     (case fixture_ext p of
        None \<Rightarrow> False
      | Some ext \<Rightarrow> ext = lit ''yaml'' \<or> ext = lit ''yml'' \<or> ext = lit ''json'')"

record fixture_lib =
  fx_yaml_list :: "rstr \<Rightarrow> rstr + replay_case list"
  fx_yaml_one :: "rstr \<Rightarrow> rstr + replay_case"
  fx_json_list :: "rstr \<Rightarrow> rstr + replay_case list"
  fx_json_one :: "rstr \<Rightarrow> rstr + replay_case"
  fx_entries :: "path \<Rightarrow> rstr + rstr list"
  fx_display :: "path \<Rightarrow> rstr"

definition parse_cases ::
  "(rstr \<Rightarrow> rstr + replay_case list) \<Rightarrow> (rstr \<Rightarrow> rstr + replay_case) \<Rightarrow> rstr \<Rightarrow>
   replay_error + replay_case list" where
  "parse_cases many one content =
     (case many content of
        Inr cs \<Rightarrow> Inr cs
      | Inl _ \<Rightarrow> (case one content of Inr c \<Rightarrow> Inr [c] | Inl e \<Rightarrow> Inl (ParseFixture e)))"

definition parse_yaml_cases :: "fixture_lib \<Rightarrow> rstr \<Rightarrow> replay_error + replay_case list" where
  "parse_yaml_cases lib content = parse_cases (fx_yaml_list lib) (fx_yaml_one lib) content"

definition parse_json_cases :: "fixture_lib \<Rightarrow> rstr \<Rightarrow> replay_error + replay_case list" where
  "parse_json_cases lib content = parse_cases (fx_json_list lib) (fx_json_one lib) content"

definition load_replay_cases_from_file ::
  "io_env \<Rightarrow> fixture_lib \<Rightarrow> path \<Rightarrow> fs \<Rightarrow> replay_error + replay_case list" where
  "load_replay_cases_from_file io lib p s =
     (case fs_read_to_string io p s of
        Inl e \<Rightarrow> Inl (ReadFixture e)
      | Inr content \<Rightarrow>
          (let ext = (case fixture_ext p of Some e \<Rightarrow> e | None \<Rightarrow> [])
           in if ext = lit ''yml'' \<or> ext = lit ''yaml'' then parse_yaml_cases lib content
              else if ext = lit ''json'' then parse_json_cases lib content
              else Inl (ParseFixture (lit ''unsupported extension: '' @ fx_display lib p))))"

definition fs_is_file :: "fs \<Rightarrow> path \<Rightarrow> bool" where
  "fs_is_file s p \<longleftrightarrow> (case fs_node s p of Some (File _) \<Rightarrow> True | _ \<Rightarrow> False)"

fun load_entries ::
  "io_env \<Rightarrow> fixture_lib \<Rightarrow> fs \<Rightarrow> path list \<Rightarrow> replay_case list \<Rightarrow> replay_error + replay_case list" where
  "load_entries io lib s [] all = Inr all"
| "load_entries io lib s (p # ps) all =
     (if \<not> fs_is_file s p \<or> \<not> is_supported_fixture p then load_entries io lib s ps all
      else rbind (load_replay_cases_from_file io lib p s) (\<lambda>cs. load_entries io lib s ps (all @ cs)))"

text \<open>Entries of one directory are ordered by their names.\<close>

definition load_replay_cases ::
  "io_env \<Rightarrow> fixture_lib \<Rightarrow> path \<Rightarrow> fs \<Rightarrow> replay_error + replay_case list" where
  "load_replay_cases io lib p s =
     (if fs_is_file s p then load_replay_cases_from_file io lib p s
      else if fs_is_dir s p
      then (case fx_entries lib p of
              Inl e \<Rightarrow> Inl (ReadFixture e)
            | Inr names \<Rightarrow> load_entries io lib s (map (path_child p) (sort names)) [])
      else Inl (ReadFixture (lit ''path not found: '' @ fx_display lib p)))"

section \<open>The replay program\<close>

datatype exit_code = ExitSuccess | ExitFailure | Panicked

text \<open>\<open>build k\<close> is the k-th core that is built, \<open>run k\<close> how the k-th case runs; a failed build ends the
  program.  The result is the number of failures.\<close>

fun replay_loop ::
  "(nat \<Rightarrow> (rstr + 'c) option) \<Rightarrow> (nat \<Rightarrow> replay_case \<Rightarrow> 'c \<Rightarrow> 'c \<times> (replay_diff + unit)) \<Rightarrow> nat \<Rightarrow> 'c \<Rightarrow>
   nat \<Rightarrow> replay_case list \<Rightarrow> (rstr + nat) option" where
  "replay_loop build run k core failures [] = Some (Inr failures)"
| "replay_loop build run k core failures (c # cs) =
     (case (if rr_preserve_state (rc_runtime c) then Some (Inr core) else build (Suc k)) of
        None \<Rightarrow> None
      | Some (Inl e) \<Rightarrow> Some (Inl e)
      | Some (Inr core1) \<Rightarrow>
          (let (core2, diff) = run k c core1
           in replay_loop build run (Suc k) core2
                (case diff of Inl _ \<Rightarrow> failures + 1 | Inr _ \<Rightarrow> failures) cs))"

definition replay_with ::
  "(nat \<Rightarrow> (rstr + 'c) option) \<Rightarrow> (nat \<Rightarrow> replay_case \<Rightarrow> 'c \<Rightarrow> 'c \<times> (replay_diff + unit)) \<Rightarrow>
   replay_error + replay_case list \<Rightarrow> exit_code" where
  "replay_with build run fixture_cases =
     (case build 0 of
        None \<Rightarrow> Panicked
      | Some (Inl _) \<Rightarrow> ExitFailure
      | Some (Inr core) \<Rightarrow>
          (case fixture_cases of
             Inl _ \<Rightarrow> ExitFailure
           | Inr cs \<Rightarrow>
               if cs = [] then ExitFailure
               else (case replay_loop build run 0 core 0 cs of
                   None \<Rightarrow> Panicked
                 | Some (Inl _) \<Rightarrow> ExitFailure
                 | Some (Inr failures) \<Rightarrow> if failures > 0 then ExitFailure else ExitSuccess)))"

text \<open>What the program finds around it: the embedded text, the engine and the clock of the k-th
  core and case, the detector, the hash of a name, files and fixtures.\<close>

record replay_world =
  rw_lib :: config_lib
  rw_compile_error :: "rstr option"
  rw_engine :: "nat \<Rightarrow> host_outcome stream"
  rw_start :: "nat \<Rightarrow> instant"
  rw_clock :: "nat \<Rightarrow> nat \<Rightarrow> instant"
  rw_env :: "wasmtime_analyzer core_env"
  rw_stable_id :: "rstr \<Rightarrow> nat"
  rw_io :: io_env
  rw_fixtures :: fixture_lib
  rw_files :: fs

definition replay_env :: "replay_world \<Rightarrow> wasmtime_analyzer core_env" where
  "replay_env w = (rw_env w)\<lparr>env_propose := harness_propose\<rparr>"

definition replay_main :: "replay_world \<Rightarrow> path \<Rightarrow> exit_code" where
  "replay_main w input =
     (case canonical_bot_config (rw_lib w) of
        None \<Rightarrow> Panicked
      | Some config \<Rightarrow>
          replay_with
            (\<lambda>k. build_replay_core (rw_lib w) (rw_compile_error w) (rw_engine w k) (rw_start w k) config)
            (\<lambda>k. run_replay_case_with_core (rw_stable_id w) (replay_env w) (rw_clock w k))
            (load_replay_cases (rw_io w) (rw_fixtures w) input (rw_files w)))"

section \<open>A case is a run of the core\<close>

fun status_ops :: "(nat \<Rightarrow> instant) \<Rightarrow> nat \<Rightarrow> nat list \<Rightarrow> (core_op \<times> instant) list" where
  "status_ops clock k [] = []"
| "status_ops clock k (s # ss) = (HttpStatus s, clock k) # status_ops clock (Suc k) ss"

definition settings_of :: "replay_runtime_overrides \<Rightarrow> core_op list" where
  "settings_of r =
     [ModeOverride (rr_mode_override r), KillSwitch (rr_emergency_kill_switch r),
      AccessLists (rr_allow_guild_ids r) (rr_deny_guild_ids r) (rr_allow_channel_ids r)
        (rr_deny_channel_ids r),
      (case (rr_soft_char_limit r, rr_hard_char_limit r) of
         (Some soft, Some hard) \<Rightarrow>
           SuspiciousThresholds soft hard (case rr_repetition_threshold r of Some t \<Rightarrow> t | None \<Rightarrow> 256)
       | _ \<Rightarrow> ResetSuspicious)]"

definition case_ops :: "(rstr \<Rightarrow> nat) \<Rightarrow> (nat \<Rightarrow> instant) \<Rightarrow> replay_case \<Rightarrow> (core_op \<times> instant) list" where
  "case_ops stable_id clock c =
     (let r = rc_runtime c
      in map (\<lambda>op. (op, clock 0)) (settings_of r) @ status_ops clock 0 (rr_inject_statuses r) @
         [(Decide (case_message stable_id c) (rc_content c), clock (length (rr_inject_statuses r)))])"

text \<open>The decision a case is compared with.\<close>

definition case_decision ::
  "(rstr \<Rightarrow> nat) \<Rightarrow> 'a core_env \<Rightarrow> (nat \<Rightarrow> instant) \<Rightarrow> replay_case \<Rightarrow> 'a trusted_core \<Rightarrow> action_decision" where
  "case_decision stable_id env clock c core =
     (let r = rc_runtime c; n = length (rr_inject_statuses r)
      in snd (decide_message env (case_message stable_id c) (rc_content c) (clock n)
        (fst (core_run env core (map (\<lambda>op. (op, clock 0)) (settings_of r) @
           status_ops clock 0 (rr_inject_statuses r))))))"

lemma run_statuses:
  "core_run env c (status_ops clock k ss) = (inject_statuses clock k ss c, [])"
  by (induction ss arbitrary: c k) (simp_all add: core_apply_def)

lemma run_settings:
  "core_run env c (map (\<lambda>op. (op, now)) (settings_of r)) =
   ((case (rr_soft_char_limit r, rr_hard_char_limit r) of
       (Some soft, Some hard) \<Rightarrow>
         set_suspicious_thresholds soft hard
           (case rr_repetition_threshold r of Some t \<Rightarrow> t | None \<Rightarrow> 256)
     | _ \<Rightarrow> reset_suspicious_thresholds)
      (set_access_lists (rr_allow_guild_ids r) (rr_deny_guild_ids r) (rr_allow_channel_ids r)
        (rr_deny_channel_ids r)
        (set_emergency_kill_switch (rr_emergency_kill_switch r)
          (set_mode_override (rr_mode_override r) c))), [])"
  by (simp add: settings_of_def core_apply_def split: option.split)

lemma case_run:
  "run_replay_case_with_core stable_id env clock c core =
   (fst (core_run env core (case_ops stable_id clock c)),
    compare_decision c (case_decision stable_id env clock c core))"
  by (cases "rr_soft_char_limit (rc_runtime c)"; cases "rr_hard_char_limit (rc_runtime c)")
    (simp_all add: run_replay_case_with_core_def case_ops_def case_decision_def Let_def
      core_run_append run_settings run_statuses core_apply_def case_prod_beta)

lemma case_log:
  "snd (core_run env core (case_ops stable_id clock c)) =
   (if dec_action (case_decision stable_id env clock c core) = Noop then []
    else [(clock (length (rr_inject_statuses (rc_runtime c))), case_message stable_id c)])"
  by (simp add: case_ops_def case_decision_def Let_def core_run_append run_settings run_statuses
      core_apply_def case_prod_beta)

lemma status_times: "map snd (status_ops clock k ss) = map (\<lambda>i. clock (k + i)) [0..<length ss]"
  by (induction ss arbitrary: k) (simp_all add: map_upt_Suc del: upt_Suc)

lemma expected_noop: "expected_of a = ExpectNoop \<longleftrightarrow> a = Noop"
  by (cases a) simp_all

lemma compare_passes:
  "compare_decision c d = Inr () \<longleftrightarrow>
   expected_of (dec_action d) = rc_expected c \<and>
   (\<forall>m. rc_expected_mode c = Some m \<longrightarrow> dec_mode d = m) \<and>
   dec_suppress_reason d = rc_expected_suppress_reason c"
  by (auto simp: compare_decision_def Let_def split: option.split)


text \<open>C21: a replayed case is a run of the trusted core: in order of time its core stays among the
  reachable ones, and the case passes exactly when the decision of that run is the expected one in
  action, mode and suppress reason; then the run sends exactly when the case expects an action.\<close>

theorem replay_case_refines:
  assumes "core_reaches env c0 t0 core t" and "t \<le> clock 0" and "mono clock"
    and "run_replay_case_with_core stable_id env clock c core = (core', verdict)"
  shows "core_reaches env c0 t0 core' (clock (length (rr_inject_statuses (rc_runtime c)))) \<and>
    (let d = case_decision stable_id env clock c core
     in (verdict = Inr () \<longleftrightarrow> expected_of (dec_action d) = rc_expected c \<and>
           (\<forall>m. rc_expected_mode c = Some m \<longrightarrow> dec_mode d = m) \<and>
           dec_suppress_reason d = rc_expected_suppress_reason c)) \<and>
    (verdict = Inr () \<longrightarrow>
       snd (core_run env core (case_ops stable_id clock c)) =
         (if rc_expected c = ExpectNoop then []
          else [(clock (length (rr_inject_statuses (rc_runtime c))), case_message stable_id c)]))"
proof -
  let ?n = "length (rr_inject_statuses (rc_runtime c))" and ?ops = "case_ops stable_id clock c"
  have times: "map snd ?ops = replicate 4 (clock 0) @ map clock [0..<?n] @ [clock ?n]"
    by (simp add: case_ops_def settings_of_def Let_def status_times numeral_eq_Suc)
  have "sorted (map clock [0..<Suc ?n])"
    using assms(3) by (simp add: sorted_iff_nth_mono monoD del: upt_Suc)
  moreover have later: "clock 0 \<le> clock k" for k using assms(3) by (simp add: monoD)
  ultimately have "sorted (map snd ?ops)" "\<forall>x \<in> set (map snd ?ops). t \<le> x"
    using assms(2) unfolding times by (auto simp: sorted_append sorted_replicate intro: order_trans)
  from reaches_run[OF assms(1) this] times
  have "core_reaches env c0 t0 (fst (core_run env core ?ops)) (clock ?n)" by simp
  then show ?thesis
    using assms(4) by (auto simp: case_run case_log compare_passes expected_noop Let_def)
qed

section \<open>The whole program\<close>

text \<open>The core the k-th case meets: a fresh one, or what the case before it left.\<close>

fun cores_met ::
  "(nat \<Rightarrow> (rstr + 'c) option) \<Rightarrow> (nat \<Rightarrow> replay_case \<Rightarrow> 'c \<Rightarrow> 'c \<times> (replay_diff + unit)) \<Rightarrow> nat \<Rightarrow> 'c \<Rightarrow>
   replay_case list \<Rightarrow> 'c list" where
  "cores_met build run k core [] = []"
| "cores_met build run k core (c # cs) =
     (case (if rr_preserve_state (rc_runtime c) then Some (Inr core) else build (Suc k)) of
        Some (Inr core1) \<Rightarrow> core1 # cores_met build run (Suc k) (fst (run k c core1)) cs
      | _ \<Rightarrow> [])"

lemma replay_loop_grows: "replay_loop build run k core n cs = Some (Inr m) \<Longrightarrow> n \<le> m"
  by (induction cs arbitrary: k core n)
    (fastforce simp: Let_def case_prod_beta split: sum.splits if_splits option.splits)+

lemma replay_loop_clean:
  "replay_loop build run k core n cs = Some (Inr n) \<longleftrightarrow>
   (\<forall>j < length cs. j < length (cores_met build run k core cs) \<and>
      snd (run (k + j) (cs ! j) (cores_met build run k core cs ! j)) = Inr ())"
proof (induction cs arbitrary: k core)
  case (Cons c cs)
  have all_Suc: "(\<forall>j < Suc (length cs). P j) \<longleftrightarrow> P 0 \<and> (\<forall>j < length cs. P (Suc j))" for P
    by (auto simp: less_Suc_eq_0_disj)
  let ?b = "if rr_preserve_state (rc_runtime c) then Some (Inr core) else build (Suc k)"
  show ?case
  proof (cases "\<exists>core1. ?b = Some (Inr core1)")
    case False
    then have b: "?b = None \<or> (\<exists>e. ?b = Some (Inl e))" by (metis option.exhaust sum.exhaust)
    then have "replay_loop build run k core n (c # cs) \<noteq> Some (Inr n)"
      unfolding replay_loop.simps by (elim disjE exE) (simp_all only:, simp_all)
    moreover have "cores_met build run k core (c # cs) = []"
      using b unfolding cores_met.simps by (elim disjE exE) (simp_all only:, simp_all)
    ultimately show ?thesis by (auto simp: all_Suc simp del: replay_loop.simps cores_met.simps)
  next
    case True
    then obtain core1 where core1: "?b = Some (Inr core1)" by blast
    show ?thesis
    proof (cases "snd (run k c core1)")
      case (Inl d)
      then have "replay_loop build run k core n (c # cs) \<noteq> Some (Inr n)"
        using core1 by (auto simp: case_prod_beta dest: replay_loop_grows)
      then show ?thesis using core1 Inl by (auto simp: all_Suc)
    next
      case (Inr u)
      with core1 show ?thesis by (simp add: case_prod_beta Cons.IH all_Suc)
    qed
  qed
qed simp

lemma replay_with_success:
  "replay_with build run fixture_cases = ExitSuccess \<longleftrightarrow>
   (\<exists>core cs. build 0 = Some (Inr core) \<and> fixture_cases = Inr cs \<and> cs \<noteq> [] \<and>
      (\<forall>j < length cs. j < length (cores_met build run 0 core cs) \<and>
         snd (run j (cs ! j) (cores_met build run 0 core cs ! j)) = Inr ()))"
proof -
  have "replay_with build run fixture_cases = ExitSuccess \<longleftrightarrow>
      (\<exists>core cs. build 0 = Some (Inr core) \<and> fixture_cases = Inr cs \<and> cs \<noteq> [] \<and>
        replay_loop build run 0 core 0 cs = Some (Inr 0))"
    by (auto simp: replay_with_def split: sum.split option.split)
  then show ?thesis by (simp add: replay_loop_clean)
qed

section \<open>A concrete case\<close>

definition sample_case :: replay_case where
  "sample_case =
     \<lparr>rc_name = lit ''oo'', rc_content = lit ''oo'', rc_message_id = 1, rc_author_id = 1,
      rc_channel_id = 1, rc_guild_id = Some 1, rc_author_is_bot = False,
      rc_expected = expected_of (as_react sample_bot), rc_expected_mode = None,
      rc_expected_suppress_reason = None,
      rc_runtime = \<lparr>rr_mode_override = None, rr_emergency_kill_switch = False,
        rr_allow_guild_ids = [], rr_deny_guild_ids = [], rr_allow_channel_ids = [],
        rr_deny_channel_ids = [], rr_inject_statuses = [], rr_soft_char_limit = None,
        rr_hard_char_limit = None, rr_repetition_threshold = None, rr_preserve_state = False\<rparr>\<rparr>"

lemma sample_settings:
  "fst (core_run sample_env sample_core (map (\<lambda>op. (op, 0)) (settings_of (rc_runtime sample_case)))) = sample_core"
  by (simp add: run_settings sample_case_def sample_core_def core_new_def setter_defs sample_runtime_def)

lemma sample_decision:
  "case_decision (\<lambda>_. 7) sample_env id sample_case sample_core =
   snd (decide_message sample_env (sample_message 1) (lit ''oo'') 0 sample_core)"
proof -
  have "case_message (\<lambda>_. 7) sample_case = sample_message 1" "rc_content sample_case = lit ''oo''"
    "rr_inject_statuses (rc_runtime sample_case) = []"
    by (simp_all add: case_message_def sample_case_def sample_message_def)
  then show ?thesis using sample_settings by (simp add: case_decision_def core_run_append)
qed

theorem replay_case_refines_witness:
  "snd (run_replay_case_with_core (\<lambda>_. 7) sample_env id sample_case sample_core) = Inr () \<and>
   snd (core_run sample_env sample_core (case_ops (\<lambda>_. 7) id sample_case)) = [(0, sample_message 1)]"
proof -
  let ?r = "run_replay_case_with_core (\<lambda>_. 7) sample_env id sample_case sample_core"
  have d: "dec_action (case_decision (\<lambda>_. 7) sample_env id sample_case sample_core) = as_react sample_bot"
    unfolding sample_decision by (rule sample_answer)
  have none: "dec_suppress_reason (case_decision (\<lambda>_. 7) sample_env id sample_case sample_core) = None"
    unfolding sample_decision
    using accounted[where env = sample_env and ctx = "sample_message 1" and content = "lit ''oo''"
        and now = 0 and c = sample_core] sample_out
    by (auto simp: case_prod_beta split: option.splits)
  have facts: "rc_expected sample_case = expected_of (as_react sample_bot)"
    "rc_expected_mode sample_case = None" "rc_expected_suppress_reason sample_case = None"
    "rr_inject_statuses (rc_runtime sample_case) = []" "expected_of (as_react sample_bot) \<noteq> ExpectNoop"
    "case_message (\<lambda>_. 7) sample_case = sample_message 1"
    by (simp_all add: sample_case_def as_react_def case_message_def sample_message_def)
  from replay_case_refines[where env = sample_env and core = sample_core and stable_id = "\<lambda>_. 7"
      and clock = id and c = sample_case and core' = "fst ?r" and verdict = "snd ?r",
      OF reach_start _ _ prod.collapse[symmetric]]
  have "snd ?r = Inr () \<and> (snd ?r = Inr () \<longrightarrow>
      snd (core_run sample_env sample_core (case_ops (\<lambda>_. 7) id sample_case)) = [(0, sample_message 1)])"
    using d none by (simp add: facts mono_def)
  then show ?thesis by simp
qed

end
