(* ===== verification/Diagnostics.thy ===== *)
theory Diagnostics
  imports Rust_Text Config_Store Audit_Chain "HOL-Library.Stream"
begin

text \<open>
  The self check and the security tools, \<^verbatim>\<open>src/security/diagnostics.rs\<close>.  A child process is what
  the program sees of it: the answers to its polls with the time they came, what waiting returned
  after it was killed, and what the two pipes held.  Rendering of paths, JSON and the clock are
  parameters.
\<close>

section \<open>Reports\<close>

datatype check_status = Pass | Warn | Fail

record self_check_item =
  sci_name :: rstr
  sci_status :: check_status
  sci_detail :: rstr

record local_self_check_report =
  lr_healthy :: bool
  lr_items :: "self_check_item list"

datatype security_diagnostics_mode = Offline | Online

record tool_check_result =
  tr_tool :: rstr
  tr_status :: check_status
  tr_exit_code :: "int option"
  tr_timed_out :: bool
  tr_network_used :: bool
  tr_summary :: rstr

record security_diagnostics_report =
  sd_generated_at_utc :: rstr
  sd_mode :: security_diagnostics_mode
  sd_high_or_critical_found :: bool
  sd_results :: "tool_check_result list"

record tool_execution_policy =
  tp_timeout :: duration
  tp_output_cap_bytes :: nat
  tp_allow_network :: bool

definition tool_execution_policy_default :: tool_execution_policy where
  "tool_execution_policy_default =
     \<lparr>tp_timeout = 30000000000, tp_output_cap_bytes = 32 * 1024, tp_allow_network = False\<rparr>"

definition mode_from_dependency_policy ::
  "dependency_security_check_mode \<Rightarrow> security_diagnostics_mode" where
  "mode_from_dependency_policy mode = (case mode of Disabled \<Rightarrow> Offline | OfflineSnapshot \<Rightarrow> Offline)"

section \<open>Redaction\<close>

text \<open>Everything after the first \<open>KEY=\<close> of a line goes, whatever the case of the key.\<close>

definition redact_line :: "rstr \<Rightarrow> rstr \<Rightarrow> rstr" where
  "redact_line key line =
     (case str_find (key @ lit ''='') (to_ascii_uppercase line) of
        Some pos \<Rightarrow> take (pos + length key + 1) line @ lit ''<redacted>''
      | None \<Rightarrow> line)"

definition redact_key_value_pair :: "rstr \<Rightarrow> rstr \<Rightarrow> rstr" where
  "redact_key_value_pair input key = str_trim_end (unlines (map (redact_line key) (str_lines input)))"

definition redacted_keys :: "rstr list" where
  "redacted_keys =
     [lit ''DISCORD_TOKEN'', lit ''OO_PSEUDO_ID_HMAC_KEY'', lit ''TOKEN'', lit ''SECRET'', lit ''PASSWORD'']"

definition redact_sensitive :: "rstr \<Rightarrow> rstr" where
  "redact_sensitive input = foldl redact_key_value_pair input redacted_keys"

definition summarize_and_redact :: "nat list \<Rightarrow> nat \<Rightarrow> rstr" where
  "summarize_and_redact bytes cap0 =
     (let cap = max cap0 64;
          summary = redact_sensitive (str_trim (utf8_lossy (take cap bytes)))
      in if length bytes > cap then summary @ lit '' [truncated]'' else summary)"

section \<open>Running a tool\<close>

datatype poll = Exited "int option" | Running | PollFailed

record child =
  ch_polls :: "(poll \<times> duration) stream"
  ch_killed_code :: "int option"
  ch_stdout :: "nat list option"
  ch_stderr :: "nat list option"

text \<open>The loop that waits: the exit code and whether the time ran out.  It sleeps 50 ms between two
  polls; a process that neither ends nor lets time pass would keep it for ever.\<close>

partial_function (option) poll_loop ::
  "duration \<Rightarrow> int option \<Rightarrow> (poll \<times> duration) stream \<Rightarrow> (int option \<times> bool) option" where
  "poll_loop timeout killed_code polls =
     (case shd polls of (answer, elapsed) \<Rightarrow>
        (case answer of
           Exited code \<Rightarrow> Some (code, False)
         | PollFailed \<Rightarrow> Some (None, False)
         | Running \<Rightarrow>
             if elapsed > timeout then Some (killed_code, True)
             else poll_loop timeout killed_code (stl polls)))"

definition debug_code :: "int option \<Rightarrow> rstr" where
  "debug_code code =
     (case code of None \<Rightarrow> lit ''None'' | Some n \<Rightarrow> lit ''Some('' @ decimal n @ lit '')'')"

definition bytes_read :: "nat list option \<Rightarrow> nat list" where
  "bytes_read r = (case r of Some bytes \<Rightarrow> bytes | None \<Rightarrow> [])"

definition tool_result ::
  "rstr \<Rightarrow> rstr \<Rightarrow> tool_execution_policy \<Rightarrow> bool \<Rightarrow> nat list \<Rightarrow> int option \<times> bool \<Rightarrow> tool_check_result" where
  "tool_result tool invocation policy network_used combined = (\<lambda>(exit_code, timed_out).
     (let summary = summarize_and_redact combined (tp_output_cap_bytes policy);
          lower = to_ascii_lowercase summary;
          missing_subcommand =
            str_contains lower (lit ''no such command'') \<or> str_contains lower (lit ''not found'');
          status = (if timed_out \<or> missing_subcommand then Warn
                    else if exit_code = Some 0 then Pass else Fail)
      in \<lparr>tr_tool = tool, tr_status = status, tr_exit_code = exit_code, tr_timed_out = timed_out,
          tr_network_used = network_used,
          tr_summary = (if summary = []
            then lit ''invocation='' @ invocation @ lit '' exit_code='' @ debug_code exit_code
            else summary)\<rparr>))"

definition run_tool ::
  "(rstr \<Rightarrow> rstr list \<Rightarrow> rstr + child) \<Rightarrow> rstr \<Rightarrow> rstr \<Rightarrow> rstr list \<Rightarrow> tool_execution_policy \<Rightarrow> bool \<Rightarrow>
   tool_check_result option" where
  "run_tool spawn tool program args policy network_used =
     (let invocation = program @ lit '' '' @ str_join (lit '' '') args
      in case spawn program args of
           Inl err \<Rightarrow>
             Some \<lparr>tr_tool = tool, tr_status = Warn, tr_exit_code = None, tr_timed_out = False,
               tr_network_used = network_used,
               tr_summary = lit ''tool missing or failed to spawn: '' @ err\<rparr>
         | Inr c \<Rightarrow>
             map_option
               (tool_result tool invocation policy network_used
                 (bytes_read (ch_stdout c) @ bytes_read (ch_stderr c)))
               (poll_loop (tp_timeout policy) (ch_killed_code c) (ch_polls c)))"

section \<open>The security diagnostics\<close>

definition mentions_high :: "tool_check_result \<Rightarrow> bool" where
  "mentions_high r \<longleftrightarrow>
     (let lower = to_ascii_lowercase (tr_summary r)
      in str_contains lower (lit ''critical'') \<or> str_contains lower (lit ''high''))"

definition cargo_audit_args :: "security_diagnostics_mode \<Rightarrow> rstr list" where
  "cargo_audit_args mode =
     (if mode = Offline then [lit ''audit'', lit ''--no-fetch''] else [lit ''audit''])"

definition now_utc_string :: "rstr + rstr \<Rightarrow> rstr" where
  "now_utc_string now = (case now of Inr t \<Rightarrow> t | Inl _ \<Rightarrow> lit ''1970-01-01T00:00:00Z'')"

definition run_security_diagnostics ::
  "(rstr \<Rightarrow> rstr list \<Rightarrow> rstr + child) \<Rightarrow> rstr + rstr \<Rightarrow> security_diagnostics_mode \<Rightarrow>
   tool_execution_policy \<Rightarrow> (rstr + security_diagnostics_report) option" where
  "run_security_diagnostics spawn now mode policy =
     (if mode = Online \<and> \<not> tp_allow_network policy
      then Some (Inl (lit ''online diagnostics require explicit --allow-network opt-in''))
      else (let network_used = (mode = Online); cargo = lit ''cargo'' in
        Option.bind (run_tool spawn (lit ''cargo-audit'') cargo (cargo_audit_args mode) policy network_used) (\<lambda>r1.
        Option.bind (run_tool spawn (lit ''cargo-deny'') cargo [lit ''deny'', lit ''check''] policy network_used) (\<lambda>r2.
        Option.bind (run_tool spawn (lit ''cargo-geiger'') cargo [lit ''geiger'', lit ''--all-features'']
          policy network_used) (\<lambda>r3.
        Some (Inr \<lparr>sd_generated_at_utc = now_utc_string now, sd_mode = mode,
          sd_high_or_critical_found = list_ex mentions_high [r1, r2, r3],
          sd_results = [r1, r2, r3]\<rparr>))))))"

text \<open>\<^verbatim>\<open>fs::write\<close> replaces what the file held.\<close>

definition fs_write :: "io_env \<Rightarrow> path \<Rightarrow> nat list \<Rightarrow> fs \<Rightarrow> fs \<times> (rstr + unit)" where
  "fs_write env p bytes s =
     guarded env (IoCreate p)
       (\<lambda>s. if fs_is_dir s p then (s, Inl (lit ''Is a directory (os error 21)''))
            else if \<not> fs_in_dir s p then (s, Inl not_found)
            else (s(p \<mapsto> File bytes), Inr ())) s"

definition write_security_snapshot ::
  "io_env \<Rightarrow> (security_diagnostics_report \<Rightarrow> rstr + rstr) \<Rightarrow> security_diagnostics_report \<Rightarrow> path \<Rightarrow> fs \<Rightarrow>
   fs \<times> (rstr + unit)" where
  "write_security_snapshot io json report p =
     io_bind (case path_parent p of Some parent \<Rightarrow> fs_create_dir_all io parent | None \<Rightarrow> io_return ()) (\<lambda>_.
     io_bind (io_lift (json report)) (\<lambda>encoded.
     fs_write io p (utf8_encode (encoded @ [10]))))"

section \<open>The self check\<close>

record check_env =
  ce_display :: "path \<Rightarrow> rstr"
  ce_files :: fs
  ce_audit :: audit_env
  ce_opened :: "path \<Rightarrow> rstr + audit_db"

definition check_file_exists :: "check_env \<Rightarrow> rstr \<Rightarrow> path \<Rightarrow> self_check_item" where
  "check_file_exists env name p =
     (if fs_exists (ce_files env) p
      then \<lparr>sci_name = name, sci_status = Pass, sci_detail = ce_display env p @ lit '' exists''\<rparr>
      else \<lparr>sci_name = name, sci_status = Warn, sci_detail = ce_display env p @ lit '' is missing''\<rparr>)"

definition audit_item :: "check_status \<Rightarrow> rstr \<Rightarrow> self_check_item" where
  "audit_item st detail = \<lparr>sci_name = lit ''audit_db_health'', sci_status = st, sci_detail = detail\<rparr>"

definition newest_only :: audit_query_filter where
  "newest_only =
     \<lparr>qf_start_ts_utc = None, qf_end_ts_utc = None, qf_event_type = None, qf_detector_backend = None,
      qf_suppressed_reason = None, qf_mode = None, qf_limit = Some 1\<rparr>"

definition i64_clamp :: "int \<Rightarrow> int" where
  "i64_clamp n = max (- (2 ^ 63)) (min (2 ^ 63 - 1) n)"

definition check_audit_health :: "check_env \<Rightarrow> audit_store_config \<Rightarrow> nat \<Rightarrow> self_check_item" where
  "check_audit_health env cfg max_rows =
     (if \<not> fs_exists (ce_files env) (sc_sqlite_path cfg)
      then audit_item Warn (lit ''audit sqlite does not exist yet'')
      else case open_ro cfg (ce_opened env (sc_sqlite_path cfg)) of
        Inl err \<Rightarrow> audit_item Fail (lit ''failed to open audit sqlite: '' @ err)
      | Inr store \<Rightarrow>
          (case audit_tail (ce_audit env) newest_only store of
             Inl err \<Rightarrow> audit_item Fail (lit ''tail failed: '' @ err)
           | Inr [] \<Rightarrow> audit_item Pass (lit ''audit db is empty'')
           | Inr (row # _) \<Rightarrow>
               (let until = ev_event_id row;
                    start = i64_clamp (i64_clamp (until - as_i64 max_rows) + 1)
                in case audit_verify (ce_audit env) (Some start) (Some until) store of
                     Inl err \<Rightarrow> audit_item Fail (lit ''verify failed: '' @ err)
                   | Inr report \<Rightarrow>
                       if broken_rows report = 0
                       then audit_item Pass
                         (lit ''verified '' @ dec (checked_rows report) @ lit '' recent rows'')
                       else audit_item Fail
                         (lit ''broken_rows='' @ dec (broken_rows report) @ lit '' in recent verify''))))"

definition fingerprint_item :: "loaded_startup_config \<Rightarrow> self_check_item" where
  "fingerprint_item startup =
     (if str_len (ld_config_fingerprint startup) = 64
      then \<lparr>sci_name = lit ''config_fingerprint'', sci_status = Pass,
            sci_detail = lit ''sha256 fingerprint is present''\<rparr>
      else \<lparr>sci_name = lit ''config_fingerprint'', sci_status = Fail,
            sci_detail = lit ''fingerprint is missing or malformed''\<rparr>)"

definition run_local_self_check :: "check_env \<Rightarrow> loaded_startup_config \<Rightarrow> local_self_check_report" where
  "run_local_self_check env startup =
     (let diagnostics = cfg_diagnostics (ld_app startup); audit = cfg_audit (ld_app startup);
          items =
            [check_file_exists env (lit ''lockfile'') (path_of (lit ''Cargo.lock'')),
             check_file_exists env (lit ''pinned_hardened_toolchain'')
               (path_of (lit ''ci/hardened-x64/rust-toolchain.toml'')),
             check_file_exists env (lit ''hardening_verifier'')
               (path_of (lit ''scripts/verify_hardening.sh''))] @
            (if verify_generated_artifacts diagnostics
             then [check_file_exists env (lit ''startup_config'') (ld_config_path startup),
                   check_file_exists env (lit ''hardening_script'')
                     (path_of (lit ''scripts/build_hardened_x64.sh''))]
             else []) @
            [check_file_exists env (lit ''security_snapshot'') (security_snapshot_path diagnostics),
             fingerprint_item startup,
             check_audit_health env
               \<lparr>sc_sqlite_path = ac_sqlite_path audit, sc_busy_timeout_ms = ac_busy_timeout_ms audit,
                sc_export_max_rows = ac_export_max_rows audit,
                sc_query_max_rows = ac_query_max_rows audit\<rparr>
               (audit_verify_max_rows diagnostics)]
      in \<lparr>lr_healthy = list_all (\<lambda>item. sci_status item \<noteq> Fail) items, lr_items = items\<rparr>)"

section \<open>Waiting ends\<close>

definition poll_result :: "int option \<Rightarrow> poll \<Rightarrow> int option \<times> bool" where
  "poll_result killed_code answer =
     (case answer of
        Exited code \<Rightarrow> (code, False) | PollFailed \<Rightarrow> (None, False) | Running \<Rightarrow> (killed_code, True))"

definition settled :: "duration \<Rightarrow> poll \<times> duration \<Rightarrow> bool" where
  "settled timeout p \<longleftrightarrow> fst p \<noteq> Running \<or> timeout < snd p"

lemma poll_loop_settles:
  "settled timeout (polls !! k) \<Longrightarrow> \<forall>j < k. \<not> settled timeout (polls !! j) \<Longrightarrow>
   poll_loop timeout code polls = Some (poll_result code (fst (polls !! k)))"
proof (induction k arbitrary: polls)
  case 0
  then show ?case
    by (subst poll_loop.simps) (auto simp: settled_def poll_result_def split: prod.split poll.split)
next
  case (Suc k)
  have "\<not> settled timeout (shd polls)" using Suc.prems(2) by (metis snth.simps(1) zero_less_Suc)
  then have "poll_loop timeout code polls = poll_loop timeout code (stl polls)"
    by (subst poll_loop.simps) (auto simp: settled_def split: prod.split)
  moreover have "\<forall>j < k. \<not> settled timeout (stl polls !! j)"
    using Suc.prems(2) by (metis Suc_less_eq snth.simps(2))
  ultimately show ?case using Suc.IH[of "stl polls"] Suc.prems(1) by simp
qed

lemma poll_loop_returns:
  assumes "\<forall>k. k * 50000000 \<le> snd (polls !! k)"
  obtains k where "k \<le> timeout div 50000000 + 1" and "settled timeout (polls !! k)"
    and "\<forall>j < k. \<not> settled timeout (polls !! j)"
    and "poll_loop timeout code polls = Some (poll_result code (fst (polls !! k)))"
proof -
  let ?n = "timeout div 50000000 + 1"
  have "timeout < ?n * 50000000"
    using dividend_less_div_times[of 50000000 timeout] by (simp add: algebra_simps)
  also have "\<dots> \<le> snd (polls !! ?n)" using assms by blast
  finally have last: "settled timeout (polls !! ?n)" by (simp add: settled_def)
  define k where "k = (LEAST k. settled timeout (polls !! k))"
  have k: "settled timeout (polls !! k)" "k \<le> ?n"
    unfolding k_def by (rule LeastI[where P = "\<lambda>k. settled timeout (polls !! k)", OF last],
        rule Least_le[where P = "\<lambda>k. settled timeout (polls !! k)", OF last])
  have before: "\<forall>j < k. \<not> settled timeout (polls !! j)"
    unfolding k_def using not_less_Least by blast
  show thesis by (rule that[OF k(2,1) before poll_loop_settles[OF k(1) before]])
qed

lemma tool_result_fields:
  "tr_exit_code (tool_result tool call policy net bs e) = fst e"
  "tr_timed_out (tool_result tool call policy net bs e) = snd e"
  "tr_network_used (tool_result tool call policy net bs e) = net"
  "tr_tool (tool_result tool call policy net bs e) = tool"
  by (simp_all add: tool_result_def case_prod_beta Let_def)

text \<open>A tool run always ends: as sleeping between two polls takes at least 50 ms, the loop stops at
  the first poll that finds the process ended, unobservable, or over time, after at most one poll more
  than the timeout holds intervals, and the result says which of these it was.\<close>

theorem run_tool_terminates:
  assumes "spawn program args = Inr c" and "\<forall>k. k * 50000000 \<le> snd (ch_polls c !! k)"
  shows "\<exists>k r. k \<le> tp_timeout policy div 50000000 + 1 \<and>
    run_tool spawn tool program args policy network_used = Some r \<and>
    settled (tp_timeout policy) (ch_polls c !! k) \<and>
    (\<forall>j < k. \<not> settled (tp_timeout policy) (ch_polls c !! j)) \<and>
    (tr_exit_code r, tr_timed_out r) = poll_result (ch_killed_code c) (fst (ch_polls c !! k))"
proof -
  obtain k where k: "k \<le> tp_timeout policy div 50000000 + 1"
    "settled (tp_timeout policy) (ch_polls c !! k)"
    "\<forall>j < k. \<not> settled (tp_timeout policy) (ch_polls c !! j)"
    and loop: "poll_loop (tp_timeout policy) (ch_killed_code c) (ch_polls c) =
      Some (poll_result (ch_killed_code c) (fst (ch_polls c !! k)))"
    by (rule poll_loop_returns[OF assms(2)])
  show ?thesis
    by (rule exI[of _ k]) (use k in \<open>simp add: run_tool_def assms(1) loop tool_result_fields\<close>)
qed

lemma run_tool_total:
  assumes "\<And>c. spawn program args = Inr c \<Longrightarrow> \<forall>k. k * 50000000 \<le> snd (ch_polls c !! k)"
  obtains r where "run_tool spawn tool program args policy network_used = Some r"
    and "tr_network_used r = network_used" and "tr_tool r = tool"
proof (cases "spawn program args")
  case (Inl e)
  have "run_tool spawn tool program args policy network_used =
      Some \<lparr>tr_tool = tool, tr_status = Warn, tr_exit_code = None, tr_timed_out = False,
        tr_network_used = network_used, tr_summary = lit ''tool missing or failed to spawn: '' @ e\<rparr>"
    by (simp add: run_tool_def Inl)
  then show thesis by (rule that) simp_all
next
  case (Inr c)
  obtain k where loop: "poll_loop (tp_timeout policy) (ch_killed_code c) (ch_polls c) =
      Some (poll_result (ch_killed_code c) (fst (ch_polls c !! k)))"
    by (rule poll_loop_returns[OF assms[OF Inr]])
  have "run_tool spawn tool program args policy network_used =
      Some (tool_result tool (program @ lit '' '' @ str_join (lit '' '') args) policy network_used
        (bytes_read (ch_stdout c) @ bytes_read (ch_stderr c))
        (poll_result (ch_killed_code c) (fst (ch_polls c !! k))))"
    by (simp add: run_tool_def Inr loop)
  then show thesis by (rule that) (simp_all add: tool_result_fields)
qed

section \<open>Redaction hides\<close>

text \<open>Two lines that differ at most behind a key that is to be hidden.\<close>

definition same_upto :: "rstr set \<Rightarrow> rstr \<Rightarrow> rstr \<Rightarrow> bool" where
  "same_upto K l l' \<longleftrightarrow> l = l' \<or>
     (\<exists>pre k v v'. l = pre @ k @ 61 # v \<and> l' = pre @ k @ 61 # v' \<and> to_ascii_uppercase k \<in> K)"

lemma str_find_append: "str_find n s = Some i \<Longrightarrow> str_find n (s @ t) = Some i"
proof (rule str_find_unique)
  assume s: "str_find n s = Some i"
  then show "i \<le> length (s @ t)" using str_find_Some[OF s] by simp
  show "prefix n (drop i (s @ t))" using str_find_Some[OF s] by (auto intro: prefix_prefix)
  show "\<forall>j < i. \<not> prefix n (drop j (s @ t))"
  proof (intro allI impI notI)
    fix j assume j: "j < i" and p: "prefix n (drop j (s @ t))"
    have "length n \<le> length (drop j s)" using str_find_bound[OF s] j by simp
    moreover have "drop j (s @ t) = drop j s @ t" using str_find_bound[OF s] j by simp
    ultimately have "prefix n (drop j s)" using p by (metis prefix_length_prefix prefixI)
    with str_find_least[OF s j] show False by blast
  qed
qed

text \<open>What is in front of a secret decides alone, or stays in front.\<close>

lemma redact_line_common:
  shows "sublist (key @ [61]) (to_ascii_uppercase c) \<Longrightarrow> \<exists>r. \<forall>v. redact_line key (c @ v) = r"
    and "\<not> sublist (key @ [61]) (to_ascii_uppercase c) \<Longrightarrow> \<exists>w. redact_line key (c @ v) = c @ w"
proof -
  have lit: "lit ''='' = [61]" by (simp add: lit_def)
  assume "sublist (key @ [61]) (to_ascii_uppercase c)"
  then obtain i where i: "str_find (key @ [61]) (to_ascii_uppercase c) = Some i"
    using str_find_None by fastforce
  then have "i + length key + 1 \<le> length c"
    using str_find_bound by (fastforce simp: to_ascii_uppercase_def)
  then show "\<exists>r. \<forall>v. redact_line key (c @ v) = r"
    using str_find_append[OF i] by (simp add: redact_line_def lit to_ascii_uppercase_def)
next
  have lit: "lit ''='' = [61]" by (simp add: lit_def)
  assume none: "\<not> sublist (key @ [61]) (to_ascii_uppercase c)"
  show "\<exists>w. redact_line key (c @ v) = c @ w"
  proof (cases "str_find (key @ [61]) (to_ascii_uppercase (c @ v))")
    case None
    then show ?thesis by (simp add: redact_line_def lit)
  next
    case (Some i)
    have "length c < i + length key + 1"
    proof (rule ccontr)
      assume "\<not> ?thesis"
      then have short: "length (key @ [61]) \<le> length (drop i (to_ascii_uppercase c))"
        and d: "drop i (to_ascii_uppercase (c @ v)) =
          drop i (to_ascii_uppercase c) @ to_ascii_uppercase v"
        by (simp_all add: to_ascii_uppercase_def)
      have "prefix (key @ [61]) (drop i (to_ascii_uppercase c) @ to_ascii_uppercase v)"
        using str_find_Some[OF Some] d by simp
      then have "prefix (key @ [61]) (drop i (to_ascii_uppercase c))"
        using short by (metis prefix_length_prefix prefixI)
      then have "sublist (key @ [61]) (to_ascii_uppercase c)"
        by (meson prefix_imp_sublist sublist_drop sublist_order.order.trans)
      with none show False by blast
    qed
    then show ?thesis using Some by (simp add: redact_line_def lit)
  qed
qed

lemma redact_line_same:
  assumes "same_upto K l l'"
  shows "same_upto (K - {key}) (redact_line key l) (redact_line key l')"
proof (cases "l = l'")
  case False
  then obtain pre k v v' where l: "l = (pre @ k @ [61]) @ v" "l' = (pre @ k @ [61]) @ v'"
    and k: "to_ascii_uppercase k \<in> K" using assms by (auto simp: same_upto_def)
  show ?thesis
  proof (cases "sublist (key @ [61]) (to_ascii_uppercase (pre @ k @ [61]))")
    case True
    from redact_line_common(1)[OF this] show ?thesis unfolding l same_upto_def by metis
  next
    case False
    have "to_ascii_uppercase k \<noteq> key"
    proof
      assume "to_ascii_uppercase k = key"
      then have "to_ascii_uppercase (pre @ k @ [61]) = to_ascii_uppercase pre @ (key @ [61])"
        by (auto simp: to_ascii_uppercase_def ascii_upper_def)
      with False show False by simp
    qed
    with k have "to_ascii_uppercase k \<in> K - {key}" by blast
    moreover obtain w w' where "redact_line key l = (pre @ k @ [61]) @ w"
      "redact_line key l' = (pre @ k @ [61]) @ w'"
      using redact_line_common(2)[OF False] unfolding l by metis
    ultimately show ?thesis unfolding same_upto_def by auto
  qed
qed (simp add: same_upto_def)

lemma trim_end_append:
  "str_trim_end t \<noteq> [] \<Longrightarrow> str_trim_end (s @ t) = s @ str_trim_end t"
  "str_trim_end t = [] \<Longrightarrow> str_trim_end (s @ t) = str_trim_end s"
  by (auto simp: str_trim_end_def dropWhile_append dropWhile_eq_Nil_conv)

lemma trim_end_kept: "str_trim_end ((c @ [61]) @ v) = (c @ [61]) @ str_trim_end v"
proof (cases "str_trim_end v = []")
  case True
  then have "str_trim_end ((c @ [61]) @ v) = str_trim_end (c @ [61])" by (rule trim_end_append)
  with True show ?thesis by (simp add: str_trim_end_def is_whitespace_def)
qed (rule trim_end_append)

lemma same_upto_trim: "same_upto K l l' \<Longrightarrow> same_upto K (str_trim_end l) (str_trim_end l')"
proof (cases "l = l'")
  case False
  assume "same_upto K l l'"
  with False obtain pre k v v' where l: "l = ((pre @ k) @ [61]) @ v" "l' = ((pre @ k) @ [61]) @ v'"
    and "to_ascii_uppercase k \<in> K" by (auto simp: same_upto_def)
  then show ?thesis unfolding l trim_end_kept by (auto simp: same_upto_def)
qed (simp add: same_upto_def)

lemma strip_cr_kept: "\<exists>w. strip_cr ((c @ [61]) @ v) = (c @ [61]) @ w"
  by (cases "v = []") (simp_all add: strip_cr_def butlast_append)

lemma same_upto_strip: "same_upto K l l' \<Longrightarrow> same_upto K (strip_cr l) (strip_cr l')"
proof (cases "l = l'")
  case False
  assume "same_upto K l l'"
  with False obtain pre k v v' where l: "l = ((pre @ k) @ [61]) @ v" "l' = ((pre @ k) @ [61]) @ v'"
    and k: "to_ascii_uppercase k \<in> K" by (auto simp: same_upto_def)
  obtain w w' where "strip_cr l = ((pre @ k) @ [61]) @ w" "strip_cr l' = ((pre @ k) @ [61]) @ w'"
    using strip_cr_kept unfolding l by metis
  with k show ?thesis by (auto simp: same_upto_def)
qed (simp add: same_upto_def)

lemma same_upto_blank:
  assumes "same_upto K l l'"
  shows "str_trim_end l = [] \<longleftrightarrow> str_trim_end l' = []"
proof (cases "l = l'")
  case False
  with assms obtain pre k v v' where l: "l = ((pre @ k) @ [61]) @ v" "l' = ((pre @ k) @ [61]) @ v'"
    by (auto simp: same_upto_def)
  show ?thesis unfolding l trim_end_kept by simp
qed simp

lemma trim_unlines:
  "str_trim_end (unlines (ls @ [l])) =
   (if str_trim_end l = [] then str_trim_end (unlines ls) else unlines ls @ str_trim_end l)"
proof -
  have nl: "str_trim_end (l @ [10]) = str_trim_end l"
    by (rule trim_end_append) (simp add: str_trim_end_def is_whitespace_def)
  have "unlines (ls @ [l]) = unlines ls @ (l @ [10])" by (simp add: unlines_def)
  then show ?thesis
    using trim_end_append[of "l @ [10]" "unlines ls"] nl by simp
qed

text \<open>Writing lines, trimming and reading them again keeps the difference behind the keys.\<close>

lemma trimmed_lines_same:
  "list_all2 (same_upto K) ls ls' \<Longrightarrow> \<forall>l \<in> set ls \<union> set ls'. 10 \<notin> set l \<Longrightarrow>
   list_all2 (same_upto K) (str_lines (str_trim_end (unlines ls))) (str_lines (str_trim_end (unlines ls')))"
proof (induction ls arbitrary: ls' rule: rev_induct)
  case Nil
  then show ?case by (simp add: unlines_def str_trim_end_def str_lines_def)
next
  case (snoc l ls)
  then obtain ms m where ls': "ls' = ms @ [m]" and same: "list_all2 (same_upto K) ls ms" "same_upto K l m"
    by (auto simp: list_all2_append1 list_all2_Cons1)
  show ?case
  proof (cases "str_trim_end l = []")
    case True
    with same_upto_blank[OF same(2)] have "str_trim_end m = []" by simp
    with True snoc.IH[OF same(1)] snoc.prems(2) show ?thesis by (simp add: ls' trim_unlines)
  next
    case False
    with same_upto_blank[OF same(2)] have m: "str_trim_end m \<noteq> []" by simp
    have sub: "set (str_trim_end t) \<subseteq> set t" for t
      by (auto simp: str_trim_end_def dest: set_dropWhileD)
    have clean: "10 \<notin> set (str_trim_end l)" "10 \<notin> set (str_trim_end m)"
      using snoc.prems(2) sub ls' by auto
    have map: "list_all2 (same_upto K) (map strip_cr ls) (map strip_cr ms)"
      using same(1) by (auto simp: list_all2_conv_all_nth intro: same_upto_strip)
    show ?thesis
      using snoc.prems(2) False m clean map same_upto_trim[OF same(2)]
      by (simp add: ls' trim_unlines lines_unlines_append str_lines_plain list_all2_appendI)
  qed
qed

lemma redact_line_clean: "10 \<notin> set l \<Longrightarrow> 10 \<notin> set (redact_line key l)"
  by (auto simp: redact_line_def lit_def dest: in_set_takeD split: option.split)

lemma redact_lines_same:
  assumes "list_all2 (same_upto K) (str_lines s) (str_lines s')"
  shows "list_all2 (same_upto (K - {key})) (map (redact_line key) (str_lines s))
    (map (redact_line key) (str_lines s'))"
  using assms redact_line_same by (auto simp: list_all2_conv_all_nth)

lemma redact_all_same:
  "keys \<noteq> [] \<Longrightarrow> list_all2 (same_upto (set keys)) (str_lines s) (str_lines s') \<Longrightarrow>
   foldl redact_key_value_pair s keys = foldl redact_key_value_pair s' keys"
proof (induction keys arbitrary: s s')
  case (Cons key keys)
  let ?ls = "map (redact_line key) (str_lines s)" and ?ls' = "map (redact_line key) (str_lines s')"
  have less: "set (key # keys) - {key} \<subseteq> set keys" by auto
  have mono: "same_upto A l l' \<Longrightarrow> A \<subseteq> B \<Longrightarrow> same_upto B l l'" for A B l l'
    unfolding same_upto_def by blast
  have same: "list_all2 (same_upto (set keys)) ?ls ?ls'"
    using redact_lines_same[OF Cons.prems(2), of key] by (rule list_all2_mono) (rule mono[OF _ less])
  show ?case
  proof (cases "keys = []")
    case True
    have "same_upto {} = (=)" by (auto simp: same_upto_def fun_eq_iff)
    with True same have "?ls = ?ls'" by (simp add: list_all2_eq[symmetric])
    with True show ?thesis by (simp add: redact_key_value_pair_def)
  next
    case False
    have "\<forall>l \<in> set ?ls \<union> set ?ls'. 10 \<notin> set l"
      using str_lines_clean redact_line_clean by fastforce
    from trimmed_lines_same[OF same this] Cons.IH[OF False] show ?thesis
      by (simp add: redact_key_value_pair_def)
  qed
qed simp

text \<open>C39: redaction hides: a report does not depend on what stands behind \<open>KEY=\<close> on a line, for any of
  the keys in any case, however many there are and whatever stands before them.\<close>

theorem redact_noninterference:
  assumes "list_all2 (same_upto (set redacted_keys)) (str_lines input) (str_lines input')"
  shows "redact_sensitive input = redact_sensitive input'"
  unfolding redact_sensitive_def
  by (rule redact_all_same[OF _ assms]) (simp add: redacted_keys_def)

section \<open>What a healthy report says\<close>

lemma newest_row:
  assumes "ae_fault env SelectEvents = None" and "1 \<le> as_query_max_rows store"
  shows "audit_tail env newest_only store =
    Inr (if db_events (as_db store) = [] then []
         else [map_audit_event_row (last (db_events (as_db store)))])"
proof -
  have "min 1 (as_query_max_rows store) = 1" using assms(2) by simp
  moreover have "take 1 (rev rows) = (if rows = [] then [] else [last rows])" for rows :: "stored_event list"
    by (cases rows rule: rev_cases) simp_all
  moreover have "passes_filter r newest_only" for r by (simp add: passes_filter_def newest_only_def)
  ultimately show ?thesis
    using assms by (simp add: audit_tail_def query_events_capped_def newest_only_def db_try_def
        sql_limit_def as_i64_def Let_def)
qed

definition recent_chain :: "audit_env \<Rightarrow> nat \<Rightarrow> stored_event list \<Rightarrow> bool" where
  "recent_chain env m rows \<longleftrightarrow>
     chain_from env (end_hash genesis (take (length rows - m) rows)) (drop (length rows - m) rows)"

lemma audit_health_exact:
  assumes "fs_exists (ce_files env) (sc_sqlite_path cfg)"
    and opened: "ce_opened env (sc_sqlite_path cfg) = Inr db"
    and num: "numbered (db_events db)" and "length (db_events db) < 2 ^ 63 - 1"
    and faults: "ae_fault (ce_audit env) = (\<lambda>_. None)"
    and "m < 2 ^ 63" and "1 \<le> sc_query_max_rows cfg"
  shows "sci_status (check_audit_health env cfg m) =
    (if recent_chain (ce_audit env) m (db_events db) then Pass else Fail)"
proof -
  define store where "store = \<lparr>as_db = db, as_mode = ReadOnly, as_pseudo_id_hmac_key = None,
    as_export_max_rows = sc_export_max_rows cfg, as_query_max_rows = sc_query_max_rows cfg\<rparr>"
  have ro: "open_ro cfg (ce_opened env (sc_sqlite_path cfg)) = Inr store"
    by (simp add: open_ro_def opened store_def)
  have db: "as_db store = db" "1 \<le> as_query_max_rows store" using assms(7) by (simp_all add: store_def)
  let ?rows = "db_events db" and ?e = "ce_audit env"
  note tail = newest_row[of ?e store, unfolded db(1), OF _ db(2)]
  show ?thesis
  proof (cases "?rows = []")
    case True
    then show ?thesis
      using assms(1) ro tail faults by (simp add: check_audit_health_def audit_item_def recent_chain_def)
  next
    case False
    let ?n = "length ?rows"
    have last: "ev_event_id (last ?rows) = int ?n"
      using num False by (cases ?rows rule: rev_cases) (simp_all add: numbered_snoc)
    have start: "i64_clamp (i64_clamp (int ?n - as_i64 m) + 1) = int ?n - int m + 1"
      using assms(4,6) by (simp add: i64_clamp_def as_i64_def)
    let ?lo = "Some (int ?n - int m + 1)"
    have skip: "skipped ?lo = ?n - m" by (simp add: skipped_def)
    have kept: "take (last_kept (Some (int ?n)) ?rows) ?rows = ?rows" by (simp add: last_kept_def)
    have "verify_start ?e ?lo store = Inr (end_hash genesis (take (?n - m) ?rows))"
      using start_hash[of store ?lo ?e] num faults by (simp add: db(1) skip del: of_nat_diff)
    then have "audit_verify ?e ?lo (Some (int ?n)) store =
        Inr (snd (verify_loop ?e (drop (?n - m) ?rows) (end_hash genesis (take (?n - m) ?rows), empty_report)))"
      by (simp only: audit_verify_def db_try_def db(1) range_filter[OF num] skip kept faults
          option.case rbind_simps)
    then show ?thesis
      using assms(1) ro tail faults False last start
      by (simp add: check_audit_health_def audit_item_def recent_chain_def loop_broken_0 map_audit_event_row_def
          Let_def audit_event_row.defs)
  qed
qed

text \<open>C40: the self check is exact: with a readable store its report is healthy exactly when the
  fingerprint has 64 bytes and the newest rows, as many as are configured, are an unbroken chain that
  hangs on the row before them; missing files alone never make it unhealthy.\<close>

theorem self_check_exact:
  assumes "fs_exists (ce_files env) (ac_sqlite_path (cfg_audit (ld_app startup)))"
    and "ce_opened env (ac_sqlite_path (cfg_audit (ld_app startup))) = Inr db"
    and "numbered (db_events db)" and "length (db_events db) < 2 ^ 63 - 1"
    and "ae_fault (ce_audit env) = (\<lambda>_. None)"
    and "audit_verify_max_rows (cfg_diagnostics (ld_app startup)) < 2 ^ 63"
    and "1 \<le> ac_query_max_rows (cfg_audit (ld_app startup))"
  shows "lr_healthy (run_local_self_check env startup) \<longleftrightarrow>
    str_len (ld_config_fingerprint startup) = 64 \<and>
    recent_chain (ce_audit env) (audit_verify_max_rows (cfg_diagnostics (ld_app startup))) (db_events db)"
proof -
  have files: "sci_status (check_file_exists env name p) \<noteq> Fail" for name p
    by (simp add: check_file_exists_def)
  have print: "sci_status (fingerprint_item startup) \<noteq> Fail \<longleftrightarrow> str_len (ld_config_fingerprint startup) = 64"
    by (simp add: fingerprint_item_def)
  define acfg where "acfg = \<lparr>sc_sqlite_path = ac_sqlite_path (cfg_audit (ld_app startup)),
    sc_busy_timeout_ms = ac_busy_timeout_ms (cfg_audit (ld_app startup)),
    sc_export_max_rows = ac_export_max_rows (cfg_audit (ld_app startup)),
    sc_query_max_rows = ac_query_max_rows (cfg_audit (ld_app startup))\<rparr>"
  have "sci_status (check_audit_health env acfg (audit_verify_max_rows (cfg_diagnostics (ld_app startup)))) =
      (if recent_chain (ce_audit env) (audit_verify_max_rows (cfg_diagnostics (ld_app startup))) (db_events db)
       then Pass else Fail)"
    by (rule audit_health_exact) (use assms in \<open>simp_all add: acfg_def\<close>)
  then show ?thesis
    by (simp add: run_local_self_check_def Let_def files print acfg_def[symmetric])
qed

section \<open>Whole runs\<close>

text \<open>Offline nothing is fetched by the first tool and no result claims the network; online needs
  consent.\<close>

lemma diagnostics_total:
  assumes "\<And>program args c. spawn program args = Inr c \<Longrightarrow> \<forall>k. k * 50000000 \<le> snd (ch_polls c !! k)"
    and "mode = Offline \<or> tp_allow_network policy"
  obtains r where "run_security_diagnostics spawn now mode policy = Some (Inr r)"
    and "sd_mode r = mode" and "list_all (\<lambda>t. tr_network_used t = (mode = Online)) (sd_results r)"
    and "map tr_tool (sd_results r) = [lit ''cargo-audit'', lit ''cargo-deny'', lit ''cargo-geiger'']"
    and "sd_high_or_critical_found r = list_ex mentions_high (sd_results r)"
proof -
  have allowed: "\<not> (mode = Online \<and> \<not> tp_allow_network policy)" using assms(2) by auto
  let ?net = "mode = Online" and ?cargo = "lit ''cargo''"
  obtain r1 where r1: "run_tool spawn (lit ''cargo-audit'') ?cargo (cargo_audit_args mode) policy ?net = Some r1"
    "tr_network_used r1 = ?net" "tr_tool r1 = lit ''cargo-audit''" by (rule run_tool_total[OF assms(1)])
  obtain r2 where r2: "run_tool spawn (lit ''cargo-deny'') ?cargo [lit ''deny'', lit ''check''] policy ?net = Some r2"
    "tr_network_used r2 = ?net" "tr_tool r2 = lit ''cargo-deny''" by (rule run_tool_total[OF assms(1)])
  obtain r3 where r3: "run_tool spawn (lit ''cargo-geiger'') ?cargo [lit ''geiger'', lit ''--all-features'']
      policy ?net = Some r3"
    "tr_network_used r3 = ?net" "tr_tool r3 = lit ''cargo-geiger''" by (rule run_tool_total[OF assms(1)])
  have "run_security_diagnostics spawn now mode policy =
      Some (Inr \<lparr>sd_generated_at_utc = now_utc_string now, sd_mode = mode,
        sd_high_or_critical_found = list_ex mentions_high [r1, r2, r3], sd_results = [r1, r2, r3]\<rparr>)"
    using allowed by (simp add: run_security_diagnostics_def Let_def r1 r2 r3)
  then show thesis by (rule that) (simp_all add: r1 r2 r3)
qed

section \<open>Concrete runs\<close>

definition sample_stuck :: child where
  "sample_stuck =
     \<lparr>ch_polls = smap (\<lambda>k. (Running, k * 50000000)) (siterate Suc 0), ch_killed_code = None,
      ch_stdout = Some [], ch_stderr = Some []\<rparr>"

theorem run_tool_terminates_witness:
  "\<exists>r. run_tool (\<lambda>_ _. Inr sample_stuck) (lit ''t'') (lit ''cargo'') [] tool_execution_policy_default False =
     Some r \<and> tr_timed_out r"
proof -
  have at: "ch_polls sample_stuck !! k = (Running, k * 50000000)" for k
  proof -
    have "(Suc ^^ k) 0 = k" by (induction k) auto
    then show ?thesis by (simp add: sample_stuck_def)
  qed
  from run_tool_terminates[of "\<lambda>_ _. Inr sample_stuck" "lit ''cargo''" "[]" sample_stuck
      tool_execution_policy_default "lit ''t''" False]
  show ?thesis by (auto simp: at poll_result_def)
qed

theorem redact_noninterference_witness:
  "redact_sensitive (lit ''my token=a'') = redact_sensitive (lit ''my token=bc'')"
proof (rule redact_noninterference)
  have lines: "str_lines (lit ''my token=a'') = [lit ''my '' @ lit ''token'' @ 61 # lit ''a'']"
    "str_lines (lit ''my token=bc'') = [lit ''my '' @ lit ''token'' @ 61 # lit ''bc'']"
    by (simp_all add: str_lines_plain lit_def)
  have "to_ascii_uppercase (lit ''token'') \<in> set redacted_keys"
    by (simp add: redacted_keys_def lit_def to_ascii_uppercase_def ascii_upper_def)
  then show "list_all2 (same_upto (set redacted_keys)) (str_lines (lit ''my token=a''))
      (str_lines (lit ''my token=bc''))"
    unfolding lines same_upto_def by auto
qed

definition sample_check :: check_env where
  "sample_check =
     \<lparr>ce_display = (\<lambda>_. []), ce_files = (\<lambda>_. Some (File [])), ce_audit = sample_audit,
      ce_opened = (\<lambda>_. Inr (as_db sample_audit_store))\<rparr>"

theorem self_check_exact_witness:
  "lr_healthy (run_local_self_check sample_check
     \<lparr>ld_app = sample_startup, ld_config_path = path_of (lit ''c''),
      ld_config_fingerprint = replicate 64 48, ld_pseudo_id_hmac_key = None\<rparr>)"
  (is "lr_healthy (run_local_self_check _ ?s)")
proof -
  let ?rows = "db_events (as_db sample_audit_store)"
  have inv: "audit_inv sample_audit (as_db sample_audit_store)"
    by (rule reach_inv[OF sample_audit_reach refl refl])
  then have num: "numbered ?rows" and chain: "chain_from sample_audit genesis ?rows"
    by (simp_all add: audit_inv_def)
  have recent: "recent_chain sample_audit m ?rows" for m
    using chain_segment[OF chain, of "length ?rows - m" "length ?rows"] by (simp add: recent_chain_def)
  have len: "str_len (replicate 64 48) = 64" by (simp add: str_len_def utf8_encode_def utf8_char_def numeral_eq_Suc)
  have "lr_healthy (run_local_self_check sample_check ?s) \<longleftrightarrow>
      str_len (ld_config_fingerprint ?s) = 64 \<and>
      recent_chain (ce_audit sample_check) (audit_verify_max_rows (cfg_diagnostics (ld_app ?s))) ?rows"
    by (rule self_check_exact)
      (use num in \<open>simp_all add: sample_check_def sample_startup_def sample_audit_rows sample_no_audit_fault
        fs_exists_def fs_node_def path_of_def empty_path_def lit_def component_of_def\<close>)
  then show ?thesis using recent len by (simp add: sample_check_def)
qed

end
