(* ===== verification/Platform.thy ===== *)
theory Platform
  imports Rust_Text
begin

text \<open>
  What the bot reports of the machine it runs on: the Linux security modules,
  \<^verbatim>\<open>src/security/lsm.rs\<close>, and the hardening that was asked for, \<^verbatim>\<open>src/security/hardening.rs\<close>.
\<close>

section \<open>Linux security modules\<close>

record lsm_status =
  active_modules :: "rstr list"
  major_lsm :: "rstr option"
  apparmor_profile :: "rstr option"
  apparmor_enabled :: "bool option"
  selinux_context :: "rstr option"
  selinux_enforce :: "bool option"
  smack_active :: bool
  tomoyo_active :: bool
  yama_ptrace_scope :: "int option"
  loadpin_active :: bool
  safesetid_active :: bool
  lsm_warnings :: "rstr list"

definition lsm_status_default :: lsm_status where
  "lsm_status_default =
     \<lparr>active_modules = [], major_lsm = None, apparmor_profile = None, apparmor_enabled = None,
      selinux_context = None, selinux_enforce = None, smack_active = False, tomoyo_active = False,
      yama_ptrace_scope = None, loadpin_active = False, safesetid_active = False, lsm_warnings = []\<rparr>"

definition active_lsm_summary :: "lsm_status \<Rightarrow> rstr" where
  "active_lsm_summary st =
     (if active_modules st = [] then lit ''none'' else str_join (lit '','') (active_modules st))"

definition lsm_warn :: "rstr \<Rightarrow> lsm_status \<Rightarrow> lsm_status" where
  "lsm_warn w st = st\<lparr>lsm_warnings := lsm_warnings st @ [w]\<rparr>"

text \<open>What a pseudo file holds: \<open>read\<close> is \<^verbatim>\<open>fs::read_to_string\<close> of an absolute path.\<close>

type_synonym file_reader = "string \<Rightarrow> rstr + rstr"

definition parse_modules :: "rstr \<Rightarrow> rstr list" where
  "parse_modules raw = filter (\<lambda>e. e \<noteq> []) (map str_trim (str_split 44 (str_trim raw)))"

definition detect_major_lsm :: "rstr list \<Rightarrow> rstr option" where
  "detect_major_lsm active =
     find (\<lambda>candidate. candidate \<in> set active)
       [lit ''apparmor'', lit ''selinux'', lit ''smack'', lit ''tomoyo'']"

definition detect_apparmor :: "file_reader \<Rightarrow> lsm_status \<Rightarrow> lsm_status" where
  "detect_apparmor read st =
     (let st1 =
        (case read ''/proc/self/attr/apparmor/current'' of
           Inr raw \<Rightarrow>
             (let current = str_trim raw
              in if current \<noteq> [] then st\<lparr>apparmor_profile := Some current\<rparr> else st)
         | Inl err \<Rightarrow> lsm_warn (lit ''failed to read AppArmor current profile: '' @ err) st)
      in case read ''/sys/module/apparmor/parameters/enabled'' of
           Inr raw \<Rightarrow> st1\<lparr>apparmor_enabled := Some (str_trim raw = lit ''Y'')\<rparr>
         | Inl err \<Rightarrow> lsm_warn (lit ''failed to read AppArmor module enabled status: '' @ err) st1)"

definition set_selinux_context :: "rstr \<Rightarrow> lsm_status \<Rightarrow> lsm_status" where
  "set_selinux_context raw st =
     (let current = str_trim raw
      in if current \<noteq> [] then st\<lparr>selinux_context := Some current\<rparr> else st)"

definition detect_selinux :: "file_reader \<Rightarrow> lsm_status \<Rightarrow> lsm_status" where
  "detect_selinux read st =
     (let selinux_path = lit ''/proc/self/attr/selinux/current'';
          fallback_path = lit ''/proc/self/attr/current'';
          st1 =
            (case read ''/proc/self/attr/selinux/current'' of
               Inr raw \<Rightarrow> set_selinux_context raw st
             | Inl primary_err \<Rightarrow>
                 (case read ''/proc/self/attr/current'' of
                    Inr raw \<Rightarrow>
                      lsm_warn (lit ''failed to read SELinux context from '' @ selinux_path @ lit '' ('' @
                          primary_err @ lit ''); used fallback '' @ fallback_path)
                        (set_selinux_context raw st)
                  | Inl fallback_err \<Rightarrow>
                      lsm_warn (lit ''failed to read SELinux context from '' @ selinux_path @ lit '' ('' @
                          primary_err @ lit '') and fallback '' @ fallback_path @ lit '' ('' @
                          fallback_err @ lit '')'') st))
      in case read ''/sys/fs/selinux/enforce'' of
           Inr raw \<Rightarrow> st1\<lparr>selinux_enforce := Some (str_trim raw = lit ''1'')\<rparr>
         | Inl err \<Rightarrow> lsm_warn (lit ''failed to read SELinux enforce status: '' @ err) st1)"

definition detect_yama :: "file_reader \<Rightarrow> lsm_status \<Rightarrow> lsm_status" where
  "detect_yama read st =
     (case read ''/proc/sys/kernel/yama/ptrace_scope'' of
        Inr raw \<Rightarrow>
          (case parse_i32 (str_trim raw) of
             Inr v \<Rightarrow> st\<lparr>yama_ptrace_scope := Some v\<rparr>
           | Inl err \<Rightarrow> lsm_warn (lit ''failed to parse yama ptrace scope: '' @ int_error_text err) st)
      | Inl err \<Rightarrow> lsm_warn (lit ''failed to read yama ptrace scope: '' @ err) st)"

definition detect_lsm_status :: "file_reader \<Rightarrow> lsm_status" where
  "detect_lsm_status read =
     (let st0 = (case read ''/sys/kernel/security/lsm'' of
            Inr raw \<Rightarrow> lsm_status_default\<lparr>active_modules := parse_modules raw\<rparr>
          | Inl err \<Rightarrow>
              lsm_warn (lit ''failed to read /sys/kernel/security/lsm: '' @ err) lsm_status_default);
          active = active_modules st0;
          st1 = st0\<lparr>major_lsm := detect_major_lsm active,
            smack_active := lit ''smack'' \<in> set active, tomoyo_active := lit ''tomoyo'' \<in> set active,
            loadpin_active := lit ''loadpin'' \<in> set active,
            safesetid_active := lit ''safesetid'' \<in> set active\<rparr>;
          st2 = (if lit ''apparmor'' \<in> set active then detect_apparmor read st1 else st1);
          st3 = (if lit ''selinux'' \<in> set active then detect_selinux read st2 else st2)
      in detect_yama read st3)"

section \<open>Hardening\<close>

record hardening_status =
  hs_target :: rstr
  stable_release_profile :: bool
  hardened_x64_requested :: bool
  cet_requested :: bool
  stack_protector_requested :: bool
  cfi_requested :: bool
  hs_warnings :: "rstr list"

definition show_bool :: "bool \<Rightarrow> rstr" where
  "show_bool b = (if b then lit ''true'' else lit ''false'')"

definition hardening_summary :: "hardening_status \<Rightarrow> rstr" where
  "hardening_summary st =
     str_join (lit '','')
       [lit ''target='' @ hs_target st,
        lit ''stable_release_profile='' @ show_bool (stable_release_profile st),
        lit ''hardened_x64_requested='' @ show_bool (hardened_x64_requested st),
        lit ''cet_requested='' @ show_bool (cet_requested st),
        lit ''ssp_requested='' @ show_bool (stack_protector_requested st),
        lit ''cfi_requested='' @ show_bool (cfi_requested st)]"

text \<open>\<open>arch\<close> and \<open>os\<close> are \<^verbatim>\<open>std::env::consts\<close>, fixed when the program is compiled.\<close>

definition detect_hardening_status ::
  "rstr \<Rightarrow> rstr \<Rightarrow> (rstr \<Rightarrow> rstr option) \<Rightarrow> hardening_status" where
  "detect_hardening_status arch os var =
     (let requested = (case var (lit ''OO_HARDENED_X64'') of
            Some v \<Rightarrow> v = lit ''1'' \<or> v = lit ''true'' \<or> v = lit ''yes'' | None \<Rightarrow> False);
          supported = (arch = lit ''x86_64'' \<and> os = lit ''linux'');
          effective = (requested \<and> supported);
          warnings = (if requested \<and> \<not> supported
            then [lit ''hardened-x64 was requested on unsupported host; running with stable defaults'']
            else [])
      in \<lparr>hs_target = arch @ lit ''-'' @ os, stable_release_profile = True,
          hardened_x64_requested = requested, cet_requested = effective,
          stack_protector_requested = effective, cfi_requested = effective, hs_warnings = warnings\<rparr>)"

section \<open>What is detected\<close>

definition clean_module :: "rstr \<Rightarrow> bool" where
  "clean_module m \<longleftrightarrow> m \<noteq> [] \<and> 44 \<notin> set m \<and> \<not> is_whitespace (hd m) \<and> \<not> is_whitespace (last m)"

lemma trim_clean:
  "m \<noteq> [] \<Longrightarrow> \<not> is_whitespace (hd m) \<Longrightarrow> \<not> is_whitespace (last m) \<Longrightarrow> str_trim (m @ [10]) = m"
proof -
  assume m: "m \<noteq> []" "\<not> is_whitespace (hd m)" "\<not> is_whitespace (last m)"
  have ws: "is_whitespace 10" by (simp add: is_whitespace_def)
  have start: "str_trim_start (m @ [10]) = m @ [10]"
    using m(1,2) by (cases m) (simp_all add: str_trim_start_def)
  show ?thesis
    using m(1,3) ws unfolding str_trim_def start
    by (cases m rule: rev_cases) (simp_all add: str_trim_end_def)
qed

lemma trim_word:
  "m \<noteq> [] \<Longrightarrow> \<not> is_whitespace (hd m) \<Longrightarrow> \<not> is_whitespace (last m) \<Longrightarrow> str_trim m = m"
proof -
  assume m: "m \<noteq> []" "\<not> is_whitespace (hd m)" "\<not> is_whitespace (last m)"
  have start: "str_trim_start m = m"
    using m(1,2) by (cases m) (simp_all add: str_trim_start_def)
  show ?thesis
    using m(1,3) unfolding str_trim_def start
    by (cases m rule: rev_cases) (simp_all add: str_trim_end_def)
qed

lemma join_ends:
  "ws \<noteq> [] \<Longrightarrow> \<forall>w \<in> set ws. w \<noteq> [] \<Longrightarrow>
   str_join [44] ws \<noteq> [] \<and> hd (str_join [44] ws) = hd (hd ws) \<and>
   last (str_join [44] ws) = last (last ws)"
  by (induction "[44] :: rstr" ws rule: str_join.induct) auto

lemma modules_read:
  assumes "ms \<noteq> []" and "\<forall>m \<in> set ms. clean_module m"
  shows "parse_modules (str_join [44] ms @ [10]) = ms"
proof -
  have ends: "str_join [44] ms \<noteq> []" "\<not> is_whitespace (hd (str_join [44] ms))"
    "\<not> is_whitespace (last (str_join [44] ms))"
    using join_ends[OF assms(1)] assms by (auto simp: clean_module_def)
  have "map str_trim ms = ms" using assms(2) trim_word by (auto simp: clean_module_def intro: map_idI)
  moreover have "filter (\<lambda>e. e \<noteq> []) ms = ms" using assms(2) by (auto simp: clean_module_def filter_id_conv)
  ultimately show ?thesis
    using split_join[OF assms(1), of 44] assms(2) trim_clean[OF ends]
    by (simp add: parse_modules_def clean_module_def)
qed

lemma detect_keeps:
  "active_modules (detect_apparmor read st) = active_modules st"
  "active_modules (detect_selinux read st) = active_modules st"
  "active_modules (detect_yama read st) = active_modules st"
  "major_lsm (detect_apparmor read st) = major_lsm st"
  "major_lsm (detect_selinux read st) = major_lsm st"
  "major_lsm (detect_yama read st) = major_lsm st"
  by (auto simp: detect_apparmor_def detect_selinux_def detect_yama_def set_selinux_context_def lsm_warn_def
      Let_def split: sum.split)

text \<open>The module list of the kernel comes back: modules, their summary and the major one.\<close>

lemma lsm_roundtrip:
  assumes "ms \<noteq> []" and "\<forall>m \<in> set ms. clean_module m"
    and "read ''/sys/kernel/security/lsm'' = Inr (str_join [44] ms @ [10])"
  shows "active_modules (detect_lsm_status read) = ms"
    and "active_lsm_summary (detect_lsm_status read) = str_join [44] ms"
    and "major_lsm (detect_lsm_status read) = detect_major_lsm ms"
  using assms(1,3) modules_read[OF assms(1,2)]
  by (simp_all add: detect_lsm_status_def Let_def detect_keeps active_lsm_summary_def lit_def)

end
