(* ===== verification/Control.thy ===== *)
theory Control
  imports Rust_Text "HOL-Library.Stream"
begin

text \<open>
  The control socket, \<^verbatim>\<open>src/control.rs\<close>: where it lies, what server and client say to each other
  over one connection, and the loop that serves connections.  JSON, SHA-256, hexadecimal digits and
  the spelling of a path are parameters; a socket is a file of the file system.
\<close>

section \<open>Where the socket is\<close>

definition CONTROL_SOCKET_NAME :: rstr where
  "CONTROL_SOCKET_NAME = lit ''control.sock''"

definition CONTROL_RUNTIME_DIR :: rstr where
  "CONTROL_RUNTIME_DIR = lit ''/run/oo-bot''"

definition FALLBACK_SOCKET_PREFIX :: rstr where
  "FALLBACK_SOCKET_PREFIX = lit ''oo-bot-control-''"

record socket_context =
  explicit_socket_path :: "rstr option"
  xdg_runtime_dir :: "rstr option"
  runtime_dir_exists :: bool

record path_lib =
  pl_lossy :: "path \<Rightarrow> rstr"
  pl_sha256 :: "nat list \<Rightarrow> nat list"
  pl_hex :: "nat list \<Rightarrow> rstr"

definition current_socket_context :: "(rstr \<Rightarrow> rstr option) \<Rightarrow> fs \<Rightarrow> socket_context" where
  "current_socket_context var s =
     \<lparr>explicit_socket_path = var (lit ''OO_CONTROL_SOCKET_PATH''),
      xdg_runtime_dir = var (lit ''XDG_RUNTIME_DIR''),
      runtime_dir_exists = fs_is_dir s (path_of CONTROL_RUNTIME_DIR)\<rparr>"

definition fallback_socket_path :: "path_lib \<Rightarrow> path \<Rightarrow> path" where
  "fallback_socket_path lib config_path =
     (let suffix = pl_hex lib (pl_sha256 lib (utf8_encode (pl_lossy lib config_path)))
      in path_join (path_of (lit ''/tmp''))
           (path_of (FALLBACK_SOCKET_PREFIX @ take 16 suffix @ lit ''.sock'')))"

definition resolve_control_socket_path :: "path_lib \<Rightarrow> path \<Rightarrow> socket_context \<Rightarrow> path" where
  "resolve_control_socket_path lib config_path ctx =
     (let blank = (\<lambda>v. case v of None \<Rightarrow> True | Some text \<Rightarrow> str_trim text = []) in
      if \<not> blank (explicit_socket_path ctx)
      then path_of (str_trim (case explicit_socket_path ctx of Some text \<Rightarrow> text | None \<Rightarrow> []))
      else if runtime_dir_exists ctx
      then path_join (path_of CONTROL_RUNTIME_DIR) (path_of CONTROL_SOCKET_NAME)
      else if \<not> blank (xdg_runtime_dir ctx)
      then path_join (path_join
             (path_of (str_trim (case xdg_runtime_dir ctx of Some text \<Rightarrow> text | None \<Rightarrow> [])))
             (path_of (lit ''oo-bot''))) (path_of CONTROL_SOCKET_NAME)
      else fallback_socket_path lib config_path)"

definition control_socket_path :: "path_lib \<Rightarrow> (rstr \<Rightarrow> rstr option) \<Rightarrow> fs \<Rightarrow> path \<Rightarrow> path" where
  "control_socket_path lib var s config_path =
     resolve_control_socket_path lib config_path (current_socket_context var s)"

section \<open>Messages\<close>

record runtime_control_status =
  rs_state :: rstr
  rs_pid :: nat
  rs_started_at_unix :: nat
  rs_config_path :: rstr
  rs_config_fingerprint :: rstr
  rs_detector_backend :: rstr
  rs_active_lsm :: rstr
  rs_hardening_status :: rstr
  rs_socket_path :: rstr

datatype control_request = RequestStatus | RequestStop rstr

datatype control_response =
    RespondStatus runtime_control_status
  | RespondAck rstr
  | RespondError rstr

datatype runtime_control_command = CommandStop rstr

record wire_lib =
  wl_encode_request :: "control_request \<Rightarrow> rstr + rstr"
  wl_decode_request :: "rstr \<Rightarrow> rstr + control_request"
  wl_encode_response :: "control_response \<Rightarrow> rstr + rstr"
  wl_decode_response :: "rstr \<Rightarrow> rstr + control_response"

text \<open>\<^verbatim>\<open>read_line\<close>: up to and with the first line feed, or what there is.\<close>

fun first_line :: "rstr \<Rightarrow> rstr" where
  "first_line [] = []"
| "first_line (c # s) = (if c = 10 then [c] else c # first_line s)"

section \<open>The server\<close>

text \<open>The command channel: what is queued and whether the receiver is still there.  A sender waits
  while the channel is full, so a send is refused only when the receiver is gone.\<close>

record command_channel =
  ch_open :: bool
  ch_queue :: "runtime_control_command list"

definition channel_send :: "runtime_control_command \<Rightarrow> command_channel \<Rightarrow> command_channel \<times> (rstr + unit)" where
  "channel_send cmd ch =
     (if ch_open ch then (ch\<lparr>ch_queue := ch_queue ch @ [cmd]\<rparr>, Inr ())
      else (ch, Inl (lit ''channel closed'')))"

definition accepted_text :: "rstr \<Rightarrow> rstr" where
  "accepted_text source = lit ''stop request accepted via '' @ source"

text \<open>What the server reads is text or an error; what it wrote before it ended is the result's text.
  Nothing read is the end of the connection.\<close>

definition handle_connection ::
  "wire_lib \<Rightarrow> rstr + rstr \<Rightarrow> runtime_control_status \<Rightarrow> command_channel \<Rightarrow> command_channel \<times> (rstr + rstr)" where
  "handle_connection lib incoming status =
     io_bind (io_lift incoming) (\<lambda>text.
     (let line = first_line text in
      if line = [] then io_return []
      else
        io_bind (io_lift (wl_decode_request lib (str_trim_end line))) (\<lambda>request.
        io_bind
          (case request of
             RequestStatus \<Rightarrow> io_return (RespondStatus status)
           | RequestStop source \<Rightarrow>
               io_bind (channel_send (CommandStop source)) (\<lambda>_.
               io_return (RespondAck (accepted_text source)))) (\<lambda>response.
        io_bind (io_lift (wl_encode_response lib response)) (\<lambda>payload.
        io_return (payload @ [10]))))))"

datatype serve_event =
    ShutdownChanged bool
  | ShutdownDropped
  | AcceptedConnection "rstr + rstr"
  | AcceptFailed rstr

definition fs_remove_file :: "io_env \<Rightarrow> path \<Rightarrow> fs \<Rightarrow> fs \<times> (rstr + unit)" where
  "fs_remove_file io p s =
     guarded io (IoRemove p)
       (\<lambda>s. (case fs_node s p of
               Some (File _) \<Rightarrow> (s(p := None), Inr ())
             | Some Dir \<Rightarrow> (s, Inl (lit ''Is a directory (os error 21)''))
             | None \<Rightarrow> (s, Inl not_found))) s"

definition close_socket :: "io_env \<Rightarrow> path \<Rightarrow> fs \<Rightarrow> fs" where
  "close_socket io p s = (if fs_exists s p then fst (fs_remove_file io p s) else s)"

text \<open>The loop takes events as they come.  A connection is handed to a task of its own; the result
  has the connections in order.  An error of \<^verbatim>\<open>accept\<close> leaves the function at once.\<close>

partial_function (option) serve_loop ::
  "io_env \<Rightarrow> path \<Rightarrow> serve_event stream \<Rightarrow> (rstr + rstr) list \<Rightarrow> fs \<Rightarrow>
   (fs \<times> (rstr + unit) \<times> (rstr + rstr) list) option" where
  "serve_loop io p events handed s =
     (case shd events of
        ShutdownChanged stop \<Rightarrow>
          if stop then Some (close_socket io p s, Inr (), handed)
          else serve_loop io p (stl events) handed s
      | ShutdownDropped \<Rightarrow> Some (close_socket io p s, Inr (), handed)
      | AcceptedConnection incoming \<Rightarrow> serve_loop io p (stl events) (handed @ [incoming]) s
      | AcceptFailed err \<Rightarrow> Some (s, Inl err, handed))"

definition serve_runtime_control ::
  "io_env \<Rightarrow> path \<Rightarrow> serve_event stream \<Rightarrow> fs \<Rightarrow> (fs \<times> (rstr + unit) \<times> (rstr + rstr) list) option" where
  "serve_runtime_control io p events s = serve_loop io p events [] s"

text \<open>The connections that were handed over, one after another.\<close>

fun serve_connections ::
  "wire_lib \<Rightarrow> runtime_control_status \<Rightarrow> (rstr + rstr) list \<Rightarrow> command_channel \<Rightarrow>
   command_channel \<times> (rstr + rstr) list" where
  "serve_connections lib status [] ch = (ch, [])"
| "serve_connections lib status (c # cs) ch =
     (let (ch1, r) = handle_connection lib c status ch; (ch2, rs) = serve_connections lib status cs ch1
      in (ch2, r # rs))"

section \<open>Binding\<close>

record socket_env =
  so_io :: io_env
  so_connects :: "path \<Rightarrow> bool"
  so_bind_fault :: "path \<Rightarrow> rstr option"
  so_chmod_fault :: "path \<Rightarrow> rstr option"
  so_display :: "path \<Rightarrow> rstr"

definition socket_bind :: "socket_env \<Rightarrow> path \<Rightarrow> fs \<Rightarrow> fs \<times> (rstr + unit)" where
  "socket_bind env p s =
     (case so_bind_fault env p of
        Some err \<Rightarrow> (s, Inl err)
      | None \<Rightarrow>
          if fs_exists s p then (s, Inl (lit ''Address already in use (os error 98)''))
          else if \<not> fs_in_dir s p then (s, Inl not_found)
          else (s(p \<mapsto> File []), Inr ()))"

definition bind_runtime_control_listener :: "socket_env \<Rightarrow> path \<Rightarrow> fs \<Rightarrow> fs \<times> (rstr + unit)" where
  "bind_runtime_control_listener env p =
     io_bind (case path_parent p of
         Some parent \<Rightarrow> fs_create_dir_all (so_io env) parent | None \<Rightarrow> io_return ()) (\<lambda>_.
     io_bind (\<lambda>s.
         if fs_exists s p
         then (if so_connects env p
               then (s, Inl (lit ''runtime control socket already active at '' @ so_display env p))
               else fs_remove_file (so_io env) p s)
         else (s, Inr ())) (\<lambda>_.
     io_bind (socket_bind env p) (\<lambda>_.
     io_lift (case so_chmod_fault env p of Some err \<Rightarrow> Inl err | None \<Rightarrow> Inr ()))))"

section \<open>The client\<close>

text \<open>\<open>talk\<close> is the connection: what comes back for what was sent, or an error.\<close>

definition send_control_request ::
  "wire_lib \<Rightarrow> rstr + (rstr \<Rightarrow> rstr + rstr) \<Rightarrow> control_request \<Rightarrow> rstr + control_response" where
  "send_control_request lib connection request =
     rbind connection (\<lambda>talk.
     rbind (wl_encode_request lib request) (\<lambda>payload.
     rbind (talk (payload @ [10])) (\<lambda>answer.
     wl_decode_response lib (str_trim_end (first_line answer)))))"

definition request_runtime_status ::
  "wire_lib \<Rightarrow> rstr + (rstr \<Rightarrow> rstr + rstr) \<Rightarrow> rstr + runtime_control_status" where
  "request_runtime_status lib connection =
     rbind (send_control_request lib connection RequestStatus) (\<lambda>response.
       (case response of
          RespondStatus status \<Rightarrow> Inr status | RespondAck message \<Rightarrow> Inl message
        | RespondError message \<Rightarrow> Inl message))"

definition request_runtime_stop ::
  "wire_lib \<Rightarrow> rstr + (rstr \<Rightarrow> rstr + rstr) \<Rightarrow> rstr \<Rightarrow> rstr + rstr" where
  "request_runtime_stop lib connection source =
     rbind (send_control_request lib connection (RequestStop source)) (\<lambda>response.
       (case response of
          RespondAck message \<Rightarrow> Inr message
        | RespondStatus _ \<Rightarrow> Inl (lit ''unexpected status response to stop request'')
        | RespondError message \<Rightarrow> Inl message))"

section \<open>The socket path\<close>

lemma resolve_cases:
  "explicit_socket_path ctx = Some e \<Longrightarrow> str_trim e \<noteq> [] \<Longrightarrow>
   resolve_control_socket_path lib cfg ctx = path_of (str_trim e)"
  "(\<forall>e. explicit_socket_path ctx = Some e \<longrightarrow> str_trim e = []) \<Longrightarrow> runtime_dir_exists ctx \<Longrightarrow>
   resolve_control_socket_path lib cfg ctx =
     path_join (path_of CONTROL_RUNTIME_DIR) (path_of CONTROL_SOCKET_NAME)"
  by (auto simp: resolve_control_socket_path_def Let_def split: option.split)

section \<open>A conversation\<close>

text \<open>What serde promises about a type that it encodes: what is decoded is what was encoded, and the
  text is not empty, has no line feed and does not end in white space.\<close>

definition faithful_wire :: "wire_lib \<Rightarrow> bool" where
  "faithful_wire lib \<longleftrightarrow>
     (\<forall>r t. wl_encode_request lib r = Inr t \<longrightarrow>
        wl_decode_request lib t = Inr r \<and> 10 \<notin> set t \<and> t \<noteq> [] \<and> \<not> is_whitespace (last t)) \<and>
     (\<forall>r t. wl_encode_response lib r = Inr t \<longrightarrow>
        wl_decode_response lib t = Inr r \<and> 10 \<notin> set t \<and> t \<noteq> [] \<and> \<not> is_whitespace (last t))"

lemma first_line_line: "10 \<notin> set t \<Longrightarrow> first_line (t @ 10 # r) = t @ [10]"
  by (induction t) auto

lemma trim_line_end: "t \<noteq> [] \<Longrightarrow> \<not> is_whitespace (last t) \<Longrightarrow> str_trim_end (t @ [10]) = t"
proof -
  assume t: "t \<noteq> []" "\<not> is_whitespace (last t)"
  have "is_whitespace 10" by (simp add: is_whitespace_def)
  with t show ?thesis by (cases t rule: rev_cases) (simp_all add: str_trim_end_def)
qed

lemma line_read:
  "10 \<notin> set t \<Longrightarrow> t \<noteq> [] \<Longrightarrow> \<not> is_whitespace (last t) \<Longrightarrow> str_trim_end (first_line (t @ [10])) = t"
  using first_line_line[of t "[]"] by (simp add: trim_line_end)

text \<open>The connection of a client to a server in a given state.\<close>

definition connected ::
  "wire_lib \<Rightarrow> runtime_control_status \<Rightarrow> command_channel \<Rightarrow> rstr + (rstr \<Rightarrow> rstr + rstr)" where
  "connected lib status ch =
     Inr (\<lambda>sent. case snd (handle_connection lib (Inr sent) status ch) of
             Inr answer \<Rightarrow> Inr answer | Inl _ \<Rightarrow> Inr [])"

lemma status_line:
  assumes "faithful_wire lib" and "wl_encode_request lib RequestStatus = Inr t"
  shows "handle_connection lib (Inr (t @ [10])) status ch =
    (ch, rbind (wl_encode_response lib (RespondStatus status)) (\<lambda>p. Inr (p @ [10])))"
proof -
  from assms have t: "wl_decode_request lib t = Inr RequestStatus" "10 \<notin> set t" "t \<noteq> []"
    "\<not> is_whitespace (last t)" by (auto simp: faithful_wire_def)
  from t(2) have "first_line (t @ [10]) \<noteq> []" using first_line_line[of t "[]"] by simp
  moreover note t(1) line_read[OF t(2-4)]
  ultimately show ?thesis
    by (cases "wl_encode_response lib (RespondStatus status)")
      (simp_all add: handle_connection_def io_bind_def Let_def)
qed

lemma stop_line:
  assumes "faithful_wire lib" and "wl_encode_request lib (RequestStop source) = Inr t"
  shows "handle_connection lib (Inr (t @ [10])) status ch =
    (if ch_open ch
     then (ch\<lparr>ch_queue := ch_queue ch @ [CommandStop source]\<rparr>,
       rbind (wl_encode_response lib (RespondAck (accepted_text source))) (\<lambda>p. Inr (p @ [10])))
     else (ch, Inl (lit ''channel closed'')))"
proof -
  from assms have t: "wl_decode_request lib t = Inr (RequestStop source)" "10 \<notin> set t" "t \<noteq> []"
    "\<not> is_whitespace (last t)" by (auto simp: faithful_wire_def)
  from t(2) have "first_line (t @ [10]) \<noteq> []" using first_line_line[of t "[]"] by simp
  moreover note t(1) line_read[OF t(2-4)]
  ultimately show ?thesis
    by (cases "wl_encode_response lib (RespondAck (accepted_text source))")
      (simp_all add: handle_connection_def channel_send_def io_bind_def Let_def)
qed

lemma answer_read:
  assumes "faithful_wire lib" and "wl_encode_response lib r = Inr t"
  shows "wl_decode_response lib (str_trim_end (first_line (t @ [10]))) = Inr r"
  using assms line_read by (auto simp: faithful_wire_def)

lemma conversation:
  assumes "faithful_wire lib" and "wl_encode_request lib RequestStatus = Inr ts"
    and "wl_encode_request lib (RequestStop source) = Inr tq"
    and "\<exists>t. wl_encode_response lib (RespondStatus status) = Inr t"
    and "\<exists>t. wl_encode_response lib (RespondAck (accepted_text source)) = Inr t"
    and "\<And>r. wl_decode_response lib [] \<noteq> Inr r"
  shows "request_runtime_status lib (connected lib status ch) = Inr status"
    and "fst (handle_connection lib (Inr (ts @ [10])) status ch) = ch"
    and "ch_open ch \<Longrightarrow> request_runtime_stop lib (connected lib status ch) source = Inr (accepted_text source)"
    and "ch_open ch \<Longrightarrow> ch_queue (fst (handle_connection lib (Inr (tq @ [10])) status ch)) =
      ch_queue ch @ [CommandStop source]"
    and "\<not> ch_open ch \<Longrightarrow> (\<forall>m. request_runtime_stop lib (connected lib status ch) source \<noteq> Inr m) \<and>
      fst (handle_connection lib (Inr (tq @ [10])) status ch) = ch"
proof -
  obtain a where a: "wl_encode_response lib (RespondStatus status) = Inr a" using assms(4) by blast
  obtain b where b: "wl_encode_response lib (RespondAck (accepted_text source)) = Inr b" using assms(5) by blast
  note st = status_line[OF assms(1,2), of status ch] and sp = stop_line[OF assms(1,3), of status ch]
  show "request_runtime_status lib (connected lib status ch) = Inr status"
    using answer_read[OF assms(1) a]
    by (simp add: request_runtime_status_def send_control_request_def connected_def assms(2) st a)
  show "fst (handle_connection lib (Inr (ts @ [10])) status ch) = ch" by (simp add: st)
  show "request_runtime_stop lib (connected lib status ch) source = Inr (accepted_text source)" if "ch_open ch"
    using answer_read[OF assms(1) b] that
    by (simp add: request_runtime_stop_def send_control_request_def connected_def assms(3) sp b)
  show "ch_queue (fst (handle_connection lib (Inr (tq @ [10])) status ch)) =
      ch_queue ch @ [CommandStop source]" if "ch_open ch" using that by (simp add: sp)
  show "(\<forall>m. request_runtime_stop lib (connected lib status ch) source \<noteq> Inr m) \<and>
      fst (handle_connection lib (Inr (tq @ [10])) status ch) = ch" if "\<not> ch_open ch"
    using that assms(6)
    by (simp add: request_runtime_stop_def send_control_request_def connected_def assms(3) sp rbind_Inr
        str_trim_end_def)
qed

text \<open>C37: client and server understand each other: over a connection a status request returns the
  server's own status and changes nothing; a stop request that is answered was put into the queue
  before, once and last, with the client's source; and when nobody receives commands any more, the
  stop request fails at the client and nothing is queued.\<close>

theorem control_conversation:
  assumes "faithful_wire lib" and "wl_encode_request lib RequestStatus = Inr ts"
    and "wl_encode_request lib (RequestStop source) = Inr tq"
    and "\<exists>t. wl_encode_response lib (RespondStatus status) = Inr t"
    and "\<exists>t. wl_encode_response lib (RespondAck (accepted_text source)) = Inr t"
    and "\<And>r. wl_decode_response lib [] \<noteq> Inr r"
  shows "request_runtime_status lib (connected lib status ch) = Inr status \<and>
    fst (handle_connection lib (Inr (ts @ [10])) status ch) = ch \<and>
    (ch_open ch \<longrightarrow>
      request_runtime_stop lib (connected lib status ch) source = Inr (accepted_text source) \<and>
      ch_queue (fst (handle_connection lib (Inr (tq @ [10])) status ch)) = ch_queue ch @ [CommandStop source]) \<and>
    (\<not> ch_open ch \<longrightarrow>
      (\<forall>m. request_runtime_stop lib (connected lib status ch) source \<noteq> Inr m) \<and>
      fst (handle_connection lib (Inr (tq @ [10])) status ch) = ch)"
  using conversation[OF assms] by simp

section \<open>The loop\<close>

definition ends_serving :: "serve_event \<Rightarrow> bool" where
  "ends_serving e =
     (case e of ShutdownChanged stop \<Rightarrow> stop | ShutdownDropped \<Rightarrow> True | AcceptedConnection _ \<Rightarrow> False
      | AcceptFailed _ \<Rightarrow> True)"

definition connections :: "serve_event list \<Rightarrow> (rstr + rstr) list" where
  "connections events =
     concat (map (\<lambda>e. case e of AcceptedConnection c \<Rightarrow> [c] | _ \<Rightarrow> []) events)"

definition served :: "io_env \<Rightarrow> path \<Rightarrow> serve_event \<Rightarrow> fs \<Rightarrow> fs \<times> (rstr + unit)" where
  "served io p e s = (case e of AcceptFailed err \<Rightarrow> (s, Inl err) | _ \<Rightarrow> (close_socket io p s, Inr ()))"

lemma serve_loop_at:
  "ends_serving (events !! k) \<Longrightarrow> \<forall>j < k. \<not> ends_serving (events !! j) \<Longrightarrow>
   serve_loop io p events handed s =
     Some (fst (served io p (events !! k) s), snd (served io p (events !! k) s),
       handed @ connections (stake k events))"
proof (induction k arbitrary: events handed)
  case 0
  then show ?case
    by (subst serve_loop.simps)
      (auto simp: ends_serving_def served_def connections_def split: serve_event.splits)
next
  case (Suc k)
  have go: "\<not> ends_serving (shd events)" using Suc.prems(2) by (metis snth.simps(1) zero_less_Suc)
  have rest: "ends_serving (stl events !! k)" "\<forall>j < k. \<not> ends_serving (stl events !! j)"
    using Suc.prems by (simp, metis Suc_less_eq snth.simps(2))
  note ih = Suc.IH[OF rest]
  show ?case
  proof (cases "shd events")
    case (AcceptedConnection c)
    then show ?thesis
      using ih by (subst serve_loop.simps) (simp add: connections_def)
  next
    case (ShutdownChanged b)
    then show ?thesis
      using go ih by (subst serve_loop.simps) (simp add: connections_def ends_serving_def)
  qed (use go in \<open>simp_all add: ends_serving_def\<close>)
qed

lemma serve_loop_ends:
  assumes "serve_loop io p events handed s = Some r"
  shows "\<exists>k. ends_serving (events !! k)"
proof (rule serve_loop.raw_induct[where P = "\<lambda>io p events handed s r. \<exists>k. ends_serving (events !! k)",
      OF _ assms], goal_cases)
  case (1 loop io p events handed s r)
  show ?case
  proof (cases "ends_serving (shd events)")
    case True
    then show ?thesis by (metis snth.simps(1))
  next
    case False
    then obtain h where "loop io p (stl events) h s = Some r"
      using 1(2) by (auto simp: ends_serving_def split: serve_event.splits if_splits)
    from 1(1)[OF this] show ?thesis by (metis snth.simps(2))
  qed
qed

text \<open>C38: the server loop is exact: it returns if and only if a shutdown signal, the loss of its sender
  or an error of \<open>accept\<close> ever comes; until then it hands over every connection in order; a shutdown
  removes the socket, while an accept error returns the error and leaves the socket file behind.\<close>

theorem serve_exact:
  "serve_runtime_control io p events s =
   (if \<exists>k. ends_serving (events !! k)
    then (let k = LEAST k. ends_serving (events !! k); (s', result) = served io p (events !! k) s
          in Some (s', result, connections (stake k events)))
    else None)"
proof (cases "\<exists>k. ends_serving (events !! k)")
  case True
  define k where "k = (LEAST k. ends_serving (events !! k))"
  have "ends_serving (events !! k)" unfolding k_def using True by (rule LeastI_ex)
  moreover have "\<forall>j < k. \<not> ends_serving (events !! j)" unfolding k_def using not_less_Least by blast
  ultimately have "serve_loop io p events [] s =
      Some (fst (served io p (events !! k) s), snd (served io p (events !! k) s),
        [] @ connections (stake k events))" by (rule serve_loop_at)
  with True show ?thesis by (simp add: serve_runtime_control_def k_def Let_def case_prod_beta)
next
  case False
  then have "serve_loop io p events [] s = None" using serve_loop_ends by (metis option.exhaust)
  with False show ?thesis by (simp add: serve_runtime_control_def)
qed

lemma shutdown_removes:
  assumes "io_fault io (IoRemove p) = None" and "p \<noteq> empty_path" and "\<not> fs_is_dir s p"
  shows "close_socket io p s p = None"
proof -
  have "fs_node s p = None \<or> (\<exists>b. fs_node s p = Some (File b))"
    using assms(3) by (metis fs_is_dir_def node.exhaust option.exhaust)
  then show ?thesis
    using assms(1,2)
    by (auto simp: close_socket_def fs_remove_file_def guarded_def fs_exists_def fs_node_def split: if_splits)
qed

section \<open>A concrete conversation\<close>

definition sample_status :: runtime_control_status where
  "sample_status =
     \<lparr>rs_state = lit ''running'', rs_pid = 7, rs_started_at_unix = 42, rs_config_path = lit ''c'',
      rs_config_fingerprint = [], rs_detector_backend = [], rs_active_lsm = [],
      rs_hardening_status = [], rs_socket_path = []\<rparr>"

definition sample_wire :: wire_lib where
  "sample_wire =
     \<lparr>wl_encode_request = (\<lambda>r. if r = RequestStatus then Inr (lit ''s'')
        else if r = RequestStop (lit ''cli'') then Inr (lit ''q'') else Inl []),
      wl_decode_request = (\<lambda>t. if t = lit ''s'' then Inr RequestStatus
        else if t = lit ''q'' then Inr (RequestStop (lit ''cli'')) else Inl []),
      wl_encode_response = (\<lambda>r. if r = RespondStatus sample_status then Inr (lit ''s'')
        else if r = RespondAck (accepted_text (lit ''cli'')) then Inr (lit ''a'') else Inl []),
      wl_decode_response = (\<lambda>t. if t = lit ''s'' then Inr (RespondStatus sample_status)
        else if t = lit ''a'' then Inr (RespondAck (accepted_text (lit ''cli''))) else Inl [])\<rparr>"

lemma sample_wire_faithful: "faithful_wire sample_wire"
  by (auto simp: faithful_wire_def sample_wire_def lit_eq split: if_splits)
    (simp_all add: lit_def is_whitespace_def)

theorem control_conversation_witness:
  "request_runtime_status sample_wire (connected sample_wire sample_status \<lparr>ch_open = True, ch_queue = []\<rparr>) =
     Inr sample_status \<and>
   ch_queue (fst (handle_connection sample_wire (Inr (lit ''q'' @ [10])) sample_status
     \<lparr>ch_open = True, ch_queue = []\<rparr>)) = [CommandStop (lit ''cli'')]"
proof -
  have enc: "wl_encode_request sample_wire RequestStatus = Inr (lit ''s'')"
    "wl_encode_request sample_wire (RequestStop (lit ''cli'')) = Inr (lit ''q'')"
    "\<exists>t. wl_encode_response sample_wire (RespondStatus sample_status) = Inr t"
    "\<exists>t. wl_encode_response sample_wire (RespondAck (accepted_text (lit ''cli''))) = Inr t"
    "\<And>r. wl_decode_response sample_wire [] \<noteq> Inr r"
    by (simp_all add: sample_wire_def) (simp add: lit_def)
  note c = control_conversation[OF sample_wire_faithful enc, where ch = "\<lparr>ch_open = True, ch_queue = []\<rparr>"]
  from c show ?thesis by simp
qed

end
