(* ===== verification/Discord_Handler.thy ===== *)
theory Discord_Handler
  imports Core_Runs Audit_Chain
begin

text \<open>
  The Discord event handler, \<^verbatim>\<open>src/infra/discord_handler.rs\<close>.  Each message is handled by its own
  task; core and audit store are behind locks, so a task is a sequence of steps between which other
  tasks run.  What the API answers and the time a step takes are inputs of the step; the rendering of
  a string by \<^verbatim>\<open>{:?}\<close> is a parameter, and logging is left out.
\<close>

section \<open>Data\<close>

record handler_runtime_meta =
  hm_binary_version :: rstr
  hm_config_fingerprint :: rstr
  hm_active_lsm :: rstr
  hm_hardening_status :: rstr

record discord_message =
  dm_context :: message_context
  dm_content :: rstr

datatype serenity_error = SerenityHttp "nat option" | SerenityOther

definition status_from_serenity_error :: "serenity_error \<Rightarrow> nat option" where
  "status_from_serenity_error err = (case err of SerenityHttp code \<Rightarrow> code | SerenityOther \<Rightarrow> None)"

record 'a handler_env =
  he_core :: "'a core_env"
  he_meta :: handler_runtime_meta
  he_debug_str :: "rstr \<Rightarrow> rstr"
  he_default_version :: rstr

section \<open>Debug rendering\<close>

definition debug_bool :: "bool \<Rightarrow> rstr" where
  "debug_bool b = (if b then lit ''true'' else lit ''false'')"

definition debug_action :: "(rstr \<Rightarrow> rstr) \<Rightarrow> bot_action \<Rightarrow> rstr" where
  "debug_action dbg a =
     (case a of
        Noop \<Rightarrow> lit ''Noop''
      | React i n x \<Rightarrow> lit ''React { emoji_id: '' @ dec i @ lit '', emoji_name: '' @ dbg n @
          lit '', animated: '' @ debug_bool x @ lit '' }''
      | SendMessage content \<Rightarrow> lit ''SendMessage { content: '' @ dbg content @ lit '' }'')"

definition debug_reason :: "suppress_reason \<Rightarrow> rstr" where
  "debug_reason r =
     (case r of
        SelfTrigger \<Rightarrow> lit ''SelfTrigger'' | Duplicate \<Rightarrow> lit ''Duplicate'' | Cooldown \<Rightarrow> lit ''Cooldown''
      | RateLimit \<Rightarrow> lit ''RateLimit'' | CircuitOpen \<Rightarrow> lit ''CircuitOpen''
      | ChannelDenied \<Rightarrow> lit ''ChannelDenied'' | GuildDenied \<Rightarrow> lit ''GuildDenied''
      | ModeRestricted \<Rightarrow> lit ''ModeRestricted'' | Suspicious \<Rightarrow> lit ''Suspicious''
      | InvalidAction \<Rightarrow> lit ''InvalidAction'')"

definition debug_mode :: "runtime_mode \<Rightarrow> rstr" where
  "debug_mode m =
     (case m of
        Normal \<Rightarrow> lit ''Normal'' | ObserveOnly \<Rightarrow> lit ''ObserveOnly'' | ReactOnly \<Rightarrow> lit ''ReactOnly''
      | AuditOnly \<Rightarrow> lit ''AuditOnly'' | FullDisable \<Rightarrow> lit ''FullDisable'')"

definition debug_suspicion :: "suspicion_level \<Rightarrow> rstr" where
  "debug_suspicion l =
     (case l of SuspicionNone \<Rightarrow> lit ''None'' | SuspicionSoft \<Rightarrow> lit ''Soft'' | SuspicionHard \<Rightarrow> lit ''Hard'')"

section \<open>Audit events\<close>

definition decision_event ::
  "'a handler_env \<Rightarrow> discord_message \<Rightarrow> action_decision \<Rightarrow> detection_report option \<Rightarrow> nat \<Rightarrow>
   audit_event_input" where
  "decision_event env msg d detection ms =
     (let meta = he_meta env; ctx = dm_context msg; content = dm_content msg in
      \<lparr>in_event_type = (if dec_action d = Noop then ActionSuppressed else ResponseCompiled),
       in_binary_version = hm_binary_version meta,
       in_config_fingerprint = hm_config_fingerprint meta,
       in_detector_backend =
         (case detection of Some r \<Rightarrow> matched_backend r | None \<Rightarrow> lit ''unknown''),
       in_matched_readings = (case detection of Some r \<Rightarrow> matched_readings r | None \<Rightarrow> []),
       in_sequence_hits = (case detection of Some r \<Rightarrow> sequence_hits r | None \<Rightarrow> 0),
       in_kanji_hits = (case detection of Some r \<Rightarrow> kanji_hits r | None \<Rightarrow> 0),
       in_total_count = (case detection of Some r \<Rightarrow> total_count r | None \<Rightarrow> 0),
       in_special_phrase_hit = (case detection of Some r \<Rightarrow> special_phrase_hit r | None \<Rightarrow> False),
       in_selected_action = debug_action (he_debug_str env) (dec_action d),
       in_suppressed_reason = map_option debug_reason (dec_suppress_reason d),
       in_mode = debug_mode (dec_mode d),
       in_active_lsm = hm_active_lsm meta,
       in_hardening_status = hm_hardening_status meta,
       in_processing_time_ms = ms,
       in_message_length = length content,
       in_normalized_length = length (env_nfkc (he_core env) content),
       in_token_count = (case detection of Some r \<Rightarrow> token_count r | None \<Rightarrow> 0),
       in_suspicious_flags = [debug_suspicion (dec_suspicion d)],
       in_truncated_flag = (case dec_action d of SendMessage text \<Rightarrow> 1900 \<le> length text | _ \<Rightarrow> False),
       in_guild_id = guild_id ctx, in_channel_id = Some (channel_id ctx),
       in_user_id = Some (author_id ctx), in_message_id = Some (message_id ctx)\<rparr>)"

definition sent_event :: "'a handler_env \<Rightarrow> discord_message \<Rightarrow> nat \<Rightarrow> audit_event_input" where
  "sent_event env msg ms =
     (let meta = he_meta env; ctx = dm_context msg; content = dm_content msg in
      (audit_event_input_default (he_default_version env))
       \<lparr>in_event_type := ActionSent,
        in_binary_version := hm_binary_version meta,
        in_config_fingerprint := hm_config_fingerprint meta,
        in_active_lsm := hm_active_lsm meta,
        in_hardening_status := hm_hardening_status meta,
        in_processing_time_ms := ms,
        in_message_length := length content,
        in_normalized_length := length (env_nfkc (he_core env) content),
        in_guild_id := guild_id ctx, in_channel_id := Some (channel_id ctx),
        in_user_id := Some (author_id ctx), in_message_id := Some (message_id ctx)\<rparr>)"

definition record_if_open ::
  "audit_env \<Rightarrow> audit_event_input \<Rightarrow> audit_store option \<Rightarrow> audit_store option" where
  "record_if_open aenv event audit = map_option (\<lambda>store. fst (record_event aenv event store)) audit"

section \<open>A task and its steps\<close>

datatype stage =
    Arrived
  | Decided action_decision
  | Detected action_decision "detection_report option"
  | Applying bot_action
  | Applied "serenity_error option"
  | Finished

definition after_audit :: "action_decision \<Rightarrow> stage" where
  "after_audit d = (if dec_action d = Noop then Finished else Applying (dec_action d))"

text \<open>What a step is given: the time, the milliseconds since the task began, the state of the audit
  environment and the answer of the API.\<close>

record step_input =
  si_now :: instant
  si_elapsed_ms :: nat
  si_audit_env :: audit_env
  si_api :: "serenity_error option"

record 'a bot_state =
  bs_core :: "'a trusted_core"
  bs_audit :: "audit_store option"

definition task_step ::
  "'a handler_env \<Rightarrow> step_input \<Rightarrow> discord_message \<Rightarrow> stage \<Rightarrow> 'a bot_state \<Rightarrow> stage \<times> 'a bot_state" where
  "task_step env i msg st s =
     (case st of
        Arrived \<Rightarrow>
          (let (c, d) = decide_message (he_core env) (dm_context msg) (dm_content msg) (si_now i) (bs_core s)
           in (Decided d, s\<lparr>bs_core := c\<rparr>))
      | Decided d \<Rightarrow>
          (case bs_audit s of
             None \<Rightarrow> (after_audit d, s)
           | Some _ \<Rightarrow> (Detected d (tc_last_detection (bs_core s)), s))
      | Detected d detection \<Rightarrow>
          (after_audit d,
           s\<lparr>bs_audit := record_if_open (si_audit_env i)
               (decision_event env msg d detection (si_elapsed_ms i)) (bs_audit s)\<rparr>)
      | Applying a \<Rightarrow> (Applied (si_api i), s)
      | Applied (Some err) \<Rightarrow>
          (Finished,
           (case status_from_serenity_error err of
              Some status \<Rightarrow> s\<lparr>bs_core := record_http_status status (si_now i) (bs_core s)\<rparr>
            | None \<Rightarrow> s))
      | Applied None \<Rightarrow>
          (Finished,
           s\<lparr>bs_audit := record_if_open (si_audit_env i)
               (sent_event env msg (si_elapsed_ms i)) (bs_audit s)\<rparr>)
      | Finished \<Rightarrow> (Finished, s))"

text \<open>A task that runs alone.\<close>

fun run_task ::
  "'a handler_env \<Rightarrow> step_input list \<Rightarrow> discord_message \<Rightarrow> stage \<Rightarrow> 'a bot_state \<Rightarrow> stage \<times> 'a bot_state" where
  "run_task env [] msg st s = (st, s)"
| "run_task env (i # is) msg st s =
     (let (st', s') = task_step env i msg st s in run_task env is msg st' s')"

definition handle_message ::
  "'a handler_env \<Rightarrow> step_input list \<Rightarrow> discord_message \<Rightarrow> 'a bot_state \<Rightarrow> 'a bot_state" where
  "handle_message env is msg s = snd (run_task env is msg Arrived s)"

section \<open>Many tasks\<close>

text \<open>The calls made to the API and the answers the core gave are kept to be spoken about.\<close>

record 'a bot_world =
  bw_state :: "'a bot_state"
  bw_tasks :: "(discord_message \<times> stage) list"
  bw_clock :: instant
  bw_calls :: "(instant \<times> discord_message \<times> bot_action) list"
  bw_answers :: "(instant \<times> message_context) list"

definition calls_of :: "step_input \<Rightarrow> discord_message \<Rightarrow> stage \<Rightarrow> (instant \<times> discord_message \<times> bot_action) list" where
  "calls_of i msg st = (case st of Applying a \<Rightarrow> [(si_now i, msg, a)] | _ \<Rightarrow> [])"

definition answers_of :: "step_input \<Rightarrow> discord_message \<Rightarrow> stage \<Rightarrow> (instant \<times> message_context) list" where
  "answers_of i msg st =
     (case st of Decided d \<Rightarrow> outbound_of (si_now i) (Some (dm_context msg, d)) | _ \<Rightarrow> [])"

definition world_step ::
  "'a handler_env \<Rightarrow> step_input \<Rightarrow> nat \<Rightarrow> 'a bot_world \<Rightarrow> 'a bot_world" where
  "world_step env i k w =
     (case bw_tasks w ! k of (msg, st) \<Rightarrow>
       (case task_step env i msg st (bw_state w) of (st', s') \<Rightarrow>
         w\<lparr>bw_state := s', bw_tasks := (bw_tasks w)[k := (msg, st')], bw_clock := si_now i,
           bw_calls := bw_calls w @ calls_of i msg st,
           bw_answers := bw_answers w @ (if st = Arrived then answers_of i msg st' else [])\<rparr>))"

inductive bot_reaches ::
  "'a handler_env \<Rightarrow> (nat list \<Rightarrow> nat list) \<Rightarrow> (nat list \<Rightarrow> rstr) \<Rightarrow> 'a bot_world \<Rightarrow> 'a bot_world \<Rightarrow> bool"
  for env sha hex w0 where
  bot_start: "bot_reaches env sha hex w0 w0"
| message_arrives: "bot_reaches env sha hex w0 w \<Longrightarrow>
    bot_reaches env sha hex w0 (w\<lparr>bw_tasks := bw_tasks w @ [(msg, Arrived)]\<rparr>)"
| task_runs: "bot_reaches env sha hex w0 w \<Longrightarrow> k < length (bw_tasks w) \<Longrightarrow> bw_clock w \<le> si_now i \<Longrightarrow>
    ae_sha256 (si_audit_env i) = sha \<Longrightarrow> ae_hex (si_audit_env i) = hex \<Longrightarrow>
    bot_reaches env sha hex w0 (world_step env i k w)"

definition bot_begins :: "'a trusted_core \<Rightarrow> audit_store option \<Rightarrow> instant \<Rightarrow> 'a bot_world" where
  "bot_begins core audit t0 =
     \<lparr>bw_state = \<lparr>bs_core = core, bs_audit = audit\<rparr>, bw_tasks = [], bw_clock = t0, bw_calls = [],
      bw_answers = []\<rparr>"

section \<open>One task\<close>

lemma task_finishes: "5 \<le> length is \<Longrightarrow> fst (run_task env is msg Arrived s) = Finished"
proof -
  have stay: "fst (run_task env is msg Finished s) = Finished" for "is" s
    by (induction "is" arbitrary: s) (simp_all add: task_step_def)
  have applied: "0 < length is \<Longrightarrow> fst (run_task env is msg (Applied r) s) = Finished" for "is" r s
    by (cases "is"; cases r) (simp_all add: task_step_def stay)
  have applying: "1 < length is \<Longrightarrow> fst (run_task env is msg (Applying a) s) = Finished" for "is" a s
    by (cases "is") (simp_all add: task_step_def applied)
  have after: "1 < length is \<Longrightarrow> fst (run_task env is msg (after_audit d) s) = Finished" for "is" d s
    by (simp add: after_audit_def applying stay)
  have detected: "2 < length is \<Longrightarrow> fst (run_task env is msg (Detected d r) s) = Finished" for "is" d r s
    by (cases "is") (simp_all add: task_step_def after)
  have decided: "3 < length is \<Longrightarrow> fst (run_task env is msg (Decided d) s) = Finished" for "is" d s
    by (cases "is"; cases "bs_audit s") (simp_all add: task_step_def after detected)
  assume "5 \<le> length is"
  then show ?thesis by (cases "is") (simp_all add: task_step_def case_prod_beta decided)
qed

section \<open>Every interleaving is a run of the core\<close>

text \<open>What a task has still to send, how many operations of the core it has used, and that what it
  sends is an action.\<close>

definition owed :: "discord_message \<times> stage \<Rightarrow> message_context multiset" where
  "owed = (\<lambda>(msg, st).
     (case st of
        Decided d \<Rightarrow> if dec_action d = Noop then {#} else {#dm_context msg#}
      | Detected d _ \<Rightarrow> if dec_action d = Noop then {#} else {#dm_context msg#}
      | Applying a \<Rightarrow> {#dm_context msg#}
      | _ \<Rightarrow> {#}))"

definition ops_used :: "discord_message \<times> stage \<Rightarrow> nat" where
  "ops_used = (\<lambda>(msg, st). (case st of Arrived \<Rightarrow> 0 | Finished \<Rightarrow> 2 | _ \<Rightarrow> 1))"

definition call_context :: "instant \<times> discord_message \<times> bot_action \<Rightarrow> message_context" where
  "call_context = (\<lambda>(t, msg, a). dm_context msg)"

definition all_owed :: "(discord_message \<times> stage) list \<Rightarrow> message_context multiset" where
  "all_owed ts = sum_list (map owed ts)"

lemma all_owed_update:
  "k < length ts \<Longrightarrow> all_owed (ts[k := t]) + owed (ts ! k) = all_owed ts + owed t"
proof -
  assume k: "k < length ts"
  then have "ts = take k ts @ ts ! k # drop (Suc k) ts" by (simp add: id_take_nth_drop)
  then have "all_owed ts = all_owed (take k ts) + owed (ts ! k) + all_owed (drop (Suc k) ts)"
    unfolding all_owed_def by (metis (no_types, lifting) add.assoc list.simps(9) map_append
        sum_list.Cons sum_list.append)
  moreover have "all_owed (ts[k := t]) = all_owed (take k ts) + owed t + all_owed (drop (Suc k) ts)"
    using k unfolding all_owed_def by (simp add: upd_conv_take_nth_drop add.assoc)
  ultimately show ?thesis by (simp add: ac_simps)
qed

lemma ops_update:
  "k < length ts \<Longrightarrow>
   sum_list (map ops_used (ts[k := t])) + ops_used (ts ! k) = sum_list (map ops_used ts) + ops_used t"
proof -
  assume k: "k < length ts"
  then have "ts = take k ts @ ts ! k # drop (Suc k) ts" by (simp add: id_take_nth_drop)
  then have "sum_list (map ops_used ts) = sum_list (map ops_used (take k ts)) + ops_used (ts ! k) +
      sum_list (map ops_used (drop (Suc k) ts))"
    by (metis (no_types, lifting) add.assoc list.simps(9) map_append sum_list.Cons sum_list.append)
  moreover have "sum_list (map ops_used (ts[k := t])) = sum_list (map ops_used (take k ts)) + ops_used t +
      sum_list (map ops_used (drop (Suc k) ts))"
    using k by (simp add: upd_conv_take_nth_drop)
  ultimately show ?thesis by simp
qed

text \<open>The operations of the core that a step performs.\<close>

definition step_ops :: "step_input \<Rightarrow> discord_message \<Rightarrow> stage \<Rightarrow> (core_op \<times> instant) list" where
  "step_ops i msg st =
     (case st of
        Arrived \<Rightarrow> [(Decide (dm_context msg) (dm_content msg), si_now i)]
      | Applied (Some err) \<Rightarrow>
          (case status_from_serenity_error err of
             Some status \<Rightarrow> [(HttpStatus status, si_now i)] | None \<Rightarrow> [])
      | _ \<Rightarrow> [])"

lemma step_run:
  fixes i msg st s env
  defines "r \<equiv> task_step env i msg st s"
  shows "core_run (he_core env) (bs_core s) (step_ops i msg st) =
      (bs_core (snd r), if st = Arrived then answers_of i msg (fst r) else [])"
    and "length (step_ops i msg st) + ops_used (msg, st) \<le> ops_used (msg, fst r)"
    and "mset (map call_context (calls_of i msg st)) + owed (msg, fst r) =
      owed (msg, st) + mset (map snd (if st = Arrived then answers_of i msg (fst r) else []))"
  unfolding r_def
  by (auto simp: task_step_def step_ops_def answers_of_def calls_of_def core_apply_def ops_used_def owed_def
      call_context_def after_audit_def case_prod_beta record_if_open_def
      split: stage.split option.split)

definition handled ::
  "'a handler_env \<Rightarrow> 'a trusted_core \<Rightarrow> instant \<Rightarrow> (core_op \<times> instant) list \<Rightarrow> 'a bot_world \<Rightarrow> bool" where
  "handled env core t0 es w \<longleftrightarrow>
     sorted (map snd es) \<and> (\<forall>t \<in> snd ` set es. t0 \<le> t \<and> t \<le> bw_clock w) \<and> t0 \<le> bw_clock w \<and>
     core_run (he_core env) core es = (bs_core (bw_state w), bw_answers w) \<and>
     length es \<le> sum_list (map ops_used (bw_tasks w)) \<and>
     mset (map call_context (bw_calls w)) + all_owed (bw_tasks w) = mset (map snd (bw_answers w))"

lemma handled_step:
  assumes "handled env core t0 es w" and "k < length (bw_tasks w)" and "bw_clock w \<le> si_now i"
  shows "\<exists>es'. handled env core t0 es' (world_step env i k w)"
proof -
  obtain msg st where task: "bw_tasks w ! k = (msg, st)" by force
  obtain st' s' where step: "task_step env i msg st (bw_state w) = (st', s')" by force
  note run = step_run[where env = env and i = i and msg = msg and st = st and s = "bw_state w", unfolded step fst_conv snd_conv]
  let ?ops = "step_ops i msg st" and ?out = "if st = Arrived then answers_of i msg st' else []"
  let ?w' = "world_step env i k w"
  have w': "bw_state ?w' = s'" "bw_tasks ?w' = (bw_tasks w)[k := (msg, st')]" "bw_clock ?w' = si_now i"
    "bw_calls ?w' = bw_calls w @ calls_of i msg st" "bw_answers ?w' = bw_answers w @ ?out"
    by (simp_all add: world_step_def task step)
  have ops: "set (map snd ?ops) \<subseteq> {si_now i}" "sorted (map snd ?ops)"
    by (auto simp: step_ops_def split: stage.split option.split)
  note old = assms(1)[unfolded handled_def]
  have "sorted (map snd (es @ ?ops))"
    using old ops assms(3) by (fastforce simp: sorted_append)
  moreover have "\<forall>t \<in> snd ` set (es @ ?ops). t0 \<le> t \<and> t \<le> si_now i"
    using old ops(1) assms(3) by fastforce
  moreover have "core_run (he_core env) core (es @ ?ops) = (bs_core s', bw_answers w @ ?out)"
    using old run(1) by (simp add: core_run_append)
  moreover have "length (es @ ?ops) \<le> sum_list (map ops_used ((bw_tasks w)[k := (msg, st')]))"
    using old run(2) ops_update[OF assms(2), of "(msg, st')"] by (simp add: task)
  moreover have "mset (map call_context (bw_calls w @ calls_of i msg st)) +
      all_owed ((bw_tasks w)[k := (msg, st')]) = mset (map snd (bw_answers w @ ?out))"
  proof -
    let ?calls = "mset (map call_context (bw_calls w))" and ?new = "mset (map call_context (calls_of i msg st))"
    have "?calls + ?new + all_owed ((bw_tasks w)[k := (msg, st')]) + owed (msg, st) =
        ?calls + ?new + (all_owed (bw_tasks w) + owed (msg, st'))"
      using all_owed_update[OF assms(2), of "(msg, st')"] by (simp add: task add.assoc)
    also have "\<dots> = (?calls + all_owed (bw_tasks w)) + (?new + owed (msg, st'))" by (simp add: ac_simps)
    also have "\<dots> = mset (map snd (bw_answers w)) + (owed (msg, st) + mset (map snd ?out))"
      using old run(3) by simp
    finally show ?thesis by (simp add: ac_simps)
  qed
  ultimately have "handled env core t0 (es @ ?ops) ?w'"
    using old assms(3) unfolding handled_def w' by auto
  then show ?thesis ..
qed

lemma reached_handled:
  assumes "bot_reaches env sha hex (bot_begins core audit t0) w"
  shows "\<exists>es. handled env core t0 es w"
  using assms
proof (induction rule: bot_reaches.induct)
  case bot_start
  have "handled env core t0 [] (bot_begins core audit t0)"
    by (simp add: handled_def bot_begins_def all_owed_def)
  then show ?case ..
next
  case (message_arrives w msg)
  then obtain es where "handled env core t0 es w" by blast
  then have "handled env core t0 es (w\<lparr>bw_tasks := bw_tasks w @ [(msg, Arrived)]\<rparr>)"
    by (simp add: handled_def all_owed_def owed_def ops_used_def)
  then show ?case ..
next
  case (task_runs w k i)
  then show ?case using handled_step by blast
qed

lemma ops_used_le: "sum_list (map ops_used ts) \<le> 2 * length ts"
  by (induction ts) (auto simp: ops_used_def split: stage.split)


text \<open>The load on Discord is bounded: up to any moment the tasks have made at most the burst plus the
  rate times the elapsed time calls to the API, however they interleave, up to binary64 rounding.\<close>

theorem api_calls_bounded:
  assumes "global_rate_burst rt \<le> u32_max"
    and "bot_reaches env sha hex (bot_begins (core_new analyzer cfg rt t0) audit t0) w"
  shows "of_nat (length (bw_calls w)) \<le>
    of_nat (max (global_rate_burst rt) 1)
      + exact_secs (bw_clock w - t0) * max (global_rate_per_sec rt) (f64_round (1 / 10)) * drift
      + of_nat (2 * length (bw_tasks w)) * (2 * of_nat (max (global_rate_burst rt) 1) * f64_unit)"
proof -
  obtain es where es: "handled env (core_new analyzer cfg rt t0) t0 es w"
    using reached_handled[OF assms(2)] by blast
  then have "size (mset (map call_context (bw_calls w))) \<le> size (mset (map snd (bw_answers w)))"
    unfolding handled_def by (metis le_add1 size_union)
  then have "length (bw_calls w) \<le> length (snd (core_run (he_core env) (core_new analyzer cfg rt t0) es))"
    using es unfolding handled_def by simp
  then have "(of_nat (length (bw_calls w)) :: rat) \<le>
      of_nat (length (snd (core_run (he_core env) (core_new analyzer cfg rt t0) es)))" by simp
  also have "\<dots> \<le> of_nat (max (global_rate_burst rt) 1)
      + exact_secs (bw_clock w - t0) * max (global_rate_per_sec rt) (f64_round (1 / 10)) * drift
      + of_nat (length es) * (2 * of_nat (max (global_rate_burst rt) 1) * f64_unit)"
    using es unfolding handled_def by (intro run_rate_bound[OF assms(1)]) auto
  also have "\<dots> \<le> of_nat (max (global_rate_burst rt) 1)
      + exact_secs (bw_clock w - t0) * max (global_rate_per_sec rt) (f64_round (1 / 10)) * drift
      + of_nat (2 * length (bw_tasks w)) * (2 * of_nat (max (global_rate_burst rt) 1) * f64_unit)"
    using es ops_used_le[of "bw_tasks w"] unfolding handled_def
    by (intro add_left_mono mult_right_mono) (auto simp: f64_unit_def intro!: of_nat_mono order_trans)
  finally show ?thesis .
qed

section \<open>The audit log of concurrent tasks\<close>

lemma reached_audit:
  assumes "bot_reaches env sha hex (bot_begins core (Some store0) t0) w"
    and "audit_reach sha hex (as_db store0)"
  shows "\<exists>store. bs_audit (bw_state w) = Some store \<and> audit_reach sha hex (as_db store)"
  using assms
proof (induction rule: bot_reaches.induct)
  case (task_runs w k i)
  obtain msg st where task: "bw_tasks w ! k = (msg, st)" by force
  from task_runs obtain store where "bs_audit (bw_state w) = Some store" "audit_reach sha hex (as_db store)"
    by blast
  then show ?case
    using audit_reach.event[of sha hex store "si_audit_env i", OF _ task_runs(4,5)]
    by (cases st) (auto simp: world_step_def task task_step_def record_if_open_def case_prod_beta
        split: option.split)
qed (auto simp: bot_begins_def)

text \<open>Whatever the tasks record, in whatever order and whichever statements the database refuses,
  the audit log verifies from its first row on.\<close>

theorem bot_audit_verifies:
  assumes "bot_reaches env (ae_sha256 aenv) (ae_hex aenv) (bot_begins core (Some store0) t0) w"
    and "audit_reach (ae_sha256 aenv) (ae_hex aenv) (as_db store0)"
    and "ae_fault aenv SelectVerify = None" and "ae_fault aenv SelectStartHash = None"
  shows "\<exists>store n. bs_audit (bw_state w) = Some store \<and>
    audit_verify aenv None None store = Inr \<lparr>checked_rows = n, broken_rows = 0, details = []\<rparr>"
proof -
  obtain store where store: "bs_audit (bw_state w) = Some store"
    and reach: "audit_reach (ae_sha256 aenv) (ae_hex aenv) (as_db store)"
    using reached_audit[OF assms(1,2)] by blast
  from recorded_clean[OF reach, of None None] store assms(3,4) show ?thesis by auto
qed

section \<open>Whose detection is recorded\<close>

lemma detection_frames [frame_simps]:
  "tc_last_detection (fst (recompute_mode now c)) = tc_last_detection c"
  "tc_last_detection (fst (core_drop m p s r c)) = tc_last_detection c"
  "tc_last_detection (fst (cooldown_allows ctx now c)) = tc_last_detection c"
  "tc_last_detection (fst (request_proposal cenv content s det now c)) = tc_last_detection c"
  by (simp_all add: recompute_mode_def core_drop_def cooldown_allows_def request_proposal_def
      record_analyzer_error_def trim_sandbox_failures_def Let_def case_prod_beta
      split: option.split sum.split analyzer_error.split)

lemma finalize_detection [frame_simps]:
  "tc_last_detection (fst (core_finalize ctx p s m now det c)) = tc_last_detection c"
  unfolding core_finalize_def Let_def case_prod_beta by (simp add: frame_simps)

text \<open>The core's latest detection after a decision: this message's only if it was analysed.\<close>

definition analysed :: "'a core_env \<Rightarrow> message_context \<Rightarrow> instant \<Rightarrow> 'a trusted_core \<Rightarrow> bool" where
  "analysed cenv ctx now c \<longleftrightarrow> reached_guard c ctx now \<and>
     \<not> snd (is_duplicate_and_mark (env_order cenv) (tc_duplicate_guard c) (message_id ctx) now)"

definition latest_detection ::
  "'a core_env \<Rightarrow> discord_message \<Rightarrow> instant \<Rightarrow> 'a trusted_core \<Rightarrow> detection_report option" where
  "latest_detection cenv msg now c =
     (if analysed cenv (dm_context msg) now c then Some (env_detect cenv (dm_content msg))
      else tc_last_detection c)"

lemma decide_detection:
  "tc_last_detection (fst (decide_message cenv (dm_context msg) (dm_content msg) now c)) =
   latest_detection cenv msg now c"
  by (cases rule: decide_state[where c = c and ctx = "dm_context msg" and now = now and env = cenv
        and content = "dm_content msg"])
    (simp_all add: latest_detection_def analysed_def frame_simps)


section \<open>A concrete bot\<close>

definition sample_handler :: "unit handler_env" where
  "sample_handler =
     \<lparr>he_core = sample_env,
      he_meta = \<lparr>hm_binary_version = lit ''1'', hm_config_fingerprint = [], hm_active_lsm = [],
        hm_hardening_status = []\<rparr>,
      he_debug_str = (\<lambda>t. t), he_default_version = lit ''1''\<rparr>"

definition sample_input :: step_input where
  "sample_input = \<lparr>si_now = 0, si_elapsed_ms = 1, si_audit_env = sample_audit, si_api = None\<rparr>"

definition sample_discord :: "nat \<Rightarrow> discord_message" where
  "sample_discord n = \<lparr>dm_context = sample_message n, dm_content = lit ''oo''\<rparr>"

definition sample_bot_start :: "unit bot_world" where
  "sample_bot_start = bot_begins (core_new () sample_bot sample_runtime 0) (Some sample_audit_store) 0"

definition sample_bot_world :: "unit bot_world" where
  "sample_bot_world =
     world_step sample_handler sample_input 0
       (sample_bot_start\<lparr>bw_tasks := bw_tasks sample_bot_start @ [(sample_discord 1, Arrived)]\<rparr>)"

lemma sample_bot_reached:
  "bot_reaches sample_handler (ae_sha256 sample_audit) (ae_hex sample_audit) sample_bot_start sample_bot_world"
  unfolding sample_bot_world_def
  by (rule task_runs[OF message_arrives[OF bot_start]])
    (simp_all add: sample_bot_start_def bot_begins_def sample_input_def)

lemma sample_bot_answers: "bw_answers sample_bot_world = [(0, sample_message 1)]"
  using sample_out
  by (simp add: sample_bot_world_def sample_bot_start_def world_step_def bot_begins_def sample_discord_def
      task_step_def case_prod_beta answers_of_def sample_handler_def sample_input_def sample_core_def)


theorem api_calls_bounded_witness:
  "of_nat (length (bw_calls sample_bot_world)) \<le>
    of_nat (max 30 1) + exact_secs 0 * max 20 (f64_round (1 / 10)) * drift
      + of_nat 2 * (2 * of_nat (max 30 1) * f64_unit)"
  using api_calls_bounded[OF _ sample_bot_reached[unfolded sample_bot_start_def]]
  by (simp add: sample_runtime_def u32_max_def)
    (simp add: sample_bot_world_def sample_bot_start_def bot_begins_def world_step_def sample_input_def
      case_prod_beta)

theorem bot_audit_verifies_witness:
  "\<exists>store n. bs_audit (bw_state sample_bot_world) = Some store \<and>
    audit_verify sample_audit None None store = Inr \<lparr>checked_rows = n, broken_rows = 0, details = []\<rparr>"
  by (rule bot_audit_verifies[OF sample_bot_reached[unfolded sample_bot_start_def] sample_audit_reach])
    (simp_all add: sample_no_audit_fault)

text \<open>A message by a bot, never analysed, is recorded with the detection of the message before it.\<close>

definition sample_bot_message :: discord_message where
  "sample_bot_message =
     \<lparr>dm_context = (sample_message 2)\<lparr>author_is_bot := True\<rparr>, dm_content = lit ''hi''\<rparr>"


end
