(* ===== verification/Startup.thy ===== *)
theory Startup
  imports Control Platform Discord_Handler Config_Store Config_Defaults Sandbox_Guest
begin

text \<open>
  The program itself, \<^verbatim>\<open>src/main.rs\<close>: the environment it reads, the steps from the configuration to
  a running bot, and its subcommands.  The client library, the clock, the process id, the terminal
  and the operator interface are parameters; what is printed is the result.
\<close>

section \<open>Errors and parameters\<close>

datatype startup_error =
    MissingEnv rstr
  | InvalidEnv rstr
  | InvalidStartupConfig startup_config_error
  | DetectorInit rstr
  | SandboxInit rstr
  | ClientBuild rstr
  | AuditCommand rstr
  | ConfigCommand rstr
  | ControlCommand rstr
  | CanonicalPanic

definition TUI_AUDIT_LIMIT :: nat where "TUI_AUDIT_LIMIT = 200"

datatype tui_entry = TuiDashboard | TuiSetup | TuiDiagnostics | TuiAudit

record startup_world =
  sw_store :: store_env
  sw_lib :: store_lib
  sw_config_lib :: config_lib
  sw_tui :: "tui_entry \<Rightarrow> loaded_startup_config \<Rightarrow> bool \<Rightarrow> nat \<Rightarrow> fs \<Rightarrow> fs \<times> (rstr + unit)"
  sw_terminal :: bool
  sw_nfkc :: "rstr \<Rightarrow> rstr"
  sw_order :: hash_order
  sw_dictionary :: "rstr + tokenizer"
  sw_compile_error :: "rstr option"
  sw_engine :: "host_outcome stream"
  sw_open_audit :: "path \<Rightarrow> rstr + audit_db"
  sw_audit :: audit_env
  sw_export :: export_env
  sw_config_json :: "startup_config \<Rightarrow> rstr + rstr"
  sw_counts_json :: "(rstr \<rightharpoonup> nat) \<Rightarrow> rstr"
  sw_row_json :: "audit_event_row \<Rightarrow> rstr"
  sw_version :: rstr
  sw_debug_str :: "rstr \<Rightarrow> rstr"
  sw_read :: file_reader
  sw_arch :: rstr
  sw_os :: rstr
  sw_client :: "rstr \<Rightarrow> rstr option"
  sw_paths :: path_lib
  sw_sockets :: socket_env
  sw_wire :: wire_lib
  sw_connect :: "path \<Rightarrow> rstr + (rstr \<Rightarrow> rstr + rstr)"
  sw_pid :: nat
  sw_started_at_unix :: nat
  sw_now :: instant

abbreviation sw_var :: "startup_world \<Rightarrow> rstr \<Rightarrow> rstr option" where
  "sw_var w \<equiv> se_var (sw_store w)"

section \<open>Environment variables\<close>

definition read_env :: "nat \<Rightarrow> startup_world \<Rightarrow> string \<Rightarrow> nat \<Rightarrow> startup_error + nat" where
  "read_env hi w name fallback =
     (case sw_var w (lit name) of
        Some v \<Rightarrow>
          (case parse_unsigned hi v of Inr n \<Rightarrow> Inr n | Inl _ \<Rightarrow> Inl (InvalidEnv (lit name)))
      | None \<Rightarrow> Inr fallback)"

definition read_env_u64 :: "startup_world \<Rightarrow> string \<Rightarrow> nat \<Rightarrow> startup_error + nat" where
  "read_env_u64 = read_env u64_max"

definition read_env_usize :: "startup_world \<Rightarrow> string \<Rightarrow> nat \<Rightarrow> startup_error + nat" where
  "read_env_usize = read_env usize_max"

definition read_env_u32 :: "startup_world \<Rightarrow> string \<Rightarrow> nat \<Rightarrow> startup_error + nat" where
  "read_env_u32 = read_env u32_max"

definition load_sandbox_config :: "startup_world \<Rightarrow> startup_error + sandbox_config" where
  "load_sandbox_config w =
     rbind (read_env_u64 w ''OO_SANDBOX_FUEL_LIMIT'' 50000) (\<lambda>fuel.
     rbind (read_env_usize w ''OO_SANDBOX_MEMORY_BYTES'' 65536) (\<lambda>memory.
     rbind (read_env_usize w ''OO_SANDBOX_TABLE_ELEMENTS'' 64) (\<lambda>table.
     rbind (read_env_usize w ''OO_SANDBOX_INSTANCE_LIMIT'' 4) (\<lambda>instances.
     Inr \<lparr>fuel_limit = fuel, memory_limit_bytes = memory, table_elements_limit = table,
       store_instance_limit = instances\<rparr>))))"

definition load_session_budget :: "startup_world \<Rightarrow> startup_error + nat \<times> nat \<times> nat" where
  "load_session_budget w =
     rbind (read_env_u32 w ''OO_SESSION_BUDGET_TOTAL'' 1000) (\<lambda>budget_total.
     rbind (read_env_u32 w ''OO_SESSION_BUDGET_REMAINING'' budget_total) (\<lambda>budget_remaining.
     rbind (read_env_u64 w ''OO_SESSION_BUDGET_RESET_AFTER'' 86400) (\<lambda>budget_reset_after.
     if budget_remaining > budget_total then Inl (InvalidEnv (lit ''OO_SESSION_BUDGET_REMAINING''))
     else Inr (budget_total, budget_remaining, budget_reset_after))))"

definition validate_discord_token :: "rstr \<Rightarrow> startup_error + unit" where
  "validate_discord_token token =
     (if str_trim token = [] \<or> 46 \<notin> set token \<or> str_len token < 50
      then Inl (InvalidEnv (lit ''DISCORD_TOKEN'')) else Inr ())"

definition discord_token :: "startup_world \<Rightarrow> startup_error + rstr" where
  "discord_token w =
     (case sw_var w (lit ''DISCORD_TOKEN'') of
        None \<Rightarrow> Inl (MissingEnv (lit ''DISCORD_TOKEN''))
      | Some token \<Rightarrow> rbind (validate_discord_token token) (\<lambda>_. Inr token))"

section \<open>Preparing the configuration\<close>

definition ensure_config :: "startup_world \<Rightarrow> path \<Rightarrow> fs \<Rightarrow> fs \<times> (startup_error + bool)" where
  "ensure_config w p s =
     (if fs_exists s p then (s, Inr False)
      else (case canonical_startup_config (sw_config_lib w) of
              None \<Rightarrow> (s, Inl CanonicalPanic)
            | Some config \<Rightarrow>
                map_err InvalidStartupConfig
                  (ensure_startup_config_exists (sw_store w) (sw_lib w) config p) s))"

definition load_config :: "startup_world \<Rightarrow> path \<Rightarrow> fs \<Rightarrow> fs \<times> (startup_error + loaded_startup_config)" where
  "load_config w p s =
     (s, case load_startup_config_from_path (sw_store w) (sw_lib w) p s of
           Inl err \<Rightarrow> Inl (InvalidStartupConfig err) | Inr startup \<Rightarrow> Inr startup)"

definition prepare_startup_config_with_creation ::
  "startup_world \<Rightarrow> bool \<Rightarrow> fs \<Rightarrow> fs \<times> (startup_error + loaded_startup_config \<times> bool)" where
  "prepare_startup_config_with_creation w launch_tui_on_first_run =
     (let p = startup_config_path (sw_store w) in
      io_bind (ensure_config w p) (\<lambda>created.
      io_bind (load_config w p) (\<lambda>startup.
      if created \<and> launch_tui_on_first_run \<and> sw_terminal w
      then io_bind (map_err ConfigCommand (sw_tui w TuiSetup startup True TUI_AUDIT_LIMIT)) (\<lambda>_.
           io_bind (load_config w p) (\<lambda>reloaded. io_return (reloaded, created)))
      else io_return (startup, created))))"

definition prepare_startup_config ::
  "startup_world \<Rightarrow> bool \<Rightarrow> fs \<Rightarrow> fs \<times> (startup_error + loaded_startup_config)" where
  "prepare_startup_config w launch =
     io_bind (prepare_startup_config_with_creation w launch) (\<lambda>(startup, _). io_return startup)"

definition audit_config_of :: "startup_config \<Rightarrow> audit_store_config" where
  "audit_config_of app =
     \<lparr>sc_sqlite_path = ac_sqlite_path (cfg_audit app),
      sc_busy_timeout_ms = ac_busy_timeout_ms (cfg_audit app),
      sc_export_max_rows = ac_export_max_rows (cfg_audit app),
      sc_query_max_rows = ac_query_max_rows (cfg_audit app)\<rparr>"

section \<open>Starting the bot\<close>

record running_bot =
  rb_core :: "wasmtime_analyzer trusted_core"
  rb_handler :: "wasmtime_analyzer handler_env"
  rb_audit :: "audit_store option"
  rb_socket :: path
  rb_status :: runtime_control_status

definition debug_backend :: "detector_backend_kind \<Rightarrow> rstr" where
  "debug_backend b =
     (case b of MorphologicalReading \<Rightarrow> lit ''MorphologicalReading'' | Fallback \<Rightarrow> lit ''Fallback'')"

definition process_event ::
  "startup_world \<Rightarrow> audit_event_type \<Rightarrow> loaded_startup_config \<Rightarrow> audit_event_input" where
  "process_event w kind startup =
     (audit_event_input_default (sw_version w))
       \<lparr>in_event_type := kind, in_binary_version := sw_version w,
        in_config_fingerprint := ld_config_fingerprint startup\<rparr>"

definition process_start_event ::
  "startup_world \<Rightarrow> rstr \<Rightarrow> rstr \<Rightarrow> loaded_startup_config \<Rightarrow> audit_event_input" where
  "process_start_event w lsm hardening startup =
     (process_event w ProcessStart startup)
       \<lparr>in_detector_backend := debug_backend (dc_backend (cfg_detector (ld_app startup))),
        in_active_lsm := lsm, in_hardening_status := hardening\<rparr>"

text \<open>Without a store the bot runs unaudited; only a configuration that cannot be encoded stops it.\<close>

definition open_audit ::
  "startup_world \<Rightarrow> rstr \<Rightarrow> rstr \<Rightarrow> loaded_startup_config \<Rightarrow> fs \<Rightarrow>
   fs \<times> (startup_error + audit_store option)" where
  "open_audit w lsm hardening startup s =
     (let cfg = audit_config_of (ld_app startup) in
      case open_rw (se_io (sw_store w)) cfg (ld_pseudo_id_hmac_key startup)
             (sw_open_audit w (sc_sqlite_path cfg)) s of
        (s', Inl err) \<Rightarrow> (s', Inr None)
      | (s', Inr store) \<Rightarrow>
          (case sw_config_json w (redact_keys (ld_app startup)) of
             Inl err \<Rightarrow> (s', Inl (AuditCommand err))
           | Inr config_json \<Rightarrow>
               (let (store1, _) = record_config_snapshot (sw_audit w)
                      (ld_config_fingerprint startup) config_json store;
                    (store2, _) = record_event (sw_audit w)
                      (process_start_event w lsm hardening startup) store1
                in (s', Inr (Some store2)))))"

definition run_bot_start :: "startup_world \<Rightarrow> fs \<Rightarrow> fs \<times> (startup_error + running_bot)" where
  "run_bot_start w =
     io_bind (prepare_startup_config w True) (\<lambda>startup.
     (let app = ld_app startup in
     io_bind (io_lift (discord_token w)) (\<lambda>token.
     io_bind (io_lift (case build_detector (sw_nfkc w) (sw_dictionary w) (dc_backend (cfg_detector app))
           (as_policy (cfg_detector app)) of Inl err \<Rightarrow> Inl (DetectorInit err) | Inr d \<Rightarrow> Inr d)) (\<lambda>detector.
     io_bind (io_lift (load_sandbox_config w)) (\<lambda>sandbox_cfg.
     io_bind (io_lift (case wasmtime_new (sw_compile_error w) sandbox_cfg (sw_engine w) of
           Inl err \<Rightarrow> Inl (SandboxInit err) | Inr a \<Rightarrow> Inr a)) (\<lambda>analyzer.
     io_bind (io_lift (load_session_budget w)) (\<lambda>(budget_total, budget_remaining, budget_reset_after).
     (let core = update_session_budget budget_total budget_remaining budget_reset_after
            (core_new analyzer (as_bot_config (cfg_bot app) (cfg_detector app)) (cfg_runtime app) (sw_now w));
          lsm = active_lsm_summary (detect_lsm_status (sw_read w));
          hardening = hardening_summary (detect_hardening_status (sw_arch w) (sw_os w) (sw_var w)) in
     io_bind (open_audit w lsm hardening startup) (\<lambda>audit.
     io_bind (io_lift (case sw_client w token of Some err \<Rightarrow> Inl (ClientBuild err) | None \<Rightarrow> Inr ())) (\<lambda>_ s.
     (let socket = control_socket_path (sw_paths w) (sw_var w) s (ld_config_path startup) in
     io_bind (map_err ControlCommand (bind_runtime_control_listener (sw_sockets w) socket)) (\<lambda>_.
     io_return
       \<lparr>rb_core = core,
        rb_handler =
          \<lparr>he_core = \<lparr>env_propose = wasmtime_propose, env_detect = detector, env_nfkc = sw_nfkc w,
             env_order = sw_order w\<rparr>,
           he_meta = \<lparr>hm_binary_version = sw_version w,
             hm_config_fingerprint = ld_config_fingerprint startup, hm_active_lsm = lsm,
             hm_hardening_status = hardening\<rparr>,
           he_debug_str = sw_debug_str w, he_default_version = sw_version w\<rparr>,
        rb_audit = audit, rb_socket = socket,
        rb_status =
          \<lparr>rs_state = lit ''running'', rs_pid = sw_pid w, rs_started_at_unix = sw_started_at_unix w,
           rs_config_path = pl_lossy (sw_paths w) (ld_config_path startup),
           rs_config_fingerprint = ld_config_fingerprint startup,
           rs_detector_backend = debug_backend (dc_backend (cfg_detector app)),
           rs_active_lsm = lsm, rs_hardening_status = hardening,
           rs_socket_path = so_display (sw_sockets w) socket\<rparr>\<rparr>) s)))))))))))"

text \<open>The last row of an audited bot.\<close>

definition run_bot_end ::
  "startup_world \<Rightarrow> loaded_startup_config \<Rightarrow> audit_store option \<Rightarrow> audit_store option" where
  "run_bot_end w startup audit =
     record_if_open (sw_audit w) (process_event w ProcessShutdown startup) audit"

section \<open>Signals and stopping\<close>

datatype unix_signal = Sigint | Sigterm

text \<open>\<^verbatim>\<open>SIGINT\<close> is only reported; the first \<^verbatim>\<open>SIGTERM\<close> is turned into a stop command.\<close>

fun signal_commands :: "unix_signal list \<Rightarrow> runtime_control_command list" where
  "signal_commands [] = []"
| "signal_commands (Sigint # sigs) = signal_commands sigs"
| "signal_commands (Sigterm # sigs) = [CommandStop (lit ''signal:SIGTERM'')]"

text \<open>The supervisor waits for one command; once it has shut the shards down it is gone and the
  channel is closed.\<close>

definition supervise :: "command_channel \<Rightarrow> command_channel \<times> rstr option" where
  "supervise ch =
     (case ch_queue ch of
        [] \<Rightarrow> (ch, None)
      | CommandStop source # _ \<Rightarrow> (\<lparr>ch_open = False, ch_queue = []\<rparr>, Some source))"

section \<open>Subcommands\<close>

definition status_lines :: "runtime_control_status \<Rightarrow> rstr list" where
  "status_lines st =
     [lit ''state='' @ rs_state st, lit ''pid='' @ dec (rs_pid st),
      lit ''started_at_unix='' @ dec (rs_started_at_unix st),
      lit ''config_path='' @ rs_config_path st,
      lit ''config_fingerprint='' @ rs_config_fingerprint st,
      lit ''detector_backend='' @ rs_detector_backend st,
      lit ''active_lsm='' @ rs_active_lsm st,
      lit ''hardening_status='' @ rs_hardening_status st,
      lit ''socket_path='' @ rs_socket_path st]"

datatype control_command = ControlStatus | ControlStop

definition run_control_command ::
  "startup_world \<Rightarrow> control_command \<Rightarrow> fs \<Rightarrow> startup_error + rstr list" where
  "run_control_command w command s =
     (let p = startup_config_path (sw_store w);
          connection = sw_connect w (control_socket_path (sw_paths w) (sw_var w) s p) in
      case command of
        ControlStatus \<Rightarrow>
          (case request_runtime_status (sw_wire w) connection of
             Inl err \<Rightarrow> Inl (ControlCommand err) | Inr st \<Rightarrow> Inr (status_lines st))
      | ControlStop \<Rightarrow>
          (case request_runtime_stop (sw_wire w) connection (lit ''cli'') of
             Inl err \<Rightarrow> Inl (ControlCommand err) | Inr message \<Rightarrow> Inr [message]))"

record filter_args =
  fa_start_ts_utc :: "rstr option"
  fa_end_ts_utc :: "rstr option"
  fa_event_type :: "rstr option"
  fa_detector_backend :: "rstr option"
  fa_suppressed_reason :: "rstr option"
  fa_mode :: "rstr option"

definition filter_of :: "filter_args \<Rightarrow> nat option \<Rightarrow> audit_query_filter" where
  "filter_of a limit =
     \<lparr>qf_start_ts_utc = fa_start_ts_utc a, qf_end_ts_utc = fa_end_ts_utc a,
      qf_event_type = fa_event_type a, qf_detector_backend = fa_detector_backend a,
      qf_suppressed_reason = fa_suppressed_reason a, qf_mode = fa_mode a, qf_limit = limit\<rparr>"

datatype audit_command =
    CommandTail nat filter_args
  | CommandStats filter_args
  | CommandInspect int
  | CommandVerify "int option" "int option"
  | CommandExport export_format path nat filter_args
  | CommandTui nat

definition tail_line :: "audit_event_row \<Rightarrow> rstr" where
  "tail_line row =
     decimal (ev_event_id row) @ lit '' '' @ ev_event_type row @
     lit '' backend='' @ ev_detector_backend row @ lit '' action='' @ ev_selected_action row @
     lit '' reason='' @ (if ev_suppressed_reason row = [] then lit ''-'' else ev_suppressed_reason row) @
     lit '' mode='' @ ev_mode row @ lit '' hash='' @ ev_row_hash row"

definition audit_result :: "rstr + 'a \<Rightarrow> startup_error + 'a" where
  "audit_result r = (case r of Inl err \<Rightarrow> Inl (AuditCommand err) | Inr a \<Rightarrow> Inr a)"

text \<open>The commands on an opened store.\<close>

definition audit_lines ::
  "startup_world \<Rightarrow> audit_command \<Rightarrow> audit_store \<Rightarrow> fs \<Rightarrow> fs \<times> (startup_error + rstr list)" where
  "audit_lines w command store =
     (case command of
        CommandTail limit args \<Rightarrow>
          io_lift (rbind (audit_result (audit_tail (sw_audit w) (filter_of args (Some limit)) store))
            (\<lambda>rows. Inr (map tail_line rows)))
      | CommandStats args \<Rightarrow>
          io_lift (rbind (audit_result (audit_stats_of (sw_audit w) (filter_of args None) store)) (\<lambda>st.
            Inr [lit ''total='' @ dec (st_total st),
              lit ''by_event_type='' @ sw_counts_json w (st_by_event_type st),
              lit ''by_backend='' @ sw_counts_json w (st_by_backend st),
              lit ''by_suppressed_reason='' @ sw_counts_json w (st_by_suppressed_reason st),
              lit ''by_mode='' @ sw_counts_json w (st_by_mode st)]))
      | CommandInspect event_id \<Rightarrow>
          io_lift (rbind (audit_result (audit_inspect (sw_audit w) event_id store)) (\<lambda>found.
            Inr [case found of Some row \<Rightarrow> sw_row_json w row
                 | None \<Rightarrow> lit ''event not found: '' @ decimal event_id]))
      | CommandVerify lo hi \<Rightarrow>
          io_lift (rbind (audit_result (audit_verify (sw_audit w) lo hi store)) (\<lambda>report.
            Inr ([lit ''checked_rows='' @ dec (checked_rows report),
                lit ''broken_rows='' @ dec (broken_rows report)] @
              map (\<lambda>d. lit ''detail='' @ d) (details report))))
      | CommandExport fmt out limit args \<Rightarrow>
          io_bind (map_err AuditCommand
              (audit_export (sw_export w) (sw_audit w) fmt out (filter_of args (Some limit)) store)) (\<lambda>n.
            io_return [lit ''exported_rows='' @ dec n, lit ''output='' @ so_display (sw_sockets w) out])
      | CommandTui _ \<Rightarrow> io_return [])"

definition run_audit_command ::
  "startup_world \<Rightarrow> audit_command \<Rightarrow> fs \<Rightarrow> fs \<times> (startup_error + rstr list)" where
  "run_audit_command w command =
     io_bind (prepare_startup_config w False) (\<lambda>startup.
     (case command of
        CommandTui limit \<Rightarrow>
          io_bind (map_err AuditCommand (sw_tui w TuiAudit startup False limit)) (\<lambda>_. io_return [])
      | _ \<Rightarrow>
          (let cfg = audit_config_of (ld_app startup) in
           io_bind (io_lift (audit_result (open_ro cfg (sw_open_audit w (sc_sqlite_path cfg)))))
             (audit_lines w command))))"

definition run_tui_command :: "startup_world \<Rightarrow> tui_entry \<Rightarrow> fs \<Rightarrow> fs \<times> (startup_error + rstr list)" where
  "run_tui_command w page =
     io_bind (prepare_startup_config_with_creation w False) (\<lambda>(startup, created).
     io_bind (map_err ConfigCommand (sw_tui w page startup created TUI_AUDIT_LIMIT)) (\<lambda>_.
     io_return []))"

datatype config_command = ConfigInit bool | ConfigSetup | ConfigEdit

definition config_init :: "startup_world \<Rightarrow> bool \<Rightarrow> fs \<Rightarrow> fs \<times> (startup_error + rstr list)" where
  "config_init w force s =
     (let p = startup_config_path (sw_store w); shown = so_display (sw_sockets w) p in
      if fs_exists s p \<and> \<not> force
      then (s, Inr [lit ''config already exists: '' @ shown, lit ''use --force to overwrite it''])
      else (case canonical_startup_config (sw_config_lib w) of
              None \<Rightarrow> (s, Inl CanonicalPanic)
            | Some config \<Rightarrow>
                io_bind (map_err InvalidStartupConfig
                    (write_startup_config_to_path (sw_store w) (sw_lib w) p config)) (\<lambda>_.
                  io_return [lit ''wrote config: '' @ shown]) s))"

definition run_config_command ::
  "startup_world \<Rightarrow> config_command \<Rightarrow> fs \<Rightarrow> fs \<times> (startup_error + rstr list)" where
  "run_config_command w command =
     (case command of
        ConfigInit force \<Rightarrow> config_init w force
      | _ \<Rightarrow>
          io_bind (prepare_startup_config_with_creation w False) (\<lambda>(startup, created).
          io_bind (map_err ConfigCommand (sw_tui w TuiSetup startup created TUI_AUDIT_LIMIT)) (\<lambda>_.
          io_return [lit ''setup closed: '' @ so_display (sw_sockets w) (ld_config_path startup)])))"

section \<open>What a started bot is\<close>

lemma io_bind_eq:
  "io_bind m f s = (s', Inr b) \<longleftrightarrow> (\<exists>t a. m s = (t, Inr a) \<and> f a t = (s', Inr b))"
  by (auto simp: io_bind_def split: prod.splits sum.splits)

lemma map_err_eq: "map_err g m s = (s', Inr b) \<longleftrightarrow> m s = (s', Inr b)"
  by (auto simp: map_err_def split: prod.splits sum.splits)

lemma prepared_was_loaded:
  assumes "prepare_startup_config w launch s = (s', Inr startup)"
  shows "\<exists>t. load_startup_config_from_path (sw_store w) (sw_lib w) (startup_config_path (sw_store w)) t =
    Inr startup"
  using assms
  by (auto simp: prepare_startup_config_def prepare_startup_config_with_creation_def Let_def io_bind_eq
      load_config_def split: if_splits sum.splits)

lemma loaded_is_valid:
  "load_startup_config_from_path env lib cp s = Inr l \<Longrightarrow> validate_config (ld_app l) = Inr ()"
  by (auto simp: load_startup_config_from_path_def rbind_Inr split: sum.splits if_splits)

lemma token_checked:
  assumes "discord_token w = Inr token"
  shows "sw_var w (lit ''DISCORD_TOKEN'') = Some token \<and> str_trim token \<noteq> [] \<and> 46 \<in> set token \<and>
    50 \<le> str_len token"
  using assms
  by (auto simp: discord_token_def validate_discord_token_def rbind_Inr split: option.splits if_splits)

lemma read_env_bound:
  "read_env hi w name d = Inr n \<Longrightarrow> d \<le> hi \<Longrightarrow> n \<le> hi"
  by (auto simp: read_env_def dest: parse_unsigned_bound split: option.splits sum.splits)

lemma budget_checked:
  assumes "load_session_budget w = Inr (budget, remaining, reset)"
  shows "remaining \<le> budget \<and> budget \<le> u32_max \<and> reset \<le> u64_max"
  using assms
  by (auto simp: load_session_budget_def rbind_Inr read_env_u32_def read_env_u64_def u32_max_def u64_max_def
      dest!: read_env_bound split: if_splits)

lemma audit_opened:
  assumes "open_audit w lsm hardening startup s = (s', Inr (Some store))"
  shows "\<exists>db. sw_open_audit w (ac_sqlite_path (cfg_audit (ld_app startup))) = Inr db \<and>
    (audit_reach (ae_sha256 (sw_audit w)) (ae_hex (sw_audit w)) db \<longrightarrow>
     audit_reach (ae_sha256 (sw_audit w)) (ae_hex (sw_audit w)) (as_db store))"
proof -
  let ?cfg = "audit_config_of (ld_app startup)"
  let ?sha = "ae_sha256 (sw_audit w)" and ?hex = "ae_hex (sw_audit w)"
  from assms obtain opened t config_json where
    rw: "open_rw (se_io (sw_store w)) ?cfg (ld_pseudo_id_hmac_key startup)
      (sw_open_audit w (sc_sqlite_path ?cfg)) s = (t, Inr opened)"
    and store: "store = fst (record_event (sw_audit w) (process_start_event w lsm hardening startup)
      (fst (record_config_snapshot (sw_audit w) (ld_config_fingerprint startup) config_json opened)))"
    by (auto simp: open_audit_def Let_def split: prod.splits sum.splits) (metis fst_conv)
  from rw have db: "sw_open_audit w (ac_sqlite_path (cfg_audit (ld_app startup))) = Inr (as_db opened)"
    by (auto simp: open_rw_def io_bind_eq audit_config_of_def)
  show ?thesis
    using db unfolding store
    by (auto intro!: audit_reach.event audit_reach.snapshot)
qed

lemma io_lift_eq: "io_lift r s = (s', Inr b) \<longleftrightarrow> s' = s \<and> r = Inr b"
  by (auto simp: io_lift_def)

lemma io_return_eq: "io_return a s = (s', Inr b) \<longleftrightarrow> s' = s \<and> b = a"
  by (auto simp: io_return_def)

lemma case_err_eq: "(case r of Inl e \<Rightarrow> Inl (g e) | Inr a \<Rightarrow> Inr a) = Inr b \<longleftrightarrow> r = Inr b"
  by (cases r) auto

lemma case_fault_eq: "(case r of Some e \<Rightarrow> Inl (g e) | None \<Rightarrow> Inr ()) = Inr b \<longleftrightarrow> r = None"
  by (cases r) auto

lemma bound_socket_exists:
  assumes "bind_runtime_control_listener env p s = (s', Inr ())"
  shows "fs_exists s' p"
  using assms
  by (auto simp: fs_in_dir_def path_parent_def empty_path_def fs_node_def bind_runtime_control_listener_def io_bind_eq io_lift_eq socket_bind_def fs_exists_def
      split: option.splits if_splits)

lemma run_bot_start_parts:
  assumes "run_bot_start w s = (s', Inr started)"
  obtains startup token detector sandbox analyzer budget remaining reset t1 t2 t3 where
    "prepare_startup_config w True s = (t1, Inr startup)"
    "discord_token w = Inr token"
    "build_detector (sw_nfkc w) (sw_dictionary w) (dc_backend (cfg_detector (ld_app startup)))
      (as_policy (cfg_detector (ld_app startup))) = Inr detector"
    "load_sandbox_config w = Inr sandbox"
    "wasmtime_new (sw_compile_error w) sandbox (sw_engine w) = Inr analyzer"
    "load_session_budget w = Inr (budget, remaining, reset)"
    "open_audit w (active_lsm_summary (detect_lsm_status (sw_read w)))
      (hardening_summary (detect_hardening_status (sw_arch w) (sw_os w) (sw_var w))) startup t1 =
      (t2, Inr (rb_audit started))"
    "bind_runtime_control_listener (sw_sockets w) (rb_socket started) t2 = (s', Inr ())"
    "rb_core started = update_session_budget budget remaining reset
      (core_new analyzer (as_bot_config (cfg_bot (ld_app startup)) (cfg_detector (ld_app startup)))
        (cfg_runtime (ld_app startup)) (sw_now w))"
    "he_core (rb_handler started) = \<lparr>env_propose = wasmtime_propose, env_detect = detector,
      env_nfkc = sw_nfkc w, env_order = sw_order w\<rparr>"
  using assms
  by (auto simp: run_bot_start_def Let_def io_bind_eq io_lift_eq io_return_eq map_err_eq case_err_eq
      case_fault_eq)

lemma started_safely:
  assumes "run_bot_start w s = (s', Inr started)"
  shows "\<exists>startup t token budget remaining reset analyzer.
    load_startup_config_from_path (sw_store w) (sw_lib w) (startup_config_path (sw_store w)) t = Inr startup \<and>
    validate_config (ld_app startup) = Inr () \<and>
    sw_var w (lit ''DISCORD_TOKEN'') = Some token \<and> str_trim token \<noteq> [] \<and> 46 \<in> set token \<and>
    50 \<le> str_len token \<and>
    dc_backend (cfg_detector (ld_app startup)) = MorphologicalReading \<and>
    remaining \<le> budget \<and> budget \<le> u32_max \<and>
    rb_core started = update_session_budget budget remaining reset
      (core_new analyzer (as_bot_config (cfg_bot (ld_app startup)) (cfg_detector (ld_app startup)))
        (cfg_runtime (ld_app startup)) (sw_now w)) \<and>
    env_order (he_core (rb_handler started)) = sw_order w \<and>
    fs_exists s' (rb_socket started) \<and>
    (\<forall>store. rb_audit started = Some store \<longrightarrow>
       (\<exists>db. sw_open_audit w (ac_sqlite_path (cfg_audit (ld_app startup))) = Inr db \<and>
         (audit_reach (ae_sha256 (sw_audit w)) (ae_hex (sw_audit w)) db \<longrightarrow>
          audit_reach (ae_sha256 (sw_audit w)) (ae_hex (sw_audit w)) (as_db store))))"
proof -
  from assms obtain startup token detector sandbox analyzer budget remaining reset t1 t2 where
    prepared: "prepare_startup_config w True s = (t1, Inr startup)"
    and token: "discord_token w = Inr token"
    and detector: "build_detector (sw_nfkc w) (sw_dictionary w) (dc_backend (cfg_detector (ld_app startup)))
      (as_policy (cfg_detector (ld_app startup))) = Inr detector"
    and budget: "load_session_budget w = Inr (budget, remaining, reset)"
    and audit: "open_audit w (active_lsm_summary (detect_lsm_status (sw_read w)))
      (hardening_summary (detect_hardening_status (sw_arch w) (sw_os w) (sw_var w))) startup t1 =
      (t2, Inr (rb_audit started))"
    and socket: "bind_runtime_control_listener (sw_sockets w) (rb_socket started) t2 = (s', Inr ())"
    and core: "rb_core started = update_session_budget budget remaining reset
      (core_new analyzer (as_bot_config (cfg_bot (ld_app startup)) (cfg_detector (ld_app startup)))
        (cfg_runtime (ld_app startup)) (sw_now w))"
    and handler: "he_core (rb_handler started) = \<lparr>env_propose = wasmtime_propose, env_detect = detector,
      env_nfkc = sw_nfkc w, env_order = sw_order w\<rparr>"
    by (rule run_bot_start_parts)
  from prepared_was_loaded[OF prepared] obtain t where
    loaded: "load_startup_config_from_path (sw_store w) (sw_lib w) (startup_config_path (sw_store w)) t =
      Inr startup" by blast
  have "dc_backend (cfg_detector (ld_app startup)) = MorphologicalReading"
    using detector by (auto simp: build_detector_def split: detector_backend_kind.splits)
  then show ?thesis
    using loaded loaded_is_valid[OF loaded] token_checked[OF token] budget_checked[OF budget] core handler
      bound_socket_exists[OF socket] audit_opened[of w _ _ startup t1 t2] audit
    by (intro exI[of _ startup] exI[of _ t] exI[of _ token] exI[of _ budget] exI[of _ remaining]
        exI[of _ reset] exI[of _ analyzer]) auto
qed

text \<open>A bot that starts has passed every check, in whatever file system and environment: its
  configuration was loaded and valid, the token looks like one, the detector is the configured kind, the
  session budget is consistent, the core is in a reachable state of its own configuration, the socket
  exists, and an open audit log continues what it found.\<close>

theorem bot_starts_safely:
  assumes "run_bot_start w s = (s', Inr started)"
  shows "\<exists>startup t token budget remaining reset analyzer.
    load_startup_config_from_path (sw_store w) (sw_lib w) (startup_config_path (sw_store w)) t = Inr startup \<and>
    validate_config (ld_app startup) = Inr () \<and>
    sw_var w (lit ''DISCORD_TOKEN'') = Some token \<and> str_trim token \<noteq> [] \<and> 46 \<in> set token \<and>
    50 \<le> str_len token \<and>
    dc_backend (cfg_detector (ld_app startup)) = MorphologicalReading \<and>
    remaining \<le> budget \<and> budget \<le> u32_max \<and>
    rb_core started = update_session_budget budget remaining reset
      (core_new analyzer (as_bot_config (cfg_bot (ld_app startup)) (cfg_detector (ld_app startup)))
        (cfg_runtime (ld_app startup)) (sw_now w)) \<and>
    env_order (he_core (rb_handler started)) = sw_order w \<and>
    fs_exists s' (rb_socket started) \<and>
    (\<forall>store. rb_audit started = Some store \<longrightarrow>
       (\<exists>db. sw_open_audit w (ac_sqlite_path (cfg_audit (ld_app startup))) = Inr db \<and>
         (audit_reach (ae_sha256 (sw_audit w)) (ae_hex (sw_audit w)) db \<longrightarrow>
          audit_reach (ae_sha256 (sw_audit w)) (ae_hex (sw_audit w)) (as_db store))))"
  using assms by (rule started_safely)

section \<open>From the start to the end of a run\<close>

text \<open>A handled history is a run of the core from its creation, the budget being its first event.\<close>

lemma handled_from_new:
  assumes "handled h (update_session_budget budget remaining reset new) t0 es world"
  obtains es' where "core_run (he_core h) new es' = (bs_core (bw_state world), bw_answers world)"
    and "sorted (map snd es')" and "\<forall>x \<in> set (map snd es'). t0 \<le> x \<and> x \<le> bw_clock world"
    and "t0 \<le> bw_clock world" and "length es' \<le> 2 * length (bw_tasks world) + 1"
proof
  let ?es = "(UpdateBudget budget remaining reset, t0) # es"
  show "core_run (he_core h) new ?es = (bs_core (bw_state world), bw_answers world)"
    using assms by (simp add: handled_def core_apply_def)
  show "sorted (map snd ?es)" "\<forall>x \<in> set (map snd ?es). t0 \<le> x \<and> x \<le> bw_clock world" "t0 \<le> bw_clock world"
    using assms by (auto simp: handled_def)
  show "length ?es \<le> 2 * length (bw_tasks world) + 1"
    using assms ops_used_le[of "bw_tasks world"] by (auto simp: handled_def)
qed

lemma run_consistent:
  assumes "core_run env (core_new analyzer cfg rt t0) es = (c, answers)" and "sorted (map snd es)"
    and "\<forall>x \<in> set (map snd es). t0 \<le> x \<and> x \<le> now" and "t0 \<le> now"
    and "iteration_order (env_order env)" and "global_rate_burst rt \<le> u32_max"
  shows "core_inv c now"
proof -
  let ?new = "core_new analyzer cfg rt t0"
  have "core_reaches env ?new t0 (fst (core_run env ?new es)) (last (t0 # map snd es))"
    by (rule reaches_run[OF reach_start assms(2)]) (use assms(3) in blast)
  then have "core_inv c (last (t0 # map snd es))"
    unfolding assms(1) fst_conv by (rule reachable_inv[OF assms(5,6)])
  moreover have "\<forall>x \<in> set (t0 # map snd es). x \<le> now" using assms(3,4) by simp
  then have "last (t0 # map snd es) \<le> now" by (rule bspec[OF _ last_in_set]) (rule list.distinct(2))
  ultimately show ?thesis by (rule core_inv_later)
qed

definition call_bound :: "runtime_protection_config \<Rightarrow> duration \<Rightarrow> nat \<Rightarrow> rat" where
  "call_bound rt elapsed tasks =
     of_nat (max (global_rate_burst rt) 1)
       + exact_secs elapsed * max (global_rate_per_sec rt) (f64_round (1 / 10)) * drift
       + of_nat (2 * tasks + 1) * (2 * of_nat (max (global_rate_burst rt) 1) * f64_unit)"

lemma run_calls_bound:
  assumes "core_run env (core_new analyzer cfg rt t0) es = (c, answers)"
    and "\<forall>x \<in> set (map snd es). t0 \<le> x \<and> x \<le> now" and "t0 \<le> now" and "length es \<le> 2 * tasks + 1"
    and "global_rate_burst rt \<le> u32_max" and "calls \<le> length answers"
  shows "of_nat calls \<le> call_bound rt (now - t0) tasks"
proof -
  have "(of_nat calls :: rat) \<le> of_nat (length (snd (core_run env (core_new analyzer cfg rt t0) es)))"
    using assms(1,6) by simp
  also have "\<dots> \<le> of_nat (max (global_rate_burst rt) 1)
      + exact_secs (now - t0) * max (global_rate_per_sec rt) (f64_round (1 / 10)) * drift
      + of_nat (length es) * (2 * of_nat (max (global_rate_burst rt) 1) * f64_unit)"
    using assms(2) by (intro run_rate_bound[OF assms(5,3)]) auto
  also have "\<dots> \<le> call_bound rt (now - t0) tasks"
    using assms(4) unfolding call_bound_def
    by (intro add_left_mono mult_right_mono) (auto simp: f64_unit_def simp del: of_nat_Suc intro!: of_nat_mono)
  finally show ?thesis .
qed


section \<open>A concrete start\<close>

definition start_var :: "rstr \<Rightarrow> rstr option" where
  "start_var v =
     (if v = lit ''OO_CONFIG_PATH'' then Some (lit ''/etc/oo'')
      else if v = lit ''DISCORD_TOKEN'' then Some (replicate 50 46)
      else if v = lit ''OO_CONTROL_SOCKET_PATH'' then Some (lit ''/etc/s'') else None)"

definition start_io :: io_env where
  "start_io = \<lparr>io_fault = (\<lambda>_. None), io_temp_dir = (\<lambda>d. d)\<rparr>"

definition calm_outcome :: host_outcome where
  "calm_outcome =
     \<lparr>store_error = None, instance_error = None, memory_missing = False, write_error = None,
      func_error = None, call_error = None\<rparr>"

definition start_world :: startup_world where
  "start_world =
     \<lparr>sw_store = \<lparr>se_io = start_io, se_var = start_var\<rparr>, sw_lib = sample_unsigned_lib,
      sw_config_lib = shipped_lib, sw_tui = (\<lambda>_ _ _ _ s. (s, Inr ())), sw_terminal = False,
      sw_nfkc = (\<lambda>t. t), sw_order = (\<lambda>m. m), sw_dictionary = Inr (\<lambda>_. None), sw_compile_error = None,
      sw_engine = sconst calm_outcome, sw_open_audit = (\<lambda>_. Inr empty_db),
      sw_audit = Audit_Chain.sample_audit, sw_export = sample_export, sw_config_json = (\<lambda>_. Inr []),
      sw_counts_json = (\<lambda>_. []), sw_row_json = (\<lambda>_. []), sw_version = lit ''1'',
      sw_debug_str = (\<lambda>t. t), sw_read = (\<lambda>_. Inl []), sw_arch = lit ''x86_64'', sw_os = lit ''linux'',
      sw_client = (\<lambda>_. None),
      sw_paths = \<lparr>pl_lossy = (\<lambda>_. []), pl_sha256 = (\<lambda>b. b), pl_hex = (\<lambda>b. b)\<rparr>,
      sw_sockets = \<lparr>so_io = start_io, so_connects = (\<lambda>_. False), so_bind_fault = (\<lambda>_. None),
        so_chmod_fault = (\<lambda>_. None), so_display = (\<lambda>_. [])\<rparr>,
      sw_wire = sample_wire, sw_connect = (\<lambda>_. Inl []), sw_pid = 7, sw_started_at_unix = 42, sw_now = 0\<rparr>"

definition start_config :: path where
  "start_config = \<lparr>rooted = True, parts = [NormalComp (lit ''etc''), NormalComp (lit ''oo'')]\<rparr>"

definition start_fs :: fs where
  "start_fs = [sample_dir \<mapsto> Dir, start_config \<mapsto> File []]"

lemma start_paths:
  "startup_config_path (sw_store start_world) = start_config"
  "control_socket_path (sw_paths start_world) (sw_var start_world) s p =
    \<lparr>rooted = True, parts = [NormalComp (lit ''etc''), NormalComp (lit ''s'')]\<rparr>"
  by (simp_all add: startup_config_path_def start_world_def start_var_def start_config_def path_of_def
      component_of_def lit_def control_socket_path_def resolve_control_socket_path_def
      current_socket_context_def str_trim_def str_trim_start_def str_trim_end_def is_whitespace_def)

definition start_loaded :: loaded_startup_config where
  "start_loaded = \<lparr>ld_app = sample_startup, ld_config_path = start_config, ld_config_fingerprint = [257],
     ld_pseudo_id_hmac_key = None\<rparr>"

lemma start_prepared: "prepare_startup_config start_world True start_fs = (start_fs, Inr start_loaded)"
proof -
  have "fs_node start_fs start_config = Some (File [])"
    by (simp add: fs_node_def start_fs_def start_config_def empty_path_def)
  then have loaded: "load_config start_world start_config start_fs = (start_fs, Inr start_loaded)"
    and found: "fs_exists start_fs start_config"
    by (simp_all add: load_config_def load_startup_config_from_path_def fs_read_def fs_exists_def)
      (simp add: start_world_def start_io_def MAX_CONFIG_BYTES_def sample_unsigned_lib_def sample_lib_def
        sample_startup_valid fingerprint_config_def start_loaded_def resolve_optional_hmac_key_def,
       simp add: sample_startup_def)
  from found have "ensure_config start_world start_config start_fs = (start_fs, Inr False)"
    by (simp add: ensure_config_def)
  then show ?thesis
    by (simp add: prepare_startup_config_def prepare_startup_config_with_creation_def start_paths io_bind_def
        loaded io_return_def)
qed

lemma dots_length: "length (utf8_encode (replicate n 46)) = n"
  by (induction n) (simp_all add: utf8_char_def)

lemma start_env:
  "discord_token start_world = Inr (replicate 50 46)"
  "load_sandbox_config start_world = Inr sandbox_config_default"
  "load_session_budget start_world = Inr (1000, 1000, 86400)"
  by (simp_all add: discord_token_def validate_discord_token_def load_sandbox_config_def load_session_budget_def
      read_env_u64_def read_env_u32_def read_env_usize_def read_env_def start_world_def start_var_def lit_eq
      sandbox_config_default_def str_trim_def str_trim_start_def str_trim_end_def is_whitespace_def str_len_def
      dots_length)

lemma start_analyzer: "\<exists>a. wasmtime_new (sw_compile_error start_world) cfg (sw_engine start_world) = Inr a"
  by (simp add: start_world_def wasmtime_new_def fetch_abi_version_def calm_outcome_def unless_err_def)

lemma start_audit: "\<exists>store. open_audit start_world lsm hardening start_loaded start_fs = (start_fs, Inr (Some store))"
proof -
  have "fs_create_dir_all io empty_path s = (s, Inr ())" for io s by (simp add: fs_create_dir_all_def)
  moreover have "path_parent (path_of (lit ''audit.sqlite3'')) = Some empty_path"
    by (simp add: path_parent_def path_of_def component_of_def lit_def empty_path_def)
  ultimately show ?thesis
    by (simp add: open_audit_def open_rw_def audit_config_of_def start_loaded_def sample_startup_def io_bind_def
        start_world_def io_return_def case_prod_beta Let_def)
qed

lemma start_socket: "bind_runtime_control_listener (sw_sockets start_world)
    \<lparr>rooted = True, parts = [NormalComp (lit ''etc''), NormalComp (lit ''s'')]\<rparr> start_fs =
  (start_fs(\<lparr>rooted = True, parts = [NormalComp (lit ''etc''), NormalComp (lit ''s'')]\<rparr> \<mapsto> File []), Inr ())"
  by (simp add: bind_runtime_control_listener_def path_parent_def io_bind_def fs_create_dir_all_def fs_is_dir_def
      fs_node_def start_fs_def sample_dir_def start_config_def empty_path_def fs_exists_def socket_bind_def
      fs_in_dir_def start_world_def lit_eq io_return_def)

lemma start_started: "\<exists>s' started. run_bot_start start_world start_fs = (s', Inr started)"
proof -
  obtain a where a: "wasmtime_new (sw_compile_error start_world) sandbox_config_default (sw_engine start_world) = Inr a"
    using start_analyzer by blast
  obtain store where store: "open_audit start_world (active_lsm_summary (detect_lsm_status (sw_read start_world)))
      (hardening_summary (detect_hardening_status (sw_arch start_world) (sw_os start_world) (sw_var start_world)))
      start_loaded start_fs = (start_fs, Inr (Some store))" using start_audit by blast
  have "\<exists>d. build_detector (sw_nfkc start_world) (sw_dictionary start_world)
      (dc_backend (cfg_detector (ld_app start_loaded))) (as_policy (cfg_detector (ld_app start_loaded))) = Inr d"
    by (simp add: build_detector_def start_loaded_def sample_startup_def start_world_def)
  then obtain d where d: "build_detector (sw_nfkc start_world) (sw_dictionary start_world)
      (dc_backend (cfg_detector (ld_app start_loaded))) (as_policy (cfg_detector (ld_app start_loaded))) = Inr d" ..
  have client: "sw_client start_world token = None" for token by (simp add: start_world_def)
  show ?thesis
    by (simp add: run_bot_start_def start_prepared io_bind_def start_env a d store client start_paths start_socket
        map_err_def Let_def io_return_def)
qed

theorem bot_starts_safely_witness:
  "\<exists>started. snd (run_bot_start start_world start_fs) = Inr started \<and>
     dc_backend (cfg_detector (ld_app start_loaded)) = MorphologicalReading \<and>
     fs_exists (fst (run_bot_start start_world start_fs)) (rb_socket started)"
proof -
  from start_started obtain s' started where run: "run_bot_start start_world start_fs = (s', Inr started)" by blast
  from bot_starts_safely[OF run] run show ?thesis
    by (auto simp: start_loaded_def sample_startup_def)
qed


end
