(* ===== verification/Bot_Life.thy ===== *)
theory Bot_Life
  imports Startup
begin

text \<open>
  The life of the process from the start of the client to its end, \<^verbatim>\<open>run_bot\<close> in \<^verbatim>\<open>src/main.rs\<close> with the tasks
  it spawns: the control server and its connections, the signal supervisor, the shutdown supervisor and
  the main task that waits for them.  They share a bounded channel of commands.  A step is one task
  going from one point where it waits to the next; which task moves is an event.
\<close>

section \<open>The tasks\<close>

definition CONTROL_CHANNEL_CAPACITY :: nat where "CONTROL_CHANNEL_CAPACITY = 8"

datatype main_stage = ServingClient | JoiningSignals | JoiningSupervisor | JoiningServer | Exited

datatype signal_stage = InstallingSignals | AwaitingSignal | ForwardingStop | SignalsDone

datatype supervisor_stage = AwaitingCommand | StoppingShards rstr | SupervisorDone "rstr option"

datatype server_stage = Accepting | ServerDone "rstr + unit"

text \<open>A connection that is over has sent its answer or nothing.\<close>

datatype connection_stage = Reading | Queueing rstr | Answering control_response | Over "rstr option"

record bot_life =
  bl_main :: main_stage
  bl_signals :: signal_stage
  bl_supervisor :: supervisor_stage
  bl_server :: server_stage
  bl_connections :: "connection_stage list"
  bl_queue :: "runtime_control_command list"
  bl_shutdown :: bool
  bl_stopping :: bool
  bl_fs :: fs

record life_env =
  le_wire :: wire_lib
  le_status :: runtime_control_status
  le_io :: io_env
  le_socket :: path

definition life_begins :: "fs \<Rightarrow> bot_life" where
  "life_begins s =
     \<lparr>bl_main = ServingClient, bl_signals = InstallingSignals, bl_supervisor = AwaitingCommand,
      bl_server = Accepting, bl_connections = [], bl_queue = [], bl_shutdown = False, bl_stopping = False,
      bl_fs = s\<rparr>"

definition supervisor_gone :: "bot_life \<Rightarrow> bool" where
  "supervisor_gone b \<longleftrightarrow> (case bl_supervisor b of SupervisorDone _ \<Rightarrow> True | _ \<Rightarrow> False)"

definition is_over :: "connection_stage \<Rightarrow> bool" where
  "is_over c \<longleftrightarrow> (case c of Over _ \<Rightarrow> True | _ \<Rightarrow> False)"

text \<open>The senders of the channel: main, the server, the signal supervisor and every open connection.\<close>

definition senders_left :: "bot_life \<Rightarrow> bool" where
  "senders_left b \<longleftrightarrow>
     bl_main b = ServingClient \<or> bl_main b = JoiningSignals \<or> bl_server b = Accepting \<or>
     bl_signals b \<noteq> SignalsDone \<or> list_ex (\<lambda>c. \<not> is_over c) (bl_connections b)"

text \<open>A send: refused when the receiver is gone, waiting while the channel is full.\<close>

definition send_command :: "runtime_control_command \<Rightarrow> bot_life \<Rightarrow> (bot_life \<times> bool) option" where
  "send_command command b =
     (if supervisor_gone b then Some (b, False)
      else if length (bl_queue b) < CONTROL_CHANNEL_CAPACITY
      then Some (b\<lparr>bl_queue := bl_queue b @ [command]\<rparr>, True)
      else None)"

definition set_connection :: "nat \<Rightarrow> connection_stage \<Rightarrow> bot_life \<Rightarrow> bot_life" where
  "set_connection k c b = b\<lparr>bl_connections := (bl_connections b)[k := c]\<rparr>"

definition connection_at :: "nat \<Rightarrow> bot_life \<Rightarrow> connection_stage" where
  "connection_at k b = (if k < length (bl_connections b) then bl_connections b ! k else Over None)"

section \<open>Steps\<close>

definition after_read :: "life_env \<Rightarrow> rstr + rstr \<Rightarrow> connection_stage" where
  "after_read env incoming =
     (case incoming of
        Inl _ \<Rightarrow> Over None
      | Inr text \<Rightarrow>
          (let line = first_line text in
           if line = [] then Over None
           else (case wl_decode_request (le_wire env) (str_trim_end line) of
                   Inl _ \<Rightarrow> Over None
                 | Inr RequestStatus \<Rightarrow> Answering (RespondStatus (le_status env))
                 | Inr (RequestStop source) \<Rightarrow> Queueing source)))"

definition after_write :: "life_env \<Rightarrow> control_response \<Rightarrow> rstr option \<Rightarrow> connection_stage" where
  "after_write env response fault =
     (case wl_encode_response (le_wire env) response of
        Inl _ \<Rightarrow> Over None
      | Inr payload \<Rightarrow> if fault = None then Over (Some (payload @ [10])) else Over None)"

datatype life_event =
    ClientFails
  | ClientStops
  | SignalsInstalled bool
  | SignalArrives unix_signal
  | SignalForwards
  | SignalsAborted
  | Accepts
  | AcceptFails rstr
  | ServerSeesShutdown
  | Reads nat "rstr + rstr"
  | Queues nat
  | Writes nat "rstr option"
  | TimesOut nat
  | SupervisorReceives
  | SupervisorSeesEnd
  | ShardsStopped
  | SignalsJoined
  | SupervisorJoined
  | ServerJoined

text \<open>The client returns: main tells the server to shut down and goes on to the supervisors.\<close>

definition client_returns :: "bot_life \<Rightarrow> bot_life" where
  "client_returns b = b\<lparr>bl_main := JoiningSignals, bl_shutdown := True\<rparr>"

definition signal_step :: "life_event \<Rightarrow> bot_life \<Rightarrow> bot_life option" where
  "signal_step e b =
     (case (e, bl_signals b) of
        (SignalsInstalled ok, InstallingSignals) \<Rightarrow>
          Some (b\<lparr>bl_signals := (if ok then AwaitingSignal else SignalsDone)\<rparr>)
      | (SignalArrives Sigint, AwaitingSignal) \<Rightarrow> Some b
      | (SignalArrives Sigterm, AwaitingSignal) \<Rightarrow> Some (b\<lparr>bl_signals := ForwardingStop\<rparr>)
      | (SignalForwards, ForwardingStop) \<Rightarrow>
          map_option (\<lambda>(b', _). b'\<lparr>bl_signals := SignalsDone\<rparr>)
            (send_command (CommandStop (lit ''signal:SIGTERM'')) b)
      | (SignalsAborted, _) \<Rightarrow>
          if bl_main b = JoiningSignals \<and> bl_signals b \<noteq> SignalsDone
          then Some (b\<lparr>bl_signals := SignalsDone\<rparr>) else None
      | _ \<Rightarrow> None)"

definition server_step :: "life_env \<Rightarrow> life_event \<Rightarrow> bot_life \<Rightarrow> bot_life option" where
  "server_step env e b =
     (if bl_server b \<noteq> Accepting then None
      else case e of
        Accepts \<Rightarrow> Some (b\<lparr>bl_connections := bl_connections b @ [Reading]\<rparr>)
      | AcceptFails err \<Rightarrow> Some (b\<lparr>bl_server := ServerDone (Inl err)\<rparr>)
      | ServerSeesShutdown \<Rightarrow>
          if bl_shutdown b
          then Some (b\<lparr>bl_server := ServerDone (Inr ()), bl_fs := close_socket (le_io env) (le_socket env) (bl_fs b)\<rparr>)
          else None
      | _ \<Rightarrow> None)"

definition connection_step :: "life_env \<Rightarrow> life_event \<Rightarrow> bot_life \<Rightarrow> bot_life option" where
  "connection_step env e b =
     (case e of
        Reads k incoming \<Rightarrow>
          (case connection_at k b of Reading \<Rightarrow> Some (set_connection k (after_read env incoming) b) | _ \<Rightarrow> None)
      | Queues k \<Rightarrow>
          (case connection_at k b of
             Queueing source \<Rightarrow>
               map_option (\<lambda>(b', sent). set_connection k
                   (if sent then Answering (RespondAck (accepted_text source)) else Over None) b')
                 (send_command (CommandStop source) b)
           | _ \<Rightarrow> None)
      | Writes k fault \<Rightarrow>
          (case connection_at k b of
             Answering response \<Rightarrow> Some (set_connection k (after_write env response fault) b) | _ \<Rightarrow> None)
      | TimesOut k \<Rightarrow> if is_over (connection_at k b) then None else Some (set_connection k (Over None) b)
      | _ \<Rightarrow> None)"

text \<open>The supervisor asks the shards to stop as soon as it has a command; the client may return before
  it has finished.  With it the channel goes.\<close>

definition supervisor_step :: "life_event \<Rightarrow> bot_life \<Rightarrow> bot_life option" where
  "supervisor_step e b =
     (case (e, bl_supervisor b) of
        (SupervisorReceives, AwaitingCommand) \<Rightarrow>
          (case bl_queue b of
             CommandStop source # rest \<Rightarrow>
               Some (b\<lparr>bl_supervisor := StoppingShards source, bl_queue := rest, bl_stopping := True\<rparr>)
           | [] \<Rightarrow> None)
      | (SupervisorSeesEnd, AwaitingCommand) \<Rightarrow>
          if bl_queue b = [] \<and> \<not> senders_left b
          then Some (b\<lparr>bl_supervisor := SupervisorDone None\<rparr>) else None
      | (ShardsStopped, StoppingShards source) \<Rightarrow>
          Some (b\<lparr>bl_supervisor := SupervisorDone (Some source), bl_queue := []\<rparr>)
      | _ \<Rightarrow> None)"

definition main_step :: "life_event \<Rightarrow> bot_life \<Rightarrow> bot_life option" where
  "main_step e b =
     (case (e, bl_main b) of
        (ClientFails, ServingClient) \<Rightarrow> Some (client_returns b)
      | (ClientStops, ServingClient) \<Rightarrow> if bl_stopping b then Some (client_returns b) else None
      | (SignalsJoined, JoiningSignals) \<Rightarrow>
          if bl_signals b = SignalsDone then Some (b\<lparr>bl_main := JoiningSupervisor\<rparr>) else None
      | (SupervisorJoined, JoiningSupervisor) \<Rightarrow>
          if supervisor_gone b then Some (b\<lparr>bl_main := JoiningServer\<rparr>) else None
      | (ServerJoined, JoiningServer) \<Rightarrow>
          if bl_server b \<noteq> Accepting then Some (b\<lparr>bl_main := Exited\<rparr>) else None
      | _ \<Rightarrow> None)"

text \<open>When main has returned the runtime is gone and with it every task.\<close>

definition life_step :: "life_env \<Rightarrow> life_event \<Rightarrow> bot_life \<Rightarrow> bot_life option" where
  "life_step env e b =
     (if bl_main b = Exited then None
      else case e of
        SignalsInstalled _ \<Rightarrow> signal_step e b
      | SignalArrives _ \<Rightarrow> signal_step e b
      | SignalForwards \<Rightarrow> signal_step e b
      | SignalsAborted \<Rightarrow> signal_step e b
      | Accepts \<Rightarrow> server_step env e b
      | AcceptFails _ \<Rightarrow> server_step env e b
      | ServerSeesShutdown \<Rightarrow> server_step env e b
      | Reads _ _ \<Rightarrow> connection_step env e b
      | Queues _ \<Rightarrow> connection_step env e b
      | Writes _ _ \<Rightarrow> connection_step env e b
      | TimesOut _ \<Rightarrow> connection_step env e b
      | SupervisorReceives \<Rightarrow> supervisor_step e b
      | SupervisorSeesEnd \<Rightarrow> supervisor_step e b
      | ShardsStopped \<Rightarrow> supervisor_step e b
      | _ \<Rightarrow> main_step e b)"

fun life_run :: "life_env \<Rightarrow> life_event list \<Rightarrow> bot_life \<Rightarrow> bot_life option" where
  "life_run env [] b = Some b"
| "life_run env (e # es) b = Option.bind (life_step env e b) (life_run env es)"

section \<open>The steps as a relation\<close>

inductive moves :: "life_env \<Rightarrow> life_event \<Rightarrow> bot_life \<Rightarrow> bot_life \<Rightarrow> bool" for env where
  client_fails: "bl_main b = ServingClient \<Longrightarrow> moves env ClientFails b (client_returns b)"
| client_stops: "bl_main b = ServingClient \<Longrightarrow> bl_stopping b \<Longrightarrow> moves env ClientStops b (client_returns b)"
| installed: "bl_signals b = InstallingSignals \<Longrightarrow>
    moves env (SignalsInstalled ok) b (b\<lparr>bl_signals := (if ok then AwaitingSignal else SignalsDone)\<rparr>)"
| sigint: "bl_signals b = AwaitingSignal \<Longrightarrow> moves env (SignalArrives Sigint) b b"
| sigterm: "bl_signals b = AwaitingSignal \<Longrightarrow>
    moves env (SignalArrives Sigterm) b (b\<lparr>bl_signals := ForwardingStop\<rparr>)"
| forwards: "bl_signals b = ForwardingStop \<Longrightarrow>
    send_command (CommandStop (lit ''signal:SIGTERM'')) b = Some (b', sent) \<Longrightarrow>
    moves env SignalForwards b (b'\<lparr>bl_signals := SignalsDone\<rparr>)"
| aborted: "bl_main b = JoiningSignals \<Longrightarrow> bl_signals b \<noteq> SignalsDone \<Longrightarrow>
    moves env SignalsAborted b (b\<lparr>bl_signals := SignalsDone\<rparr>)"
| accepts: "bl_server b = Accepting \<Longrightarrow>
    moves env Accepts b (b\<lparr>bl_connections := bl_connections b @ [Reading]\<rparr>)"
| accept_fails: "bl_server b = Accepting \<Longrightarrow>
    moves env (AcceptFails err) b (b\<lparr>bl_server := ServerDone (Inl err)\<rparr>)"
| sees_shutdown: "bl_server b = Accepting \<Longrightarrow> bl_shutdown b \<Longrightarrow> moves env ServerSeesShutdown b
    (b\<lparr>bl_server := ServerDone (Inr ()), bl_fs := close_socket (le_io env) (le_socket env) (bl_fs b)\<rparr>)"
| reads: "connection_at k b = Reading \<Longrightarrow>
    moves env (Reads k incoming) b (set_connection k (after_read env incoming) b)"
| queues: "connection_at k b = Queueing source \<Longrightarrow> send_command (CommandStop source) b = Some (b', sent) \<Longrightarrow>
    moves env (Queues k) b
      (set_connection k (if sent then Answering (RespondAck (accepted_text source)) else Over None) b')"
| writes: "connection_at k b = Answering response \<Longrightarrow>
    moves env (Writes k fault) b (set_connection k (after_write env response fault) b)"
| times_out: "\<not> is_over (connection_at k b) \<Longrightarrow> moves env (TimesOut k) b (set_connection k (Over None) b)"
| receives: "bl_supervisor b = AwaitingCommand \<Longrightarrow> bl_queue b = CommandStop source # rest \<Longrightarrow>
    moves env SupervisorReceives b
      (b\<lparr>bl_supervisor := StoppingShards source, bl_queue := rest, bl_stopping := True\<rparr>)"
| sees_end: "bl_supervisor b = AwaitingCommand \<Longrightarrow> bl_queue b = [] \<Longrightarrow> \<not> senders_left b \<Longrightarrow>
    moves env SupervisorSeesEnd b (b\<lparr>bl_supervisor := SupervisorDone None\<rparr>)"
| stopped: "bl_supervisor b = StoppingShards source \<Longrightarrow>
    moves env ShardsStopped b (b\<lparr>bl_supervisor := SupervisorDone (Some source), bl_queue := []\<rparr>)"
| signals_joined: "bl_main b = JoiningSignals \<Longrightarrow> bl_signals b = SignalsDone \<Longrightarrow>
    moves env SignalsJoined b (b\<lparr>bl_main := JoiningSupervisor\<rparr>)"
| supervisor_joined: "bl_main b = JoiningSupervisor \<Longrightarrow> supervisor_gone b \<Longrightarrow>
    moves env SupervisorJoined b (b\<lparr>bl_main := JoiningServer\<rparr>)"
| server_joined: "bl_main b = JoiningServer \<Longrightarrow> bl_server b \<noteq> Accepting \<Longrightarrow>
    moves env ServerJoined b (b\<lparr>bl_main := Exited\<rparr>)"

inductive_simps moves_simps:
  "moves env ClientFails b b'" "moves env ClientStops b b'" "moves env (SignalsInstalled ok) b b'"
  "moves env (SignalArrives Sigint) b b'" "moves env (SignalArrives Sigterm) b b'"
  "moves env SignalForwards b b'" "moves env SignalsAborted b b'" "moves env Accepts b b'"
  "moves env (AcceptFails err) b b'" "moves env ServerSeesShutdown b b'" "moves env (Reads k incoming) b b'"
  "moves env (Queues k) b b'" "moves env (Writes k fault) b b'" "moves env (TimesOut k) b b'"
  "moves env SupervisorReceives b b'" "moves env SupervisorSeesEnd b b'" "moves env ShardsStopped b b'"
  "moves env SignalsJoined b b'" "moves env SupervisorJoined b b'" "moves env ServerJoined b b'"

lemma signal_moves:
  assumes "e \<in> {SignalsInstalled ok, SignalArrives sig, SignalForwards}"
  shows "life_step env e b = Some b' \<longleftrightarrow> bl_main b \<noteq> Exited \<and> moves env e b b'"
  using assms
  by (cases sig; cases "bl_signals b") (auto simp: life_step_def signal_step_def moves_simps)

lemma supervisor_moves:
  assumes "e \<in> {SupervisorReceives, SupervisorSeesEnd, ShardsStopped}"
  shows "life_step env e b = Some b' \<longleftrightarrow> bl_main b \<noteq> Exited \<and> moves env e b b'"
  using assms
  by (cases "bl_supervisor b")
    (auto simp: life_step_def supervisor_step_def moves_simps
        split: if_splits list.splits runtime_control_command.splits)

lemma connection_moves:
  assumes "e \<in> {Reads k incoming, Writes k fault, TimesOut k}"
  shows "life_step env e b = Some b' \<longleftrightarrow> bl_main b \<noteq> Exited \<and> moves env e b b'"
  using assms by (cases "connection_at k b") (auto simp: life_step_def connection_step_def moves_simps split: if_splits)

lemma queue_moves:
  "life_step env (Queues k) b = Some b' \<longleftrightarrow> bl_main b \<noteq> Exited \<and> moves env (Queues k) b b'"
  by (auto simp: life_step_def connection_step_def moves_simps split: connection_stage.split)

lemma main_moves:
  assumes "e \<in> {ClientFails, ClientStops, SignalsJoined, SupervisorJoined, ServerJoined}"
  shows "life_step env e b = Some b' \<longleftrightarrow> bl_main b \<noteq> Exited \<and> moves env e b b'"
  using assms by (cases "bl_main b") (auto simp: life_step_def main_step_def moves_simps split: if_splits)

lemma life_step_iff: "life_step env e b = Some b' \<longleftrightarrow> bl_main b \<noteq> Exited \<and> moves env e b b'"
  by (cases e)
    (simp_all add: signal_moves supervisor_moves connection_moves queue_moves main_moves,
     auto simp: life_step_def signal_step_def server_step_def moves_simps)

section \<open>How much is left to do\<close>

text \<open>What the tasks do by themselves; the rest comes from outside.\<close>

definition own_step :: "life_event \<Rightarrow> bool" where
  "own_step e \<longleftrightarrow>
     (case e of ClientFails \<Rightarrow> False | SignalArrives _ \<Rightarrow> False | Accepts \<Rightarrow> False | AcceptFails _ \<Rightarrow> False
      | _ \<Rightarrow> True)"

definition main_rank :: "main_stage \<Rightarrow> nat" where
  "main_rank m =
     (case m of ServingClient \<Rightarrow> 4 | JoiningSignals \<Rightarrow> 3 | JoiningSupervisor \<Rightarrow> 2 | JoiningServer \<Rightarrow> 1 | Exited \<Rightarrow> 0)"

definition signal_rank :: "signal_stage \<Rightarrow> nat" where
  "signal_rank s =
     (case s of InstallingSignals \<Rightarrow> 3 | AwaitingSignal \<Rightarrow> 2 | ForwardingStop \<Rightarrow> 1 | SignalsDone \<Rightarrow> 0)"

definition supervisor_rank :: "supervisor_stage \<Rightarrow> nat" where
  "supervisor_rank s = (case s of AwaitingCommand \<Rightarrow> 2 | StoppingShards _ \<Rightarrow> 1 | SupervisorDone _ \<Rightarrow> 0)"

definition server_rank :: "server_stage \<Rightarrow> nat" where
  "server_rank s = (case s of Accepting \<Rightarrow> 1 | ServerDone _ \<Rightarrow> 0)"

definition connection_rank :: "connection_stage \<Rightarrow> nat" where
  "connection_rank c = (case c of Reading \<Rightarrow> 3 | Queueing _ \<Rightarrow> 2 | Answering _ \<Rightarrow> 1 | Over _ \<Rightarrow> 0)"

lemmas rank_defs = main_rank_def signal_rank_def supervisor_rank_def server_rank_def

definition life_rank :: "bot_life \<Rightarrow> nat" where
  "life_rank b =
     main_rank (bl_main b) + signal_rank (bl_signals b) + supervisor_rank (bl_supervisor b) +
     server_rank (bl_server b) + sum_list (map connection_rank (bl_connections b))"

lemma send_command_frame:
  assumes "send_command command b = Some (b', sent)"
  shows "bl_main b' = bl_main b" "bl_signals b' = bl_signals b" "bl_supervisor b' = bl_supervisor b"
    "bl_server b' = bl_server b" "bl_connections b' = bl_connections b" "bl_shutdown b' = bl_shutdown b"
    "bl_stopping b' = bl_stopping b" "bl_fs b' = bl_fs b"
    "bl_queue b' = (if sent then bl_queue b @ [command] else bl_queue b)"
    "sent = (\<not> supervisor_gone b)"
  using assms by (auto simp: send_command_def split: if_splits)

lemma set_connection_frame [simp]:
  "bl_main (set_connection k c b) = bl_main b" "bl_signals (set_connection k c b) = bl_signals b"
  "bl_supervisor (set_connection k c b) = bl_supervisor b" "bl_server (set_connection k c b) = bl_server b"
  "bl_queue (set_connection k c b) = bl_queue b" "bl_shutdown (set_connection k c b) = bl_shutdown b"
  "bl_stopping (set_connection k c b) = bl_stopping b" "bl_fs (set_connection k c b) = bl_fs b"
  by (simp_all add: set_connection_def)

lemma set_connection_rank:
  assumes "connection_rank c < connection_rank (connection_at k b)"
  shows "sum_list (map connection_rank (bl_connections (set_connection k c b))) <
    sum_list (map connection_rank (bl_connections b))"
proof -
  let ?cs = "map connection_rank (bl_connections b)"
  have k: "k < length (bl_connections b)"
    using assms by (auto simp: connection_at_def connection_rank_def split: if_splits)
  then have "?cs ! k \<le> sum_list ?cs" by (intro member_le_sum_list) simp_all
  with k assms show ?thesis
    by (simp add: set_connection_def connection_at_def map_update sum_list_update)
qed

lemma after_ranks:
  "connection_rank (after_read env incoming) < connection_rank Reading"
  "connection_rank (after_write env response fault) < connection_rank (Answering response)"
  "\<not> is_over c \<Longrightarrow> connection_rank (Over r) < connection_rank c"
  by (auto simp: after_read_def after_write_def connection_rank_def is_over_def Let_def
      split: sum.split control_request.split connection_stage.splits)

lemma connection_move:
  assumes "connection_rank c < connection_rank (connection_at k b)" and "bl_connections b' = bl_connections b"
    and "bl_main b' = bl_main b" "bl_signals b' = bl_signals b" "bl_supervisor b' = bl_supervisor b"
    "bl_server b' = bl_server b"
  shows "life_rank (set_connection k c b') < life_rank b"
proof -
  have "connection_at k b' = connection_at k b" using assms(2) by (simp add: connection_at_def)
  with set_connection_rank[of c k b'] assms show ?thesis by (simp add: life_rank_def)
qed

lemma move_rank:
  assumes "moves env e b b'"
  shows "own_step e \<longrightarrow> life_rank b' < life_rank b"
    and "life_rank b' \<le> life_rank b + (if e = Accepts then 3 else 0)"
proof -
  have "(own_step e \<longrightarrow> life_rank b' < life_rank b) \<and>
    life_rank b' \<le> life_rank b + (if e = Accepts then 3 else 0)"
    using assms
  proof cases
    case (reads k incoming)
    then have "life_rank b' < life_rank b" using after_ranks(1) by (auto intro!: connection_move)
    then show ?thesis by simp
  next
    case (queues k source c sent)
    note f = send_command_frame[OF queues(4)]
    have "life_rank b' < life_rank b"
      unfolding queues(2) using queues(3) f by (intro connection_move) (auto simp: connection_rank_def)
    then show ?thesis by simp
  next
    case (writes k response fault)
    then have "life_rank b' < life_rank b" using after_ranks(2) by (auto intro!: connection_move)
    then show ?thesis by simp
  next
    case (times_out k)
    then have "life_rank b' < life_rank b" using after_ranks(3) by (auto intro!: connection_move)
    then show ?thesis by simp
  next
    case (forwards c sent)
    with send_command_frame[OF forwards(4)] show ?thesis by (simp add: life_rank_def rank_defs)
  next
    case aborted
    then show ?thesis by (cases "bl_signals b") (simp_all add: life_rank_def rank_defs)
  next
    case server_joined
    then show ?thesis by (simp add: life_rank_def rank_defs)
  qed (auto simp: life_rank_def rank_defs client_returns_def own_step_def connection_rank_def)
  then show "own_step e \<longrightarrow> life_rank b' < life_rank b"
    and "life_rank b' \<le> life_rank b + (if e = Accepts then 3 else 0)" by blast+
qed

section \<open>What holds in every state\<close>

definition supervisor_ok ::
  "main_stage \<Rightarrow> bool \<Rightarrow> runtime_control_command list \<Rightarrow> supervisor_stage \<Rightarrow> bool" where
  "supervisor_ok main stopping queue s \<longleftrightarrow>
     (case s of
        AwaitingCommand \<Rightarrow> \<not> stopping
      | StoppingShards _ \<Rightarrow> stopping
      | SupervisorDone cause \<Rightarrow> (cause \<noteq> None \<longleftrightarrow> stopping) \<and>
          (cause = None \<longrightarrow> main \<noteq> ServingClient \<and> main \<noteq> JoiningSignals) \<and> queue = []) \<and>
     (main = JoiningServer \<or> main = Exited \<longrightarrow> (\<exists>cause. s = SupervisorDone cause))"

definition life_inv :: "bot_life \<Rightarrow> bool" where
  "life_inv b \<longleftrightarrow>
     (bl_main b \<noteq> ServingClient \<longrightarrow> bl_shutdown b) \<and>
     (bl_main b = JoiningSupervisor \<or> bl_main b = JoiningServer \<or> bl_main b = Exited \<longrightarrow> bl_signals b = SignalsDone) \<and>
     (bl_main b = Exited \<longrightarrow> bl_server b \<noteq> Accepting) \<and>
     supervisor_ok (bl_main b) (bl_stopping b) (bl_queue b) (bl_supervisor b) \<and>
     length (bl_queue b) \<le> CONTROL_CHANNEL_CAPACITY"

lemma gone_iff: "supervisor_gone b \<longleftrightarrow> (\<exists>cause. bl_supervisor b = SupervisorDone cause)"
  by (simp add: supervisor_gone_def split: supervisor_stage.split)

lemma supervisor_ok_simps [simp]:
  "supervisor_ok main stopping queue AwaitingCommand \<longleftrightarrow> \<not> stopping \<and> main \<noteq> JoiningServer \<and> main \<noteq> Exited"
  "supervisor_ok main stopping queue (StoppingShards source) \<longleftrightarrow> stopping \<and> main \<noteq> JoiningServer \<and> main \<noteq> Exited"
  "supervisor_ok main stopping queue (SupervisorDone cause) \<longleftrightarrow> (cause \<noteq> None \<longleftrightarrow> stopping) \<and>
     (cause = None \<longrightarrow> main \<noteq> ServingClient \<and> main \<noteq> JoiningSignals) \<and> queue = []"
  by (auto simp: supervisor_ok_def)

lemma life_inv_begins: "life_inv (life_begins s)"
  by (simp add: life_inv_def life_begins_def)

lemma life_inv_send:
  assumes "send_command command b = Some (b', sent)" and "life_inv b"
  shows "life_inv b'"
proof (cases "supervisor_gone b")
  case True
  then show ?thesis using assms by (simp add: send_command_def)
next
  case False
  with assms show ?thesis
    by (cases "bl_supervisor b") (auto simp: send_command_def life_inv_def gone_iff split: if_splits)
qed

lemma life_inv_move:
  assumes "moves env e b b'" and "bl_main b \<noteq> Exited" and "life_inv b"
  shows "life_inv b'"
  using assms(1)
proof cases
  case (forwards c sent)
  with life_inv_send[OF forwards(4) assms(3)] send_command_frame[OF forwards(4)] show ?thesis
    by (simp add: life_inv_def)
next
  case (queues k source c sent)
  from life_inv_send[OF queues(4) assms(3)] show ?thesis by (simp add: queues(2) life_inv_def)
next
  case sees_end
  with assms(2,3) show ?thesis by (simp add: life_inv_def senders_left_def)
qed (use assms(2,3) in \<open>cases "bl_supervisor b"; force simp: life_inv_def client_returns_def gone_iff\<close>)+

lemma life_run_snoc:
  "life_run env (es @ [e]) b = Some b'' \<longleftrightarrow>
   (\<exists>b'. life_run env es b = Some b' \<and> bl_main b' \<noteq> Exited \<and> moves env e b' b'')"
  by (induction es arbitrary: b) (auto simp: bind_eq_Some_conv life_step_iff)

lemma life_run_append:
  "life_run env (es @ es') b = Option.bind (life_run env es b) (life_run env es')"
proof (induction es arbitrary: b)
  case (Cons e es)
  then show ?case by (cases "life_step env e b") simp_all
qed simp

lemma life_run_inv: "life_run env es b = Some b' \<Longrightarrow> life_inv b \<Longrightarrow> life_inv b'"
proof (induction es arbitrary: b)
  case (Cons e es)
  then obtain c where "life_step env e b = Some c" "life_run env es c = Some b'"
    by (auto simp: bind_eq_Some_conv)
  with Cons life_inv_move show ?case unfolding life_step_iff by blast
qed simp

lemma life_run_rank:
  "life_run env es b = Some b' \<Longrightarrow>
   length (filter own_step es) + life_rank b' \<le> life_rank b + 3 * count_list es Accepts"
proof (induction es arbitrary: b)
  case (Cons e es)
  then obtain c where step: "life_step env e b = Some c" and run: "life_run env es c = Some b'"
    by (auto simp: bind_eq_Some_conv)
  then have "own_step e \<longrightarrow> life_rank c < life_rank b"
    "life_rank c \<le> life_rank b + (if e = Accepts then 3 else 0)"
    using move_rank unfolding life_step_iff by blast+
  moreover have "\<not> own_step Accepts" by (simp add: own_step_def)
  ultimately show ?case using Cons.IH[OF run] by auto
qed simp

section \<open>The end\<close>

text \<open>The process is on its way out: the client has returned, a stop is under way, or a command or a
  signal waits to be taken.\<close>

definition winding_down :: "bot_life \<Rightarrow> bool" where
  "winding_down b \<longleftrightarrow>
     bl_main b \<noteq> ServingClient \<or> bl_stopping b \<or> bl_queue b \<noteq> [] \<or> bl_signals b = ForwardingStop"

lemma own_possible:
  assumes "moves env e b b'" and "own_step e" and "bl_main b \<noteq> Exited"
  shows "\<exists>e. own_step e \<and> life_step env e b \<noteq> None"
  using assms life_step_iff[of env e b b'] by (metis option.distinct(1))

lemma supervisors_end:
  assumes "bl_main b = JoiningSupervisor" and "life_inv b"
  shows "\<exists>e b'. own_step e \<and> moves env e b b'"
proof (cases "bl_supervisor b")
  case AwaitingCommand
  show ?thesis
  proof (cases "bl_queue b")
    case (Cons command rest)
    with AwaitingCommand show ?thesis
      by (cases command) (auto intro!: exI[of _ SupervisorReceives] simp: moves_simps own_step_def)
  next
    case Nil
    show ?thesis
    proof (cases "senders_left b")
      case True
      with assms consider "bl_server b = Accepting" | k where "\<not> is_over (connection_at k b)"
        by (auto simp: senders_left_def list_ex_iff life_inv_def connection_at_def in_set_conv_nth) metis
      then show ?thesis
      proof cases
        case 1
        with assms show ?thesis
          by (intro exI[of _ ServerSeesShutdown]) (simp add: moves_simps own_step_def life_inv_def)
      next
        case (2 k)
        then show ?thesis by (intro exI[of _ "TimesOut k"]) (simp add: moves_simps own_step_def)
      qed
    next
      case False
      with AwaitingCommand Nil show ?thesis
        by (intro exI[of _ SupervisorSeesEnd]) (simp add: moves_simps own_step_def)
    qed
  qed
next
  case (StoppingShards source)
  then show ?thesis by (intro exI[of _ ShardsStopped]) (simp add: moves_simps own_step_def)
next
  case (SupervisorDone cause)
  with assms show ?thesis
    by (intro exI[of _ SupervisorJoined]) (simp add: moves_simps own_step_def gone_iff)
qed

lemma never_stuck:
  assumes "life_inv b" and "winding_down b" and "bl_main b \<noteq> Exited"
  shows "\<exists>e. own_step e \<and> life_step env e b \<noteq> None"
proof -
  have "\<exists>e b'. own_step e \<and> moves env e b b'"
  proof (cases "bl_main b")
    case ServingClient
    show ?thesis
    proof (cases "bl_stopping b")
      case True
      with ServingClient show ?thesis by (intro exI[of _ ClientStops]) (simp add: moves_simps own_step_def)
    next
      case False
      with ServingClient assms(1) have awaiting: "bl_supervisor b = AwaitingCommand"
        by (cases "bl_supervisor b") (auto simp: life_inv_def)
      show ?thesis
      proof (cases "bl_queue b")
        case (Cons command rest)
        with awaiting show ?thesis
          by (cases command) (auto intro!: exI[of _ SupervisorReceives] simp: moves_simps own_step_def)
      next
        case Nil
        with False ServingClient assms(2) have "bl_signals b = ForwardingStop" by (simp add: winding_down_def)
        with Nil awaiting show ?thesis
          by (intro exI[of _ SignalForwards])
            (auto simp: moves_simps own_step_def send_command_def gone_iff CONTROL_CHANNEL_CAPACITY_def)
      qed
    qed
  next
    case JoiningSignals
    then have "(\<exists>b'. moves env SignalsJoined b b') \<or> (\<exists>b'. moves env SignalsAborted b b')"
      by (simp add: moves_simps)
    then show ?thesis by (auto simp: own_step_def intro: exI[of _ SignalsJoined] exI[of _ SignalsAborted])
  next
    case JoiningSupervisor
    then show ?thesis using assms(1) by (rule supervisors_end)
  next
    case JoiningServer
    with assms(1) have "(\<exists>b'. moves env ServerJoined b b') \<or> (\<exists>b'. moves env ServerSeesShutdown b b')"
      by (simp add: moves_simps life_inv_def)
    then show ?thesis by (auto simp: own_step_def intro: exI[of _ ServerJoined] exI[of _ ServerSeesShutdown])
  qed (use assms(3) in simp)
  then show ?thesis using own_possible assms(3) by blast
qed

lemma winding_move:
  assumes "moves env e b b'" and "life_inv b" and "winding_down b"
  shows "winding_down b'"
  using assms(1)
proof cases
  case (forwards c sent)
  with assms(2,3) send_command_frame[OF forwards(4)] show ?thesis
    by (auto simp: winding_down_def life_inv_def gone_iff split: if_splits)
next
  case (queues k source c sent)
  with assms(3) send_command_frame[OF queues(4)] show ?thesis by (auto simp: winding_down_def)
qed (use assms(2,3) in \<open>auto simp: winding_down_def life_inv_def client_returns_def\<close>)

lemma winding_run: "life_run env es b = Some b' \<Longrightarrow> life_inv b \<Longrightarrow> winding_down b \<Longrightarrow> winding_down b'"
proof (induction es arbitrary: b)
  case (Cons e es)
  then obtain c where "life_step env e b = Some c" "life_run env es c = Some b'"
    by (auto simp: bind_eq_Some_conv)
  with Cons winding_move life_inv_move show ?case unfolding life_step_iff by blast
qed simp

text \<open>C25: a stop ends the process: from the moment a stop command is queued, the signal to terminate has come
  or the client has returned, however its tasks interleave, the process takes at most ten steps and three
  for each connection it ever accepted, and until it has exited one of its tasks can always go on.\<close>

theorem stop_completes:
  assumes "life_run env before (life_begins s) = Some b" and "winding_down b"
    and "life_run env after b = Some b'"
  shows "length (filter own_step after) \<le> 10 + 3 * (count_list before Accepts + count_list after Accepts) \<and>
    (bl_main b' = Exited \<or> (\<exists>e. own_step e \<and> life_step env e b' \<noteq> None))"
proof -
  have inv: "life_inv b" by (rule life_run_inv[OF assms(1) life_inv_begins])
  have "life_rank (life_begins s) = 10" by (simp add: life_rank_def life_begins_def rank_defs)
  then have "length (filter own_step after) \<le> 10 + 3 * (count_list before Accepts + count_list after Accepts)"
    using life_run_rank[OF assms(1)] life_run_rank[OF assms(3)] by simp
  moreover have "bl_main b' = Exited \<or> (\<exists>e. own_step e \<and> life_step env e b' \<noteq> None)"
    using never_stuck life_run_inv[OF assms(3) inv] winding_run[OF assms(3) inv assms(2)] by blast
  ultimately show ?thesis by blast
qed

section \<open>The cause\<close>

definition requested :: "life_env \<Rightarrow> life_event list \<Rightarrow> rstr \<Rightarrow> bool" where
  "requested env es source \<longleftrightarrow>
     source = lit ''signal:SIGTERM'' \<and> SignalArrives Sigterm \<in> set es \<or>
     (\<exists>k text. Reads k (Inr text) \<in> set es \<and>
        wl_decode_request (le_wire env) (str_trim_end (first_line text)) = Inr (RequestStop source))"

definition caused :: "life_env \<Rightarrow> life_event list \<Rightarrow> bot_life \<Rightarrow> bool" where
  "caused env es b \<longleftrightarrow>
     (\<forall>source. CommandStop source \<in> set (bl_queue b) \<longrightarrow> requested env es source) \<and>
     (\<forall>source. Queueing source \<in> set (bl_connections b) \<longrightarrow> requested env es source) \<and>
     (bl_signals b = ForwardingStop \<longrightarrow> SignalArrives Sigterm \<in> set es) \<and>
     (\<forall>source. bl_supervisor b = StoppingShards source \<or> bl_supervisor b = SupervisorDone (Some source) \<longrightarrow>
        requested env es source) \<and>
     (bl_main b \<noteq> ServingClient \<longrightarrow> ClientFails \<in> set es \<or> bl_stopping b)"

lemma requested_more: "requested env es source \<Longrightarrow> requested env (es @ [e]) source"
  by (auto simp: requested_def)

lemma set_connection_in:
  "c \<in> set (bl_connections (set_connection k c' b)) \<Longrightarrow> c = c' \<or> c \<in> set (bl_connections b)"
  by (auto simp: set_connection_def dest!: set_update_subset_insert[THEN subsetD])

lemma after_read_stop:
  "after_read env incoming = Queueing source \<Longrightarrow>
   \<exists>text. incoming = Inr text \<and> wl_decode_request (le_wire env) (str_trim_end (first_line text)) = Inr (RequestStop source)"
  by (auto simp: after_read_def Let_def split: sum.splits if_splits control_request.splits)

lemma caused_move:
  assumes "moves env e b b'" and "caused env es b"
  shows "caused env (es @ [e]) b'"
  using assms(1)
proof cases
  case (reads k incoming)
  have "requested env (es @ [e]) source" if "after_read env incoming = Queueing source" for source
    using after_read_stop[OF that] reads(1) by (auto simp: requested_def)
  with assms(2) reads show ?thesis
    by (auto simp: caused_def requested_more dest!: set_connection_in)
next
  case (queues k source c sent)
  have "Queueing source \<in> set (bl_connections b)"
    using queues(3) by (auto simp: connection_at_def dest: nth_mem split: if_splits)
  with assms(2) send_command_frame[OF queues(4)] queues show ?thesis
    by (auto simp: caused_def requested_more dest!: set_connection_in split: if_splits)
next
  case (writes k response fault)
  have "Queueing source \<noteq> after_write env response fault" for source
    by (auto simp: after_write_def split: sum.split)
  with assms(2) writes show ?thesis by (auto simp: caused_def requested_more dest!: set_connection_in)
next
  case (forwards c sent)
  with assms(2) have "requested env (es @ [e]) (lit ''signal:SIGTERM'')"
    by (simp add: caused_def requested_def)
  with assms(2) send_command_frame[OF forwards(4)] forwards show ?thesis
    by (auto simp: caused_def requested_more)
qed (use assms(2) in \<open>auto simp: caused_def requested_more client_returns_def dest!: set_connection_in\<close>)

lemma run_caused: "life_run env es (life_begins s) = Some b \<Longrightarrow> caused env es b"
proof (induction es arbitrary: b rule: rev_induct)
  case Nil
  then show ?case by (auto simp: caused_def life_begins_def)
next
  case (snoc e es)
  then obtain c where "life_run env es (life_begins s) = Some c" "moves env e c b"
    unfolding life_run_snoc by blast
  with snoc.IH caused_move show ?case by blast
qed

text \<open>What becomes of the socket.\<close>

lemma run_socket:
  "life_run env es (life_begins s) = Some b \<Longrightarrow>
   (case bl_server b of
      Accepting \<Rightarrow> bl_fs b = s
    | ServerDone (Inr _) \<Rightarrow> bl_fs b = close_socket (le_io env) (le_socket env) s
    | ServerDone (Inl err) \<Rightarrow> bl_fs b = s \<and> AcceptFails err \<in> set es)"
proof (induction es arbitrary: b rule: rev_induct)
  case Nil
  then show ?case by (auto simp: life_begins_def)
next
  case (snoc e es)
  then obtain c where run: "life_run env es (life_begins s) = Some c" and move: "moves env e c b"
    unfolding life_run_snoc by blast
  from move snoc.IH[OF run] show ?case
    by cases (auto simp: client_returns_def dest: send_command_frame split: server_stage.splits sum.splits)
qed

text \<open>The surroundings in which a started bot lives.\<close>

definition life_env_of :: "startup_world \<Rightarrow> running_bot \<Rightarrow> life_env" where
  "life_env_of w started =
     \<lparr>le_wire = sw_wire w, le_status = rb_status started, le_io = so_io (sw_sockets w),
      le_socket = rb_socket started\<rparr>"

lemma bound_socket_file:
  assumes "bind_runtime_control_listener env p s = (s', Inr ())"
  shows "fs_node s' p = Some (File [])"
  using assms
  by (auto simp: fs_in_dir_def path_parent_def empty_path_def fs_node_def bind_runtime_control_listener_def
      io_bind_eq io_lift_eq socket_bind_def split: option.splits if_splits)

lemma closed_socket_gone:
  "fs_node s p = Some (File c) \<Longrightarrow> io_fault io (IoRemove p) = None \<Longrightarrow> \<not> fs_exists (close_socket io p s) p"
  by (simp add: close_socket_def fs_exists_def fs_remove_file_def guarded_def) (simp add: fs_node_def)

text \<open>C24: a started bot stops only for a reason: whatever happens, its client has returned only because it
  failed or because the supervisor took a command; that command is a stop request which a connection really
  carried, or the signal to terminate.  When the process exits its socket file is gone, unless accepting a
  connection had failed or the file could not be removed.\<close>

theorem stop_has_cause:
  assumes "run_bot_start w s = (s', Inr started)"
    and "life_run (life_env_of w started) es (life_begins s') = Some b"
  shows "(bl_main b \<noteq> ServingClient \<longrightarrow> ClientFails \<in> set es \<or>
      (\<exists>source. (bl_supervisor b = StoppingShards source \<or> bl_supervisor b = SupervisorDone (Some source)) \<and>
        requested (life_env_of w started) es source)) \<and>
    (bl_main b = Exited \<longrightarrow> fs_exists (bl_fs b) (rb_socket started) \<longrightarrow>
      (\<exists>err. AcceptFails err \<in> set es) \<or> io_fault (so_io (sw_sockets w)) (IoRemove (rb_socket started)) \<noteq> None)"
proof -
  let ?env = "life_env_of w started"
  have inv: "life_inv b" by (rule life_run_inv[OF assms(2) life_inv_begins])
  have cause: "caused ?env es b" by (rule run_caused[OF assms(2)])
  have "\<exists>source. bl_supervisor b = StoppingShards source \<or> bl_supervisor b = SupervisorDone (Some source)"
    if "bl_stopping b" using that inv by (cases "bl_supervisor b") (auto simp: life_inv_def)
  with cause have "bl_main b \<noteq> ServingClient \<longrightarrow> ClientFails \<in> set es \<or>
      (\<exists>source. (bl_supervisor b = StoppingShards source \<or> bl_supervisor b = SupervisorDone (Some source)) \<and>
        requested ?env es source)"
    unfolding caused_def by blast
  moreover have "bl_fs b = close_socket (so_io (sw_sockets w)) (rb_socket started) s' \<or>
      (\<exists>err. AcceptFails err \<in> set es)" if "bl_main b = Exited"
    using run_socket[OF assms(2)] inv that
    by (auto simp: life_inv_def life_env_of_def split: server_stage.splits sum.splits)
  moreover have "fs_node s' (rb_socket started) = Some (File [])"
    using assms(1) bound_socket_file by (blast elim: run_bot_start_parts)
  ultimately show ?thesis using closed_socket_gone by metis
qed

section \<open>One connection\<close>

text \<open>A connection that is not disturbed does what \<open>handle_connection\<close> says: it leaves the queue and the answer
  of that function.\<close>

definition as_channel :: "bot_life \<Rightarrow> command_channel" where
  "as_channel b = \<lparr>ch_open = (\<not> supervisor_gone b), ch_queue = bl_queue b\<rparr>"

lemma connection_set:
  "k < length (bl_connections b) \<Longrightarrow> connection_at k (set_connection k c b) = c"
  by (simp add: connection_at_def set_connection_def)

lemma connection_lives: "\<not> is_over (connection_at k b) \<Longrightarrow> k < length (bl_connections b)"
  by (simp add: connection_at_def is_over_def split: if_splits)

lemma after_read_cases:
  "after_read env incoming = Over None \<or> after_read env incoming = Answering (RespondStatus (le_status env)) \<or>
   (\<exists>source. after_read env incoming = Queueing source)"
  by (simp add: after_read_def Let_def split: sum.split control_request.split)

text \<open>What \<open>handle_connection\<close> does, by what it read.\<close>

lemmas handle_defs = after_read_def handle_connection_def io_bind_def io_lift_def io_return_def Let_def

lemma handled_over:
  assumes "handle_connection (le_wire env) incoming (le_status env) channel = (ch, r)"
    and "after_read env incoming = Over None"
  shows "ch = channel \<and> (\<forall>x. r = Inr x \<longrightarrow> x = [])"
  using assms by (auto simp: handle_defs split: sum.splits if_splits control_request.splits)

lemma handled_status:
  assumes "handle_connection (le_wire env) incoming (le_status env) channel = (ch, r)"
    and "after_read env incoming = Answering (RespondStatus (le_status env))"
  shows "ch = channel \<and>
    r = rbind (wl_encode_response (le_wire env) (RespondStatus (le_status env))) (\<lambda>p. Inr (p @ [10]))"
  using assms
  by (cases "wl_encode_response (le_wire env) (RespondStatus (le_status env))")
    (auto simp: handle_defs split: sum.splits if_splits control_request.splits)

lemma handled_stop:
  assumes "handle_connection (le_wire env) incoming (le_status env) channel = (ch, r)"
    and "after_read env incoming = Queueing source"
  shows "ch = fst (channel_send (CommandStop source) channel) \<and>
    r = (if ch_open channel
      then rbind (wl_encode_response (le_wire env) (RespondAck (accepted_text source))) (\<lambda>p. Inr (p @ [10]))
      else Inl (lit ''channel closed''))"
  using assms
  by (cases "wl_encode_response (le_wire env) (RespondAck (accepted_text source))")
    (auto simp: handle_defs channel_send_def split: sum.splits if_splits control_request.splits)

definition answer_of :: "rstr + rstr \<Rightarrow> rstr option" where
  "answer_of r = (case r of Inr (c # answer) \<Rightarrow> Some (c # answer) | _ \<Rightarrow> None)"

lemma answer_simps [simp]:
  "answer_of (Inl e) = None" "answer_of (Inr []) = None" "answer_of (Inr (p @ [10])) = Some (p @ [10])"
  by (cases p; simp add: answer_of_def)+

lemma written:
  "after_write env response None =
   Over (answer_of (rbind (wl_encode_response (le_wire env) response) (\<lambda>p. Inr (p @ [10]))))"
  by (cases "wl_encode_response (le_wire env) response") (simp_all add: after_write_def)

lemma stop_alone:
  assumes "connection_at k b = Queueing source" and "bl_main b \<noteq> Exited"
    and "length (bl_queue b) < CONTROL_CHANNEL_CAPACITY"
  shows "\<exists>es b'. life_run env es b = Some b' \<and>
    bl_queue b' = ch_queue (fst (channel_send (CommandStop source) (as_channel b))) \<and>
    connection_at k b' = (if supervisor_gone b then Over None
      else after_write env (RespondAck (accepted_text source)) None)"
proof (cases "supervisor_gone b")
  case True
  have k: "k < length (bl_connections b)" using assms(1) connection_lives by (simp add: is_over_def)
  from True assms(1,2) have "life_step env (Queues k) b = Some (set_connection k (Over None) b)"
    by (simp add: life_step_def connection_step_def send_command_def)
  with True show ?thesis
    by (intro exI[of _ "[Queues k]"] exI[of _ "set_connection k (Over None) b"])
      (simp add: connection_set[OF k] channel_send_def as_channel_def)
next
  case False
  have k: "k < length (bl_connections b)" using assms(1) connection_lives by (simp add: is_over_def)
  let ?b1 = "set_connection k (Answering (RespondAck (accepted_text source)))
    (b\<lparr>bl_queue := bl_queue b @ [CommandStop source]\<rparr>)"
  have at: "connection_at k (set_connection k c ?b1) = c" "connection_at k ?b1 = Answering (RespondAck (accepted_text source))" for c
    using k by (simp_all add: connection_at_def set_connection_def)
  from False assms have "life_step env (Queues k) b = Some ?b1"
    by (simp add: life_step_def connection_step_def send_command_def)
  moreover have "life_step env (Writes k None) ?b1 =
      Some (set_connection k (after_write env (RespondAck (accepted_text source)) None) ?b1)"
    using assms(2) at(2) by (simp add: life_step_def connection_step_def)
  ultimately have run: "life_run env [Queues k, Writes k None] b =
      Some (set_connection k (after_write env (RespondAck (accepted_text source)) None) ?b1)"
    by simp
  show ?thesis
    by (rule exI, rule exI, rule conjI[OF run]) (use False in \<open>simp add: at(1) channel_send_def as_channel_def\<close>)
qed

lemma connection_alone:
  assumes "connection_at k b = Reading" and "bl_main b \<noteq> Exited"
    and "length (bl_queue b) < CONTROL_CHANNEL_CAPACITY"
    and "handle_connection (le_wire env) incoming (le_status env) (as_channel b) = (ch, r)"
  shows "\<exists>es b'. life_run env es b = Some b' \<and> bl_queue b' = ch_queue ch \<and>
    connection_at k b' = Over (answer_of r)"
proof -
  have k: "k < length (bl_connections b)" using assms(1) connection_lives by (simp add: is_over_def)
  let ?b1 = "set_connection k (after_read env incoming) b"
  have read: "life_step env (Reads k incoming) b = Some ?b1"
    using assms(1,2) by (simp add: life_step_def connection_step_def)
  have at: "connection_at k ?b1 = after_read env incoming" by (rule connection_set[OF k])
  consider (over) "after_read env incoming = Over None"
    | (status) "after_read env incoming = Answering (RespondStatus (le_status env))"
    | (stop) source where "after_read env incoming = Queueing source"
    using after_read_cases[of env incoming] by blast
  then show ?thesis
  proof cases
    case over
    with handled_over[OF assms(4)] have "ch = as_channel b" "answer_of r = None"
      by (auto simp: answer_of_def split: sum.split list.split)
    then show ?thesis
      using at over read by (intro exI[of _ "[Reads k incoming]"] exI[of _ ?b1]) (simp add: as_channel_def)
  next
    case status
    let ?b2 = "set_connection k (after_write env (RespondStatus (le_status env)) None) ?b1"
    have "life_step env (Writes k None) ?b1 = Some ?b2"
      using at status assms(2) by (simp add: life_step_def connection_step_def)
    with read have run: "life_run env [Reads k incoming, Writes k None] b = Some ?b2" by simp
    have "connection_at k ?b2 = after_write env (RespondStatus (le_status env)) None"
      using k by (simp add: connection_at_def set_connection_def)
    then show ?thesis
      by (intro exI[of _ "[Reads k incoming, Writes k None]"] exI[of _ ?b2] conjI[OF run])
        (simp add: handled_status[OF assms(4) status] written as_channel_def)
  next
    case (stop source)
    have gone: "supervisor_gone ?b1 = supervisor_gone b" by (simp add: supervisor_gone_def)
    then have same: "as_channel ?b1 = as_channel b" by (simp add: as_channel_def)
    have "connection_at k ?b1 = Queueing source" "bl_main ?b1 \<noteq> Exited"
      "length (bl_queue ?b1) < CONTROL_CHANNEL_CAPACITY" using at stop assms(2,3) by simp_all
    from stop_alone[OF this, of env] obtain es b' where run: "life_run env es ?b1 = Some b'"
      and queue: "bl_queue b' = ch_queue ch"
      and reply: "connection_at k b' = (if supervisor_gone b then Over None
        else after_write env (RespondAck (accepted_text source)) None)"
      using handled_stop[OF assms(4) stop] unfolding same gone by blast
    have "connection_at k b' = Over (answer_of r)"
      using reply handled_stop[OF assms(4) stop]
      by (cases "supervisor_gone b") (simp_all add: written as_channel_def)
    with run queue read have "life_run env (Reads k incoming # es) b = Some b' \<and> bl_queue b' = ch_queue ch \<and>
        connection_at k b' = Over (answer_of r)" by simp
    then show ?thesis by blast
  qed
qed

section \<open>An acknowledgement that is lost\<close>

text \<open>Main waits for the supervisors and the server, not for the connections: the process can end between
  the moment the stop command was taken and the moment its sender is told so.\<close>

definition hasty_end :: "rstr \<Rightarrow> life_event list" where
  "hasty_end text = [Accepts, Reads 0 (Inr text), Queues 0, SupervisorReceives, ShardsStopped, ClientStops,
     SignalsAborted, SignalsJoined, SupervisorJoined, ServerSeesShutdown, ServerJoined]"

lemma acknowledgement_can_be_lost:
  assumes "first_line text \<noteq> []"
    and "wl_decode_request (le_wire env) (str_trim_end (first_line text)) = Inr (RequestStop source)"
  shows "\<exists>b. life_run env (hasty_end text) (life_begins s) = Some b \<and> bl_main b = Exited \<and>
    bl_supervisor b = SupervisorDone (Some source) \<and>
    connection_at 0 b = Answering (RespondAck (accepted_text source))"
proof -
  have "after_read env (Inr text) = Queueing source" using assms by (simp add: after_read_def)
  then show ?thesis
    by (simp add: hasty_end_def life_begins_def life_step_def main_step_def signal_step_def server_step_def
        supervisor_step_def connection_step_def connection_at_def set_connection_def send_command_def
        supervisor_gone_def CONTROL_CHANNEL_CAPACITY_def client_returns_def)
qed

section \<open>A concrete life\<close>

definition sample_life :: life_env where
  "sample_life =
     \<lparr>le_wire = sample_wire, le_status = sample_status,
      le_io = \<lparr>io_fault = (\<lambda>_. None), io_temp_dir = (\<lambda>d. d)\<rparr>, le_socket = start_config\<rparr>"

definition life_fs :: fs where
  "life_fs = [start_config \<mapsto> File []]"

lemma sample_stop:
  "first_line (lit ''q'' @ [10]) \<noteq> []"
  "wl_decode_request (le_wire sample_life) (str_trim_end (first_line (lit ''q'' @ [10]))) = Inr (RequestStop (lit ''cli''))"
  by (simp_all add: sample_life_def sample_wire_def lit_def str_trim_end_def is_whitespace_def)

text \<open>The stop command is queued, and the process comes to its end.\<close>

theorem stop_completes_witness:
  "\<exists>before after b b'. life_run sample_life before (life_begins life_fs) = Some b \<and> winding_down b \<and>
     life_run sample_life after b = Some b' \<and> bl_main b' = Exited \<and> length (filter own_step after) \<le> 13"
proof -
  let ?before = "take 3 (hasty_end (lit ''q'' @ [10]))" and ?after = "drop 3 (hasty_end (lit ''q'' @ [10]))"
  obtain b' where all: "life_run sample_life (?before @ ?after) (life_begins life_fs) = Some b'" "bl_main b' = Exited"
    using acknowledgement_can_be_lost[OF sample_stop, of life_fs] by (auto simp del: drop_0 take_0)
  then obtain b where b: "life_run sample_life ?before (life_begins life_fs) = Some b"
    and after: "life_run sample_life ?after b = Some b'"
    unfolding life_run_append by (auto simp: bind_eq_Some_conv)
  from b have "bl_queue b = [CommandStop (lit ''cli'')]"
    using sample_stop
    by (simp add: hasty_end_def life_begins_def life_step_def server_step_def connection_step_def connection_at_def
        set_connection_def after_read_def send_command_def supervisor_gone_def CONTROL_CHANNEL_CAPACITY_def) auto
  then have down: "winding_down b" by (simp add: winding_down_def)
  from stop_completes[OF b down after] have "length (filter own_step ?after) \<le> 13"
    by (simp add: hasty_end_def)
  with all b down after show ?thesis by blast
qed

theorem stop_has_cause_witness:
  "\<exists>s' started b. run_bot_start start_world start_fs = (s', Inr started) \<and>
     life_run (life_env_of start_world started) (hasty_end (lit ''q'' @ [10])) (life_begins s') = Some b \<and>
     bl_main b = Exited \<and> \<not> fs_exists (bl_fs b) (rb_socket started)"
proof -
  from start_started obtain s' started where run: "run_bot_start start_world start_fs = (s', Inr started)" by blast
  let ?env = "life_env_of start_world started"
  have "le_wire ?env = le_wire sample_life" by (simp add: life_env_of_def start_world_def sample_life_def)
  then obtain b where b: "life_run ?env (hasty_end (lit ''q'' @ [10])) (life_begins s') = Some b"
    and exited: "bl_main b = Exited"
    using acknowledgement_can_be_lost[of "lit ''q'' @ [10]" ?env "lit ''cli''" s'] sample_stop by auto
  have "AcceptFails err \<notin> set (hasty_end line)" for err line by (simp add: hasty_end_def)
  moreover have "io_fault (so_io (sw_sockets start_world)) op = None" for op
    by (simp add: start_world_def start_io_def)
  ultimately have "\<not> fs_exists (bl_fs b) (rb_socket started)"
    using stop_has_cause[OF run b] exited by auto
  with run b exited show ?thesis by (intro exI conjI)
qed

end
