(* ===== verification/Tui_Setup.thy ===== *)
theory Tui_Setup
  imports Config_Store Config_Defaults Rust_Text
begin

text \<open>
  The setup screen of the operator interface, \<^verbatim>\<open>src/operator_tui.rs\<close>: the texts it shows, its pages
  and fields, and what editing a field does to the draft of the configuration.  The catalogue of
  texts, the rendering of a path and the parsing of a detector backend are parameters.
\<close>

section \<open>Texts\<close>

datatype ui_language = English | Japanese

record tui_lib =
  tl_catalog :: "ui_language \<Rightarrow> rstr \<Rightarrow> rstr option"
  tl_display :: "path \<Rightarrow> rstr"
  tl_parse_backend :: "rstr \<Rightarrow> rstr + detector_backend_kind"
  tl_debug_str :: "rstr \<Rightarrow> rstr"
  tl_parse_readings :: "rstr \<Rightarrow> rstr list option"

definition label :: "tui_lib \<Rightarrow> ui_language \<Rightarrow> rstr \<Rightarrow> rstr \<Rightarrow> rstr" where
  "label lib language key fallback =
     (case tl_catalog lib language key of
        Some text \<Rightarrow> text
      | None \<Rightarrow> (case language of English \<Rightarrow> key | Japanese \<Rightarrow> fallback))"

abbreviation label_of :: "tui_lib \<Rightarrow> ui_language \<Rightarrow> string \<Rightarrow> rstr" where
  "label_of lib language key \<equiv> label lib language (lit key) (lit key)"

definition template :: "tui_lib \<Rightarrow> ui_language \<Rightarrow> rstr \<Rightarrow> (rstr \<times> rstr) list \<Rightarrow> rstr" where
  "template lib language key replacements =
     foldl (\<lambda>v (name, replacement). str_replace (lit ''{'' @ name @ lit ''}'') replacement v)
       (label lib language key key) replacements"

definition detect_ui_language :: "(rstr \<Rightarrow> rstr option) \<Rightarrow> ui_language" where
  "detect_ui_language var =
     (let locale = to_ascii_lowercase
        (case var (lit ''LC_ALL'') of Some v \<Rightarrow> v
         | None \<Rightarrow> (case var (lit ''LANG'') of Some v \<Rightarrow> v | None \<Rightarrow> []))
      in if prefix (lit ''ja'') locale then Japanese else English)"

section \<open>Pages and fields\<close>

datatype setup_page =
  DetectorPage | BotPage | AuditPage | DiagnosticsPage | IntegrityPage | RuntimePage | PreviewPage

datatype setup_field =
    DetectorBackend
  | TargetReadings
  | LiteralSequencePatterns
  | SpecialPhrases
  | StampText
  | SendTemplate
  | ReactionEmojiId
  | ReactionEmojiName
  | ReactionAnimated
  | MaxCountCap
  | MaxSendChars
  | ActionPolicy
  | AuditSqlitePath
  | AuditExportMaxRows
  | AuditQueryMaxRows
  | PseudoIdHmacKeyEnv
  | SignatureEnabled
  | SignaturePath
  | SignatureHmacEnv
  | LocalSelfCheck
  | VerifyHardeningArtifacts
  | VerifyGeneratedArtifacts
  | DependencySecurityCheckMode

record setup_state =
  ss_draft :: startup_config
  ss_defaults :: startup_config
  ss_page :: setup_page
  ss_selected :: nat

definition DETECTOR_FIELDS :: "setup_field list" where
  "DETECTOR_FIELDS = [DetectorBackend, TargetReadings, LiteralSequencePatterns, SpecialPhrases]"

definition BOT_FIELDS :: "setup_field list" where
  "BOT_FIELDS = [StampText, SendTemplate, ReactionEmojiId, ReactionEmojiName, ReactionAnimated,
     MaxCountCap, MaxSendChars, ActionPolicy]"

definition AUDIT_FIELDS :: "setup_field list" where
  "AUDIT_FIELDS = [AuditSqlitePath, AuditExportMaxRows, AuditQueryMaxRows, PseudoIdHmacKeyEnv,
     SignatureEnabled, SignaturePath, SignatureHmacEnv]"

definition DIAGNOSTIC_FIELDS :: "setup_field list" where
  "DIAGNOSTIC_FIELDS = [LocalSelfCheck, VerifyHardeningArtifacts, VerifyGeneratedArtifacts,
     DependencySecurityCheckMode]"

definition INTEGRITY_FIELDS :: "setup_field list" where
  "INTEGRITY_FIELDS = [SignatureEnabled, SignaturePath, SignatureHmacEnv]"

definition setup_fields_for_page :: "setup_page \<Rightarrow> setup_field list" where
  "setup_fields_for_page p =
     (case p of
        DetectorPage \<Rightarrow> DETECTOR_FIELDS | BotPage \<Rightarrow> BOT_FIELDS | AuditPage \<Rightarrow> AUDIT_FIELDS
      | DiagnosticsPage \<Rightarrow> DIAGNOSTIC_FIELDS | IntegrityPage \<Rightarrow> INTEGRITY_FIELDS
      | RuntimePage \<Rightarrow> [] | PreviewPage \<Rightarrow> [])"

definition previous_setup_page :: "setup_page \<Rightarrow> setup_page" where
  "previous_setup_page p =
     (case p of
        DetectorPage \<Rightarrow> PreviewPage | BotPage \<Rightarrow> DetectorPage | AuditPage \<Rightarrow> BotPage
      | DiagnosticsPage \<Rightarrow> AuditPage | IntegrityPage \<Rightarrow> DiagnosticsPage
      | RuntimePage \<Rightarrow> IntegrityPage | PreviewPage \<Rightarrow> RuntimePage)"

definition next_setup_page :: "setup_page \<Rightarrow> setup_page" where
  "next_setup_page p =
     (case p of
        DetectorPage \<Rightarrow> BotPage | BotPage \<Rightarrow> AuditPage | AuditPage \<Rightarrow> DiagnosticsPage
      | DiagnosticsPage \<Rightarrow> IntegrityPage | IntegrityPage \<Rightarrow> RuntimePage
      | RuntimePage \<Rightarrow> PreviewPage | PreviewPage \<Rightarrow> DetectorPage)"

definition selected_setup_field :: "setup_state \<Rightarrow> setup_field option" where
  "selected_setup_field st =
     (let fields = setup_fields_for_page (ss_page st)
      in if ss_selected st < length fields then Some (fields ! ss_selected st) else None)"

section \<open>Changing the draft\<close>

abbreviation on_detector :: "(detector_config \<Rightarrow> detector_config) \<Rightarrow> startup_config \<Rightarrow> startup_config" where
  "on_detector f c \<equiv> c\<lparr>cfg_detector := f (cfg_detector c)\<rparr>"

abbreviation on_bot :: "(bot_policy_config \<Rightarrow> bot_policy_config) \<Rightarrow> startup_config \<Rightarrow> startup_config" where
  "on_bot f c \<equiv> c\<lparr>cfg_bot := f (cfg_bot c)\<rparr>"

abbreviation on_reaction :: "(reaction_config \<Rightarrow> reaction_config) \<Rightarrow> startup_config \<Rightarrow> startup_config" where
  "on_reaction f c \<equiv> on_bot (\<lambda>b. b\<lparr>bp_reaction := f (bp_reaction b)\<rparr>) c"

abbreviation on_audit :: "(audit_config \<Rightarrow> audit_config) \<Rightarrow> startup_config \<Rightarrow> startup_config" where
  "on_audit f c \<equiv> c\<lparr>cfg_audit := f (cfg_audit c)\<rparr>"

abbreviation on_integrity :: "(integrity_config \<Rightarrow> integrity_config) \<Rightarrow> startup_config \<Rightarrow> startup_config" where
  "on_integrity f c \<equiv> c\<lparr>cfg_integrity := f (cfg_integrity c)\<rparr>"

abbreviation on_diagnostics ::
  "(diagnostics_config \<Rightarrow> diagnostics_config) \<Rightarrow> startup_config \<Rightarrow> startup_config" where
  "on_diagnostics f c \<equiv> c\<lparr>cfg_diagnostics := f (cfg_diagnostics c)\<rparr>"

definition restore_default :: "startup_config \<Rightarrow> setup_field \<Rightarrow> startup_config \<Rightarrow> startup_config" where
  "restore_default defaults field c =
     (let d = cfg_detector defaults; b = cfg_bot defaults; a = cfg_audit defaults;
          i = cfg_integrity defaults; g = cfg_diagnostics defaults in
      case field of
        DetectorBackend \<Rightarrow> on_detector (\<lambda>x. x\<lparr>dc_backend := dc_backend d\<rparr>) c
      | TargetReadings \<Rightarrow> on_detector (\<lambda>x. x\<lparr>dc_target_readings := dc_target_readings d\<rparr>) c
      | LiteralSequencePatterns \<Rightarrow>
          on_detector (\<lambda>x. x\<lparr>dc_literal_sequence_patterns := dc_literal_sequence_patterns d\<rparr>) c
      | SpecialPhrases \<Rightarrow> on_detector (\<lambda>x. x\<lparr>dc_special_phrases := dc_special_phrases d\<rparr>) c
      | StampText \<Rightarrow> on_bot (\<lambda>x. x\<lparr>bp_stamp_text := bp_stamp_text b\<rparr>) c
      | SendTemplate \<Rightarrow> on_bot (\<lambda>x. x\<lparr>bp_send_template := bp_send_template b\<rparr>) c
      | ReactionEmojiId \<Rightarrow> on_reaction (\<lambda>x. x\<lparr>emoji_id := emoji_id (bp_reaction b)\<rparr>) c
      | ReactionEmojiName \<Rightarrow> on_reaction (\<lambda>x. x\<lparr>emoji_name := emoji_name (bp_reaction b)\<rparr>) c
      | ReactionAnimated \<Rightarrow> on_reaction (\<lambda>x. x\<lparr>animated := animated (bp_reaction b)\<rparr>) c
      | MaxCountCap \<Rightarrow> on_bot (\<lambda>x. x\<lparr>bp_max_count_cap := bp_max_count_cap b\<rparr>) c
      | MaxSendChars \<Rightarrow> on_bot (\<lambda>x. x\<lparr>bp_max_send_chars := bp_max_send_chars b\<rparr>) c
      | ActionPolicy \<Rightarrow> on_bot (\<lambda>x. x\<lparr>bp_action_policy := bp_action_policy b\<rparr>) c
      | AuditSqlitePath \<Rightarrow> on_audit (\<lambda>x. x\<lparr>ac_sqlite_path := ac_sqlite_path a\<rparr>) c
      | AuditExportMaxRows \<Rightarrow> on_audit (\<lambda>x. x\<lparr>ac_export_max_rows := ac_export_max_rows a\<rparr>) c
      | AuditQueryMaxRows \<Rightarrow> on_audit (\<lambda>x. x\<lparr>ac_query_max_rows := ac_query_max_rows a\<rparr>) c
      | PseudoIdHmacKeyEnv \<Rightarrow>
          on_integrity (\<lambda>x. x\<lparr>pseudo_id_hmac_key_env := pseudo_id_hmac_key_env i\<rparr>) c
      | SignatureEnabled \<Rightarrow> on_integrity (\<lambda>x. x\<lparr>config_signature := config_signature i\<rparr>) c
      | SignaturePath \<Rightarrow> on_integrity (\<lambda>x. x\<lparr>config_signature := config_signature i\<rparr>) c
      | SignatureHmacEnv \<Rightarrow> on_integrity (\<lambda>x. x\<lparr>config_signature := config_signature i\<rparr>) c
      | LocalSelfCheck \<Rightarrow>
          on_diagnostics (\<lambda>x. x\<lparr>local_self_check_on_startup := local_self_check_on_startup g\<rparr>) c
      | VerifyHardeningArtifacts \<Rightarrow>
          on_diagnostics (\<lambda>x. x\<lparr>verify_hardening_artifacts := verify_hardening_artifacts g\<rparr>) c
      | VerifyGeneratedArtifacts \<Rightarrow>
          on_diagnostics (\<lambda>x. x\<lparr>verify_generated_artifacts := verify_generated_artifacts g\<rparr>) c
      | DependencySecurityCheckMode \<Rightarrow>
          on_diagnostics (\<lambda>x. x\<lparr>dependency_security_check_mode := dependency_security_check_mode g\<rparr>) c)"

definition restore_default_for_field :: "setup_field \<Rightarrow> setup_state \<Rightarrow> setup_state" where
  "restore_default_for_field field st =
     st\<lparr>ss_draft := restore_default (ss_defaults st) field (ss_draft st)\<rparr>"

definition default_signature :: config_signature_config where
  "default_signature =
     \<lparr>detached_hmac_sha256_path = path_of (lit ''config/oo-bot.yaml.sig''),
      hmac_key_env = lit ''OO_CONFIG_HMAC_KEY''\<rparr>"

definition next_policy :: "action_policy \<Rightarrow> action_policy" where
  "next_policy p =
     (case p of ReactOrSend \<Rightarrow> PolicyReactOnly | PolicyReactOnly \<Rightarrow> NoOutbound | NoOutbound \<Rightarrow> ReactOrSend)"

definition next_check_mode :: "dependency_security_check_mode \<Rightarrow> dependency_security_check_mode" where
  "next_check_mode m = (case m of Disabled \<Rightarrow> OfflineSnapshot | OfflineSnapshot \<Rightarrow> Disabled)"

definition cycle_value :: "setup_field \<Rightarrow> startup_config \<Rightarrow> startup_config" where
  "cycle_value field c =
     (case field of
        ReactionAnimated \<Rightarrow> on_reaction (\<lambda>x. x\<lparr>animated := \<not> animated x\<rparr>) c
      | ActionPolicy \<Rightarrow> on_bot (\<lambda>x. x\<lparr>bp_action_policy := next_policy (bp_action_policy x)\<rparr>) c
      | LocalSelfCheck \<Rightarrow>
          on_diagnostics (\<lambda>x. x\<lparr>local_self_check_on_startup := \<not> local_self_check_on_startup x\<rparr>) c
      | VerifyHardeningArtifacts \<Rightarrow>
          on_diagnostics (\<lambda>x. x\<lparr>verify_hardening_artifacts := \<not> verify_hardening_artifacts x\<rparr>) c
      | VerifyGeneratedArtifacts \<Rightarrow>
          on_diagnostics (\<lambda>x. x\<lparr>verify_generated_artifacts := \<not> verify_generated_artifacts x\<rparr>) c
      | DependencySecurityCheckMode \<Rightarrow>
          on_diagnostics (\<lambda>x. x\<lparr>dependency_security_check_mode :=
            next_check_mode (dependency_security_check_mode x)\<rparr>) c
      | SignatureEnabled \<Rightarrow>
          on_integrity (\<lambda>x. x\<lparr>config_signature :=
            (if config_signature x \<noteq> None then None else Some default_signature)\<rparr>) c
      | _ \<Rightarrow> c)"

definition cycle_field_value :: "setup_field \<Rightarrow> setup_state \<Rightarrow> setup_state" where
  "cycle_field_value field st = st\<lparr>ss_draft := cycle_value field (ss_draft st)\<rparr>"

definition parse_csv :: "rstr \<Rightarrow> rstr list" where
  "parse_csv raw = filter (\<lambda>e. e \<noteq> []) (map str_trim (str_split 44 raw))"

definition ensure_signature_config :: "startup_config \<Rightarrow> startup_config" where
  "ensure_signature_config c =
     (if config_signature (cfg_integrity c) = None
      then on_integrity (\<lambda>x. x\<lparr>config_signature := Some default_signature\<rparr>) c else c)"

definition on_signature ::
  "(config_signature_config \<Rightarrow> config_signature_config) \<Rightarrow> startup_config \<Rightarrow> startup_config" where
  "on_signature f c =
     on_integrity (\<lambda>x. x\<lparr>config_signature := map_option f (config_signature x)\<rparr>)
       (ensure_signature_config c)"

text \<open>A number that does not parse is reported with the text of the field.\<close>

definition parse_or ::
  "tui_lib \<Rightarrow> ui_language \<Rightarrow> string \<Rightarrow> nat \<Rightarrow> rstr \<Rightarrow> (nat \<Rightarrow> startup_config) \<Rightarrow> rstr + startup_config" where
  "parse_or lib language key hi raw f =
     (case parse_unsigned hi raw of Inr n \<Rightarrow> Inr (f n) | Inl _ \<Rightarrow> Inl (label_of lib language key))"

definition apply_input ::
  "tui_lib \<Rightarrow> ui_language \<Rightarrow> setup_field \<Rightarrow> rstr \<Rightarrow> startup_config \<Rightarrow> rstr + startup_config" where
  "apply_input lib language field trimmed c =
     (case field of
        DetectorBackend \<Rightarrow>
          (case tl_parse_backend lib trimmed of
             Inl err \<Rightarrow> Inl err | Inr b \<Rightarrow> Inr (on_detector (\<lambda>x. x\<lparr>dc_backend := b\<rparr>) c))
      | TargetReadings \<Rightarrow> Inr (on_detector (\<lambda>x. x\<lparr>dc_target_readings := parse_csv trimmed\<rparr>) c)
      | LiteralSequencePatterns \<Rightarrow>
          Inr (on_detector (\<lambda>x. x\<lparr>dc_literal_sequence_patterns := parse_csv trimmed\<rparr>) c)
      | SpecialPhrases \<Rightarrow> Inr (on_detector (\<lambda>x. x\<lparr>dc_special_phrases := parse_csv trimmed\<rparr>) c)
      | StampText \<Rightarrow> Inr (on_bot (\<lambda>x. x\<lparr>bp_stamp_text := trimmed\<rparr>) c)
      | SendTemplate \<Rightarrow> Inr (on_bot (\<lambda>x. x\<lparr>bp_send_template := trimmed\<rparr>) c)
      | ReactionEmojiId \<Rightarrow>
          parse_or lib language ''error.emoji_id_u64'' u64_max trimmed
            (\<lambda>n. on_reaction (\<lambda>x. x\<lparr>emoji_id := n\<rparr>) c)
      | ReactionEmojiName \<Rightarrow> Inr (on_reaction (\<lambda>x. x\<lparr>emoji_name := trimmed\<rparr>) c)
      | ReactionAnimated \<Rightarrow> Inr c
      | MaxCountCap \<Rightarrow>
          parse_or lib language ''error.max_count_cap_usize'' usize_max trimmed
            (\<lambda>n. on_bot (\<lambda>x. x\<lparr>bp_max_count_cap := n\<rparr>) c)
      | MaxSendChars \<Rightarrow>
          parse_or lib language ''error.max_send_chars_usize'' usize_max trimmed
            (\<lambda>n. on_bot (\<lambda>x. x\<lparr>bp_max_send_chars := n\<rparr>) c)
      | ActionPolicy \<Rightarrow> Inr c
      | AuditSqlitePath \<Rightarrow> Inr (on_audit (\<lambda>x. x\<lparr>ac_sqlite_path := path_of trimmed\<rparr>) c)
      | AuditExportMaxRows \<Rightarrow>
          parse_or lib language ''error.export_max_rows_usize'' usize_max trimmed
            (\<lambda>n. on_audit (\<lambda>x. x\<lparr>ac_export_max_rows := n\<rparr>) c)
      | AuditQueryMaxRows \<Rightarrow>
          parse_or lib language ''error.query_max_rows_usize'' usize_max trimmed
            (\<lambda>n. on_audit (\<lambda>x. x\<lparr>ac_query_max_rows := n\<rparr>) c)
      | PseudoIdHmacKeyEnv \<Rightarrow>
          Inr (on_integrity (\<lambda>x. x\<lparr>pseudo_id_hmac_key_env := Some trimmed\<rparr>) c)
      | SignatureEnabled \<Rightarrow> Inr c
      | SignaturePath \<Rightarrow> Inr (on_signature (\<lambda>g. g\<lparr>detached_hmac_sha256_path := path_of trimmed\<rparr>) c)
      | SignatureHmacEnv \<Rightarrow> Inr (on_signature (\<lambda>g. g\<lparr>hmac_key_env := trimmed\<rparr>) c)
      | LocalSelfCheck \<Rightarrow> Inr c
      | VerifyHardeningArtifacts \<Rightarrow> Inr c
      | VerifyGeneratedArtifacts \<Rightarrow> Inr c
      | DependencySecurityCheckMode \<Rightarrow> Inr c)"

text \<open>Blank input restores the default.\<close>

definition apply_custom_field_input ::
  "tui_lib \<Rightarrow> ui_language \<Rightarrow> setup_field \<Rightarrow> rstr \<Rightarrow> setup_state \<Rightarrow> rstr + setup_state" where
  "apply_custom_field_input lib language field raw st =
     (let trimmed = str_trim raw in
      if trimmed = [] then Inr (restore_default_for_field field st)
      else rbind (apply_input lib language field trimmed (ss_draft st)) (\<lambda>draft.
        Inr (st\<lparr>ss_draft := draft\<rparr>)))"

section \<open>Showing a field\<close>

definition setup_field_label :: "setup_field \<Rightarrow> rstr" where
  "setup_field_label field =
     (case field of
        DetectorBackend \<Rightarrow> lit ''detector.backend''
      | TargetReadings \<Rightarrow> lit ''detector.target_readings''
      | LiteralSequencePatterns \<Rightarrow> lit ''detector.literal_sequence_patterns''
      | SpecialPhrases \<Rightarrow> lit ''detector.special_phrases''
      | StampText \<Rightarrow> lit ''bot.stamp_text''
      | SendTemplate \<Rightarrow> lit ''bot.send_template''
      | ReactionEmojiId \<Rightarrow> lit ''bot.reaction.emoji_id''
      | ReactionEmojiName \<Rightarrow> lit ''bot.reaction.emoji_name''
      | ReactionAnimated \<Rightarrow> lit ''bot.reaction.animated''
      | MaxCountCap \<Rightarrow> lit ''bot.max_count_cap''
      | MaxSendChars \<Rightarrow> lit ''bot.max_send_chars''
      | ActionPolicy \<Rightarrow> lit ''bot.action_policy''
      | AuditSqlitePath \<Rightarrow> lit ''audit.sqlite_path''
      | AuditExportMaxRows \<Rightarrow> lit ''audit.export_max_rows''
      | AuditQueryMaxRows \<Rightarrow> lit ''audit.query_max_rows''
      | PseudoIdHmacKeyEnv \<Rightarrow> lit ''integrity.pseudo_id_hmac_key_env''
      | SignatureEnabled \<Rightarrow> lit ''integrity.config_signature.enabled''
      | SignaturePath \<Rightarrow> lit ''integrity.config_signature.detached_hmac_sha256_path''
      | SignatureHmacEnv \<Rightarrow> lit ''integrity.config_signature.hmac_key_env''
      | LocalSelfCheck \<Rightarrow> lit ''diagnostics.local_self_check_on_startup''
      | VerifyHardeningArtifacts \<Rightarrow> lit ''diagnostics.verify_hardening_artifacts''
      | VerifyGeneratedArtifacts \<Rightarrow> lit ''diagnostics.verify_generated_artifacts''
      | DependencySecurityCheckMode \<Rightarrow> lit ''diagnostics.dependency_security_check_mode'')"

text \<open>The names serde gives the variants.\<close>

definition backend_name :: "detector_backend_kind \<Rightarrow> rstr" where
  "backend_name b =
     (case b of MorphologicalReading \<Rightarrow> lit ''morphological_reading'' | Fallback \<Rightarrow> lit ''fallback'')"

definition policy_name :: "action_policy \<Rightarrow> rstr" where
  "policy_name p =
     (case p of ReactOrSend \<Rightarrow> lit ''react_or_send'' | PolicyReactOnly \<Rightarrow> lit ''react_only''
      | NoOutbound \<Rightarrow> lit ''no_outbound'')"

definition check_mode_name :: "dependency_security_check_mode \<Rightarrow> rstr" where
  "check_mode_name m = (case m of Disabled \<Rightarrow> lit ''disabled'' | OfflineSnapshot \<Rightarrow> lit ''offline_snapshot'')"

definition bool_name :: "bool \<Rightarrow> rstr" where
  "bool_name b = (if b then lit ''true'' else lit ''false'')"

definition setup_field_value :: "tui_lib \<Rightarrow> ui_language \<Rightarrow> startup_config \<Rightarrow> setup_field \<Rightarrow> rstr" where
  "setup_field_value lib language c field =
     (let d = cfg_detector c; b = cfg_bot c; a = cfg_audit c; i = cfg_integrity c; g = cfg_diagnostics c in
      case field of
        DetectorBackend \<Rightarrow> backend_name (dc_backend d)
      | TargetReadings \<Rightarrow> str_join (lit '', '') (dc_target_readings d) @ lit '' ('' @
          label_of lib language ''setup.target_readings_hint'' @ lit '')''
      | LiteralSequencePatterns \<Rightarrow> str_join (lit '', '') (dc_literal_sequence_patterns d)
      | SpecialPhrases \<Rightarrow> str_join (lit '', '') (dc_special_phrases d)
      | StampText \<Rightarrow> bp_stamp_text b
      | SendTemplate \<Rightarrow> bp_send_template b
      | ReactionEmojiId \<Rightarrow> dec (emoji_id (bp_reaction b))
      | ReactionEmojiName \<Rightarrow> emoji_name (bp_reaction b)
      | ReactionAnimated \<Rightarrow> bool_name (animated (bp_reaction b))
      | MaxCountCap \<Rightarrow> dec (bp_max_count_cap b)
      | MaxSendChars \<Rightarrow> dec (bp_max_send_chars b)
      | ActionPolicy \<Rightarrow> policy_name (bp_action_policy b)
      | AuditSqlitePath \<Rightarrow> tl_display lib (ac_sqlite_path a)
      | AuditExportMaxRows \<Rightarrow> dec (ac_export_max_rows a)
      | AuditQueryMaxRows \<Rightarrow> dec (ac_query_max_rows a)
      | PseudoIdHmacKeyEnv \<Rightarrow> (case pseudo_id_hmac_key_env i of Some v \<Rightarrow> v | None \<Rightarrow> [])
      | SignatureEnabled \<Rightarrow> bool_name (config_signature i \<noteq> None)
      | SignaturePath \<Rightarrow>
          (case config_signature i of Some v \<Rightarrow> tl_display lib (detached_hmac_sha256_path v)
           | None \<Rightarrow> label_of lib language ''common.disabled'')
      | SignatureHmacEnv \<Rightarrow>
          (case config_signature i of Some v \<Rightarrow> hmac_key_env v
           | None \<Rightarrow> label_of lib language ''common.disabled'')
      | LocalSelfCheck \<Rightarrow> bool_name (local_self_check_on_startup g)
      | VerifyHardeningArtifacts \<Rightarrow> bool_name (verify_hardening_artifacts g)
      | VerifyGeneratedArtifacts \<Rightarrow> bool_name (verify_generated_artifacts g)
      | DependencySecurityCheckMode \<Rightarrow> check_mode_name (dependency_security_check_mode g))"

definition setup_default_value :: "tui_lib \<Rightarrow> ui_language \<Rightarrow> startup_config \<Rightarrow> setup_field \<Rightarrow> rstr" where
  "setup_default_value = setup_field_value"

section \<open>An edit touches one field\<close>

definition same_field :: "setup_field \<Rightarrow> startup_config \<Rightarrow> startup_config \<Rightarrow> bool" where
  "same_field field c c' \<longleftrightarrow>
     (let d = cfg_detector c; b = cfg_bot c; a = cfg_audit c; i = cfg_integrity c; g = cfg_diagnostics c;
          d' = cfg_detector c'; b' = cfg_bot c'; a' = cfg_audit c'; i' = cfg_integrity c';
          g' = cfg_diagnostics c' in
      case field of
        DetectorBackend \<Rightarrow> dc_backend d = dc_backend d'
      | TargetReadings \<Rightarrow> dc_target_readings d = dc_target_readings d'
      | LiteralSequencePatterns \<Rightarrow> dc_literal_sequence_patterns d = dc_literal_sequence_patterns d'
      | SpecialPhrases \<Rightarrow> dc_special_phrases d = dc_special_phrases d'
      | StampText \<Rightarrow> bp_stamp_text b = bp_stamp_text b'
      | SendTemplate \<Rightarrow> bp_send_template b = bp_send_template b'
      | ReactionEmojiId \<Rightarrow> emoji_id (bp_reaction b) = emoji_id (bp_reaction b')
      | ReactionEmojiName \<Rightarrow> emoji_name (bp_reaction b) = emoji_name (bp_reaction b')
      | ReactionAnimated \<Rightarrow> animated (bp_reaction b) = animated (bp_reaction b')
      | MaxCountCap \<Rightarrow> bp_max_count_cap b = bp_max_count_cap b'
      | MaxSendChars \<Rightarrow> bp_max_send_chars b = bp_max_send_chars b'
      | ActionPolicy \<Rightarrow> bp_action_policy b = bp_action_policy b'
      | AuditSqlitePath \<Rightarrow> ac_sqlite_path a = ac_sqlite_path a'
      | AuditExportMaxRows \<Rightarrow> ac_export_max_rows a = ac_export_max_rows a'
      | AuditQueryMaxRows \<Rightarrow> ac_query_max_rows a = ac_query_max_rows a'
      | PseudoIdHmacKeyEnv \<Rightarrow> pseudo_id_hmac_key_env i = pseudo_id_hmac_key_env i'
      | SignatureEnabled \<Rightarrow> (config_signature i = None) = (config_signature i' = None)
      | SignaturePath \<Rightarrow> map_option detached_hmac_sha256_path (config_signature i) =
          map_option detached_hmac_sha256_path (config_signature i')
      | SignatureHmacEnv \<Rightarrow> map_option hmac_key_env (config_signature i) =
          map_option hmac_key_env (config_signature i')
      | LocalSelfCheck \<Rightarrow> local_self_check_on_startup g = local_self_check_on_startup g'
      | VerifyHardeningArtifacts \<Rightarrow> verify_hardening_artifacts g = verify_hardening_artifacts g'
      | VerifyGeneratedArtifacts \<Rightarrow> verify_generated_artifacts g = verify_generated_artifacts g'
      | DependencySecurityCheckMode \<Rightarrow> dependency_security_check_mode g = dependency_security_check_mode g')"

text \<open>The rest of the configuration has no field.\<close>

definition without_field :: "startup_config \<Rightarrow> runtime_protection_config \<times> nat \<times> nat \<times> path" where
  "without_field c =
     (cfg_runtime c, ac_busy_timeout_ms (cfg_audit c), audit_verify_max_rows (cfg_diagnostics c),
      security_snapshot_path (cfg_diagnostics c))"

definition signature_field :: "setup_field \<Rightarrow> bool" where
  "signature_field field \<longleftrightarrow> field \<in> {SignatureEnabled, SignaturePath, SignatureHmacEnv}"

definition only_field :: "setup_field \<Rightarrow> startup_config \<Rightarrow> startup_config \<Rightarrow> bool" where
  "only_field field c c' \<longleftrightarrow>
     without_field c = without_field c' \<and>
     (\<forall>g. g = field \<or> signature_field field \<and> signature_field g \<or> same_field g c c')"

lemma only_field_refl: "only_field field c c"
  by (auto simp: only_field_def same_field_def Let_def split: setup_field.split)

lemma restore_only: "only_field field c (restore_default d field c)"
  unfolding only_field_def
  by (cases field) (auto simp: restore_default_def without_field_def signature_field_def same_field_def
      Let_def split: setup_field.split)

lemma cycle_only: "only_field field c (cycle_value field c)"
  unfolding only_field_def
  by (cases field) (auto simp: cycle_value_def without_field_def signature_field_def same_field_def
      Let_def split: setup_field.split)

lemma integrity_only:
  "signature_field field \<Longrightarrow> only_field field c (on_integrity (\<lambda>x. x\<lparr>config_signature := g\<rparr>) c)"
  unfolding only_field_def
  by (auto simp: without_field_def signature_field_def same_field_def Let_def split: setup_field.split)

lemma on_signature_only:
  assumes "signature_field field" shows "only_field field c (on_signature f c)"
proof -
  have "\<exists>g. on_signature f c = on_integrity (\<lambda>x. x\<lparr>config_signature := g\<rparr>) c"
  proof (cases "config_signature (cfg_integrity c)")
    case None
    then have "on_signature f c = on_integrity (\<lambda>x. x\<lparr>config_signature := Some (f default_signature)\<rparr>) c"
      by (simp add: on_signature_def ensure_signature_config_def)
    then show ?thesis ..
  next
    case (Some g)
    then have "on_signature f c = on_integrity (\<lambda>x. x\<lparr>config_signature := Some (f g)\<rparr>) c"
      by (simp add: on_signature_def ensure_signature_config_def)
    then show ?thesis ..
  qed
  then show ?thesis using integrity_only[OF assms] by metis
qed

lemma apply_only:
  assumes "apply_input lib language field raw c = Inr c'"
  shows "only_field field c c'"
proof (cases "field = SignaturePath \<or> field = SignatureHmacEnv")
  case True
  then show ?thesis
    using assms by (auto simp: apply_input_def signature_field_def intro!: on_signature_only)
next
  case False
  then show ?thesis
    using assms unfolding only_field_def
    by (cases field) (auto simp: apply_input_def parse_or_def without_field_def signature_field_def
        same_field_def Let_def split: setup_field.split sum.splits)
qed

text \<open>An edit touches nothing but its field: restoring the default, cycling and typed input leave
  every other field of the draft as it was, and all that has no field; only the three fields of the
  signature go together.  The page, the selection and the defaults stay.\<close>

theorem edit_touches_one_field:
  assumes "restore_default_for_field field st = st' \<or> cycle_field_value field st = st' \<or>
    apply_custom_field_input lib language field raw st = Inr st'"
  shows "only_field field (ss_draft st) (ss_draft st') \<and> st' = st\<lparr>ss_draft := ss_draft st'\<rparr>"
  using assms restore_only cycle_only
  by (auto simp: restore_default_for_field_def cycle_field_value_def apply_custom_field_input_def Let_def
      rbind_Inr dest: apply_only split: if_splits)

section \<open>Typing what is shown\<close>

lemma trim_space [simp]: "str_trim (32 # w) = str_trim w"
  by (simp add: str_trim_def str_trim_start_def is_whitespace_def)

lemma split_join_space:
  "44 \<notin> set w \<Longrightarrow> \<forall>v \<in> set ws. 44 \<notin> set v \<Longrightarrow>
   str_split 44 (str_join [44, 32] (w # ws)) = w # map ((#) 32) ws"
proof (induction ws arbitrary: w)
  case (Cons v ws)
  have "str_split 44 (32 # str_join [44, 32] (v # ws)) = (32 # v) # map ((#) 32) ws"
    using Cons by simp
  then show ?case using Cons.prems by (simp add: str_split_word)
qed (simp add: str_split_plain)

definition csv_entry :: "rstr \<Rightarrow> bool" where
  "csv_entry w \<longleftrightarrow> w \<noteq> [] \<and> str_trim w = w \<and> 44 \<notin> set w"

lemma parse_csv_join:
  assumes "list_all csv_entry ws" shows "parse_csv (str_join (lit '', '') ws) = ws"
proof (cases ws)
  case (Cons w vs)
  have keep: "list_all csv_entry us \<Longrightarrow> filter (\<lambda>e. e \<noteq> []) (map str_trim us) = us" for us
    by (induction us) (auto simp: csv_entry_def)
  from assms have "list_all csv_entry vs" by (simp add: Cons)
  then have "filter (\<lambda>e. e \<noteq> []) (map (\<lambda>v. str_trim (32 # v)) vs) = vs" using keep[of vs] by simp
  moreover have "str_trim w = w" "w \<noteq> []" using assms by (simp_all add: Cons csv_entry_def)
  moreover have "lit '', '' = [44, 32]" by (simp add: lit_def)
  ultimately show ?thesis
    using assms split_join_space[of w vs] by (simp add: parse_csv_def Cons csv_entry_def list_all_iff comp_def)
qed (simp add: parse_csv_def str_trim_def str_trim_start_def str_trim_end_def)

definition retypable :: "tui_lib \<Rightarrow> startup_config \<Rightarrow> setup_field \<Rightarrow> bool" where
  "retypable lib c field \<longleftrightarrow>
     (case field of
        DetectorBackend \<Rightarrow> tl_parse_backend lib (backend_name (dc_backend (cfg_detector c))) =
          Inr (dc_backend (cfg_detector c))
      | TargetReadings \<Rightarrow> False
      | LiteralSequencePatterns \<Rightarrow> list_all csv_entry (dc_literal_sequence_patterns (cfg_detector c))
      | SpecialPhrases \<Rightarrow> list_all csv_entry (dc_special_phrases (cfg_detector c))
      | ReactionEmojiId \<Rightarrow> emoji_id (bp_reaction (cfg_bot c)) \<le> u64_max
      | MaxCountCap \<Rightarrow> bp_max_count_cap (cfg_bot c) \<le> usize_max
      | MaxSendChars \<Rightarrow> bp_max_send_chars (cfg_bot c) \<le> usize_max
      | AuditSqlitePath \<Rightarrow>
          path_of (tl_display lib (ac_sqlite_path (cfg_audit c))) = ac_sqlite_path (cfg_audit c)
      | AuditExportMaxRows \<Rightarrow> ac_export_max_rows (cfg_audit c) \<le> usize_max
      | AuditQueryMaxRows \<Rightarrow> ac_query_max_rows (cfg_audit c) \<le> usize_max
      | SignaturePath \<Rightarrow>
          (case config_signature (cfg_integrity c) of None \<Rightarrow> False
           | Some g \<Rightarrow> path_of (tl_display lib (detached_hmac_sha256_path g)) = detached_hmac_sha256_path g)
      | SignatureHmacEnv \<Rightarrow> config_signature (cfg_integrity c) \<noteq> None
      | _ \<Rightarrow> True)"

text \<open>An editor that shows and reads the same language: typing what a field shows leaves the draft as
  it is, for every field but the readings, which are shown with a hint; lists must have entries that
  hold no comma and no outer blanks, numbers must fit their type.\<close>

theorem retyping_keeps:
  assumes "retypable lib (ss_draft st) field"
    and "str_trim (setup_field_value lib language (ss_draft st) field) =
      setup_field_value lib language (ss_draft st) field"
    and "setup_field_value lib language (ss_draft st) field \<noteq> []"
  shows "apply_custom_field_input lib language field
    (setup_field_value lib language (ss_draft st) field) st = Inr st"
proof -
  obtain c where c: "c = ss_draft st" by simp
  have "apply_input lib language field (setup_field_value lib language c field) c = Inr c"
    using assms unfolding c[symmetric]
    by (cases field)
      (auto simp: apply_input_def setup_field_value_def retypable_def parse_or_def parse_csv_join
        parse_unsigned_dec on_signature_def ensure_signature_config_def Let_def split: option.splits)
  then show ?thesis
    using assms(2,3) by (simp add: apply_custom_field_input_def c rbind_def)
qed

section \<open>What is refused\<close>

definition number_bound :: "setup_field \<Rightarrow> nat option" where
  "number_bound field =
     (case field of
        ReactionEmojiId \<Rightarrow> Some u64_max
      | MaxCountCap \<Rightarrow> Some usize_max
      | MaxSendChars \<Rightarrow> Some usize_max
      | AuditExportMaxRows \<Rightarrow> Some usize_max
      | AuditQueryMaxRows \<Rightarrow> Some usize_max
      | _ \<Rightarrow> None)"

lemma input_refused_iff:
  "(\<exists>e. apply_custom_field_input lib language field raw st = Inl e) \<longleftrightarrow>
   str_trim raw \<noteq> [] \<and>
   (case number_bound field of
      Some hi \<Rightarrow> \<exists>e. parse_unsigned hi (str_trim raw) = Inl e
    | None \<Rightarrow> field = DetectorBackend \<and> (\<exists>e. tl_parse_backend lib (str_trim raw) = Inl e))"
  by (cases field)
    (auto simp: apply_custom_field_input_def apply_input_def parse_or_def number_bound_def rbind_def Let_def
      split: sum.splits)

section \<open>Samples\<close>

definition sample_tui_lib :: tui_lib where
  "sample_tui_lib =
     \<lparr>tl_catalog = (\<lambda>_ _. None), tl_display = (\<lambda>_. lit ''path''),
      tl_parse_backend = (\<lambda>t. if t = backend_name MorphologicalReading then Inr MorphologicalReading
        else Inl (lit ''unknown backend'')),
      tl_debug_str = (\<lambda>t. t), tl_parse_readings = (\<lambda>_. None)\<rparr>"

definition sample_setup :: setup_state where
  "sample_setup = \<lparr>ss_draft = sample_signed, ss_defaults = sample_startup, ss_page = BotPage, ss_selected = 0\<rparr>"

theorem edit_touches_one_field_witness:
  "only_field StampText (ss_draft sample_setup) (ss_draft (restore_default_for_field StampText sample_setup))"
  using edit_touches_one_field[of StampText sample_setup "restore_default_for_field StampText sample_setup"] by simp

theorem retyping_keeps_witness:
  "apply_custom_field_input sample_tui_lib English StampText (lit ''<:oo:1>'') sample_setup = Inr sample_setup"
proof -
  have v: "setup_field_value sample_tui_lib English (ss_draft sample_setup) StampText = lit ''<:oo:1>''"
    by (simp add: setup_field_value_def sample_setup_def sample_signed_def sample_startup_def)
  have "str_trim (lit ''<:oo:1>'') = lit ''<:oo:1>''" "lit ''<:oo:1>'' \<noteq> []"
    by (simp_all add: lit_def str_trim_def str_trim_start_def str_trim_end_def is_whitespace_def)
  with retyping_keeps[of sample_tui_lib sample_setup StampText English] v
  show ?thesis by (simp add: retypable_def)
qed

end
