(* ===== verification/Tui_Audit.thy ===== *)
theory Tui_Audit
  imports Tui_Setup Diagnostics Discord_Handler "HOL-Library.Product_Lexorder"
begin

text \<open>
  The audit screen of the operator interface, \<^verbatim>\<open>src/operator_tui.rs\<close>: loading the newest rows, searching,
  filtering and sorting them, and the figures computed from what is shown.
\<close>

section \<open>State\<close>

definition TUI_AUDIT_CAP :: nat where "TUI_AUDIT_CAP = 250"

datatype audit_sort = NewestFirst | OldestFirst | ByEventType | ByMode

record audit_state =
  au_rows :: "audit_event_row list"
  au_stats :: audit_stats
  au_status :: rstr
  au_search :: rstr
  au_sort :: audit_sort
  au_mode_filter :: "rstr option"

definition empty_stats :: "nat \<Rightarrow> audit_stats" where
  "empty_stats n =
     \<lparr>st_total = n, st_by_event_type = Map.empty, st_by_backend = Map.empty,
      st_by_suppressed_reason = Map.empty, st_by_mode = Map.empty\<rparr>"

definition fresh_audit_state :: "audit_event_row list \<Rightarrow> audit_stats \<Rightarrow> rstr \<Rightarrow> audit_state" where
  "fresh_audit_state rows stats status =
     \<lparr>au_rows = rows, au_stats = stats, au_status = status, au_search = [], au_sort = NewestFirst,
      au_mode_filter = None\<rparr>"

definition newest :: "nat \<Rightarrow> audit_query_filter" where
  "newest n = newest_only\<lparr>qf_limit := Some n\<rparr>"

definition load_audit_state ::
  "tui_lib \<Rightarrow> check_env \<Rightarrow> loaded_startup_config \<Rightarrow> nat \<Rightarrow> ui_language \<Rightarrow> audit_state" where
  "load_audit_state lib env startup audit_limit language =
     (let audit = cfg_audit (ld_app startup);
          cfg = \<lparr>sc_sqlite_path = ac_sqlite_path audit, sc_busy_timeout_ms = ac_busy_timeout_ms audit,
            sc_export_max_rows = ac_export_max_rows audit, sc_query_max_rows = ac_query_max_rows audit\<rparr> in
      if \<not> fs_exists (ce_files env) (sc_sqlite_path cfg)
      then fresh_audit_state [] (empty_stats 0) (label_of lib language ''audit.status.missing_db'')
      else case open_ro cfg (ce_opened env (sc_sqlite_path cfg)) of
        Inl err \<Rightarrow> fresh_audit_state [] (empty_stats 0)
          (template lib language (lit ''audit.status.open_failed'') [(lit ''error'', err)])
      | Inr store \<Rightarrow>
          (let q = newest (min (min audit_limit TUI_AUDIT_CAP) (ac_query_max_rows audit));
               rows = (case audit_tail (ce_audit env) q store of Inr rows \<Rightarrow> rows | Inl _ \<Rightarrow> []);
               stats = (case audit_stats_of (ce_audit env) q store of Inr st \<Rightarrow> st
                 | Inl _ \<Rightarrow> empty_stats (length rows))
           in fresh_audit_state rows stats (label_of lib language ''audit.status.ready'')))"

section \<open>Filtering and sorting\<close>

definition search_text :: "audit_event_row \<Rightarrow> rstr" where
  "search_text r =
     to_ascii_lowercase (ev_event_type r @ lit '' '' @ ev_detector_backend r @ lit '' '' @
       ev_selected_action r @ lit '' '' @ ev_suppressed_reason r @ lit '' '' @ ev_mode r)"

definition row_matches :: "audit_state \<Rightarrow> audit_event_row \<Rightarrow> bool" where
  "row_matches a r \<longleftrightarrow>
     (str_trim (au_search a) = [] \<or> str_contains (search_text r) (to_ascii_lowercase (au_search a))) \<and>
     (case au_mode_filter a of Some m \<Rightarrow> ev_mode r = m | None \<Rightarrow> True)"

definition sort_rows :: "audit_sort \<Rightarrow> audit_event_row list \<Rightarrow> audit_event_row list" where
  "sort_rows chosen rows =
     (case chosen of
        NewestFirst \<Rightarrow> sort_key (\<lambda>r. - ev_event_id r) rows
      | OldestFirst \<Rightarrow> sort_key ev_event_id rows
      | ByEventType \<Rightarrow> sort_key (\<lambda>r. (ev_event_type r, ev_event_id r)) rows
      | ByMode \<Rightarrow> sort_key (\<lambda>r. (ev_mode r, ev_event_id r)) rows)"

definition filtered_audit_rows :: "audit_state \<Rightarrow> audit_event_row list" where
  "filtered_audit_rows a = sort_rows (au_sort a) (filter (row_matches a) (au_rows a))"

definition next_audit_sort :: "audit_sort \<Rightarrow> audit_sort" where
  "next_audit_sort chosen =
     (case chosen of NewestFirst \<Rightarrow> OldestFirst | OldestFirst \<Rightarrow> ByEventType | ByEventType \<Rightarrow> ByMode
      | ByMode \<Rightarrow> NewestFirst)"

definition next_mode_filter :: "rstr option \<Rightarrow> rstr option" where
  "next_mode_filter f =
     (if f = None then Some (lit ''normal'')
      else if f = Some (lit ''normal'') then Some (lit ''observe_only'')
      else if f = Some (lit ''observe_only'') then Some (lit ''react_only'')
      else if f = Some (lit ''react_only'') then Some (lit ''audit_only'')
      else if f = Some (lit ''audit_only'') then Some (lit ''full_disable'')
      else None)"

section \<open>Figures\<close>

text \<open>A \<^verbatim>\<open>BTreeMap\<close> of counts, in the order of its keys.\<close>

definition count_keys :: "rstr list \<Rightarrow> (rstr \<times> nat) list" where
  "count_keys values =
     (let m = fold bump_key values Map.empty
      in map (\<lambda>k. (k, case m k of Some n \<Rightarrow> n | None \<Rightarrow> 0)) (sort (remdups values)))"

definition top_counts :: "rstr list \<Rightarrow> nat \<Rightarrow> (rstr \<times> nat) list" where
  "top_counts values limit = take limit (sort_key (\<lambda>(k, n). (- int n, k)) (count_keys values))"

definition format_pairs :: "tui_lib \<Rightarrow> ui_language \<Rightarrow> (rstr \<times> nat) list \<Rightarrow> rstr" where
  "format_pairs lib language pairs =
     (if pairs = [] then label_of lib language ''common.none''
      else str_join (lit '', '') (map (\<lambda>(k, n). k @ lit ''='' @ dec n) pairs))"

definition parse_matched_readings :: "tui_lib \<Rightarrow> rstr \<Rightarrow> rstr list" where
  "parse_matched_readings lib raw =
     filter (\<lambda>v. v \<noteq> []) (case tl_parse_readings lib raw of Some vs \<Rightarrow> vs | None \<Rightarrow> [])"

definition percentile_indexed :: "int list \<Rightarrow> nat \<Rightarrow> int" where
  "percentile_indexed xs percentile =
     (if xs = [] then 0 else xs ! (((length xs - 1) * percentile) div 100))"

definition processing_ms_percentiles :: "audit_event_row list \<Rightarrow> int \<times> int \<times> int" where
  "processing_ms_percentiles rows =
     (let values = sort (filter (\<lambda>v. v > 0) (map ev_processing_time_ms rows)) in
      if values = [] then (0, 0, 0)
      else (percentile_indexed values 50, percentile_indexed values 95, last values))"

text \<open>Slicing a string by bytes panics where a character would be cut.\<close>

fun byte_prefix :: "nat \<Rightarrow> rstr \<Rightarrow> rstr option" where
  "byte_prefix n [] = (if n = 0 then Some [] else None)"
| "byte_prefix n (c # s) =
     (if n = 0 then Some []
      else if length (utf8_char c) \<le> n
      then map_option ((#) c) (byte_prefix (n - length (utf8_char c)) s) else None)"

definition byte_slice :: "nat \<Rightarrow> nat \<Rightarrow> rstr \<Rightarrow> rstr option" where
  "byte_slice from to s =
     Option.bind (byte_prefix from s) (\<lambda>a. map_option (drop (length a)) (byte_prefix to s))"

fun hour_keys :: "audit_event_row list \<Rightarrow> rstr list option" where
  "hour_keys [] = Some []"
| "hour_keys (r # rows) =
     (if str_len (ev_ts_utc r) < 13 then hour_keys rows
      else Option.bind (byte_prefix 13 (ev_ts_utc r)) (\<lambda>h.
        map_option ((#) (h @ lit '':00Z'')) (hour_keys rows)))"

definition bar_length :: "nat \<Rightarrow> nat \<Rightarrow> nat" where
  "bar_length most n = max 1 ((n * 10 + most - 1) div most)"

definition hour_bar :: "nat \<Rightarrow> rstr \<times> nat \<Rightarrow> rstr option" where
  "hour_bar most = (\<lambda>(hour, n).
     map_option (\<lambda>h. h @ lit '':'' @ replicate (bar_length most n) 35 @ lit ''('' @ dec n @ lit '')'')
       (byte_slice 5 13 hour))"

definition hourly_histogram :: "audit_event_row list \<Rightarrow> nat \<Rightarrow> rstr option" where
  "hourly_histogram rows buckets =
     Option.bind (hour_keys rows) (\<lambda>hours.
       if hours = [] then Some []
       else (let pairs = count_keys hours; most = max 1 (foldr max (map snd pairs) 0)
             in map_option (str_join (lit '' ''))
                  (those (map (hour_bar most) (drop (length pairs - buckets) pairs)))))"

definition figure_line :: "tui_lib \<Rightarrow> ui_language \<Rightarrow> string \<Rightarrow> rstr \<Rightarrow> rstr" where
  "figure_line lib language key text = label_of lib language key @ lit '': '' @ text"

definition build_audit_advanced_block ::
  "tui_lib \<Rightarrow> ui_language \<Rightarrow> audit_event_row list \<Rightarrow> rstr option" where
  "build_audit_advanced_block lib language rows =
     (let pairs = (\<lambda>values. format_pairs lib language (top_counts values 8));
          (p50, p95, most) = processing_ms_percentiles rows in
      map_option (\<lambda>timeline. str_join [10]
        [figure_line lib language ''audit.advanced_targets''
           (pairs (concat (map (\<lambda>r. parse_matched_readings lib (ev_matched_readings_json r)) rows))),
         figure_line lib language ''audit.advanced_response'' (pairs (map ev_selected_action rows)),
         figure_line lib language ''audit.advanced_suppression''
           (pairs (filter (\<lambda>v. v \<noteq> []) (map ev_suppressed_reason rows))),
         figure_line lib language ''audit.advanced_modes'' (pairs (map ev_mode rows)),
         figure_line lib language ''audit.advanced_latency''
           (lit ''p50='' @ decimal p50 @ lit '' p95='' @ decimal p95 @ lit '' max='' @ decimal most),
         figure_line lib language ''audit.advanced_timeline''
           (if timeline = [] then label_of lib language ''common.none'' else timeline)])
        (hourly_histogram rows 8))"

section \<open>What is shown\<close>

definition shown_before :: "audit_sort \<Rightarrow> audit_event_row \<Rightarrow> audit_event_row \<Rightarrow> bool" where
  "shown_before chosen r r' \<longleftrightarrow>
     (case chosen of
        NewestFirst \<Rightarrow> ev_event_id r' \<le> ev_event_id r
      | OldestFirst \<Rightarrow> ev_event_id r \<le> ev_event_id r'
      | ByEventType \<Rightarrow> ev_event_type r < ev_event_type r' \<or>
          ev_event_type r = ev_event_type r' \<and> ev_event_id r \<le> ev_event_id r'
      | ByMode \<Rightarrow> ev_mode r < ev_mode r' \<or> ev_mode r = ev_mode r' \<and> ev_event_id r \<le> ev_event_id r')"

lemma pair_le: "(a :: 'a::linorder, b :: 'b::linorder) \<le> (c, d) \<longleftrightarrow> a < c \<or> a = c \<and> b \<le> d"
  by (auto simp: less_eq_prod_def)

declare less_eq_prod_simp [simp del]

lemma mset_sort_rows: "mset (sort_rows chosen rows) = mset rows"
  by (cases chosen) (simp_all add: sort_rows_def)

lemma set_filtered: "set (filtered_audit_rows a) = {r \<in> set (au_rows a). row_matches a r}"
proof -
  have "set (filtered_audit_rows a) = set (filter (row_matches a) (au_rows a))"
    unfolding filtered_audit_rows_def by (metis mset_sort_rows set_mset_mset)
  then show ?thesis by auto
qed

lemma sort_rows_ordered: "sorted_wrt (shown_before chosen) (sort_rows chosen rows)"
proof -
  have by_key: "sorted_wrt (\<lambda>r r'. f r \<le> f r') (sort_key f rows)" for f :: "audit_event_row \<Rightarrow> 'b::linorder"
    using sorted_sort_key[of f rows] by (simp add: sorted_map)
  show ?thesis
    using by_key[of "\<lambda>r. - ev_event_id r"] by_key[of ev_event_id]
      by_key[of "\<lambda>r. (ev_event_type r, ev_event_id r)"] by_key[of "\<lambda>r. (ev_mode r, ev_event_id r)"]
    by (cases chosen) (simp_all add: sort_rows_def shown_before_def[abs_def] pair_le)
qed

lemma order_unique:
  assumes "sorted_wrt (shown_before chosen) xs" and "sorted_wrt (shown_before chosen) ys"
    and "mset xs = mset ys" and "distinct (map ev_event_id xs)"
  shows "xs = ys"
proof -
  have inj: "inj_on ev_event_id (set xs \<union> set ys)"
    using assms(3,4) by (metis distinct_map mset_eq_setD sup.idem)
  have same: "xs = ys"
    if s: "sorted (map f xs)" "sorted (map f ys)" and i: "\<And>r r'. f r = f r' \<Longrightarrow> ev_event_id r = ev_event_id r'"
    for f :: "audit_event_row \<Rightarrow> 'b::linorder"
  proof (rule map_inj_on)
    have "mset (map f ys) = mset (map f xs)" using assms(3) by simp
    then show "map f xs = map f ys" using s by (metis properties_for_sort)
    show "inj_on f (set xs \<union> set ys)" using inj i unfolding inj_on_def by blast
  qed
  show ?thesis
    using assms(1,2) same[of "\<lambda>r. - ev_event_id r"] same[of ev_event_id]
      same[of "\<lambda>r. (ev_event_type r, ev_event_id r)"] same[of "\<lambda>r. (ev_mode r, ev_event_id r)"]
    by (cases chosen) (simp_all add: sorted_map shown_before_def[abs_def] pair_le)
qed

text \<open>The audit screen is exact: it shows precisely the loaded rows that contain the search text, in any
  ASCII case, and have the chosen mode, in the chosen order; and as rows have different numbers, no
  other list does.\<close>

theorem filtered_rows_exact:
  assumes "distinct (map ev_event_id (au_rows a))"
  shows "(mset rows = filter_mset (row_matches a) (mset (au_rows a)) \<and>
      sorted_wrt (shown_before (au_sort a)) rows) \<longleftrightarrow> rows = filtered_audit_rows a"
proof -
  let ?shown = "filtered_audit_rows a"
  have shown: "mset ?shown = filter_mset (row_matches a) (mset (au_rows a))"
    "sorted_wrt (shown_before (au_sort a)) ?shown"
    by (simp_all add: filtered_audit_rows_def mset_sort_rows sort_rows_ordered)
  have "distinct (map ev_event_id rows)"
    if "mset rows = filter_mset (row_matches a) (mset (au_rows a))" for rows
  proof -
    have "mset (map ev_event_id rows) = mset (map ev_event_id (filter (row_matches a) (au_rows a)))"
      using that by simp
    then have "distinct (map ev_event_id rows) = distinct (map ev_event_id (filter (row_matches a) (au_rows a)))"
      by (rule mset_eq_imp_distinct_iff)
    then show ?thesis using assms by (simp add: distinct_map_filter)
  qed
  then show ?thesis using shown order_unique by metis
qed

section \<open>The mode filter and the log\<close>

lemma mode_filters:
  "(next_mode_filter ^^ k) None \<in> {None, Some (lit ''normal''), Some (lit ''observe_only''),
     Some (lit ''react_only''), Some (lit ''audit_only''), Some (lit ''full_disable'')}"
  by (induction k) (auto simp: next_mode_filter_def)

lemma decision_row_mode:
  assumes "build_event aenv (decision_event env msg d detection ms) store = Inr row"
  shows "ev_mode row = debug_mode (dec_mode d)"
  using assms
  by (auto simp: build_event_def rbind_Inr db_try_def stored_row_def decision_event_def Let_def split: option.splits)

text \<open>The mode filter hides every decision: whichever mode the filter is turned to, no row recorded
  for a decision is shown, also none in that mode, as decisions are recorded with another spelling of
  the mode.\<close>

theorem mode_filter_hides_decisions:
  assumes "build_event aenv (decision_event env msg d detection ms) store = Inr row"
    and "au_mode_filter a = (next_mode_filter ^^ k) None" and "au_mode_filter a \<noteq> None"
  shows "map_audit_event_row row \<notin> set (filtered_audit_rows a)"
proof -
  have "debug_mode m \<noteq> w"
    if "Some w \<in> {None, Some (lit ''normal''), Some (lit ''observe_only''),
      Some (lit ''react_only''), Some (lit ''audit_only''), Some (lit ''full_disable'')}" for m w
    using that by (cases m) (auto simp: debug_mode_def lit_eq)
  moreover have "ev_mode (map_audit_event_row row) = debug_mode (dec_mode d)"
    using decision_row_mode[OF assms(1)] by (simp add: map_audit_event_row_def audit_event_row.truncate_def)
  ultimately show ?thesis
    using mode_filters[of k] assms(2,3) by (auto simp: set_filtered row_matches_def)
qed

section \<open>Counting\<close>

lemma fold_bump: "fold bump_key vs m k =
    (if k \<in> set vs \<or> m k \<noteq> None then Some (count_list vs k + (case m k of Some n \<Rightarrow> n | None \<Rightarrow> 0)) else None)"
  by (induction vs arbitrary: m) (auto simp: bump_key_def split: option.splits)

lemma count_keys_eq: "count_keys vs = map (\<lambda>k. (k, count_list vs k)) (sort (remdups vs))"
  by (simp add: count_keys_def Let_def fold_bump)

definition more_frequent :: "rstr \<times> nat \<Rightarrow> rstr \<times> nat \<Rightarrow> bool" where
  "more_frequent p q \<longleftrightarrow> snd q < snd p \<or> snd p = snd q \<and> fst p < fst q"

text \<open>The figures name the most frequent values: each with its exact count, most frequent first and
  alphabetically among equals, as many as asked for if there are, and no value that is left out comes
  before one that is named.\<close>

theorem top_counts_exact:
  "sorted_wrt more_frequent (top_counts values limit) \<and>
   length (top_counts values limit) = min limit (card (set values)) \<and>
   (\<forall>(k, n) \<in> set (top_counts values limit). k \<in> set values \<and> n = count_list values k) \<and>
   (\<forall>k \<in> set values. (k, count_list values k) \<notin> set (top_counts values limit) \<longrightarrow>
     (\<forall>p \<in> set (top_counts values limit). more_frequent p (k, count_list values k)))"
proof -
  let ?key = "\<lambda>(k, n). (- int n, k)"
  let ?all = "sort_key ?key (count_keys values)"
  have members: "set ?all = (\<lambda>k. (k, count_list values k)) ` set values"
    and len: "length ?all = card (set values)"
    by (simp_all add: count_keys_eq length_remdups_card_conv)
  have "distinct (map fst (count_keys values))" by (simp add: count_keys_eq comp_def)
  then have "distinct ?all" by (simp add: distinct_map)
  moreover have "sorted_wrt (\<lambda>p q. ?key p \<le> ?key q) ?all"
    using sorted_sort_key[of ?key] by (simp add: sorted_map)
  moreover have "inj_on ?key (set ?all)" by (auto intro!: inj_onI)
  ultimately have order: "sorted_wrt more_frequent ?all"
  proof -
    assume d: "distinct ?all" and s: "sorted_wrt (\<lambda>p q. ?key p \<le> ?key q) ?all"
    have "more_frequent (?all ! i) (?all ! j)" if "i < j" "j < length ?all" for i j
    proof -
      have "?key (?all ! i) \<le> ?key (?all ! j)" using s that by (simp add: sorted_wrt_iff_nth_less)
      moreover have "?all ! i \<noteq> ?all ! j" using d that by (simp add: nth_eq_iff_index_eq)
      ultimately show ?thesis
        by (cases "?all ! i"; cases "?all ! j") (auto simp: more_frequent_def pair_le)
    qed
    then show ?thesis by (simp add: sorted_wrt_iff_nth_less)
  qed
  have top: "top_counts values limit = take limit ?all" by (simp add: top_counts_def)
  have left_out: "more_frequent p q"
    if "p \<in> set (take limit ?all)" "q \<in> set ?all" "q \<notin> set (take limit ?all)" for p q
  proof -
    have "q \<in> set (drop limit ?all)" using that(2,3) by (metis Un_iff append_take_drop_id set_append)
    with that(1) order show ?thesis by (metis append_take_drop_id sorted_wrt_append)
  qed
  show ?thesis
    unfolding top
    using order left_out members len by (auto simp: sorted_wrt_take dest: in_set_takeD)
qed

section \<open>Percentiles and the histogram\<close>

lemma percentiles_ordered:
  assumes "processing_ms_percentiles rows = (p50, p95, most)"
  shows "p50 \<le> p95 \<and> p95 \<le> most \<and>
    (\<forall>r \<in> set rows. ev_processing_time_ms r \<le> most \<or> ev_processing_time_ms r \<le> 0) \<and>
    {p50, p95, most} \<subseteq> insert 0 (ev_processing_time_ms ` set rows)"
proof -
  define xs where "xs = sort (filter (\<lambda>v. v > 0) (map ev_processing_time_ms rows))"
  have members: "set xs = {v \<in> ev_processing_time_ms ` set rows. v > 0}" by (auto simp: xs_def)
  show ?thesis
  proof (cases "xs = []")
    case True
    with members have "\<forall>r \<in> set rows. ev_processing_time_ms r \<le> 0" by force
    with True assms show ?thesis by (auto simp: processing_ms_percentiles_def xs_def[symmetric])
  next
    case False
    have at: "xs ! i \<le> xs ! j" if "i \<le> j" "j < length xs" for i j
      using that by (simp add: xs_def sorted_nth_mono)
    have i: "((length xs - 1) * 50) div 100 \<le> ((length xs - 1) * 95) div 100"
      "((length xs - 1) * 95) div 100 \<le> length xs - 1" by linarith+
    have j: "((length xs - 1) * 50) div 100 < length xs" "((length xs - 1) * 95) div 100 < length xs"
      using length_greater_0_conv[of xs] False by linarith+
    have most: "last xs = xs ! (length xs - 1)" using False by (rule last_conv_nth)
    have "v \<le> last xs" if "v \<in> set xs" for v
      using that at by (auto simp: in_set_conv_nth most)
    moreover have "{p50, p95, most} \<subseteq> set xs" and "p50 \<le> p95" and "p95 \<le> last xs"
      using False assms at[OF i(1) j(2)] at[OF i(2)] j nth_mem[OF j(1)] nth_mem[OF j(2)]
      by (auto simp: processing_ms_percentiles_def xs_def[symmetric] percentile_indexed_def most intro!: nth_mem)
    moreover have "most = last xs"
      using False assms by (simp add: processing_ms_percentiles_def xs_def[symmetric])
    ultimately show ?thesis using members by fastforce
  qed
qed

lemma byte_prefix_ascii: "str_is_ascii s \<Longrightarrow> n \<le> length s \<Longrightarrow> byte_prefix n s = Some (take n s)"
proof (induction n s rule: byte_prefix.induct)
  case (2 n c s)
  then show ?case by (cases n) (auto simp: str_is_ascii_def utf8_char_def)
qed simp

lemma ascii_len: "str_is_ascii s \<Longrightarrow> str_len s = length s"
  by (induction s) (auto simp: str_is_ascii_def str_len_def utf8_char_def)

lemma hour_keys_ascii:
  assumes "\<forall>r \<in> set rows. str_is_ascii (ev_ts_utc r)"
  shows "\<exists>hours. hour_keys rows = Some hours \<and> (\<forall>h \<in> set hours. str_is_ascii h \<and> 13 \<le> length h)"
  using assms
proof (induction rows)
  case (Cons r rows)
  then obtain hours where hours: "hour_keys rows = Some hours"
    "\<forall>h \<in> set hours. str_is_ascii h \<and> 13 \<le> length h" by auto
  have "str_is_ascii (take 13 (ev_ts_utc r) @ lit '':00Z'')"
    using Cons.prems by (auto simp: str_is_ascii_def lit_def list_all_iff dest: in_set_takeD)
  then show ?case
    using Cons.prems hours by (auto simp: ascii_len byte_prefix_ascii)
qed simp

lemma those_map: "\<forall>x \<in> set xs. f x \<noteq> None \<Longrightarrow> those (map f xs) = Some (map (\<lambda>x. the (f x)) xs)"
  by (induction xs) auto

text \<open>The figures never panic on a log whose time stamps are ASCII, as recorded ones are; a character of
  two bytes at the thirteenth byte of a time stamp panics.\<close>

lemma histogram_safe:
  assumes "\<forall>r \<in> set rows. str_is_ascii (ev_ts_utc r)"
  shows "\<exists>text. build_audit_advanced_block lib language rows = Some text"
proof -
  from hour_keys_ascii[OF assms] obtain hours where hours: "hour_keys rows = Some hours"
    and ascii: "\<forall>h \<in> set hours. str_is_ascii h \<and> 13 \<le> length h" by blast
  have "hour_bar most p \<noteq> None" if "p \<in> set (drop k (count_keys hours))" for most p k
  proof -
    from that have "fst p \<in> set hours" by (auto simp: count_keys_eq dest!: in_set_dropD)
    then have "byte_slice 5 13 (fst p) \<noteq> None"
      using ascii by (auto simp: byte_slice_def byte_prefix_ascii)
    then show ?thesis by (cases p) (simp add: hour_bar_def)
  qed
  then have "\<exists>text. hourly_histogram rows 8 = Some text"
    by (auto simp: hourly_histogram_def hours Let_def those_map)
  then show ?thesis by (auto simp: build_audit_advanced_block_def Let_def case_prod_beta)
qed

lemma byte_prefix_append:
  "str_is_ascii a \<Longrightarrow> length a < n \<Longrightarrow>
   byte_prefix n (a @ s) = map_option ((@) a) (byte_prefix (n - length a) s)"
proof (induction a arbitrary: n)
  case Nil
  show ?case by (cases "byte_prefix n s") simp_all
next
  case (Cons c a)
  then obtain m where "n = Suc m" by (cases n) auto
  with Cons show ?case by (simp add: str_is_ascii_def utf8_char_def option.map_comp comp_def)
qed

lemma histogram_panics:
  "hourly_histogram [r\<lparr>ev_ts_utc := replicate 12 48 @ [233]\<rparr>] n = None"
proof -
  have ascii: "str_is_ascii (replicate 12 48)" by (simp add: str_is_ascii_def list_all_iff)
  then have "byte_prefix 13 (replicate 12 48 @ [233]) = None"
    by (subst byte_prefix_append) (simp_all add: utf8_char_def)
  moreover have "str_len (replicate 12 48 @ [233]) = 14"
    using ascii_len[OF ascii] by (simp add: str_len_def utf8_char_def)
  ultimately show ?thesis by (simp add: hourly_histogram_def)
qed

section \<open>A sample screen\<close>

definition sample_screen :: audit_state where
  "sample_screen =
     fresh_audit_state (map map_audit_event_row (db_events (as_db sample_audit_store))) (empty_stats 1) []"

theorem filtered_rows_exact_witness:
  "mset (filtered_audit_rows sample_screen) =
   filter_mset (row_matches sample_screen) (mset (au_rows sample_screen))"
proof -
  obtain r where "db_events (as_db sample_audit_store) = [r]"
    using sample_audit_rows(1) by (auto simp: length_Suc_conv)
  then have "distinct (map ev_event_id (au_rows sample_screen))"
    by (simp add: sample_screen_def fresh_audit_state_def)
  from filtered_rows_exact[OF this] show ?thesis by blast
qed

definition sample_decision :: action_decision where
  "sample_decision = snd (decide_message sample_env (sample_message 1) (lit ''oo'') 0 sample_core)"

theorem mode_filter_hides_decisions_witness:
  "\<exists>row. build_event Audit_Chain.sample_audit
       (decision_event sample_handler (sample_discord 1) sample_decision None 1) sample_new_store = Inr row \<and>
     map_audit_event_row row \<notin> set (filtered_audit_rows
       ((fresh_audit_state [map_audit_event_row row] (empty_stats 1) [])\<lparr>au_mode_filter := Some (lit ''normal'')\<rparr>))"
proof -
  obtain row where row: "build_event Audit_Chain.sample_audit
      (decision_event sample_handler (sample_discord 1) sample_decision None 1) sample_new_store = Inr row"
    by (simp add: build_event_def ensure_writable_def sample_new_store_def db_try_def Audit_Chain.sample_audit_def)
  moreover have "map_audit_event_row row \<notin> set (filtered_audit_rows
      ((fresh_audit_state [map_audit_event_row row] (empty_stats 1) [])\<lparr>au_mode_filter := Some (lit ''normal'')\<rparr>))"
    by (rule mode_filter_hides_decisions[OF row, where k = 1]) (simp_all add: next_mode_filter_def)
  ultimately show ?thesis by blast
qed

end
