(* ===== verification/Operator_Tui.thy ===== *)
theory Operator_Tui
  imports Tui_Audit Control Platform
begin

text \<open>
  The operator interface, \<^verbatim>\<open>src/operator_tui.rs\<close>, as a state machine over the events of the terminal.
  Everything the code asks of its surroundings while it handles one event is an argument of that step,
  as it may change between two events; the files it writes and the requests it sends to the running bot
  are the state that is kept.  What is drawn is the subject of another theory.
\<close>

section \<open>State\<close>

definition MAX_INPUT_BUFFER_LEN :: nat where "MAX_INPUT_BUFFER_LEN = 4096"
definition MAX_AUDIT_SEARCH_LEN :: nat where "MAX_AUDIT_SEARCH_LEN = 256"
definition CONTROL_STATUS_AUTO_REFRESH_INTERVAL :: duration where
  "CONTROL_STATUS_AUTO_REFRESH_INTERVAL = 2000000000"

datatype operator_tui_entry = EntryDashboard | EntrySetup | EntryDiagnostics | EntryAudit

datatype screen = WelcomeScreen | DashboardScreen | SetupScreen | DiagnosticsScreen | AuditScreen

datatype input_mode = NormalInput | SetupEdit setup_field | AuditSearch

record operator_tui_params =
  tp_startup :: loaded_startup_config
  tp_startup_created :: bool
  tp_audit_limit :: nat

record diagnostics_summary =
  ds_local_self_check :: local_self_check_report
  ds_audit_db_health :: rstr
  ds_dependency_snapshot_status :: rstr
  ds_integrity_verify_result :: rstr
  ds_export_safe_policy_status :: rstr
  ds_confinement_state :: rstr
  ds_writable_paths :: "rstr list"
  ds_recommendations :: "rstr list"

record bot_control_state =
  bc_socket_path :: path
  bc_runtime :: "runtime_control_status option"
  bc_status :: rstr
  bc_stop_armed :: bool

record operator_tui_app =
  ap_startup :: loaded_startup_config
  ap_startup_created :: bool
  ap_saved_config :: bool
  ap_audit_limit :: nat
  ap_language :: ui_language
  ap_screen :: screen
  ap_landing_screen :: screen
  ap_input_mode :: input_mode
  ap_input_buffer :: rstr
  ap_status :: rstr
  ap_last_control_refresh :: instant
  ap_lsm_status :: lsm_status
  ap_hardening_status :: hardening_status
  ap_diagnostics :: diagnostics_summary
  ap_control :: bot_control_state
  ap_setup :: setup_state
  ap_audit :: audit_state

record tui_env =
  te_store :: store_env
  te_store_lib :: store_lib
  te_config_lib :: config_lib
  te_lib :: tui_lib
  te_paths :: path_lib
  te_wire :: wire_lib
  te_connect :: "path \<Rightarrow> rstr + (rstr \<Rightarrow> rstr + rstr)"
  te_audit :: audit_env
  te_opened :: "path \<Rightarrow> rstr + audit_db"
  te_read :: file_reader
  te_arch :: rstr
  te_os :: rstr
  te_mtime :: "path \<Rightarrow> rstr option"
  te_terminal :: "rstr option"
  te_now :: instant
  te_refreshed :: instant

record tui_world =
  tw_fs :: fs
  tw_requests :: "control_request list"

definition on_fs :: "(fs \<Rightarrow> fs \<times> 'a) \<Rightarrow> tui_world \<Rightarrow> tui_world \<times> 'a" where
  "on_fs m w = (let (s, r) = m (tw_fs w) in (w\<lparr>tw_fs := s\<rparr>, r))"

definition note_request :: "control_request \<Rightarrow> tui_world \<Rightarrow> tui_world" where
  "note_request request w = w\<lparr>tw_requests := tw_requests w @ [request]\<rparr>"

abbreviation te_var :: "tui_env \<Rightarrow> rstr \<Rightarrow> rstr option" where
  "te_var env \<equiv> se_var (te_store env)"

definition check_env_of :: "tui_env \<Rightarrow> fs \<Rightarrow> check_env" where
  "check_env_of env s =
     \<lparr>ce_display = tl_display (te_lib env), ce_files = s, ce_audit = te_audit env,
      ce_opened = te_opened env\<rparr>"

text \<open>The messages of \<^verbatim>\<open>StartupConfigError\<close>.\<close>

definition config_error_text :: "startup_config_error \<Rightarrow> rstr" where
  "config_error_text e =
     (case e of
        ReadConfig t \<Rightarrow> lit ''failed to read config: '' @ t
      | CreateConfigDir t \<Rightarrow> lit ''failed to create config directory: '' @ t
      | WriteConfig t \<Rightarrow> lit ''failed to write config: '' @ t
      | TooLarge \<Rightarrow> lit ''config too large''
      | ParseConfig t \<Rightarrow> lit ''failed to parse config: '' @ t
      | Validate t \<Rightarrow> lit ''invalid config: '' @ t
      | Signature t \<Rightarrow> lit ''failed to verify config signature: '' @ t
      | EmbeddedDefault t \<Rightarrow> lit ''embedded default config is invalid: '' @ t)"

section \<open>The diagnostics summary\<close>

definition dependency_snapshot_status :: "tui_env \<Rightarrow> fs \<Rightarrow> path \<Rightarrow> ui_language \<Rightarrow> rstr" where
  "dependency_snapshot_status env s p language =
     (let lib = te_lib env; shown = (lit ''path'', tl_display lib p) in
      if fs_exists s p
      then template lib language (lit ''diagnostics.snapshot_present'')
        [shown, (lit ''mtime'', case te_mtime env p of Some t \<Rightarrow> t
           | None \<Rightarrow> label_of lib language ''common.unknown'')]
      else template lib language (lit ''diagnostics.snapshot_missing'') [shown])"

definition confinement_state :: "tui_lib \<Rightarrow> lsm_status \<Rightarrow> hardening_status \<Rightarrow> ui_language \<Rightarrow> rstr" where
  "confinement_state lib lsm hardening language =
     (case apparmor_profile lsm of
        Some profile \<Rightarrow>
          template lib language (lit ''diagnostics.apparmor_profile'') [(lit ''profile'', profile)]
      | None \<Rightarrow>
          (case selinux_context lsm of
             Some context \<Rightarrow>
               template lib language (lit ''diagnostics.selinux_context'') [(lit ''context'', context)]
           | None \<Rightarrow>
               if active_modules lsm = []
               then template lib language (lit ''diagnostics.unconfined'')
                 [(lit ''summary'', hardening_summary hardening)]
               else template lib language (lit ''diagnostics.lsm_summary'')
                 [(lit ''lsm'', active_lsm_summary lsm),
                  (lit ''summary'', hardening_summary hardening)]))"

definition writable_parent_label :: "tui_lib \<Rightarrow> ui_language \<Rightarrow> string \<Rightarrow> path \<Rightarrow> rstr" where
  "writable_parent_label lib language label_key p =
     template lib language (lit ''diagnostics.persisted_label'')
       [(lit ''label'', label_of lib language label_key),
        (lit ''path'', tl_display lib (parent_or_current p))]"

definition runtime_recommendations ::
  "tui_lib \<Rightarrow> lsm_status \<Rightarrow> hardening_status \<Rightarrow> ui_language \<Rightarrow> rstr list" where
  "runtime_recommendations lib lsm hardening language =
     (if major_lsm lsm = None then [label_of lib language ''recommendation.prefer_lsm''] else []) @
     (if \<not> hardened_x64_requested hardening
      then [label_of lib language ''recommendation.hardened_release''] else []) @
     [label_of lib language ''recommendation.mount_state'',
      label_of lib language ''recommendation.persist_config'']"

definition build_diagnostics_summary ::
  "tui_env \<Rightarrow> fs \<Rightarrow> loaded_startup_config \<Rightarrow> local_self_check_report \<Rightarrow> lsm_status \<Rightarrow> hardening_status \<Rightarrow>
   ui_language \<Rightarrow> diagnostics_summary" where
  "build_diagnostics_summary env s startup report lsm hardening language =
     (let lib = te_lib env; app = ld_app startup; text = label_of lib language;
          snapshot = security_snapshot_path (cfg_diagnostics app) in
      \<lparr>ds_local_self_check = report,
       ds_audit_db_health =
         (case find (\<lambda>i. sci_name i = lit ''audit_db_health'') (lr_items report) of
            Some i \<Rightarrow> sci_detail i | None \<Rightarrow> text ''diagnostics.not_checked''),
       ds_dependency_snapshot_status = dependency_snapshot_status env s snapshot language,
       ds_integrity_verify_result =
         (if config_signature (cfg_integrity app) \<noteq> None then text ''diagnostics.signature_verified''
          else text ''diagnostics.unsigned_config''),
       ds_export_safe_policy_status =
         text ''common.export_cap'' @ lit ''='' @ dec (ac_export_max_rows (cfg_audit app)) @ lit '' '' @
         text ''common.query_cap'' @ lit ''='' @ dec (ac_query_max_rows (cfg_audit app)) @ lit '' '' @
         text ''common.pseudo_id'' @ lit ''='' @
         (if ld_pseudo_id_hmac_key startup \<noteq> None then text ''common.enabled'' else text ''common.disabled''),
       ds_confinement_state = confinement_state lib lsm hardening language,
       ds_writable_paths =
         [writable_parent_label lib language ''common.config'' (ld_config_path startup),
          writable_parent_label lib language ''screen.audit'' (ac_sqlite_path (cfg_audit app)),
          writable_parent_label lib language ''common.security_snapshot'' snapshot],
       ds_recommendations = runtime_recommendations lib lsm hardening language\<rparr>)"

section \<open>Loading what is shown\<close>

definition load_control_state ::
  "tui_env \<Rightarrow> loaded_startup_config \<Rightarrow> ui_language \<Rightarrow> tui_world \<Rightarrow> tui_world \<times> bot_control_state" where
  "load_control_state env startup language w =
     (let lib = te_lib env;
          socket = control_socket_path (te_paths env) (te_var env) (tw_fs w) (ld_config_path startup)
      in (note_request RequestStatus w,
          case request_runtime_status (te_wire env) (te_connect env socket) of
            Inr runtime \<Rightarrow>
              \<lparr>bc_socket_path = socket, bc_runtime = Some runtime,
               bc_status = label_of lib language ''control.status.connected'', bc_stop_armed = False\<rparr>
          | Inl err \<Rightarrow>
              \<lparr>bc_socket_path = socket, bc_runtime = None,
               bc_status = template lib language (lit ''control.status.unavailable'') [(lit ''error'', err)],
               bc_stop_armed = False\<rparr>))"

definition refresh_control_state ::
  "tui_env \<Rightarrow> operator_tui_app \<Rightarrow> tui_world \<Rightarrow> tui_world \<times> operator_tui_app" where
  "refresh_control_state env app w =
     (let (w', control) = load_control_state env (ap_startup app) (ap_language app) w
      in (w', app\<lparr>ap_control := control\<lparr>bc_stop_armed := bc_stop_armed (ap_control app)\<rparr>\<rparr>))"

definition reload_audit :: "tui_env \<Rightarrow> fs \<Rightarrow> operator_tui_app \<Rightarrow> operator_tui_app" where
  "reload_audit env s app =
     app\<lparr>ap_audit := load_audit_state (te_lib env) (check_env_of env s) (ap_startup app)
       (ap_audit_limit app) (ap_language app)\<rparr>"

definition rebuild_diagnostics ::
  "tui_env \<Rightarrow> fs \<Rightarrow> local_self_check_report \<Rightarrow> operator_tui_app \<Rightarrow> operator_tui_app" where
  "rebuild_diagnostics env s report app =
     app\<lparr>ap_diagnostics := build_diagnostics_summary env s (ap_startup app) report
       (ap_lsm_status app) (ap_hardening_status app) (ap_language app)\<rparr>"

definition relocalize_app ::
  "tui_env \<Rightarrow> operator_tui_app \<Rightarrow> tui_world \<Rightarrow> tui_world \<times> operator_tui_app" where
  "relocalize_app env app w =
     (let app1 = rebuild_diagnostics env (tw_fs w) (ds_local_self_check (ap_diagnostics app)) app;
          (w', app2) = refresh_control_state env app1 w
      in (w', reload_audit env (tw_fs w') app2))"

definition switch_language ::
  "tui_env \<Rightarrow> ui_language \<Rightarrow> operator_tui_app \<Rightarrow> tui_world \<Rightarrow> tui_world \<times> operator_tui_app" where
  "switch_language env language app w =
     (let (w', app') = relocalize_app env (app\<lparr>ap_language := language\<rparr>) w
      in (w', app'\<lparr>ap_status :=
           (case language of
              English \<Rightarrow> label_of (te_lib env) language ''status.language_english''
            | Japanese \<Rightarrow> label_of (te_lib env) language ''status.language_japanese'')\<rparr>))"

definition other_language :: "ui_language \<Rightarrow> ui_language" where
  "other_language l = (case l of English \<Rightarrow> Japanese | Japanese \<Rightarrow> English)"

definition refresh_runtime_snapshot ::
  "tui_env \<Rightarrow> operator_tui_app \<Rightarrow> tui_world \<Rightarrow> tui_world \<times> operator_tui_app" where
  "refresh_runtime_snapshot env app w =
     (let app1 = app\<lparr>ap_lsm_status := detect_lsm_status (te_read env),
            ap_hardening_status := detect_hardening_status (te_arch env) (te_os env) (te_var env)\<rparr>;
          app2 = rebuild_diagnostics env (tw_fs w)
            (run_local_self_check (check_env_of env (tw_fs w)) (ap_startup app1)) app1;
          (w', app3) = refresh_control_state env app2 w
      in (w', reload_audit env (tw_fs w') app3))"

definition default_status_message :: "tui_lib \<Rightarrow> bool \<Rightarrow> ui_language \<Rightarrow> rstr" where
  "default_status_message lib created language =
     (if created then label_of lib language ''status.startup_created''
      else label_of lib language ''status.default_nav'')"

section \<open>Keys\<close>

datatype key_code = KeyChar rchar | KeyEnter | KeyEsc | KeyBackspace | KeyLeft | KeyRight | KeyUp | KeyDown | KeyOther

abbreviation key :: "string \<Rightarrow> key_code" where
  "key c \<equiv> KeyChar (hd (lit c))"

abbreviation said :: "tui_env \<Rightarrow> string \<Rightarrow> (rstr \<times> rstr) list \<Rightarrow> operator_tui_app \<Rightarrow> operator_tui_app" where
  "said env k values app \<equiv> app\<lparr>ap_status := template (te_lib env) (ap_language app) (lit k) values\<rparr>"

abbreviation told :: "tui_env \<Rightarrow> string \<Rightarrow> operator_tui_app \<Rightarrow> operator_tui_app" where
  "told env k app \<equiv> app\<lparr>ap_status := label_of (te_lib env) (ap_language app) k\<rparr>"

abbreviation set_armed :: "bool \<Rightarrow> operator_tui_app \<Rightarrow> operator_tui_app" where
  "set_armed b app \<equiv> app\<lparr>ap_control := (ap_control app)\<lparr>bc_stop_armed := b\<rparr>\<rparr>"

definition armed :: "operator_tui_app \<Rightarrow> bool" where
  "armed app \<longleftrightarrow> bc_stop_armed (ap_control app)"

definition handle_welcome_keys ::
  "tui_env \<Rightarrow> key_code \<Rightarrow> operator_tui_app \<Rightarrow> tui_world \<Rightarrow> tui_world \<times> operator_tui_app \<times> bool" where
  "handle_welcome_keys env code app w =
     (if code = key ''q'' then (w, app, True)
      else if code = key ''e'' \<or> code = KeyLeft
      then (let (w', app') = switch_language env English app w in (w', app', False))
      else if code = key ''j'' \<or> code = KeyRight
      then (let (w', app') = switch_language env Japanese app w in (w', app', False))
      else if code = key ''l''
      then (let (w', app') = switch_language env (other_language (ap_language app)) app w
            in (w', app', False))
      else if code = KeyEnter
      then (w, app\<lparr>ap_screen := ap_landing_screen app,
             ap_status := default_status_message (te_lib env) (ap_startup_created app) (ap_language app)\<rparr>,
           False)
      else (w, app, False))"

text \<open>Saving: validate, write, load again, and refresh everything that depends on the configuration.\<close>

definition save_draft ::
  "tui_env \<Rightarrow> operator_tui_app \<Rightarrow> tui_world \<Rightarrow> tui_world \<times> (rstr + operator_tui_app)" where
  "save_draft env app =
     (let p = ld_config_path (ap_startup app); draft = ss_draft (ap_setup app) in
      io_bind (map_err config_error_text (io_lift (validate_startup_config draft))) (\<lambda>_.
      io_bind (map_err config_error_text
          (on_fs (write_startup_config_to_path (te_store env) (te_store_lib env) p draft))) (\<lambda>_.
      io_bind (\<lambda>w. map_err config_error_text
          (io_lift (load_startup_config_from_path (te_store env) (te_store_lib env) p (tw_fs w))) w) (\<lambda>startup w.
      (let app1 = app\<lparr>ap_startup := startup\<rparr>;
           app2 = rebuild_diagnostics env (tw_fs w)
             (run_local_self_check (check_env_of env (tw_fs w)) startup) app1;
           (w1, control) = load_control_state env startup (ap_language app2) w;
           app3 = reload_audit env (tw_fs w1) (app2\<lparr>ap_control := control\<rparr>)
       in (w1, Inr (said env ''status.saved''
            [(lit ''path'', tl_display (te_lib env) (ld_config_path startup))]
            (app3\<lparr>ap_saved_config := True\<rparr>))))))))"

abbreviation on_setup :: "(setup_state \<Rightarrow> setup_state) \<Rightarrow> operator_tui_app \<Rightarrow> operator_tui_app" where
  "on_setup f app \<equiv> app\<lparr>ap_setup := f (ap_setup app)\<rparr>"

abbreviation go_to_page :: "setup_page \<Rightarrow> setup_state \<Rightarrow> setup_state" where
  "go_to_page p st \<equiv> st\<lparr>ss_page := p, ss_selected := 0\<rparr>"

definition with_field :: "(setup_field \<Rightarrow> operator_tui_app \<Rightarrow> operator_tui_app) \<Rightarrow> operator_tui_app \<Rightarrow> operator_tui_app" where
  "with_field f app = (case selected_setup_field (ap_setup app) of Some field \<Rightarrow> f field app | None \<Rightarrow> app)"

definition setup_key :: "tui_env \<Rightarrow> key_code \<Rightarrow> operator_tui_app \<Rightarrow> operator_tui_app" where
  "setup_key env code app =
     (let st = ap_setup app in
      if code = KeyLeft then on_setup (go_to_page (previous_setup_page (ss_page st))) app
      else if code = KeyRight then on_setup (go_to_page (next_setup_page (ss_page st))) app
      else if code = key ''p'' then on_setup (ss_page_update (\<lambda>_. PreviewPage)) app
      else if code = KeyUp \<and> ss_selected st > 0
      then on_setup (ss_selected_update (\<lambda>n. n - 1)) app
      else if code = KeyDown
      then (if ss_selected st + 1 < length (setup_fields_for_page (ss_page st))
            then on_setup (ss_selected_update (\<lambda>n. n + 1)) app else app)
      else if code = key ''d''
      then with_field (\<lambda>field app. said env ''status.restore_default''
             [(lit ''field'', setup_field_label field)]
             (on_setup (restore_default_for_field field) app)) app
      else if code = KeyEnter \<or> code = key ''e''
      then with_field (\<lambda>field app. app\<lparr>ap_input_mode := SetupEdit field, ap_input_buffer := []\<rparr>) app
      else if code = key '' '' then with_field (\<lambda>field. on_setup (cycle_field_value field)) app
      else app)"

definition handle_setup_normal_keys ::
  "tui_env \<Rightarrow> key_code \<Rightarrow> operator_tui_app \<Rightarrow> tui_world \<Rightarrow> tui_world \<times> (rstr + operator_tui_app)" where
  "handle_setup_normal_keys env code app =
     (if code = key ''s''
      then (if ss_page (ap_setup app) \<noteq> PreviewPage then io_return (told env ''status.move_preview'' app)
            else save_draft env app)
      else io_return (setup_key env code app))"

text \<open>What a key does to the input line; the two editors share it.\<close>

definition edit_buffer :: "key_code \<Rightarrow> rstr \<Rightarrow> rstr" where
  "edit_buffer code buffer =
     (case code of
        KeyBackspace \<Rightarrow> butlast buffer
      | KeyChar ch \<Rightarrow> if str_len buffer < MAX_INPUT_BUFFER_LEN then buffer @ [ch] else buffer
      | _ \<Rightarrow> buffer)"

definition handle_setup_edit_keys ::
  "tui_env \<Rightarrow> setup_field \<Rightarrow> key_code \<Rightarrow> operator_tui_app \<Rightarrow> rstr + operator_tui_app \<times> bool" where
  "handle_setup_edit_keys env field code app =
     (if code = KeyEsc then Inr (app, True)
      else if code = KeyEnter
      then rbind (apply_custom_field_input (te_lib env) (ap_language app) field (ap_input_buffer app)
          (ap_setup app)) (\<lambda>st.
        Inr (said env ''status.updated'' [(lit ''field'', setup_field_label field)]
          (app\<lparr>ap_setup := st\<rparr>)\<lparr>ap_input_buffer := []\<rparr>, True))
      else Inr (app\<lparr>ap_input_buffer := edit_buffer code (ap_input_buffer app)\<rparr>, False))"

definition handle_audit_normal_keys ::
  "tui_env \<Rightarrow> key_code \<Rightarrow> operator_tui_app \<Rightarrow> fs \<Rightarrow> operator_tui_app" where
  "handle_audit_normal_keys env code app s =
     (let a = ap_audit app in
      if code = key ''/'' then app\<lparr>ap_input_mode := AuditSearch, ap_input_buffer := au_search a\<rparr>
      else if code = key ''o'' then app\<lparr>ap_audit := a\<lparr>au_sort := next_audit_sort (au_sort a)\<rparr>\<rparr>
      else if code = key ''m'' then app\<lparr>ap_audit := a\<lparr>au_mode_filter := next_mode_filter (au_mode_filter a)\<rparr>\<rparr>
      else if code = key ''r'' then reload_audit env s app
      else app)"

definition handle_audit_search_keys ::
  "tui_env \<Rightarrow> key_code \<Rightarrow> operator_tui_app \<Rightarrow> operator_tui_app \<times> bool" where
  "handle_audit_search_keys env code app =
     (if code = KeyEsc then (app, True)
      else if code = KeyEnter
      then (let search = take MAX_AUDIT_SEARCH_LEN (str_trim (ap_input_buffer app))
            in (said env ''status.audit_search_updated''
                  [(lit ''search'', tl_debug_str (te_lib env) search)]
                  (app\<lparr>ap_audit := (ap_audit app)\<lparr>au_search := search\<rparr>\<rparr>), True))
      else (app\<lparr>ap_input_buffer := edit_buffer code (ap_input_buffer app)\<rparr>, False))"

text \<open>The second \<^verbatim>\<open>x\<close> sends the request; it disarms whatever the answer.\<close>

definition send_stop ::
  "tui_env \<Rightarrow> operator_tui_app \<Rightarrow> tui_world \<Rightarrow> tui_world \<times> operator_tui_app" where
  "send_stop env app w =
     (let socket = control_socket_path (te_paths env) (te_var env) (tw_fs w) (ld_config_path (ap_startup app));
          answer = request_runtime_stop (te_wire env) (te_connect env socket) (lit ''tui'');
          (w', app') = refresh_control_state env (set_armed False app)
            (note_request (RequestStop (lit ''tui'')) w)
      in (w', case answer of
            Inr message \<Rightarrow> said env ''status.stop_requested'' [(lit ''message'', message)] app'
          | Inl err \<Rightarrow> said env ''status.stop_failed'' [(lit ''error'', err)] app'))"

definition screen_of_key :: "key_code \<Rightarrow> screen option" where
  "screen_of_key code =
     (if code = key ''1'' then Some DashboardScreen else if code = key ''2'' then Some SetupScreen
      else if code = key ''3'' then Some DiagnosticsScreen else if code = key ''4'' then Some AuditScreen
      else None)"

definition common_key ::
  "tui_env \<Rightarrow> key_code \<Rightarrow> operator_tui_app \<Rightarrow> tui_world \<Rightarrow> tui_world \<times> operator_tui_app" where
  "common_key env code app w =
     (if code = key ''l'' then switch_language env (other_language (ap_language app)) app w
      else if code = key ''R''
      then (let (w', app') = refresh_runtime_snapshot env app w in (w', told env ''status.runtime_refreshed'' app'))
      else (w, case screen_of_key code of Some sc \<Rightarrow> app\<lparr>ap_screen := sc\<rparr> | None \<Rightarrow> app))"

definition screen_keys ::
  "tui_env \<Rightarrow> key_code \<Rightarrow> operator_tui_app \<Rightarrow> tui_world \<Rightarrow> tui_world \<times> (rstr + operator_tui_app)" where
  "screen_keys env code app w =
     (case ap_screen app of
        SetupScreen \<Rightarrow> handle_setup_normal_keys env code app w
      | AuditScreen \<Rightarrow> (w, Inr (handle_audit_normal_keys env code app (tw_fs w)))
      | _ \<Rightarrow> (w, Inr app))"

definition handle_global_keys ::
  "tui_env \<Rightarrow> key_code \<Rightarrow> operator_tui_app \<Rightarrow> tui_world \<Rightarrow> tui_world \<times> (rstr + operator_tui_app \<times> bool)" where
  "handle_global_keys env code app w =
     (if ap_screen app = WelcomeScreen then map_prod id Inr (handle_welcome_keys env code app w)
      else if code = key ''x''
      then (if armed app then (let (w', app') = send_stop env app w in (w', Inr (app', False)))
            else (w, Inr (told env ''status.stop_confirm'' (set_armed True app), False)))
      else if code = KeyEsc \<and> armed app
      then (w, Inr (told env ''status.stop_cancelled'' (set_armed False app), False))
      else if code = key ''q'' then (w, Inr (app, True))
      else (let (w1, app1) = common_key env code app w
            in io_bind (screen_keys env code (set_armed False app1)) (\<lambda>app2. io_return (app2, False)) w1))"

section \<open>Keys in every mode\<close>

definition is_force_quit_key :: "key_code \<Rightarrow> bool \<Rightarrow> bool" where
  "is_force_quit_key code control \<longleftrightarrow>
     code = key ''Q'' \<or> (code = key ''c'' \<or> code = key ''C'') \<and> control"

definition should_auto_refresh_control :: "instant \<Rightarrow> operator_tui_app \<Rightarrow> bool" where
  "should_auto_refresh_control now app \<longleftrightarrow>
     ap_input_mode app = NormalInput \<and> ap_screen app \<in> {DashboardScreen, DiagnosticsScreen} \<and>
     now - ap_last_control_refresh app \<ge> CONTROL_STATUS_AUTO_REFRESH_INTERVAL"

definition auto_refresh ::
  "tui_env \<Rightarrow> operator_tui_app \<Rightarrow> tui_world \<Rightarrow> tui_world \<times> operator_tui_app" where
  "auto_refresh env app w =
     (if should_auto_refresh_control (te_now env) app
      then (let (w', app') = refresh_control_state env app w
            in (w', app'\<lparr>ap_last_control_refresh := te_refreshed env\<rparr>))
      else (w, app))"

definition handle_key ::
  "tui_env \<Rightarrow> key_code \<Rightarrow> operator_tui_app \<Rightarrow> tui_world \<Rightarrow> tui_world \<times> (rstr + operator_tui_app \<times> bool)" where
  "handle_key env code app w =
     (case ap_input_mode app of
        NormalInput \<Rightarrow> handle_global_keys env code app w
      | SetupEdit field \<Rightarrow>
          (w, rbind (handle_setup_edit_keys env field code app) (\<lambda>(app', left).
            Inr (if left then app'\<lparr>ap_input_mode := NormalInput\<rparr> else app', False)))
      | AuditSearch \<Rightarrow>
          (let (app', left) = handle_audit_search_keys env code app
           in (w, Inr (if left then app'\<lparr>ap_input_mode := NormalInput\<rparr> else app', False))))"

section \<open>What a key can change\<close>

definition is_stop :: "control_request \<Rightarrow> bool" where
  "is_stop r \<longleftrightarrow> r \<noteq> RequestStatus"

definition stops :: "tui_world \<Rightarrow> nat" where
  "stops w = length (filter is_stop (tw_requests w))"

definition quiet :: "tui_world \<Rightarrow> tui_world \<Rightarrow> bool" where
  "quiet w w' \<longleftrightarrow> tw_fs w' = tw_fs w \<and> stops w' = stops w"

definition same_view :: "operator_tui_app \<Rightarrow> operator_tui_app \<Rightarrow> bool" where
  "same_view app app' \<longleftrightarrow>
     ap_screen app' = ap_screen app \<and> ap_input_mode app' = ap_input_mode app \<and>
     ap_input_buffer app' = ap_input_buffer app \<and> ap_setup app' = ap_setup app \<and>
     ap_saved_config app' = ap_saved_config app \<and> ap_startup app' = ap_startup app \<and>
     ap_landing_screen app' = ap_landing_screen app \<and>
     armed app' = armed app \<and> (au_search (ap_audit app') = [] \<or> au_search (ap_audit app') = au_search (ap_audit app))"

lemma quiet_refl [simp]: "quiet w w" by (simp add: quiet_def)

lemma quiet_trans: "quiet w w1 \<Longrightarrow> quiet w1 w2 \<Longrightarrow> quiet w w2" by (simp add: quiet_def)

lemma same_view_refl [simp]: "same_view app app" by (simp add: same_view_def)

lemma same_view_trans: "same_view app app1 \<Longrightarrow> same_view app1 app2 \<Longrightarrow> same_view app app2"
  by (auto simp: same_view_def)

lemma note_status [simp]: "quiet w (note_request RequestStatus w)"
  by (simp add: quiet_def note_request_def stops_def is_stop_def)

lemma load_control_facts:
  "load_control_state env startup language w = (w', c) \<Longrightarrow> quiet w w' \<and> \<not> bc_stop_armed c"
  by (auto simp: load_control_state_def Let_def split: sum.splits)

lemma refresh_control_facts:
  "refresh_control_state env app w = (w', app') \<Longrightarrow> quiet w w' \<and> same_view app app'"
  by (auto simp: refresh_control_state_def same_view_def armed_def dest: load_control_facts split: prod.splits)

lemma fresh_search [simp]: "au_search (load_audit_state lib env startup n language) = []"
  by (simp add: load_audit_state_def fresh_audit_state_def Let_def split: sum.split)

lemma same_view_updates [simp]:
  "same_view app (reload_audit env s app') \<longleftrightarrow> same_view app (app'\<lparr>ap_audit := (ap_audit app')\<lparr>au_search := []\<rparr>\<rparr>)"
  "same_view app (rebuild_diagnostics env s report app') \<longleftrightarrow> same_view app app'"
  "same_view app (app'\<lparr>ap_status := t\<rparr>) \<longleftrightarrow> same_view app app'"
  "same_view app (app'\<lparr>ap_language := l\<rparr>) \<longleftrightarrow> same_view app app'"
  "same_view app (app'\<lparr>ap_lsm_status := x, ap_hardening_status := y\<rparr>) \<longleftrightarrow> same_view app app'"
  "same_view app (app'\<lparr>ap_last_control_refresh := n\<rparr>) \<longleftrightarrow> same_view app app'"
  by (simp_all add: same_view_def armed_def reload_audit_def rebuild_diagnostics_def)

lemma same_view_search: "same_view app app' \<Longrightarrow> same_view app (app'\<lparr>ap_audit := (ap_audit app')\<lparr>au_search := []\<rparr>\<rparr>)"
  by (simp add: same_view_def armed_def)

lemma relocalize_facts:
  assumes "relocalize_app env app w = (w', app')" shows "quiet w w' \<and> same_view app app'"
proof -
  obtain w1 app1 where r: "refresh_control_state env
      (rebuild_diagnostics env (tw_fs w) (ds_local_self_check (ap_diagnostics app)) app) w = (w1, app1)" by force
  from refresh_control_facts[OF this] have "quiet w w1" and
    "same_view (rebuild_diagnostics env (tw_fs w) (ds_local_self_check (ap_diagnostics app)) app) app1" by auto
  moreover have "same_view app (rebuild_diagnostics env (tw_fs w) (ds_local_self_check (ap_diagnostics app)) app)" by simp
  ultimately have "same_view app app1" by (blast intro: same_view_trans)
  with \<open>quiet w w1\<close> r assms show ?thesis by (auto simp: relocalize_app_def intro: same_view_search)
qed

lemma switch_language_facts:
  assumes "switch_language env language app w = (w', app')" shows "quiet w w' \<and> same_view app app'"
proof -
  obtain w1 app1 where r: "relocalize_app env (app\<lparr>ap_language := language\<rparr>) w = (w1, app1)" by force
  have "same_view app app1"
    using relocalize_facts[OF r] by (auto intro: same_view_trans[of app "app\<lparr>ap_language := language\<rparr>"])
  moreover have "quiet w w1" using relocalize_facts[OF r] by simp
  ultimately have "quiet w w1" "same_view app app1" by simp_all
  with r assms show ?thesis by (auto simp: switch_language_def)
qed

lemma snapshot_facts:
  assumes "refresh_runtime_snapshot env app w = (w', app')" shows "quiet w w' \<and> same_view app app'"
proof -
  let ?app1 = "app\<lparr>ap_lsm_status := detect_lsm_status (te_read env),
    ap_hardening_status := detect_hardening_status (te_arch env) (te_os env) (te_var env)\<rparr>"
  let ?app2 = "rebuild_diagnostics env (tw_fs w)
    (run_local_self_check (check_env_of env (tw_fs w)) (ap_startup ?app1)) ?app1"
  obtain w1 app3 where r: "refresh_control_state env ?app2 w = (w1, app3)" by force
  have "same_view app ?app2" by simp
  with refresh_control_facts[OF r] have "quiet w w1" "same_view app app3" by (blast intro: same_view_trans)+
  with r assms show ?thesis
    by (auto simp: refresh_runtime_snapshot_def Let_def intro: same_view_search)
qed

lemma auto_refresh_facts:
  "auto_refresh env app w = (w', app') \<Longrightarrow> quiet w w' \<and> same_view app app'"
  by (auto simp: auto_refresh_def dest: refresh_control_facts split: if_splits prod.splits)

lemma common_key_facts:
  assumes "common_key env code app w = (w', app')"
  shows "quiet w w' \<and> (same_view app app' \<or> (\<exists>sc. sc \<noteq> WelcomeScreen \<and> screen_of_key code = Some sc \<and> app' = app\<lparr>ap_screen := sc\<rparr>))"
  using assms
  by (auto simp: common_key_def screen_of_key_def dest: switch_language_facts snapshot_facts
      split: if_splits prod.splits option.splits)

lemma welcome_facts:
  assumes "handle_welcome_keys env code app w = (w', app', stop)"
  shows "quiet w w' \<and> (same_view app app' \<or> (\<exists>t. app' = app\<lparr>ap_screen := ap_landing_screen app, ap_status := t\<rparr>))"
  using assms
  by (auto simp: handle_welcome_keys_def dest: switch_language_facts split: if_splits prod.splits)

lemma send_stop_facts:
  assumes "send_stop env app w = (w', app')"
  shows "tw_fs w' = tw_fs w \<and> stops w' = Suc (stops w) \<and> same_view (set_armed False app) app'"
proof -
  obtain w1 app1 where r: "refresh_control_state env (set_armed False app)
      (note_request (RequestStop (lit ''tui'')) w) = (w1, app1)" by force
  have "stops (note_request (RequestStop (lit ''tui'')) w) = Suc (stops w)"
    "tw_fs (note_request (RequestStop (lit ''tui'')) w) = tw_fs w"
    by (simp_all add: note_request_def stops_def is_stop_def)
  with refresh_control_facts[OF r] r assms show ?thesis
    by (auto simp: send_stop_def quiet_def Let_def split: sum.splits)
qed

definition saves :: "tui_env \<Rightarrow> operator_tui_app \<Rightarrow> fs \<Rightarrow> fs \<Rightarrow> bool" where
  "saves env app s s' \<longleftrightarrow>
     validate_config (ss_draft (ap_setup app)) = Inr () \<and>
     write_startup_config_to_path (te_store env) (te_store_lib env) (ld_config_path (ap_startup app))
       (ss_draft (ap_setup app)) s = (s', Inr ()) \<and>
     (\<exists>startup. load_startup_config_from_path (te_store env) (te_store_lib env)
       (ld_config_path (ap_startup app)) s' = Inr startup)"

lemma io_step_Inr: "io_bind m f s = (s', Inr b) \<longleftrightarrow> (\<exists>t a. m s = (t, Inr a) \<and> f a t = (s', Inr b))"
  by (auto simp: io_bind_def split: prod.splits sum.splits)

lemma map_err_step: "map_err g m s = (s', Inr b) \<longleftrightarrow> m s = (s', Inr b)"
  by (auto simp: map_err_def split: prod.splits sum.splits)

lemma on_fs_eq: "on_fs m w = (w', r) \<longleftrightarrow> m (tw_fs w) = (tw_fs w', r) \<and> tw_requests w' = tw_requests w"
  by (cases w; cases w') (auto simp: on_fs_def split: prod.splits)

lemma save_draft_facts:
  assumes "save_draft env app w = (w', Inr app')"
  shows "saves env app (tw_fs w) (tw_fs w') \<and> stops w' = stops w \<and> ap_saved_config app' \<and> \<not> armed app' \<and>
    au_search (ap_audit app') = [] \<and> ap_screen app' = ap_screen app \<and> ap_input_mode app' = ap_input_mode app \<and>
    ap_input_buffer app' = ap_input_buffer app \<and> ap_setup app' = ap_setup app \<and>
    ap_landing_screen app' = ap_landing_screen app \<and>
    ld_config_path (ap_startup app') = ld_config_path (ap_startup app)"
proof -
  let ?p = "ld_config_path (ap_startup app)"
  from assms obtain w1 startup where valid: "validate_startup_config (ss_draft (ap_setup app)) = Inr ()"
    and wr: "on_fs (write_startup_config_to_path (te_store env) (te_store_lib env) ?p
      (ss_draft (ap_setup app))) w = (w1, Inr ())"
    and ld: "load_startup_config_from_path (te_store env) (te_store_lib env) ?p (tw_fs w1) = Inr startup"
    and rest: "(let app1 = app\<lparr>ap_startup := startup\<rparr>;
           app2 = rebuild_diagnostics env (tw_fs w1)
             (run_local_self_check (check_env_of env (tw_fs w1)) startup) app1;
           (w2, control) = load_control_state env startup (ap_language app2) w1;
           app3 = reload_audit env (tw_fs w2) (app2\<lparr>ap_control := control\<rparr>)
       in (w2, Inr (said env ''status.saved''
            [(lit ''path'', tl_display (te_lib env) (ld_config_path startup))]
            (app3\<lparr>ap_saved_config := True\<rparr>)))) = (w', Inr app' :: rstr + operator_tui_app)"
    by (auto simp: save_draft_def io_step_Inr map_err_step Let_def)
  have "ld_config_path startup = ?p"
    using ld by (auto simp: load_startup_config_from_path_def rbind_Inr split: sum.splits if_splits)
  moreover have "tw_fs w' = tw_fs w1 \<and> stops w' = stops w1"
    using rest by (auto simp: Let_def quiet_def dest!: load_control_facts split: prod.splits)
  moreover have "ap_saved_config app' \<and> \<not> armed app' \<and>
    au_search (ap_audit app') = [] \<and> ap_screen app' = ap_screen app \<and> ap_input_mode app' = ap_input_mode app \<and>
    ap_input_buffer app' = ap_input_buffer app \<and> ap_setup app' = ap_setup app \<and>
    ap_landing_screen app' = ap_landing_screen app \<and> ap_startup app' = startup"
    using rest by (auto simp: Let_def armed_def reload_audit_def rebuild_diagnostics_def
        dest!: load_control_facts split: prod.splits)
  ultimately show ?thesis
    using valid wr ld by (auto simp: saves_def on_fs_eq stops_def validate_startup_config_def)
qed

section \<open>What holds in every state\<close>

definition tui_inv :: "operator_tui_app \<Rightarrow> bool" where
  "tui_inv app \<longleftrightarrow>
     (armed app \<longrightarrow> ap_input_mode app = NormalInput \<and> ap_screen app \<noteq> WelcomeScreen) \<and>
     str_len (ap_input_buffer app) \<le> MAX_INPUT_BUFFER_LEN + 3 \<and>
     length (au_search (ap_audit app)) \<le> MAX_AUDIT_SEARCH_LEN \<and>
     ap_landing_screen app \<noteq> WelcomeScreen \<and>
     (ss_page (ap_setup app) = PreviewPage \<or> ss_selected (ap_setup app) = 0 \<or>
      ss_selected (ap_setup app) < length (setup_fields_for_page (ss_page (ap_setup app)))) \<and>
     (\<forall>field. ap_input_mode app = SetupEdit field \<longrightarrow>
        ap_screen app = SetupScreen \<and> selected_setup_field (ap_setup app) = Some field) \<and>
     (ap_input_mode app = AuditSearch \<longrightarrow> ap_screen app = AuditScreen)"

lemma same_view_inv: "same_view app app' \<Longrightarrow> tui_inv app \<Longrightarrow> tui_inv app'"
  by (auto simp: same_view_def tui_inv_def)

lemma char_bytes: "length (utf8_char c) \<le> 4"
  by (simp add: utf8_char_def)

lemma edit_buffer_bound:
  "str_len b \<le> MAX_INPUT_BUFFER_LEN + 3 \<Longrightarrow> str_len (edit_buffer code b) \<le> MAX_INPUT_BUFFER_LEN + 3"
proof -
  assume b: "str_len b \<le> MAX_INPUT_BUFFER_LEN + 3"
  have "str_len (butlast b) \<le> str_len b" by (cases b rule: rev_cases) (simp_all add: str_len_def)
  moreover have "str_len (b @ [c]) \<le> MAX_INPUT_BUFFER_LEN + 3" if "str_len b < MAX_INPUT_BUFFER_LEN" for c
    using that char_bytes[of c] by (simp add: str_len_def)
  ultimately show ?thesis using b by (auto simp: edit_buffer_def split: key_code.split)
qed

lemma short_bytes: "str_len t \<le> 4 * length t"
  using char_bytes by (induction t) (auto simp: str_len_def intro: add_mono order_trans)

lemma setup_key_inv:
  assumes "tui_inv app" and "ap_screen app = SetupScreen" and "ap_input_mode app = NormalInput" and "\<not> armed app"
  shows "tui_inv (setup_key env code app)"
proof -
  have sel: "ss_page st = p \<Longrightarrow> ss_selected st = n \<Longrightarrow> selected_setup_field st =
    (if n < length (setup_fields_for_page p) then Some (setup_fields_for_page p ! n) else None)" for st p n
    by (simp add: selected_setup_field_def)
  show ?thesis
    using assms
    by (auto simp: setup_key_def tui_inv_def armed_def with_field_def restore_default_for_field_def
        cycle_field_value_def str_len_def Let_def sel split: option.split)
qed

text \<open>What a turn with a key may do to the state: nothing, send one request, or save.\<close>

definition key_effect ::
  "tui_env \<Rightarrow> key_code \<Rightarrow> operator_tui_app \<Rightarrow> tui_world \<Rightarrow> tui_world \<Rightarrow> operator_tui_app \<Rightarrow> bool" where
  "key_effect env code app w w' app' \<longleftrightarrow>
     ld_config_path (ap_startup app') = ld_config_path (ap_startup app) \<and>
     (quiet w w' \<and> ap_saved_config app' = ap_saved_config app \<or>
      tw_fs w' = tw_fs w \<and> ap_saved_config app' = ap_saved_config app \<and> stops w' = Suc (stops w) \<and>
        code = key ''x'' \<and> armed app \<and> \<not> armed app' \<or>
      saves env app (tw_fs w) (tw_fs w') \<and> ap_saved_config app' \<and> stops w' = stops w \<and>
        code = key ''s'' \<and> ap_screen app = SetupScreen \<and> ss_page (ap_setup app) = PreviewPage)"

lemma same_view_effect: "quiet w w' \<Longrightarrow> same_view app app' \<Longrightarrow> key_effect env code app w w' app'"
  by (simp add: key_effect_def same_view_def)

lemma setup_key_keeps [simp]:
  "ap_startup (setup_key env code app) = ap_startup app"
  "ap_saved_config (setup_key env code app) = ap_saved_config app"
  "armed (setup_key env code app) = armed app"
  by (auto simp: setup_key_def with_field_def armed_def Let_def split: option.split)

lemma welcome_step:
  assumes "handle_welcome_keys env code app w = (w', app', stop)" and "tui_inv app"
    and "ap_screen app = WelcomeScreen" and "ap_input_mode app = NormalInput"
  shows "tui_inv app' \<and> \<not> armed app' \<and> key_effect env code app w w' app'"
proof -
  have off: "\<not> armed app" using assms(2,3) by (auto simp: tui_inv_def)
  from welcome_facts[OF assms(1)] have q: "quiet w w'" by simp
  from welcome_facts[OF assms(1)] consider "same_view app app'"
    | t where "app' = app\<lparr>ap_screen := ap_landing_screen app, ap_status := t\<rparr>" by blast
  then show ?thesis
  proof cases
    case 1
    then show ?thesis
      using off q same_view_inv[OF 1 assms(2)] same_view_effect[OF q 1] by (simp add: same_view_def)
  next
    case 2
    then show ?thesis
      using off q assms(2,4) by (auto simp: tui_inv_def key_effect_def armed_def)
  qed
qed

lemma audit_key_facts:
  "same_view app (handle_audit_normal_keys env code app s) \<or>
   handle_audit_normal_keys env code app s =
     app\<lparr>ap_input_mode := AuditSearch, ap_input_buffer := au_search (ap_audit app)\<rparr>"
proof (cases "code = key ''/''")
  case True
  then show ?thesis by (simp add: handle_audit_normal_keys_def)
next
  case False
  then show ?thesis
    by (simp add: handle_audit_normal_keys_def Let_def same_view_search) (simp add: same_view_def armed_def)
qed

lemma screen_step:
  assumes "screen_keys env code app w = (w', Inr app')" and "tui_inv app"
    and "ap_input_mode app = NormalInput" and "\<not> armed app"
  shows "tui_inv app' \<and> \<not> armed app' \<and> key_effect env code app w w' app'"
proof (cases "ap_screen app = SetupScreen")
  case True
  then have hk: "handle_setup_normal_keys env code app w = (w', Inr app')"
    using assms(1) by (simp add: screen_keys_def)
  show ?thesis
  proof (cases "code = key ''s'' \<and> ss_page (ap_setup app) = PreviewPage")
    case save: True
    with hk have "save_draft env app w = (w', Inr app')" by (simp add: handle_setup_normal_keys_def)
    from save_draft_facts[OF this] assms(2-) True save show ?thesis
      by (auto simp: tui_inv_def key_effect_def)
  next
    case False
    then have w': "w' = w" and app': "app' = told env ''status.move_preview'' app \<or> app' = setup_key env code app"
      using hk by (auto simp: handle_setup_normal_keys_def split: if_splits)
    from app' show ?thesis
    proof
      assume a: "app' = told env ''status.move_preview'' app"
      then have "same_view app app'" by simp
      then show ?thesis
        using same_view_inv[OF _ assms(2)] same_view_effect[of w w' app app' env code] assms(4)
        by (simp add: w' same_view_def)
    next
      assume "app' = setup_key env code app"
      then show ?thesis
        using setup_key_inv[OF assms(2) True assms(3,4), of env code] assms(4) by (simp add: w' key_effect_def)
    qed
  qed
next
  case False
  then have w': "w' = w" and app': "app' = app \<or>
      ap_screen app = AuditScreen \<and> app' = handle_audit_normal_keys env code app (tw_fs w)"
    using assms(1) by (auto simp: screen_keys_def split: screen.splits)
  have "length (au_search (ap_audit app)) \<le> MAX_AUDIT_SEARCH_LEN" using assms(2) by (simp add: tui_inv_def)
  then have short: "str_len (au_search (ap_audit app)) \<le> MAX_INPUT_BUFFER_LEN + 3"
    using short_bytes[of "au_search (ap_audit app)"] by (simp add: MAX_AUDIT_SEARCH_LEN_def MAX_INPUT_BUFFER_LEN_def)
  from app' consider "same_view app app'" | "ap_screen app = AuditScreen"
      "app' = app\<lparr>ap_input_mode := AuditSearch, ap_input_buffer := au_search (ap_audit app)\<rparr>"
    using audit_key_facts by (metis same_view_refl)
  then show ?thesis
  proof cases
    case 1
    then show ?thesis
      using same_view_inv[OF 1 assms(2)] same_view_effect[of w w' app app' env code] assms(4)
      by (simp add: w' same_view_def)
  next
    case 2
    then show ?thesis using short assms(2-) by (simp add: w' key_effect_def tui_inv_def armed_def)
  qed
qed

lemma leaving_step:
  assumes step: "handle_global_keys env code app w = (w', Inr (app', stop))"
    and "tui_inv app" "ap_input_mode app = NormalInput" and screen: "ap_screen app \<noteq> WelcomeScreen"
    and code: "code = key ''x'' \<or> code = KeyEsc \<and> armed app \<or> code = key ''q''"
  shows "tui_inv app' \<and> (armed app' \<longrightarrow> stop \<or> code = key ''x'') \<and> key_effect env code app w w' app'"
proof (cases "code = key ''x'' \<and> armed app")
  case sent: True
  obtain w1 app1 where s: "send_stop env app w = (w1, app1)" by force
  with step screen sent have eq: "w' = w1" "app' = app1" by (simp_all add: handle_global_keys_def)
  have "tui_inv (set_armed False app)" using assms(2) by (simp add: tui_inv_def armed_def)
  then show ?thesis
    using send_stop_facts[OF s] sent same_view_inv[of "set_armed False app" app1]
    by (auto simp: eq key_effect_def same_view_def armed_def)
next
  case False
  with assms show ?thesis
    by (auto simp: handle_global_keys_def key_effect_def tui_inv_def armed_def lit_def split: if_splits)
qed

lemma global_step:
  assumes "handle_global_keys env code app w = (w', Inr (app', stop))" and "tui_inv app"
    and "ap_input_mode app = NormalInput"
  shows "tui_inv app' \<and> (armed app' \<longrightarrow> stop \<or> code = key ''x'') \<and> key_effect env code app w w' app'"
proof (cases "ap_screen app = WelcomeScreen \<or> code = key ''x'' \<or> code = KeyEsc \<and> armed app \<or> code = key ''q''")
  case True
  show ?thesis
  proof (cases "ap_screen app = WelcomeScreen")
    case start: True
    with assms(1) have "handle_welcome_keys env code app w = (w', app', stop)"
      by (cases "handle_welcome_keys env code app w") (simp add: handle_global_keys_def)
    from welcome_step[OF this assms(2) start assms(3)] show ?thesis by simp
  qed (use True leaving_step[OF assms] in blast)
next
  case other: False
  obtain w1 app1 where c: "common_key env code app w = (w1, app1)" by force
  with assms(1) other obtain app2 where sk: "screen_keys env code (set_armed False app1) w1 = (w', Inr app2)"
    and result: "app' = app2" "\<not> stop"
    by (auto simp: handle_global_keys_def io_step_Inr)
  from common_key_facts[OF c] have q: "quiet w w1" by simp
  from common_key_facts[OF c] consider "same_view app app1"
    | sc where "sc \<noteq> WelcomeScreen" "screen_of_key code = Some sc" "app1 = app\<lparr>ap_screen := sc\<rparr>" by blast
  then show ?thesis
  proof cases
    case 1
    then have inv1: "tui_inv (set_armed False app1)"
      using same_view_inv[OF 1 assms(2)] by (simp add: tui_inv_def armed_def)
    have "ap_input_mode (set_armed False app1) = NormalInput" using 1 assms(3) by (simp add: same_view_def)
    from screen_step[OF sk inv1 this] have s: "tui_inv app2" "\<not> armed app2"
      "key_effect env code (set_armed False app1) w1 w' app2" by (auto simp: armed_def)
    then show ?thesis
      using q 1 result by (auto simp: key_effect_def quiet_def same_view_def saves_def armed_def)
  next
    case 2
    then have inv1: "tui_inv (set_armed False app1)" and m: "ap_input_mode (set_armed False app1) = NormalInput"
      using assms(2,3) by (simp_all add: tui_inv_def armed_def)
    from screen_step[OF sk inv1 m] have s: "tui_inv app2" "\<not> armed app2"
      "key_effect env code (set_armed False app1) w1 w' app2" by (auto simp: armed_def)
    moreover have "code \<noteq> key ''s''" using 2(2) by (auto simp: screen_of_key_def lit_def)
    ultimately show ?thesis
      using q 2(3) result by (auto simp: key_effect_def quiet_def armed_def)
  qed
qed

end
