(* ===== verification/Tui_Render.thy ===== *)
theory Tui_Render
  imports Operator_Tui
begin

text \<open>
  What the operator interface draws, \<^verbatim>\<open>src/operator_tui.rs\<close>: for each screen its panels with their titles, the
  spans of their lines and the styles of text and borders.  The division of the terminal into areas,
  wrapping and alignment are the terminal library's.  A screen that cannot be drawn, as the histogram
  panics, is \<open>None\<close>.
\<close>

section \<open>Styles, lines and panels\<close>

datatype colour = Cyan | Yellow | Green | Red | Magenta | White | Gray | Black

record tstyle =
  ts_fg :: "colour option"
  ts_bg :: "colour option"
  ts_bold :: bool

definition style_default :: tstyle where
  "style_default = \<lparr>ts_fg = None, ts_bg = None, ts_bold = False\<rparr>"

abbreviation fg :: "colour \<Rightarrow> tstyle" where
  "fg c \<equiv> style_default\<lparr>ts_fg := Some c\<rparr>"

abbreviation bold :: "tstyle \<Rightarrow> tstyle" where
  "bold s \<equiv> s\<lparr>ts_bold := True\<rparr>"

type_synonym span = "rstr \<times> tstyle"
type_synonym text_line = "span list"

datatype body = TextBody rstr | LinesBody "text_line list"

record panel =
  pn_title :: rstr
  pn_border :: tstyle
  pn_body :: body

abbreviation raw :: "rstr \<Rightarrow> span" where
  "raw t \<equiv> (t, style_default)"

definition success_style :: tstyle where "success_style = bold (fg Green)"
definition warning_style :: tstyle where "warning_style = bold (fg Yellow)"
definition error_style :: tstyle where "error_style = bold (fg Red)"
definition info_style :: tstyle where "info_style = fg Cyan"

definition check_status_style :: "check_status \<Rightarrow> tstyle" where
  "check_status_style s = (case s of Pass \<Rightarrow> success_style | Warn \<Rightarrow> warning_style | Fail \<Rightarrow> error_style)"

definition has_keyword :: "tui_lib \<Rightarrow> ui_language \<Rightarrow> string \<Rightarrow> rstr \<Rightarrow> bool" where
  "has_keyword lib language name t \<longleftrightarrow>
     list_ex (\<lambda>keyword. keyword \<noteq> [] \<and> str_contains t keyword) (str_split 44 (label_of lib language name))"

definition status_style_from_text :: "tui_lib \<Rightarrow> rstr \<Rightarrow> tstyle" where
  "status_style_from_text lib t =
     (let lower = to_ascii_lowercase t in
      if has_keyword lib English ''style.error_keywords'' lower \<or> has_keyword lib Japanese ''style.error_keywords'' t
      then error_style
      else if has_keyword lib English ''style.warn_keywords'' lower \<or> has_keyword lib Japanese ''style.warn_keywords'' t
      then warning_style else info_style)"

definition lsm_style :: "lsm_status \<Rightarrow> tstyle" where
  "lsm_style st = (if major_lsm st \<noteq> None then success_style else warning_style)"

definition hardening_style :: "hardening_status \<Rightarrow> tstyle" where
  "hardening_style st = (if hs_warnings st = [] then success_style else warning_style)"

definition control_state_style :: "bot_control_state \<Rightarrow> tstyle" where
  "control_state_style c = (if bc_runtime c \<noteq> None then success_style else warning_style)"

definition overall_health_style :: "operator_tui_app \<Rightarrow> tstyle" where
  "overall_health_style app =
     (if \<not> lr_healthy (ds_local_self_check (ap_diagnostics app)) \<or> bc_runtime (ap_control app) = None \<or>
         major_lsm (ap_lsm_status app) = None \<or> hs_warnings (ap_hardening_status app) \<noteq> []
      then warning_style else success_style)"

definition validation_border_style :: "operator_tui_app \<Rightarrow> tstyle" where
  "validation_border_style app =
     (case validate_startup_config (ss_draft (ap_setup app)) of Inr _ \<Rightarrow> success_style | Inl _ \<Rightarrow> error_style)"

definition audit_row_style :: "audit_event_row \<Rightarrow> tstyle" where
  "audit_row_style r =
     (if ev_suppressed_reason r \<noteq> [] then warning_style
      else if ev_event_type r = lit ''mode_changed'' then info_style else style_default)"

section \<open>Names and texts\<close>

definition setup_page_name :: "tui_lib \<Rightarrow> ui_language \<Rightarrow> setup_page \<Rightarrow> rstr" where
  "setup_page_name lib language p =
     label_of lib language (case p of
        DetectorPage \<Rightarrow> ''setup.page.detector'' | BotPage \<Rightarrow> ''setup.page.bot''
      | AuditPage \<Rightarrow> ''setup.page.audit'' | DiagnosticsPage \<Rightarrow> ''setup.page.diagnostics''
      | IntegrityPage \<Rightarrow> ''setup.page.integrity'' | RuntimePage \<Rightarrow> ''setup.page.runtime''
      | PreviewPage \<Rightarrow> ''setup.page.preview'')"

definition setup_page_help :: "tui_lib \<Rightarrow> ui_language \<Rightarrow> setup_page \<Rightarrow> rstr" where
  "setup_page_help lib language p =
     label_of lib language (case p of
        DetectorPage \<Rightarrow> ''setup.help.detector'' | BotPage \<Rightarrow> ''setup.help.bot''
      | AuditPage \<Rightarrow> ''setup.help.audit'' | DiagnosticsPage \<Rightarrow> ''setup.help.diagnostics''
      | IntegrityPage \<Rightarrow> ''setup.help.integrity'' | RuntimePage \<Rightarrow> ''setup.help.runtime''
      | PreviewPage \<Rightarrow> ''setup.help.preview'')"

definition screen_name :: "tui_lib \<Rightarrow> ui_language \<Rightarrow> screen \<Rightarrow> rstr" where
  "screen_name lib language s =
     label_of lib language (case s of
        WelcomeScreen \<Rightarrow> ''screen.welcome'' | DashboardScreen \<Rightarrow> ''screen.dashboard''
      | SetupScreen \<Rightarrow> ''screen.setup'' | DiagnosticsScreen \<Rightarrow> ''screen.diagnostics''
      | AuditScreen \<Rightarrow> ''screen.audit'')"

definition check_status_label :: "tui_lib \<Rightarrow> ui_language \<Rightarrow> bool \<Rightarrow> rstr" where
  "check_status_label lib language healthy =
     label_of lib language (if healthy then ''common.pass'' else ''common.warn_fail'')"

definition format_check_status :: "tui_lib \<Rightarrow> ui_language \<Rightarrow> check_status \<Rightarrow> rstr" where
  "format_check_status lib language s =
     label_of lib language (case s of Pass \<Rightarrow> ''common.pass'' | Warn \<Rightarrow> ''common.warn'' | Fail \<Rightarrow> ''common.fail'')"

definition language_chip :: "tui_lib \<Rightarrow> ui_language \<Rightarrow> bool \<Rightarrow> span" where
  "language_chip lib language selected =
     (let base = (case language of
            English \<Rightarrow> label lib language (lit ''common.english'') (lit ''English'')
          | Japanese \<Rightarrow> label lib language (lit ''common.japanese'') [0x65E5, 0x672C, 0x8A9E])
      in if selected then (lit ''['' @ base @ lit '']'', bold \<lparr>ts_fg = Some Black, ts_bg = Some Green, ts_bold = False\<rparr>)
         else (base, fg Gray))"

definition line_kv :: "tui_lib \<Rightarrow> ui_language \<Rightarrow> string \<Rightarrow> rstr \<Rightarrow> tstyle \<Rightarrow> text_line" where
  "line_kv lib language name value style =
     [(label_of lib language name @ lit '': '', bold style_default), (value, style)]"

definition runtime_state_label :: "tui_lib \<Rightarrow> ui_language \<Rightarrow> bot_control_state \<Rightarrow> rstr" where
  "runtime_state_label lib language c =
     label_of lib language
       (if bc_runtime c \<noteq> None then ''control.runtime.running'' else ''control.runtime.not_connected'')"

definition runtime_pid_label :: "tui_lib \<Rightarrow> ui_language \<Rightarrow> bot_control_state \<Rightarrow> rstr" where
  "runtime_pid_label lib language c =
     (case bc_runtime c of Some runtime \<Rightarrow> dec (rs_pid runtime) | None \<Rightarrow> label_of lib language ''common.none'')"

definition translate_check_name :: "tui_lib \<Rightarrow> ui_language \<Rightarrow> rstr \<Rightarrow> rstr" where
  "translate_check_name lib language name =
     (if name = lit ''audit_db_health'' then label_of lib language ''check.audit_db_health''
      else if name = lit ''startup_config'' then label_of lib language ''check.startup_config''
      else if name = lit ''hardening_script'' then label_of lib language ''check.hardening_script''
      else if name = lit ''pinned_hardened_toolchain''
      then label_of lib language ''check.pinned_hardened_toolchain''
      else if name = lit ''hardening_verifier'' then label_of lib language ''check.hardening_verifier''
      else name)"

definition truncate_middle :: "rstr \<Rightarrow> nat \<Rightarrow> rstr" where
  "truncate_middle value cap =
     (if length value \<le> cap then value
      else (let head = cap div 2; tail = cap - (head + 3)
            in take head value @ lit ''...'' @ rev (take tail (rev value))))"

definition format_counts :: "tui_lib \<Rightarrow> ui_language \<Rightarrow> (rstr \<rightharpoonup> nat) \<Rightarrow> rstr" where
  "format_counts lib language counts =
     (let keys = sorted_list_of_set (dom counts) in
      if keys = [] then label_of lib language ''common.none''
      else str_join (lit '', '') (map (\<lambda>k. k @ lit ''='' @ dec (case counts k of Some n \<Rightarrow> n | None \<Rightarrow> 0)) keys))"

definition CONFIG_SCHEMA_VERSION :: rstr where "CONFIG_SCHEMA_VERSION = lit ''oo-bot.strict-v1''"

definition debug_option :: "tui_lib \<Rightarrow> rstr option \<Rightarrow> rstr" where
  "debug_option lib v =
     (case v of None \<Rightarrow> lit ''None'' | Some t \<Rightarrow> lit ''Some('' @ tl_debug_str lib t @ lit '')'')"

definition debug_sort :: "audit_sort \<Rightarrow> rstr" where
  "debug_sort chosen =
     (case chosen of NewestFirst \<Rightarrow> lit ''NewestFirst'' | OldestFirst \<Rightarrow> lit ''OldestFirst''
      | ByEventType \<Rightarrow> lit ''EventType'' | ByMode \<Rightarrow> lit ''Mode'')"

definition debug_detector :: "detector_backend_kind \<Rightarrow> rstr" where
  "debug_detector b =
     (case b of MorphologicalReading \<Rightarrow> lit ''MorphologicalReading'' | Fallback \<Rightarrow> lit ''Fallback'')"

section \<open>Blocks\<close>

definition build_setup_field_block :: "tui_lib \<Rightarrow> operator_tui_app \<Rightarrow> rstr" where
  "build_setup_field_block lib app =
     (let language = ap_language app; st = ap_setup app in
      str_join [10] ((setup_page_help lib language (ss_page st) @ [10]) #
        map (\<lambda>(index, field).
            (if index = ss_selected st then lit ''>'' else lit '' '') @ lit '' '' @ setup_field_label field @
            lit '' = '' @ setup_field_value lib language (ss_draft st) field @ [10] @ lit ''  '' @
            label_of lib language ''common.default'' @ lit '': '' @
            setup_default_value lib language (ss_defaults st) field @ [10])
          (enumerate 0 (setup_fields_for_page (ss_page st)))))"

definition build_runtime_environment_block :: "tui_lib \<Rightarrow> operator_tui_app \<Rightarrow> rstr" where
  "build_runtime_environment_block lib app =
     (let text = label_of lib (ap_language app) in
      text ''common.detected_lsm'' @ lit '': '' @ active_lsm_summary (ap_lsm_status app) @ [10] @
      text ''common.hardening_status'' @ lit '': '' @ hardening_summary (ap_hardening_status app) @ [10] @
      text ''common.writable_paths'' @ lit '':'' @ [10] @
      str_join [10] (ds_writable_paths (ap_diagnostics app)) @ [10, 10] @
      text ''common.service_container_recommendations'' @ lit '':'' @ [10] @
      str_join [10] (ds_recommendations (ap_diagnostics app)))"

definition build_setup_preview :: "tui_lib \<Rightarrow> store_lib \<Rightarrow> operator_tui_app \<Rightarrow> rstr" where
  "build_setup_preview lib slib app =
     label_of lib (ap_language app) ''setup.preview.label'' @ lit '':'' @ [10, 10] @
     (case render_startup_config_yaml slib (ss_draft (ap_setup app)) of
        Inr yaml \<Rightarrow> yaml
      | Inl err \<Rightarrow> template lib (ap_language app) (lit ''setup.preview.render_failed'')
          [(lit ''error'', config_error_text err)] @ [10])"

definition build_setup_validation_lines ::
  "tui_lib \<Rightarrow> (rstr \<Rightarrow> rstr option) \<Rightarrow> operator_tui_app \<Rightarrow> text_line list" where
  "build_setup_validation_lines lib var app =
     (let language = ap_language app; draft = ss_draft (ap_setup app) in
      [case validate_startup_config draft of
         Inr _ \<Rightarrow> [(lit ''['' @ format_check_status lib language Pass @ lit ''] '', success_style),
           raw (label_of lib language ''validation.pass'')]
       | Inl err \<Rightarrow> [(lit ''['' @ format_check_status lib language Fail @ lit ''] '', error_style),
           raw (template lib language (lit ''validation.fail'') [(lit ''error'', config_error_text err)])],
       (lit ''[info] '', info_style) #
         [raw (case config_signature (cfg_integrity draft) of
            Some signature \<Rightarrow> template lib language (lit ''validation.signature_info'')
              [(lit ''path'', tl_display lib (detached_hmac_sha256_path signature)),
               (lit ''env'', hmac_key_env signature),
               (lit ''present'', bool_name (var (hmac_key_env signature) \<noteq> None))]
          | None \<Rightarrow> label_of lib language ''validation.signature_disabled'')]])"

section \<open>Screens\<close>

definition panel_of :: "tui_lib \<Rightarrow> ui_language \<Rightarrow> string \<Rightarrow> tstyle \<Rightarrow> body \<Rightarrow> panel" where
  "panel_of lib language title border content =
     \<lparr>pn_title = label_of lib language title, pn_border = border, pn_body = content\<rparr>"

definition render_welcome :: "tui_lib \<Rightarrow> operator_tui_app \<Rightarrow> panel list" where
  "render_welcome lib app =
     (let language = ap_language app; text = label_of lib language in
      [panel_of lib language ''welcome.title'' (fg Cyan) (LinesBody
         [[raw []], [(text ''welcome.banner_line_1'', bold (fg Cyan))],
          [(text ''welcome.banner_line_2'', bold (fg Yellow))], [raw []], [raw (text ''welcome.subtitle'')]]),
       panel_of lib language ''common.language_title'' (fg Magenta) (LinesBody
         [[raw []],
          [raw (text ''welcome.language_prompt''), language_chip lib English (language = English),
           raw (lit ''   ''), language_chip lib Japanese (language = Japanese)],
          [raw []], [raw (text ''welcome.language_help'')],
          [raw (template lib language (lit ''welcome.continue_prompt'')
             [(lit ''screen'', screen_name lib language (ap_landing_screen app))])]]),
       panel_of lib language ''common.quick_keys_title'' (fg Green) (TextBody (text ''welcome.quick_keys_help''))])"

definition render_dashboard :: "tui_lib \<Rightarrow> operator_tui_app \<Rightarrow> panel list" where
  "render_dashboard lib app =
     (let language = ap_language app; text = label_of lib language; kv = line_kv lib language;
          status = status_style_from_text lib; d = ap_diagnostics app; c = ap_control app; startup = ap_startup app in
      [panel_of lib language ''dashboard.title'' (overall_health_style app) (LinesBody
         [kv ''common.config_schema'' CONFIG_SCHEMA_VERSION style_default,
          kv ''common.audit_schema'' (decimal SCHEMA_VERSION) style_default,
          kv ''common.config_fingerprint'' (ld_config_fingerprint startup) style_default,
          kv ''common.detector_backend'' (debug_detector (dc_backend (cfg_detector (ld_app startup)))) (fg Cyan),
          kv ''common.active_lsm'' (active_lsm_summary (ap_lsm_status app)) (lsm_style (ap_lsm_status app)),
          kv ''common.confinement'' (ds_confinement_state d) (overall_health_style app),
          kv ''common.hardening'' (hardening_summary (ap_hardening_status app))
            (hardening_style (ap_hardening_status app)),
          kv ''common.startup_mode''
            (text (if ap_startup_created app then ''dashboard.fresh_bootstrap'' else ''dashboard.existing_config''))
            style_default,
          kv ''common.bot_runtime'' (runtime_state_label lib language c) (control_state_style c),
          kv ''common.runtime_pid'' (runtime_pid_label lib language c) (control_state_style c)]),
       panel_of lib language ''dashboard.health_title'' (overall_health_style app) (LinesBody
         [kv ''common.local_self_check'' (check_status_label lib language (lr_healthy (ds_local_self_check d)))
            (if lr_healthy (ds_local_self_check d) then success_style else warning_style),
          kv ''common.audit_db_health'' (ds_audit_db_health d) (status (ds_audit_db_health d)),
          kv ''common.integrity_verify'' (ds_integrity_verify_result d) (status (ds_integrity_verify_result d)),
          kv ''common.dependency_snapshot'' (ds_dependency_snapshot_status d)
            (status (ds_dependency_snapshot_status d)),
          kv ''common.export_safe_policy'' (ds_export_safe_policy_status d) (fg Yellow),
          kv ''common.startup_config'' (tl_display lib (ld_config_path startup)) style_default,
          kv ''common.control_socket'' (truncate_middle (tl_display lib (bc_socket_path c)) 40)
            (control_state_style c),
          kv ''common.control_status'' (bc_status c) (status (bc_status c))]),
       panel_of lib language ''dashboard.runtime_env_title'' (lsm_style (ap_lsm_status app)) (TextBody
         (text ''common.writable_paths'' @ lit '':'' @ [10] @ str_join [10] (ds_writable_paths d) @ [10, 10] @
          text ''common.recommendations'' @ lit '':'' @ [10] @ str_join [10] (ds_recommendations d)))])"

definition render_setup ::
  "tui_lib \<Rightarrow> store_lib \<Rightarrow> (rstr \<Rightarrow> rstr option) \<Rightarrow> operator_tui_app \<Rightarrow> panel list" where
  "render_setup lib slib var app =
     (let language = ap_language app; text = label_of lib language; page = ss_page (ap_setup app) in
      [panel_of lib language ''setup.title'' (fg White) (TextBody
         (text ''common.page'' @ lit ''='' @
          str_join (lit ''   '') [setup_page_name lib language page,
            text ''setup.control.change_page'', text ''setup.control.select'', text ''setup.control.default'',
            text ''setup.control.edit'', text ''setup.control.cycle'', text ''setup.control.preview'',
            text ''setup.control.save''])),
       (if page = PreviewPage
        then panel_of lib language ''setup.preview_title'' (fg Cyan) (TextBody (build_setup_preview lib slib app))
        else if page = RuntimePage
        then panel_of lib language ''setup.runtime_title'' (lsm_style (ap_lsm_status app))
          (TextBody (build_runtime_environment_block lib app))
        else panel_of lib language ''setup.fields_title'' (fg White) (TextBody (build_setup_field_block lib app))),
       panel_of lib language ''setup.validation_title'' (validation_border_style app)
         (LinesBody (build_setup_validation_lines lib var app))])"

definition check_line :: "tui_lib \<Rightarrow> ui_language \<Rightarrow> self_check_item \<Rightarrow> text_line" where
  "check_line lib language i =
     [(lit ''['' @ format_check_status lib language (sci_status i) @ lit ''] '', check_status_style (sci_status i)),
      (translate_check_name lib language (sci_name i) @ lit '': '', bold style_default), raw (sci_detail i)]"

definition render_diagnostics :: "tui_lib \<Rightarrow> operator_tui_app \<Rightarrow> panel list" where
  "render_diagnostics lib app =
     (let language = ap_language app; kv = line_kv lib language; status = status_style_from_text lib;
          d = ap_diagnostics app; startup = ap_startup app in
      [panel_of lib language ''diagnostics.summary_title'' (overall_health_style app) (LinesBody
         [kv ''common.active_lsm'' (active_lsm_summary (ap_lsm_status app)) (lsm_style (ap_lsm_status app)),
          kv ''common.current_confinement'' (ds_confinement_state d) (overall_health_style app),
          kv ''common.hardening_status'' (hardening_summary (ap_hardening_status app))
            (hardening_style (ap_hardening_status app)),
          kv ''common.config_fingerprint'' (ld_config_fingerprint startup) style_default,
          kv ''common.detector_backend'' (debug_detector (dc_backend (cfg_detector (ld_app startup)))) (fg Cyan),
          kv ''common.audit_db_health'' (ds_audit_db_health d) (status (ds_audit_db_health d)),
          kv ''common.schema_version'' CONFIG_SCHEMA_VERSION style_default,
          kv ''common.integrity_verify_result'' (ds_integrity_verify_result d)
            (status (ds_integrity_verify_result d)),
          kv ''common.export_safe_policy'' (ds_export_safe_policy_status d) (fg Yellow),
          kv ''common.dependency_audit_snapshot'' (ds_dependency_snapshot_status d)
            (status (ds_dependency_snapshot_status d))]),
       panel_of lib language ''diagnostics.detail_title'' (overall_health_style app)
         (LinesBody (map (check_line lib language) (lr_items (ds_local_self_check d))))])"

definition audit_line :: "tui_lib \<Rightarrow> ui_language \<Rightarrow> audit_event_row \<Rightarrow> text_line" where
  "audit_line lib language r =
     (let text = label_of lib language in
      [(lit ''#'' @ decimal (ev_event_id r) @ lit '' '' @ ev_event_type r @ lit '' '' @
        text ''common.backend'' @ lit ''='' @ ev_detector_backend r @ lit '' '' @
        text ''common.action'' @ lit ''='' @ ev_selected_action r @ lit '' '' @
        text ''common.reason'' @ lit ''='' @
        (if ev_suppressed_reason r = [] then lit ''-'' else ev_suppressed_reason r) @ lit '' '' @
        text ''common.mode'' @ lit ''='' @ ev_mode r, audit_row_style r)])"

definition render_audit :: "tui_lib \<Rightarrow> operator_tui_app \<Rightarrow> panel list option" where
  "render_audit lib app =
     (let language = ap_language app; text = label_of lib language; a = ap_audit app;
          filtered = filtered_audit_rows a; status = status_style_from_text lib (au_status a) in
      map_option (\<lambda>advanced.
        [panel_of lib language ''audit.browser_title'' status (TextBody
           (text ''common.rows_loaded'' @ lit '': '' @ dec (length (au_rows a)) @ lit ''   '' @
            text ''common.rows_shown'' @ lit '': '' @ dec (length filtered) @ lit ''   '' @
            text ''common.search'' @ lit '': '' @
            debug_option lib (if au_search a = [] then None else Some (au_search a)) @ lit ''   '' @
            text ''common.sort'' @ lit '': '' @ debug_sort (au_sort a) @ lit ''   '' @
            text ''common.mode_filter'' @ lit '': '' @ debug_option lib (au_mode_filter a) @ [10] @
            text ''common.backend_comparison'' @ lit '': '' @
            format_counts lib language (st_by_backend (au_stats a)) @ [10] @
            text ''common.suppression_reasons'' @ lit '': '' @
            format_counts lib language (st_by_suppressed_reason (au_stats a)) @ [10] @
            text ''common.mode_transitions'' @ lit '': '' @
            dec (length (filter (\<lambda>r. ev_event_type r = lit ''mode_changed'') filtered)))),
         panel_of lib language ''audit.controls_title'' status (LinesBody
           [[(au_status a, status)], [raw (text ''audit.controls_help'')]]),
         panel_of lib language ''audit.advanced_title'' (fg Yellow) (TextBody advanced),
         panel_of lib language ''audit.rows_title'' (fg White) (LinesBody
           (let ls = map (audit_line lib language) (take TUI_AUDIT_CAP filtered)
            in if ls = [] then [[raw (text ''audit.no_rows'')]] else ls))])
      (build_audit_advanced_block lib language filtered))"

definition footer_text :: "tui_lib \<Rightarrow> operator_tui_app \<Rightarrow> rstr" where
  "footer_text lib app =
     (let language = ap_language app in
      case ap_input_mode app of
        NormalInput \<Rightarrow> ap_status app
      | SetupEdit field \<Rightarrow> template lib language (lit ''status.setup_edit'')
          [(lit ''field'', setup_field_label field),
           (lit ''default'', setup_default_value lib language (ss_defaults (ap_setup app)) field)]
      | AuditSearch \<Rightarrow> label_of lib language ''status.audit_search_help'')"

definition render_app ::
  "tui_lib \<Rightarrow> store_lib \<Rightarrow> (rstr \<Rightarrow> rstr option) \<Rightarrow> operator_tui_app \<Rightarrow> panel list option" where
  "render_app lib slib var app =
     (let language = ap_language app; text = label_of lib language;
          header = panel_of lib language ''common.status_title'' (overall_health_style app) (LinesBody
            [[(text ''common.app_title'' @ lit ''   '', bold (fg Cyan)),
              raw (text ''common.active'' @ lit ''='' @ active_lsm_summary (ap_lsm_status app) @ lit ''   '' @
                text ''common.config'' @ lit ''='' @ tl_display lib (ld_config_path (ap_startup app)) @ lit ''   '' @
                text ''common.fingerprint'' @ lit ''='' @
                truncate_middle (ld_config_fingerprint (ap_startup app)) 18 @ lit ''   '' @
                text ''common.screen'' @ lit ''='' @ screen_name lib language (ap_screen app))]]);
          footer = panel_of lib language ''common.help_title'' (status_style_from_text lib (ap_status app))
            (TextBody (footer_text lib app)) in
      map_option (\<lambda>panels. header # panels @ [footer])
        (case ap_screen app of
           WelcomeScreen \<Rightarrow> Some (render_welcome lib app)
         | DashboardScreen \<Rightarrow> Some (render_dashboard lib app)
         | SetupScreen \<Rightarrow> Some (render_setup lib slib var app)
         | DiagnosticsScreen \<Rightarrow> Some (render_diagnostics lib app)
         | AuditScreen \<Rightarrow> render_audit lib app))"

section \<open>What the screens do not show\<close>

definition redacted_row :: "audit_event_row \<Rightarrow> audit_event_row" where
  "redacted_row r =
     r\<lparr>ev_pseudo_guild_id := [], ev_pseudo_channel_id := [], ev_pseudo_user_id := [],
       ev_pseudo_message_id := [], ev_suspicious_flags_json := [], ev_message_length := 0,
       ev_normalized_length := 0, ev_token_count := 0\<rparr>"

definition redacted_app :: "operator_tui_app \<Rightarrow> operator_tui_app" where
  "redacted_app app =
     app\<lparr>ap_startup := (ap_startup app)\<lparr>ld_pseudo_id_hmac_key := None\<rparr>,
       ap_audit := (ap_audit app)\<lparr>au_rows := map redacted_row (au_rows (ap_audit app))\<rparr>\<rparr>"

lemma redacted_keeps [simp]:
  "ev_event_id (redacted_row r) = ev_event_id r" "ev_event_type (redacted_row r) = ev_event_type r"
  "ev_detector_backend (redacted_row r) = ev_detector_backend r" "ev_mode (redacted_row r) = ev_mode r"
  "ev_selected_action (redacted_row r) = ev_selected_action r" "ev_ts_utc (redacted_row r) = ev_ts_utc r"
  "ev_suppressed_reason (redacted_row r) = ev_suppressed_reason r"
  "ev_matched_readings_json (redacted_row r) = ev_matched_readings_json r"
  "ev_processing_time_ms (redacted_row r) = ev_processing_time_ms r"
  by (simp_all add: redacted_row_def)

lemma insort_key_map: "insort_key f (g x) (map g xs) = map g (insort_key (\<lambda>x. f (g x)) x xs)"
  by (induction xs) simp_all

lemma sort_key_map: "sort_key f (map g xs) = map g (sort_key (\<lambda>x. f (g x)) xs)"
  by (induction xs) (simp_all add: insort_key_map)

lemma redacted_filtered:
  "filtered_audit_rows (a\<lparr>au_rows := map redacted_row (au_rows a)\<rparr>) = map redacted_row (filtered_audit_rows a)"
proof -
  have "row_matches (a\<lparr>au_rows := rows\<rparr>) (redacted_row r) = row_matches a r" for r rows
    by (simp add: row_matches_def search_text_def split: option.split)
  moreover have "sort_rows chosen (map redacted_row rows) = map redacted_row (sort_rows chosen rows)" for chosen rows
    by (cases chosen) (simp_all add: sort_rows_def sort_key_map)
  ultimately show ?thesis by (simp add: filtered_audit_rows_def filter_map comp_def)
qed

lemma redacted_hours: "hour_keys (map redacted_row rows) = hour_keys rows"
  by (induction rows) simp_all

lemma redacted_block:
  "build_audit_advanced_block lib language (map redacted_row rows) = build_audit_advanced_block lib language rows"
  by (simp add: build_audit_advanced_block_def processing_ms_percentiles_def hourly_histogram_def redacted_hours
      comp_def)

lemma redacted_line: "audit_line lib language (redacted_row r) = audit_line lib language r"
  by (simp add: audit_line_def audit_row_style_def)

lemma redacted_audit: "render_audit lib (redacted_app app) = render_audit lib app"
  by (simp add: render_audit_def redacted_app_def redacted_filtered redacted_block redacted_line take_map comp_def
      filter_map Let_def)

lemma redacted_validation:
  assumes "\<And>v. (var v = None) = (var' v = None)"
  shows "build_setup_validation_lines lib var' app = build_setup_validation_lines lib var app"
  by (simp add: build_setup_validation_lines_def assms Let_def cong: option.case_cong)

lemma redacted_fields [simp]:
  "ap_language (redacted_app app) = ap_language app" "ap_screen (redacted_app app) = ap_screen app"
  "ap_setup (redacted_app app) = ap_setup app" "ap_status (redacted_app app) = ap_status app"
  "ap_landing_screen (redacted_app app) = ap_landing_screen app" "ap_control (redacted_app app) = ap_control app"
  "ap_diagnostics (redacted_app app) = ap_diagnostics app" "ap_lsm_status (redacted_app app) = ap_lsm_status app"
  "ap_hardening_status (redacted_app app) = ap_hardening_status app"
  "ap_input_mode (redacted_app app) = ap_input_mode app"
  "ap_startup_created (redacted_app app) = ap_startup_created app"
  "ld_app (ap_startup (redacted_app app)) = ld_app (ap_startup app)"
  "ld_config_path (ap_startup (redacted_app app)) = ld_config_path (ap_startup app)"
  "ld_config_fingerprint (ap_startup (redacted_app app)) = ld_config_fingerprint (ap_startup app)"
  by (simp_all add: redacted_app_def)


section \<open>Shortened texts\<close>

lemma truncate_middle_fits:
  "5 \<le> cap \<Longrightarrow> length (truncate_middle value cap) \<le> cap"
  by (auto simp: truncate_middle_def Let_def lit_def)

section \<open>A sample\<close>

definition sample_app :: operator_tui_app where
  "sample_app =
     \<lparr>ap_startup = \<lparr>ld_app = sample_signed, ld_config_path = Config_Store.sample_path, ld_config_fingerprint = [],
        ld_pseudo_id_hmac_key = Some [1, 2, 3]\<rparr>,
      ap_startup_created = False, ap_saved_config = False, ap_audit_limit = 10, ap_language = English,
      ap_screen = AuditScreen, ap_landing_screen = AuditScreen, ap_input_mode = NormalInput, ap_input_buffer = [],
      ap_status = [], ap_last_control_refresh = 0,
      ap_lsm_status = detect_lsm_status (\<lambda>_. Inl []),
      ap_hardening_status = detect_hardening_status (lit ''x86_64'') (lit ''linux'') (\<lambda>_. None),
      ap_diagnostics = \<lparr>ds_local_self_check = \<lparr>lr_healthy = True, lr_items = []\<rparr>, ds_audit_db_health = [],
        ds_dependency_snapshot_status = [], ds_integrity_verify_result = [], ds_export_safe_policy_status = [],
        ds_confinement_state = [], ds_writable_paths = [], ds_recommendations = []\<rparr>,
      ap_control = \<lparr>bc_socket_path = empty_path, bc_runtime = None, bc_status = [], bc_stop_armed = False\<rparr>,
      ap_setup = sample_setup, ap_audit = sample_screen\<rparr>"


end
