(* ===== verification/Tui_Loop.thy ===== *)
theory Tui_Loop
  imports Tui_Render
begin

text \<open>
  The loop of the operator interface, \<^verbatim>\<open>run_operator_tui\<close> in \<^verbatim>\<open>src/operator_tui.rs\<close>: the control state is
  refreshed, the screen is drawn and one event is handled, turn by turn.  What the terminal does in a turn
  is the event: the library refused to draw, it refused to poll or read, it reported nothing that the loop
  acts on, or a key was pressed.  A panic while drawing unwinds out of the loop.
\<close>

datatype tui_event = KeyPress key_code bool | OtherEvent | EventFailed rstr | DrawFailed rstr

datatype turn_end = TurnFailed rstr | TurnPanicked

text \<open>The event, once the screen is drawn: whether the interface closes.\<close>

definition handle_event ::
  "tui_env \<Rightarrow> tui_event \<Rightarrow> operator_tui_app \<Rightarrow> tui_world \<Rightarrow> tui_world \<times> (rstr + operator_tui_app \<times> bool)" where
  "handle_event env event app w =
     (case event of
        KeyPress code control \<Rightarrow>
          if is_force_quit_key code control then (w, Inr (app, True)) else handle_key env code app w
      | OtherEvent \<Rightarrow> (w, Inr (app, False))
      | EventFailed err \<Rightarrow> (w, Inl err)
      | DrawFailed err \<Rightarrow> (w, Inl err))"

definition draw_refused :: "tui_event \<Rightarrow> bool" where
  "draw_refused event \<longleftrightarrow> (case event of DrawFailed _ \<Rightarrow> True | _ \<Rightarrow> False)"

definition drawn :: "tui_env \<Rightarrow> operator_tui_app \<Rightarrow> panel list option" where
  "drawn env app = render_app (te_lib env) (te_store_lib env) (te_var env) app"

text \<open>One turn of the loop.\<close>

definition tui_turn ::
  "tui_env \<Rightarrow> tui_event \<Rightarrow> operator_tui_app \<Rightarrow> tui_world \<Rightarrow>
   tui_world \<times> (turn_end + operator_tui_app \<times> bool)" where
  "tui_turn env event app w =
     (let (w1, app1) = auto_refresh env app w in
      if \<not> draw_refused event \<and> drawn env app1 = None then (w1, Inl TurnPanicked)
      else map_err TurnFailed (handle_event env event app1) w1)"

datatype tui_outcome = StillOpen operator_tui_app | Closed bool | Failed rstr | Panicked

definition ended :: "turn_end \<Rightarrow> tui_outcome" where
  "ended e = (case e of TurnFailed err \<Rightarrow> Failed err | TurnPanicked \<Rightarrow> Panicked)"

fun tui_loop ::
  "(tui_env \<times> tui_event) list \<Rightarrow> operator_tui_app \<Rightarrow> tui_world \<Rightarrow> tui_world \<times> tui_outcome" where
  "tui_loop [] app w = (w, StillOpen app)"
| "tui_loop ((env, event) # es) app w =
     (case tui_turn env event app w of
        (w', Inl e) \<Rightarrow> (w', ended e)
      | (w', Inr (app', stop)) \<Rightarrow>
          if stop then (w', Closed (ap_saved_config app')) else tui_loop es app' w')"

definition landing_screen_of :: "operator_tui_entry \<Rightarrow> screen" where
  "landing_screen_of entry =
     (case entry of EntryDashboard \<Rightarrow> DashboardScreen | EntrySetup \<Rightarrow> SetupScreen
      | EntryDiagnostics \<Rightarrow> DiagnosticsScreen | EntryAudit \<Rightarrow> AuditScreen)"

definition open_tui ::
  "tui_env \<Rightarrow> operator_tui_entry \<Rightarrow> operator_tui_params \<Rightarrow> startup_config \<Rightarrow> tui_world \<Rightarrow>
   tui_world \<times> operator_tui_app" where
  "open_tui env entry params defaults w =
     (let language = detect_ui_language (te_var env); startup = tp_startup params; created = tp_startup_created params;
          lsm = detect_lsm_status (te_read env);
          hardening = detect_hardening_status (te_arch env) (te_os env) (te_var env);
          report = run_local_self_check (check_env_of env (tw_fs w)) startup;
          diagnostics = build_diagnostics_summary env (tw_fs w) startup report lsm hardening language;
          (w1, control) = load_control_state env startup language w;
          audit = load_audit_state (te_lib env) (check_env_of env (tw_fs w1)) startup
            (tp_audit_limit params) language
      in (w1,
        \<lparr>ap_startup = startup, ap_startup_created = created, ap_saved_config = False,
         ap_audit_limit = tp_audit_limit params, ap_language = language, ap_screen = WelcomeScreen,
         ap_landing_screen = landing_screen_of entry, ap_input_mode = NormalInput, ap_input_buffer = [],
         ap_status = default_status_message (te_lib env) created language,
         ap_last_control_refresh = te_now env, ap_lsm_status = lsm, ap_hardening_status = hardening,
         ap_diagnostics = diagnostics, ap_control = control,
         ap_setup = \<lparr>ss_draft = ld_app startup, ss_defaults = defaults,
           ss_page = (if created then DetectorPage else PreviewPage), ss_selected = 0\<rparr>,
         ap_audit = audit\<rparr>))"

definition run_operator_tui ::
  "tui_env \<Rightarrow> operator_tui_entry \<Rightarrow> operator_tui_params \<Rightarrow> (tui_env \<times> tui_event) list \<Rightarrow> tui_world \<Rightarrow>
   tui_world \<times> tui_outcome" where
  "run_operator_tui env entry params events w =
     (case canonical_startup_config (te_config_lib env) of
        None \<Rightarrow> (note_request RequestStatus w, Panicked)
      | Some defaults \<Rightarrow>
          (let (w1, app) = open_tui env entry params defaults w in
           case te_terminal env of Some err \<Rightarrow> (w1, Failed err) | None \<Rightarrow> tui_loop events app w1))"

end
