(* ===== verification/Tui_Runs.thy ===== *)
theory Tui_Runs
  imports Tui_Loop
begin

text \<open>
  Runs of the operator interface: what every turn keeps, what stop requests and saves a whole session can
  make, and when a session ends with an error.
\<close>

section \<open>One turn\<close>

lemma typed_input_keeps:
  "apply_custom_field_input lib language field typed st = Inr st' \<Longrightarrow>
   ss_page st' = ss_page st \<and> ss_selected st' = ss_selected st"
  by (auto simp: apply_custom_field_input_def restore_default_for_field_def rbind_Inr Let_def split: if_splits)

lemma setup_edit_step:
  assumes "handle_setup_edit_keys env field code app = Inr (app', left)" and "tui_inv app"
    and "ap_input_mode app = SetupEdit field" and "app'' = (if left then app'\<lparr>ap_input_mode := NormalInput\<rparr> else app')"
  shows "tui_inv app'' \<and> \<not> armed app'' \<and> ap_startup app'' = ap_startup app \<and>
    ap_saved_config app'' = ap_saved_config app"
proof -
  have off: "\<not> bc_stop_armed (ap_control app)" using assms(2,3) by (auto simp: tui_inv_def armed_def)
  consider "code = KeyEsc" | "code = KeyEnter" | "code \<noteq> KeyEsc" "code \<noteq> KeyEnter" by blast
  then show ?thesis
  proof cases
    case 1
    then show ?thesis using assms off by (auto simp: handle_setup_edit_keys_def tui_inv_def armed_def)
  next
    case 2
    with assms(1) obtain st where st: "apply_custom_field_input (te_lib env) (ap_language app) field
        (ap_input_buffer app) (ap_setup app) = Inr st"
      and app': "app' = said env ''status.updated'' [(lit ''field'', setup_field_label field)]
          (app\<lparr>ap_setup := st\<rparr>)\<lparr>ap_input_buffer := []\<rparr>" "left"
      by (auto simp: handle_setup_edit_keys_def rbind_Inr)
    show ?thesis
      using typed_input_keeps[OF st] assms(2,4) off
      by (auto simp: app' tui_inv_def armed_def str_len_def)
  next
    case 3
    then have "app' = app\<lparr>ap_input_buffer := edit_buffer code (ap_input_buffer app)\<rparr>" "\<not> left"
      using assms(1) by (auto simp: handle_setup_edit_keys_def)
    then show ?thesis
      using assms(2-) off edit_buffer_bound[of "ap_input_buffer app" code] by (simp add: tui_inv_def armed_def)
  qed
qed

lemma audit_search_step:
  assumes "handle_audit_search_keys env code app = (app', left)" and "tui_inv app"
    and "ap_input_mode app = AuditSearch" and "app'' = (if left then app'\<lparr>ap_input_mode := NormalInput\<rparr> else app')"
  shows "tui_inv app'' \<and> \<not> armed app'' \<and> ap_startup app'' = ap_startup app \<and>
    ap_saved_config app'' = ap_saved_config app"
proof -
  have off: "\<not> bc_stop_armed (ap_control app)" using assms(2,3) by (auto simp: tui_inv_def armed_def)
  consider "code = KeyEsc" | "code = KeyEnter" | "code \<noteq> KeyEsc" "code \<noteq> KeyEnter" by blast
  then show ?thesis
  proof cases
    case 3
    then have "app' = app\<lparr>ap_input_buffer := edit_buffer code (ap_input_buffer app)\<rparr>" "\<not> left"
      using assms(1) by (auto simp: handle_audit_search_keys_def)
    then show ?thesis
      using assms(2-) off edit_buffer_bound[of "ap_input_buffer app" code] by (simp add: tui_inv_def armed_def)
  qed (use assms off in \<open>auto simp: handle_audit_search_keys_def tui_inv_def armed_def Let_def\<close>)
qed

lemma key_step:
  assumes "handle_key env code app w = (w', Inr (app', stop))" and "tui_inv app"
  shows "tui_inv app' \<and> (armed app' \<longrightarrow> stop \<or> code = key ''x'') \<and> key_effect env code app w w' app'"
proof (cases "ap_input_mode app")
  case NormalInput
  then show ?thesis using assms by (intro global_step) (simp_all add: handle_key_def)
next
  case (SetupEdit field)
  with assms(1) obtain app1 left where h: "handle_setup_edit_keys env field code app = Inr (app1, left)"
    and eq: "app' = (if left then app1\<lparr>ap_input_mode := NormalInput\<rparr> else app1)" "w' = w"
    by (auto simp: handle_key_def rbind_Inr)
  from setup_edit_step[OF h assms(2) SetupEdit eq(1)] show ?thesis by (simp add: key_effect_def eq(2))
next
  case AuditSearch
  obtain app1 left where h: "handle_audit_search_keys env code app = (app1, left)" by force
  with assms(1) AuditSearch have eq: "app' = (if left then app1\<lparr>ap_input_mode := NormalInput\<rparr> else app1)" "w' = w"
    by (auto simp: handle_key_def)
  from audit_search_step[OF h assms(2) AuditSearch eq(1)] show ?thesis by (simp add: key_effect_def eq(2))
qed

lemma tui_turn_ends:
  assumes "auto_refresh env app w = (w1, app1)"
  shows "tui_turn env event app w = (w', Inr r) \<longleftrightarrow>
      (draw_refused event \<or> drawn env app1 \<noteq> None) \<and> handle_event env event app1 w1 = (w', Inr r)"
    and "tui_turn env event app w = (w', Inl e) \<longleftrightarrow>
      (if draw_refused event \<or> drawn env app1 \<noteq> None
       then \<exists>err. e = TurnFailed err \<and> handle_event env event app1 w1 = (w', Inl err)
       else w' = w1 \<and> e = TurnPanicked)"
  by (auto simp: tui_turn_def assms map_err_def split: prod.splits sum.splits)

text \<open>A turn, seen from outside: it shows nothing new, or it handles a key.\<close>

lemma turn_step:
  assumes "tui_turn env event app w = (w', Inr (app', stop))" and "tui_inv app"
  obtains (unseen) "quiet w w'" "same_view app app'" "tui_inv app'" "\<forall>code control. event = KeyPress code control \<longrightarrow> stop"
  | (pressed) code control app1 w1 where "event = KeyPress code control" "quiet w w1" "same_view app app1"
      "tui_inv app1" "handle_key env code app1 w1 = (w', Inr (app', stop))"
proof -
  obtain w1 app1 where a: "auto_refresh env app w = (w1, app1)" by force
  from auto_refresh_facts[OF a] have q: "quiet w w1" and v: "same_view app app1" by simp_all
  have inv: "tui_inv app1" by (rule same_view_inv[OF v assms(2)])
  from assms(1) have h: "handle_event env event app1 w1 = (w', Inr (app', stop))" by (simp add: tui_turn_ends[OF a])
  show ?thesis
  proof (cases "\<exists>code control. event = KeyPress code control \<and> \<not> is_force_quit_key code control")
    case True
    then obtain code control where ev: "event = KeyPress code control" "\<not> is_force_quit_key code control" by blast
    with h have "handle_key env code app1 w1 = (w', Inr (app', stop))" by (simp add: handle_event_def)
    from pressed[OF ev(1) q v inv this] show ?thesis .
  next
    case False
    with h q v inv have "w' = w1" "app' = app1" "\<forall>code control. event = KeyPress code control \<longrightarrow> stop"
      by (auto simp: handle_event_def split: tui_event.splits if_splits)
    then show ?thesis using unseen q v inv by blast
  qed
qed

text \<open>A turn that fails has sent no stop request.\<close>

lemma on_fs_requests [simp]: "tw_requests (fst (on_fs m w)) = tw_requests w"
  by (simp add: on_fs_def split: prod.split)

lemma save_draft_requests:
  "save_draft env app w = (w', Inl err) \<Longrightarrow> stops w' = stops w"
  by (auto simp: save_draft_def Let_def io_bind_def map_err_def stops_def on_fs_def
      split: prod.splits sum.splits)

lemma failed_turn_stops:
  assumes "tui_turn env event app w = (w', Inl e)" shows "stops w' = stops w"
proof -
  obtain w1 app1 where a: "auto_refresh env app w = (w1, app1)" by force
  then have q: "stops w1 = stops w" using auto_refresh_facts by (auto simp: quiet_def)
  have "stops w' = stops w1" if "handle_key env code app1 w1 = (w', Inl err)" for code err
  proof (cases "ap_input_mode app1")
    case NormalInput
    with that have g: "handle_global_keys env code app1 w1 = (w', Inl err)" by (simp add: handle_key_def)
    obtain w2 app2 where c: "common_key env code app1 w1 = (w2, app2)" by force
    with g obtain app3 where "screen_keys env code app3 w2 = (w', Inl err)"
      by (auto simp: handle_global_keys_def io_bind_def map_prod_def split: if_splits prod.splits sum.splits)
    then have "stops w' = stops w2"
      by (auto simp: screen_keys_def handle_setup_normal_keys_def save_draft_requests
          split: screen.splits if_splits)
    then show ?thesis using common_key_facts[OF c] by (simp add: quiet_def)
  qed (use that in \<open>auto simp: handle_key_def split: prod.splits\<close>)
  with assms q show ?thesis
    by (auto simp: tui_turn_ends[OF a] handle_event_def split: tui_event.splits if_splits)
qed

section \<open>Sessions\<close>

text \<open>The stop requests a sequence of key presses asks for: each takes two presses of \<^verbatim>\<open>x\<close> with no other key
  between them.\<close>

fun confirmed_stops :: "bool \<Rightarrow> tui_event list \<Rightarrow> nat" where
  "confirmed_stops pending [] = 0"
| "confirmed_stops pending (KeyPress code control # es) =
     (if code = key ''x''
      then (if pending then Suc (confirmed_stops False es) else confirmed_stops True es)
      else confirmed_stops False es)"
| "confirmed_stops pending (_ # es) = confirmed_stops pending es"

text \<open>What the files went through: \<open>n\<close> complete writes of valid configurations at \<open>p\<close>, each of which
  could be loaded again.\<close>

inductive saved_files :: "path \<Rightarrow> nat \<Rightarrow> fs \<Rightarrow> fs \<Rightarrow> bool" for p :: path where
  untouched: "saved_files p 0 s s"
| saved: "saved_files p n s t \<Longrightarrow> validate_config draft = Inr () \<Longrightarrow>
    write_startup_config_to_path store lib p draft t = (u, Inr ()) \<Longrightarrow>
    load_startup_config_from_path store lib p u = Inr startup \<Longrightarrow>
    saved_files p (Suc n) s u"

inductive_cases saved_files_0: "saved_files p 0 s s'"

definition at_controls :: "operator_tui_app \<Rightarrow> bool" where
  "at_controls app \<longleftrightarrow> ap_input_mode app = NormalInput \<and> ap_screen app \<noteq> WelcomeScreen"

lemma x_step:
  assumes "handle_key env (key ''x'') app w = (w', Inr (app', stop))" and "tui_inv app"
  shows "\<not> stop \<and> at_controls app' = at_controls app \<and>
    (if at_controls app then armed app' = (\<not> armed app) \<and> stops w' = stops w + of_bool (armed app)
     else stops w' = stops w)"
proof (cases "at_controls app")
  case True
  show ?thesis
  proof (cases "armed app")
    case on: True
    obtain w1 app1 where s: "send_stop env app w = (w1, app1)" by force
    from on True assms(1) s have eq: "w' = w1" "app' = app1" "\<not> stop"
      by (simp_all add: handle_key_def handle_global_keys_def at_controls_def)
    have "\<not> armed (set_armed False app)" by (simp add: armed_def)
    with send_stop_facts[OF s] on True eq show ?thesis by (simp add: at_controls_def same_view_def)
  next
    case off: False
    with True assms(1) show ?thesis
      by (auto simp: handle_key_def handle_global_keys_def at_controls_def armed_def)
  qed
next
  case False
  with assms(1) show ?thesis
    by (auto simp: handle_key_def handle_global_keys_def handle_welcome_keys_def handle_setup_edit_keys_def
        handle_audit_search_keys_def at_controls_def lit_def split: input_mode.splits if_splits)
qed

lemma key_stops:
  assumes "key_effect env code app w w' app'" and "code \<noteq> key ''x''"
  shows "stops w' = stops w"
  using assms by (auto simp: key_effect_def quiet_def)

lemma tui_loop_stops:
  assumes "tui_inv app" and "at_controls app \<longrightarrow> armed app = pending"
  shows "stops (fst (tui_loop es app w)) \<le> stops w + confirmed_stops pending (map snd es)"
  using assms
proof (induction es arbitrary: app w pending)
  case (Cons e es)
  obtain env event where e: "e = (env, event)" by force
  obtain w1 r where turn: "tui_turn env event app w = (w1, r)" by force
  show ?case
  proof (cases r)
    case (Inl err)
    then show ?thesis using turn failed_turn_stops[of env event app w w1 err] by (simp add: e)
  next
    case (Inr res)
    obtain app1 stop where t: "tui_turn env event app w = (w1, Inr (app1, stop))"
      using turn Inr by (cases res) simp
    show ?thesis
      using t Cons.prems(1)
    proof (cases rule: turn_step)
      case unseen
      have a: "at_controls app1 \<longrightarrow> armed app1 = pending"
        using unseen(2) Cons.prems(2) by (simp add: same_view_def at_controls_def)
      show ?thesis
      proof (cases stop)
        case False
        then have "confirmed_stops pending (event # map snd es) = confirmed_stops pending (map snd es)"
          using unseen(4) by (cases event) auto
        then show ?thesis using Cons.IH[OF unseen(3) a, of w1] unseen(1) t False by (simp add: e quiet_def)
      qed (use unseen(1) t in \<open>simp add: e quiet_def\<close>)
    next
      case (pressed code control app2 w2)
      from key_step[OF pressed(5,4)] have k: "tui_inv app1" "armed app1 \<longrightarrow> stop \<or> code = key ''x''"
        "key_effect env code app2 w2 w1 app1" by simp_all
      have before: "at_controls app2 \<longrightarrow> armed app2 = pending" "stops w2 = stops w"
        using pressed(2,3) Cons.prems(2) by (simp_all add: same_view_def at_controls_def quiet_def)
      show ?thesis
      proof (cases "code = key ''x''")
        case True
        note x = x_step[OF pressed(5)[unfolded True] pressed(4)]
        then have "at_controls app1 \<longrightarrow> armed app1 = (\<not> pending)" using before by (auto split: if_splits)
        from Cons.IH[OF k(1) this, of w1] x before t show ?thesis
          by (auto simp: e pressed(1) True split: if_splits)
      next
        case False
        then have same: "stops w1 = stops w" using key_stops[OF k(3)] before by simp
        show ?thesis
        proof (cases stop)
          case go: False
          then have "at_controls app1 \<longrightarrow> armed app1 = False" using k(2) False by simp
          from Cons.IH[OF k(1) this, of w1] same go t False show ?thesis by (simp add: e pressed(1))
        qed (use same t in \<open>simp add: e\<close>)
      qed
    qed
  qed
qed simp

lemma open_facts:
  assumes "open_tui env entry params defaults w = (w', app)"
  shows "quiet w w' \<and> tui_inv app \<and> \<not> armed app \<and> \<not> at_controls app \<and> \<not> ap_saved_config app \<and>
    ap_startup app = tp_startup params"
  using assms
  by (auto simp: open_tui_def tui_inv_def armed_def at_controls_def str_len_def landing_screen_of_def Let_def
      dest: load_control_facts split: prod.splits operator_tui_entry.splits)

text \<open>C30: the bot is stopped only on a confirmed command: whatever happens in a session, it sends at most one
  stop request for each time \<^verbatim>\<open>x\<close> was pressed twice with no other key between.  One press, or a press
  that another key followed, sends none.\<close>

theorem stop_needs_confirmation:
  "stops (fst (run_operator_tui env entry params events w)) \<le>
   stops w + confirmed_stops False (map snd events)"
proof (cases "canonical_startup_config (te_config_lib env)")
  case None
  then show ?thesis using note_status[of w] by (simp add: run_operator_tui_def quiet_def)
next
  case (Some defaults)
  obtain w1 app where o: "open_tui env entry params defaults w = (w1, app)" by force
  from open_facts[OF this] have "stops w1 = stops w" "tui_inv app" "\<not> at_controls app"
    by (simp_all add: quiet_def)
  with tui_loop_stops[of app False events w1] show ?thesis
    by (simp add: run_operator_tui_def Some o split: option.split)
qed

lemma tui_loop_saves:
  assumes "tui_loop es app w = (w', Closed b)" and "tui_inv app" and "ld_config_path (ap_startup app) = p"
    and "saved_files p n s (tw_fs w)" and "ap_saved_config app = (0 < n)"
  shows "\<exists>m. saved_files p m s (tw_fs w') \<and> b = (0 < m)"
  using assms
proof (induction es arbitrary: app w n)
  case (Cons e es)
  obtain env event where e: "e = (env, event)" by force
  from Cons.prems(1) obtain w1 app1 stop where t: "tui_turn env event app w = (w1, Inr (app1, stop))"
    and rest: "stop \<and> w' = w1 \<and> b = ap_saved_config app1 \<or> \<not> stop \<and> tui_loop es app1 w1 = (w', Closed b)"
    by (auto simp: e ended_def split: prod.splits sum.splits if_splits turn_end.splits)
  have step: "\<exists>m. saved_files p m s (tw_fs w1) \<and> ap_saved_config app1 = (0 < m) \<and>
      ld_config_path (ap_startup app1) = p \<and> tui_inv app1"
    using t Cons.prems(2)
  proof (cases rule: turn_step)
    case unseen
    then show ?thesis using Cons.prems(3-5) by (auto simp: quiet_def same_view_def)
  next
    case (pressed code control app2 w2)
    from key_step[OF pressed(5,4)] have k: "tui_inv app1" "key_effect env code app2 w2 w1 app1" by simp_all
    have same: "tw_fs w2 = tw_fs w" "ap_saved_config app2 = ap_saved_config app"
      "ld_config_path (ap_startup app2) = p"
      using pressed(2,3) Cons.prems(3) by (simp_all add: quiet_def same_view_def)
    have p: "ld_config_path (ap_startup app1) = p" using k(2) same by (simp add: key_effect_def)
    show ?thesis
    proof (cases "saves env app2 (tw_fs w2) (tw_fs w1) \<and> ap_saved_config app1")
      case True
      with saved_files.saved[OF Cons.prems(4)] same have "saved_files p (Suc n) s (tw_fs w1)"
        by (auto simp: saves_def)
      with True p k show ?thesis by auto
    next
      case False
      with k(2) have "tw_fs w1 = tw_fs w2" "ap_saved_config app1 = ap_saved_config app2"
        by (auto simp: key_effect_def quiet_def)
      with same p k Cons.prems(4,5) show ?thesis by auto
    qed
  qed
  then obtain m where m: "saved_files p m s (tw_fs w1)" "ap_saved_config app1 = (0 < m)"
    "ld_config_path (ap_startup app1) = p" "tui_inv app1" by blast
  from rest show ?case
  proof
    assume "stop \<and> w' = w1 \<and> b = ap_saved_config app1"
    with m show ?thesis by auto
  next
    assume "\<not> stop \<and> tui_loop es app1 w1 = (w', Closed b)"
    with Cons.IH[of app1 w1 m] m show ?thesis by blast
  qed
qed simp

lemma session_writes:
  assumes "run_operator_tui env entry params events w = (w', Closed saved)"
  shows "\<exists>n. saved_files (ld_config_path (tp_startup params)) n (tw_fs w) (tw_fs w') \<and> saved = (0 < n)"
proof -
  from assms obtain defaults w1 app where o: "open_tui env entry params defaults w = (w1, app)"
    and l: "tui_loop events app w1 = (w', Closed saved)"
    by (auto simp: run_operator_tui_def split: option.splits prod.splits)
  from open_facts[OF o] have "tui_inv app" "ap_startup app = tp_startup params" "\<not> ap_saved_config app"
    and fs: "tw_fs w1 = tw_fs w" by (simp_all add: quiet_def)
  with tui_loop_saves[OF l, of "ld_config_path (tp_startup params)" 0] saved_files.untouched show ?thesis by simp
qed

text \<open>C31: the operator interface changes files only by saving: when a session closes, the files are what
  \<open>n\<close> complete writes of valid configurations to the configured path left, each of which could be loaded
  again, and the session reports a saved configuration exactly when there was such a write.\<close>

theorem tui_writes_only_valid:
  assumes "run_operator_tui env entry params events w = (w', Closed saved)"
  shows "\<exists>n. saved_files (ld_config_path (tp_startup params)) n (tw_fs w) (tw_fs w') \<and> saved = (0 < n)"
  using assms by (rule session_writes)

section \<open>Reachable states\<close>

inductive tui_reach ::
  "operator_tui_entry \<Rightarrow> operator_tui_params \<Rightarrow> tui_world \<Rightarrow> tui_world \<Rightarrow> operator_tui_app \<Rightarrow> bool"
  for entry params w where
  opened: "open_tui env entry params defaults w = (w1, app) \<Longrightarrow> tui_reach entry params w w1 app"
| turned: "tui_reach entry params w w1 app \<Longrightarrow> tui_turn env event app w1 = (w2, Inr (app', False)) \<Longrightarrow>
    tui_reach entry params w w2 app'"

lemma tui_reach_inv: "tui_reach entry params w w1 app \<Longrightarrow> tui_inv app"
proof (induction rule: tui_reach.induct)
  case (opened env defaults w1 app)
  then show ?case using open_facts by blast
next
  case (turned w1 app env event w2 app')
  from turned.hyps(2) turned.IH show ?case
    by (cases rule: turn_step) (auto dest: key_step)
qed

text \<open>C34: in every state a session reaches, the input line holds at most 4099 bytes and the search at most 256
  characters; a stop is armed only while keys are commands; and while a field is edited the setup screen
  shows it, the selected field of the page.\<close>

theorem tui_state_bounds:
  assumes "tui_reach entry params w w1 app"
  shows "str_len (ap_input_buffer app) \<le> MAX_INPUT_BUFFER_LEN + 3 \<and>
    length (au_search (ap_audit app)) \<le> MAX_AUDIT_SEARCH_LEN \<and>
    (case ap_input_mode app of
       NormalInput \<Rightarrow> True
     | SetupEdit field \<Rightarrow> \<not> armed app \<and> ap_screen app = SetupScreen \<and>
         selected_setup_field (ap_setup app) = Some field
     | AuditSearch \<Rightarrow> \<not> armed app \<and> ap_screen app = AuditScreen)"
  using tui_reach_inv[OF assms] by (auto simp: tui_inv_def split: input_mode.split)

section \<open>Sessions that end with an error\<close>

definition save_refused :: "tui_env \<Rightarrow> operator_tui_app \<Rightarrow> fs \<Rightarrow> bool" where
  "save_refused env app s \<longleftrightarrow>
     (let p = ld_config_path (ap_startup app); draft = ss_draft (ap_setup app);
          (s', r) = write_startup_config_to_path (te_store env) (te_store_lib env) p draft s
      in validate_config draft \<noteq> Inr () \<or> r \<noteq> Inr () \<or>
         (\<exists>e. load_startup_config_from_path (te_store env) (te_store_lib env) p s' = Inl e))"

lemma save_fails: "(\<exists>e. snd (save_draft env app w) = Inl e) \<longleftrightarrow> save_refused env app (tw_fs w)"
  by (auto simp: save_draft_def save_refused_def io_bind_def map_err_def on_fs_def validate_startup_config_def
      rbind_def Let_def split: prod.splits sum.splits)

definition input_refused :: "tui_lib \<Rightarrow> setup_field \<Rightarrow> rstr \<Rightarrow> bool" where
  "input_refused lib field typed \<longleftrightarrow>
     str_trim typed \<noteq> [] \<and>
     (case number_bound field of
        Some hi \<Rightarrow> \<exists>e. parse_unsigned hi (str_trim typed) = Inl e
      | None \<Rightarrow> field = DetectorBackend \<and> (\<exists>e. tl_parse_backend lib (str_trim typed) = Inl e))"

lemma typed_fails:
  "(\<exists>e. handle_setup_edit_keys env field code app = Inl e) \<longleftrightarrow>
   code = KeyEnter \<and> input_refused (te_lib env) field (ap_input_buffer app)"
proof -
  have "(\<exists>e. handle_setup_edit_keys env field code app = Inl e) \<longleftrightarrow> code = KeyEnter \<and>
    (\<exists>e. apply_custom_field_input (te_lib env) (ap_language app) field (ap_input_buffer app) (ap_setup app) = Inl e)"
    by (auto simp: handle_setup_edit_keys_def rbind_Inl)
  then show ?thesis unfolding input_refused_iff input_refused_def .
qed

definition at_save :: "operator_tui_app \<Rightarrow> bool" where
  "at_save app \<longleftrightarrow> ap_input_mode app = NormalInput \<and> ap_screen app = SetupScreen \<and>
     ss_page (ap_setup app) = PreviewPage"

lemma screen_fails:
  "(\<exists>e. snd (screen_keys env code app w) = Inl e) \<longleftrightarrow>
   code = key ''s'' \<and> ap_screen app = SetupScreen \<and> ss_page (ap_setup app) = PreviewPage \<and>
   save_refused env app (tw_fs w)"
  by (auto simp: screen_keys_def handle_setup_normal_keys_def save_fails split: screen.split)

lemma refused_cong:
  "ap_setup app' = ap_setup app \<Longrightarrow> ld_config_path (ap_startup app') = ld_config_path (ap_startup app) \<Longrightarrow>
   save_refused env app' s = save_refused env app s"
  by (simp add: save_refused_def)

lemma global_fails:
  "(\<exists>e. snd (handle_global_keys env code app w) = Inl e) \<longleftrightarrow>
   code = key ''s'' \<and> ap_screen app = SetupScreen \<and> ss_page (ap_setup app) = PreviewPage \<and>
   save_refused env app (tw_fs w)"
proof (cases "ap_screen app = WelcomeScreen \<or> code = key ''x'' \<or> code = KeyEsc \<and> armed app \<or> code = key ''q''")
  case True
  then have "\<not> (\<exists>e. snd (handle_global_keys env code app w) = Inl e)"
    by (auto simp: handle_global_keys_def split: prod.split)
  moreover have "\<not> (code = key ''s'' \<and> ap_screen app = SetupScreen)" using True by (auto simp: lit_def)
  ultimately show ?thesis by blast
next
  case False
  obtain w1 app1 where c: "common_key env code app w = (w1, app1)" by force
  have "(\<exists>e. snd (handle_global_keys env code app w) = Inl e) \<longleftrightarrow>
      (\<exists>e. snd (screen_keys env code (set_armed False app1) w1) = Inl e)"
    using False c by (auto simp: handle_global_keys_def io_bind_def split: prod.splits sum.splits)
  also have "\<dots> \<longleftrightarrow> code = key ''s'' \<and> ap_screen app1 = SetupScreen \<and> ss_page (ap_setup app1) = PreviewPage \<and>
      save_refused env app1 (tw_fs w1)"
    using refused_cong[of "set_armed False app1" app1] by (simp add: screen_fails)
  also have "\<dots> \<longleftrightarrow> code = key ''s'' \<and> ap_screen app = SetupScreen \<and> ss_page (ap_setup app) = PreviewPage \<and>
      save_refused env app (tw_fs w)"
    using c by (auto simp: common_key_def screen_of_key_def lit_def)
  finally show ?thesis .
qed

lemma key_fails:
  "(\<exists>e. snd (handle_key env code app w) = Inl e) \<longleftrightarrow>
   code = key ''s'' \<and> at_save app \<and> save_refused env app (tw_fs w) \<or>
   (\<exists>field. ap_input_mode app = SetupEdit field \<and> (\<exists>e. handle_setup_edit_keys env field code app = Inl e))"
  using global_fails[of env code app w]
  by (cases "ap_input_mode app") (auto simp: handle_key_def at_save_def rbind_Inl split: prod.split)

text \<open>Drawing panics only on the audit screen, where the histogram of the rows shown does.\<close>

definition draws :: "operator_tui_app \<Rightarrow> bool" where
  "draws app \<longleftrightarrow>
     (case ap_screen app of
        AuditScreen \<Rightarrow> hourly_histogram (filtered_audit_rows (ap_audit app)) 8 \<noteq> None
      | _ \<Rightarrow> True)"

lemma drawn_None: "drawn env app = None \<longleftrightarrow> \<not> draws app"
  by (simp add: drawn_def draws_def render_app_def render_audit_def build_audit_advanced_block_def Let_def
      case_prod_beta split: screen.split)

lemma refresh_draws: "auto_refresh env app w = (w1, app1) \<Longrightarrow> draws app1 = draws app"
proof -
  assume "auto_refresh env app w = (w1, app1)"
  then have "ap_screen app1 = ap_screen app" "ap_audit app1 = ap_audit app"
    by (auto simp: auto_refresh_def refresh_control_state_def split: prod.splits if_splits)
  then show ?thesis by (simp add: draws_def cong: screen.case_cong)
qed

text \<open>C33: what ends a session with an error, exactly: a failing terminal; a save that is refused, because the
  draft is not valid, or could not be written or read back; and a number or backend typed into a field
  that does not parse.  The last two are not reported in the interface: they close it and lose the
  draft.  And what makes it panic: an audit screen whose histogram cannot cut the time stamps.\<close>

theorem tui_turn_fails_iff:
  "(snd (tui_turn env event app w) = Inl TurnPanicked \<longleftrightarrow> \<not> draw_refused event \<and> \<not> draws app) \<and>
   ((\<exists>e. snd (tui_turn env event app w) = Inl (TurnFailed e)) \<longleftrightarrow>
    draw_refused event \<or> draws app \<and>
     ((\<exists>e. event = EventFailed e) \<or>
      (\<exists>control. event = KeyPress (key ''s'') control \<and> at_save app \<and> save_refused env app (tw_fs w)) \<or>
      (\<exists>control field. event = KeyPress KeyEnter control \<and> ap_input_mode app = SetupEdit field \<and>
         input_refused (te_lib env) field (ap_input_buffer app))))"
proof -
  obtain w1 app1 where a: "auto_refresh env app w = (w1, app1)" by force
  from auto_refresh_facts[OF a] have v: "quiet w w1" "same_view app app1" by simp_all
  then have same: "at_save app1 = at_save app" "save_refused env app1 (tw_fs w1) = save_refused env app (tw_fs w)"
    "ap_input_mode app1 = ap_input_mode app" "ap_input_buffer app1 = ap_input_buffer app"
    using refused_cong[of app1 app] by (simp_all add: quiet_def same_view_def at_save_def)
  have ends: "snd (tui_turn env event app w) =
      (if draw_refused event \<or> draws app then map_sum TurnFailed id (snd (handle_event env event app1 w1))
       else Inl TurnPanicked)"
    by (auto simp: tui_turn_def a drawn_None refresh_draws[OF a] map_err_def
        split: prod.split sum.split)
  have "(\<exists>e. snd (handle_event env event app1 w1) = Inl e) \<longleftrightarrow>
      draw_refused event \<or> (\<exists>e. event = EventFailed e) \<or>
      (\<exists>control. event = KeyPress (key ''s'') control \<and> at_save app \<and> save_refused env app (tw_fs w)) \<or>
      (\<exists>control field. event = KeyPress KeyEnter control \<and> ap_input_mode app = SetupEdit field \<and>
         input_refused (te_lib env) field (ap_input_buffer app))"
  proof (cases event)
    case (KeyPress code control)
    have "code = key ''s'' \<or> code = KeyEnter \<Longrightarrow> \<not> is_force_quit_key code control"
      by (auto simp: is_force_quit_key_def lit_def)
    then show ?thesis
      using key_fails[of env code app1 w1]
      by (auto simp: handle_event_def draw_refused_def KeyPress same typed_fails)
  qed (simp_all add: handle_event_def draw_refused_def)
  then show ?thesis
    by (cases "snd (handle_event env event app1 w1)") (auto simp: ends draw_refused_def)
qed

section \<open>A session\<close>

text \<open>A session that opens on the setup page, saves the draft it was given and closes.\<close>

definition sample_config_lib :: config_lib where
  "sample_config_lib =
     \<lparr>cl_embedded_value = Inl [], cl_embedded_config = Inr sample_startup, cl_decoders = sample_decoders\<rparr>"

lemma sample_canonical: "canonical_startup_config sample_config_lib = Some sample_startup"
  using sample_startup_valid
  by (simp add: canonical_startup_config_def embedded_default_startup_config_def sample_config_lib_def expect_def
      validate_startup_config_def)

definition sample_tui :: tui_env where
  "sample_tui =
     \<lparr>te_store = sample_store, te_store_lib = sample_unsigned_lib, te_config_lib = sample_config_lib,
      te_lib = sample_tui_lib, te_paths = \<lparr>pl_lossy = (\<lambda>_. []), pl_sha256 = (\<lambda>_. []), pl_hex = (\<lambda>_. [])\<rparr>,
      te_wire = sample_wire, te_connect = (\<lambda>_. Inl (lit ''refused'')), te_audit = Audit_Chain.sample_audit,
      te_opened = (\<lambda>_. Inl (lit ''no database'')), te_read = (\<lambda>_. Inl []), te_arch = lit ''x86_64'',
      te_os = lit ''linux'', te_mtime = (\<lambda>_. None), te_terminal = None, te_now = 0, te_refreshed = 0\<rparr>"

definition sample_params :: operator_tui_params where
  "sample_params =
     \<lparr>tp_startup = \<lparr>ld_app = sample_signed, ld_config_path = Config_Store.sample_path, ld_config_fingerprint = [],
        ld_pseudo_id_hmac_key = None\<rparr>, tp_startup_created = False, tp_audit_limit = 10\<rparr>"

definition sample_tui_world :: tui_world where
  "sample_tui_world = \<lparr>tw_fs = sample_fs, tw_requests = []\<rparr>"

definition sample_session :: "(tui_env \<times> tui_event) list" where
  "sample_session = [(sample_tui, KeyPress KeyEnter False), (sample_tui, KeyPress (key ''s'') False),
     (sample_tui, KeyPress (key ''Q'') False)]"

lemma sample_tui_fields:
  "canonical_startup_config (te_config_lib sample_tui) = Some sample_startup" "te_terminal sample_tui = None"
  by (simp_all add: sample_tui_def sample_canonical)

lemma sample_tui_write:
  "write_startup_config_to_path sample_store sample_unsigned_lib Config_Store.sample_path sample_signed sample_fs =
   (sample_installed, Inr ())"
proof -
  have digest: "compute_signature_digest env (lib\<lparr>sl_parse := f\<rparr>) bytes v = compute_signature_digest env lib bytes v"
    for env lib f bytes v
    by (simp add: compute_signature_digest_def build_hmac_from_env_def cong: option.case_cong)
  have "config_signature_hex env (lib\<lparr>sl_parse := f\<rparr>) p c bytes = config_signature_hex env lib p c bytes"
    for env lib f p c bytes
    by (simp add: config_signature_hex_def digest cong: option.case_cong)
  then have "write_startup_config_to_path env (lib\<lparr>sl_parse := f\<rparr>) p c s = write_startup_config_to_path env lib p c s"
    for env lib f p c s
    by (simp add: write_startup_config_to_path_def render_startup_config_yaml_def cong: option.case_cong)
  then show ?thesis using sample_write by (simp add: sample_unsigned_lib_def)
qed

lemma sample_tui_load:
  "\<exists>l. load_startup_config_from_path sample_store sample_unsigned_lib Config_Store.sample_path sample_installed = Inr l"
proof -
  have "fs_node sample_installed Config_Store.sample_path = Some (File (utf8_encode (lit ''oo'' @ [10])))"
    using sample_file by (auto simp: fs_file_def fs_node_def split: option.splits node.splits)
  then show ?thesis
    by (simp add: load_startup_config_from_path_def fs_read_def sample_no_fault sample_startup_valid
        sample_unsigned_lib_def sample_lib_def fingerprint_config_def MAX_CONFIG_BYTES_def lit_def
        utf8_char_def) (simp add: sample_startup_def)
qed

lemma setup_draws: "ap_screen app = WelcomeScreen \<or> ap_screen app = SetupScreen \<Longrightarrow> drawn env app \<noteq> None"
  unfolding drawn_None by (auto simp: draws_def)

lemma save_succeeds:
  assumes "\<not> save_refused env app (tw_fs w)"
  obtains w' app' where "save_draft env app w = (w', Inr app')"
  using assms save_fails[of env app w] by (cases "save_draft env app w"; cases "snd (save_draft env app w)") auto

lemma sample_session_saves:
  "\<exists>w'. run_operator_tui sample_tui EntrySetup sample_params sample_session sample_tui_world = (w', Closed True)"
proof -
  obtain w1 app where o: "open_tui sample_tui EntrySetup sample_params sample_startup sample_tui_world = (w1, app)"
    by force
  from open_facts[OF o] have fs: "tw_fs w1 = sample_fs" and st: "ap_startup app = tp_startup sample_params"
    by (simp_all add: quiet_def sample_tui_world_def)
  from o have ap: "ap_screen app = WelcomeScreen" "ap_input_mode app = NormalInput"
    "ap_landing_screen app = SetupScreen" "\<not> armed app"
    "ap_setup app = \<lparr>ss_draft = sample_signed, ss_defaults = sample_startup, ss_page = PreviewPage, ss_selected = 0\<rparr>"
    using open_facts[OF o]
    by (auto simp: open_tui_def landing_screen_of_def sample_params_def Let_def split: prod.splits)
  let ?app1 = "app\<lparr>ap_screen := SetupScreen,
    ap_status := default_status_message (te_lib sample_tui) (ap_startup_created app) (ap_language app)\<rparr>"
  have "\<not> save_refused sample_tui (set_armed False ?app1) (tw_fs w1)"
    using sample_tui_load sample_tui_write sample_signed_valid
    by (auto simp: save_refused_def sample_tui_def ap st fs sample_params_def)
  then obtain w2 app2 where sv: "save_draft sample_tui (set_armed False ?app1) w1 = (w2, Inr app2)"
    by (rule save_succeeds)
  from save_draft_facts[OF sv] have saved: "ap_saved_config app2" "ap_screen app2 = SetupScreen" by simp_all
  have "tui_loop sample_session app w1 = (w2, Closed True)"
    using saved ap sv
    by (simp add: sample_session_def tui_turn_def draw_refused_def drawn_None draws_def handle_event_def map_err_def auto_refresh_def should_auto_refresh_control_def
        handle_key_def handle_global_keys_def handle_welcome_keys_def common_key_def screen_of_key_def
        screen_keys_def handle_setup_normal_keys_def is_force_quit_key_def io_bind_def lit_def armed_def)
  then show ?thesis
    by (simp add: run_operator_tui_def o sample_tui_fields)
qed

text \<open>Witnesses.\<close>

theorem tui_writes_only_valid_witness:
  "\<exists>w' n. run_operator_tui sample_tui EntrySetup sample_params sample_session sample_tui_world = (w', Closed True) \<and>
     saved_files Config_Store.sample_path n sample_fs (tw_fs w') \<and> 0 < n"
proof -
  from sample_session_saves obtain w' where r: "run_operator_tui sample_tui EntrySetup sample_params sample_session
    sample_tui_world = (w', Closed True)" by blast
  from tui_writes_only_valid[OF r] r show ?thesis by (simp add: sample_params_def sample_tui_world_def)
qed

theorem tui_state_bounds_witness:
  "length (au_search (ap_audit (snd (open_tui sample_tui EntrySetup sample_params sample_startup
     sample_tui_world)))) \<le> MAX_AUDIT_SEARCH_LEN"
proof -
  obtain w1 app where o: "open_tui sample_tui EntrySetup sample_params sample_startup sample_tui_world = (w1, app)"
    by force
  from tui_state_bounds[OF tui_reach.opened[OF o]] show ?thesis by (simp add: o)
qed

end
