(* ===== verification/Tui_Panics.thy ===== *)
theory Tui_Panics
  imports Tui_Runs
begin

text \<open>
  When the operator interface does not panic.  The only panic inside the loop is the histogram of the audit
  screen, which cuts the time stamps of the rows at byte offsets; the rows are what the audit store gave
  when they were loaded, and no key changes them otherwise.
\<close>

section \<open>Rows that are loaded\<close>

definition clean_row :: "audit_event_row \<Rightarrow> bool" where
  "clean_row r \<longleftrightarrow> str_is_ascii (ev_ts_utc r)"

definition clean_rows :: "operator_tui_app \<Rightarrow> bool" where
  "clean_rows app \<longleftrightarrow> (\<forall>r \<in> set (au_rows (ap_audit app)). clean_row r)"

text \<open>The databases that can be opened hold time stamps in ASCII, as RFC 3339 writes them.\<close>

definition clean_logs :: "tui_env \<Rightarrow> bool" where
  "clean_logs env \<longleftrightarrow>
     (\<forall>p db. te_opened env p = Inr db \<longrightarrow> (\<forall>e \<in> set (db_events db). str_is_ascii (ev_ts_utc e)))"

lemma tail_rows:
  assumes "audit_tail env q store = Inr rows" and "r \<in> set rows"
  obtains e where "e \<in> set (db_events (as_db store))" "r = map_audit_event_row e"
proof -
  from assms obtain events where ev: "query_events_capped env q store = Inr events" and "r \<in> set events"
    by (auto simp: audit_tail_def rbind_Inr Let_def dest!: in_set_takeD)
  moreover from ev have "set events \<subseteq> map_audit_event_row ` set (db_events (as_db store))"
    by (auto simp: query_events_capped_def rbind_Inr db_try_def sql_limit_def Let_def
        dest!: in_set_takeD split: option.splits if_splits)
  ultimately show thesis using that by blast
qed

lemma loaded_clean:
  assumes "clean_logs env" and "r \<in> set (au_rows (load_audit_state lib (check_env_of env s) startup n language))"
  shows "clean_row r"
proof -
  from assms(2) obtain cfg p q store rows where "open_ro cfg (te_opened env p) = Inr store"
    and tail: "audit_tail (te_audit env) q store = Inr rows" "r \<in> set rows"
    by (auto simp: load_audit_state_def fresh_audit_state_def check_env_of_def Let_def
        dest!: sym[of "Inr _" "audit_tail _ _ _"] split: if_splits sum.splits)
  then have opened: "te_opened env p = Inr (as_db store)" by (auto simp: open_ro_def rbind_Inr)
  from tail obtain e where "e \<in> set (db_events (as_db store))" "r = map_audit_event_row e" by (rule tail_rows)
  with opened assms(1) show ?thesis
    by (auto simp: clean_logs_def clean_row_def map_audit_event_row_def audit_event_row.truncate_def)
qed

section \<open>No key spoils them\<close>

lemma reload_clean [simp]: "clean_logs env \<Longrightarrow> clean_rows (reload_audit env s app)"
  by (auto simp: clean_rows_def reload_audit_def loaded_clean)

lemma clean_updates [simp]:
  "clean_rows (app\<lparr>ap_status := t\<rparr>) = clean_rows app"
  "clean_rows (app\<lparr>ap_screen := sc\<rparr>) = clean_rows app"
  "clean_rows (app\<lparr>ap_startup := l\<rparr>) = clean_rows app"
  "clean_rows (app\<lparr>ap_control := c\<rparr>) = clean_rows app"
  "clean_rows (app\<lparr>ap_setup := st\<rparr>) = clean_rows app"
  "clean_rows (app\<lparr>ap_language := language\<rparr>) = clean_rows app"
  "clean_rows (app\<lparr>ap_saved_config := b\<rparr>) = clean_rows app"
  "clean_rows (app\<lparr>ap_input_mode := m\<rparr>) = clean_rows app"
  "clean_rows (app\<lparr>ap_input_buffer := t\<rparr>) = clean_rows app"
  "clean_rows (app\<lparr>ap_last_control_refresh := now\<rparr>) = clean_rows app"
  "clean_rows (app\<lparr>ap_audit := (ap_audit app)\<lparr>au_search := t\<rparr>\<rparr>) = clean_rows app"
  "clean_rows (app\<lparr>ap_audit := (ap_audit app)\<lparr>au_sort := chosen\<rparr>\<rparr>) = clean_rows app"
  "clean_rows (app\<lparr>ap_audit := (ap_audit app)\<lparr>au_mode_filter := f\<rparr>\<rparr>) = clean_rows app"
  by (simp_all add: clean_rows_def)

lemma refresh_clean: "refresh_control_state env app w = (w', app') \<Longrightarrow> clean_rows app' = clean_rows app"
  by (auto simp: refresh_control_state_def split: prod.splits)

lemma auto_refresh_clean: "auto_refresh env app w = (w', app') \<Longrightarrow> clean_rows app' = clean_rows app"
  by (auto simp: auto_refresh_def dest: refresh_clean split: prod.splits if_splits)

lemma language_clean:
  "switch_language env language app w = (w', app') \<Longrightarrow> clean_logs env \<Longrightarrow> clean_rows app'"
  by (auto simp: switch_language_def relocalize_app_def Let_def split: prod.splits)

lemma common_clean:
  "common_key env code app w = (w', app') \<Longrightarrow> clean_logs env \<Longrightarrow> clean_rows app \<Longrightarrow> clean_rows app'"
  by (auto simp: common_key_def refresh_runtime_snapshot_def Let_def dest: language_clean
      split: if_splits prod.splits option.splits)

lemma save_clean:
  "save_draft env app w = (w', Inr app') \<Longrightarrow> clean_logs env \<Longrightarrow> clean_rows app'"
  by (auto simp: save_draft_def Let_def io_bind_def split: prod.splits sum.splits)

lemma setup_key_clean: "clean_rows (setup_key env code app) = clean_rows app"
  by (simp add: setup_key_def with_field_def Let_def split: option.split)

lemma screen_clean:
  assumes "screen_keys env code app w = (w', Inr app')" and "clean_logs env" "clean_rows app"
  shows "clean_rows app'"
proof (cases "ap_screen app")
  case SetupScreen
  with assms show ?thesis
    by (auto simp: screen_keys_def handle_setup_normal_keys_def setup_key_clean io_return_def dest: save_clean
        split: if_splits)
next
  case AuditScreen
  with assms show ?thesis
    by (auto simp: screen_keys_def handle_audit_normal_keys_def Let_def split: if_splits)
qed (use assms in \<open>simp_all add: screen_keys_def\<close>)

lemma typed_clean:
  assumes "handle_setup_edit_keys env field code app = Inr (app', left)"
  shows "clean_rows app' = clean_rows app"
proof -
  consider "code = KeyEsc" | "code = KeyEnter" | "code \<noteq> KeyEsc" "code \<noteq> KeyEnter" by blast
  then show ?thesis
    using assms by cases (auto simp: handle_setup_edit_keys_def rbind_Inr)
qed

lemma search_clean:
  assumes "handle_audit_search_keys env code app = (app', left)"
  shows "clean_rows app' = clean_rows app"
proof -
  consider "code = KeyEsc" | "code = KeyEnter" | "code \<noteq> KeyEsc" "code \<noteq> KeyEnter" by blast
  then show ?thesis
    using assms by cases (auto simp: handle_audit_search_keys_def Let_def)
qed

lemma key_clean:
  assumes "handle_key env code app w = (w', Inr (app', stop))" and "clean_logs env" "clean_rows app"
  shows "clean_rows app'"
proof (cases "ap_input_mode app")
  case NormalInput
  with assms(1) have g: "handle_global_keys env code app w = (w', Inr (app', stop))" by (simp add: handle_key_def)
  have stop: "send_stop env app w = (w1, app1) \<Longrightarrow> clean_rows app1" for w1 app1
    using assms(3) by (auto simp: send_stop_def Let_def dest!: refresh_clean split: prod.splits sum.splits)
  have start: "handle_welcome_keys env code app w = (w1, app1, b) \<Longrightarrow> clean_rows app1" for w1 app1 b
    using assms(2,3) by (auto simp: handle_welcome_keys_def dest: language_clean split: if_splits prod.splits)
  show ?thesis
  proof (cases "ap_screen app = WelcomeScreen \<or> code = key ''x'' \<or> code = KeyEsc \<and> armed app \<or> code = key ''q''")
    case True
    with g show ?thesis
      using assms(3)
      by (cases "handle_welcome_keys env code app w")
        (auto simp: handle_global_keys_def dest!: stop start split: if_splits prod.splits)
  next
    case False
    obtain w1 app1 where c: "common_key env code app w = (w1, app1)" by force
    with g False obtain app2 where "screen_keys env code (set_armed False app1) w1 = (w', Inr app2)" "app' = app2"
      by (auto simp: handle_global_keys_def io_step_Inr)
    with screen_clean assms(2) common_clean[OF c assms(2,3)] show ?thesis by simp
  qed
next
  case (SetupEdit field)
  with assms(1) obtain app1 left where "handle_setup_edit_keys env field code app = Inr (app1, left)"
    and "app' = (if left then app1\<lparr>ap_input_mode := NormalInput\<rparr> else app1)"
    by (auto simp: handle_key_def rbind_Inr)
  then show ?thesis using typed_clean assms(3) by (cases left) simp_all
next
  case AuditSearch
  obtain app1 left where h: "handle_audit_search_keys env code app = (app1, left)" by force
  with assms(1) AuditSearch have "app' = (if left then app1\<lparr>ap_input_mode := NormalInput\<rparr> else app1)"
    by (auto simp: handle_key_def)
  then show ?thesis using search_clean[OF h] assms(3) by (cases left) simp_all
qed

lemma turn_clean:
  assumes "tui_turn env event app w = (w', Inr (app', stop))" and "clean_logs env" "clean_rows app"
  shows "clean_rows app'"
proof -
  obtain w1 app1 where a: "auto_refresh env app w = (w1, app1)" by force
  with assms(1) have "handle_event env event app1 w1 = (w', Inr (app', stop))" by (simp add: tui_turn_ends)
  moreover have "clean_rows app1" using auto_refresh_clean[OF a] assms(3) by simp
  ultimately show ?thesis
    using key_clean[OF _ assms(2)] by (auto simp: handle_event_def split: tui_event.splits if_splits)
qed

lemma clean_draws: "clean_rows app \<Longrightarrow> drawn env app \<noteq> None"
  using histogram_safe[of "filtered_audit_rows (ap_audit app)" "te_lib env" "ap_language app"]
  by (auto simp: drawn_def render_app_def render_audit_def clean_rows_def clean_row_def set_filtered Let_def
      split: screen.split)

lemma clean_turn: "clean_rows app \<Longrightarrow> snd (tui_turn env event app w) \<noteq> Inl TurnPanicked"
proof -
  assume "clean_rows app"
  moreover obtain w1 app1 where a: "auto_refresh env app w = (w1, app1)" by force
  ultimately have "drawn env app1 \<noteq> None" using clean_draws auto_refresh_clean by blast
  then show ?thesis by (cases "tui_turn env event app w") (auto simp: tui_turn_ends(2)[OF a])
qed

lemma clean_loop:
  "clean_rows app \<Longrightarrow> \<forall>(env, _) \<in> set es. clean_logs env \<Longrightarrow> snd (tui_loop es app w) \<noteq> Panicked"
proof (induction es arbitrary: app w)
  case (Cons e es)
  obtain env event where e: "e = (env, event)" by force
  obtain w1 r where turn: "tui_turn env event app w = (w1, r)" by force
  show ?case
  proof (cases r)
    case (Inl err)
    moreover have "err \<noteq> TurnPanicked" using clean_turn[OF Cons.prems(1), of env event w] turn Inl by auto
    ultimately show ?thesis using turn by (cases err) (simp_all add: e ended_def)
  next
    case (Inr res)
    obtain app1 stop where res: "res = (app1, stop)" by force
    have "clean_rows app1" using turn_clean[of env event app w w1 app1 stop] turn Inr res Cons.prems e by auto
    with Cons show ?thesis by (simp add: e turn Inr res)
  qed
qed simp

text \<open>C35: the operator interface does not panic: if the embedded configuration is well formed and every
  audit database it may open has time stamps in ASCII, as the program records them, no session ends in
  a panic, whatever keys are pressed and whatever else the surroundings do.\<close>

theorem tui_never_panics:
  assumes "canonical_startup_config (te_config_lib env) \<noteq> None" and "clean_logs env"
    and "\<forall>(env', _) \<in> set events. clean_logs env'"
  shows "snd (run_operator_tui env entry params events w) \<noteq> Panicked"
proof -
  from assms(1) obtain defaults where defaults: "canonical_startup_config (te_config_lib env) = Some defaults" by auto
  obtain w1 app where o: "open_tui env entry params defaults w = (w1, app)" by force
  then have "clean_rows app"
    using assms(2) by (auto simp: open_tui_def clean_rows_def loaded_clean Let_def split: prod.splits)
  from clean_loop[OF this assms(3), of w1] show ?thesis
    by (simp add: run_operator_tui_def defaults o split: option.split)
qed

theorem tui_never_panics_witness:
  "snd (run_operator_tui sample_tui EntryAudit sample_params
     [(sample_tui, KeyPress KeyEnter False), (sample_tui, KeyPress (key ''r'') False)] sample_tui_world) \<noteq> Panicked"
proof -
  have "clean_logs sample_tui" by (simp add: clean_logs_def sample_tui_def)
  then show ?thesis by (intro tui_never_panics) (simp_all add: sample_tui_fields)
qed

end
