(* ===== verification/Whole_Message.thy ===== *)
theory Whole_Message
  imports Sandbox_Guest Core_Governor
begin

text \<open>
  The pipeline as it is shipped: the trusted core with the analyzer in its sandbox.  What a message is
  answered with is a function of its text, the report of the detector, the mode and the configuration;
  the sandbox can only withhold the answer.
\<close>

section \<open>The sandbox withholds or answers\<close>

definition engine_works :: "host_outcome \<Rightarrow> bool" where
  "engine_works h \<longleftrightarrow>
     store_error h = None \<and> instance_error h = None \<and> \<not> memory_missing h \<and> write_error h = None \<and>
     func_error h = None \<and> call_error h = None"

definition sandbox_answers :: "wasmtime_analyzer \<Rightarrow> rstr \<Rightarrow> bool" where
  "sandbox_answers a content \<longleftrightarrow>
     wa_abi_version a = SANDBOX_ABI_VERSION \<and> str_len content \<le> min (memory_limit_bytes (wa_cfg a)) 65536 \<and>
     engine_works (shd (wa_engine a))"

lemma propose_exact:
  assumes "wf_str (req_content req)"
  shows "snd (wasmtime_propose a req) = Inr p \<longleftrightarrow>
    sandbox_answers a (req_content req) \<and> p = guest_verdict req"
proof (cases "str_len (req_content req) \<le> 65536")
  case True
  with assms obtain wire where "call_guest req = Some wire" "decode_wire wire = Inr (guest_verdict req)"
    using guest_answers by blast
  with True show ?thesis
    by (auto simp: wasmtime_propose_def propose_once_def sandbox_answers_def engine_works_def unless_err_Inr)
next
  case False
  then show ?thesis
    by (auto simp: wasmtime_propose_def propose_once_def sandbox_answers_def unless_err_Inr)
qed

section \<open>The answer as a function of the message\<close>

definition configured_react :: "bot_config \<Rightarrow> runtime_mode \<Rightarrow> bot_action" where
  "configured_react cfg mode =
     (if (mode = Normal \<or> mode = ReactOnly) \<and> bot_action_policy cfg \<noteq> NoOutbound \<and>
         emoji_id (reaction cfg) \<noteq> 0 \<and> emoji_name (reaction cfg) \<noteq> []
      then as_react cfg else Noop)"

text \<open>A text that may be sent is cut to the limit; otherwise the reaction takes its place.\<close>

definition say :: "bot_config \<Rightarrow> runtime_mode \<Rightarrow> suspicion_level \<Rightarrow> nat \<Rightarrow> rstr \<Rightarrow> bot_action" where
  "say cfg mode s limit t =
     (if mode = Normal \<and> bot_action_policy cfg = ReactOrSend \<and> s \<noteq> SuspicionSoft
      then (if str_trim (take limit t) = [] then Noop else SendMessage (take limit t))
      else configured_react cfg mode)"

definition reply ::
  "bot_config \<Rightarrow> runtime_mode \<Rightarrow> suspicion_level \<Rightarrow> nat \<Rightarrow> nat \<Rightarrow> detection_report \<Rightarrow> rstr \<Rightarrow> bot_action" where
  "reply cfg mode s limit cap det content =
     (let total = count_oo_sequences content + min (kanji_hits det) i32_max;
          stamps = min (min total 255) (max (min (total_count det) (max cap 1)) 1) in
      if 32768 < str_len content then Noop
      else if special_phrase_hit det then say cfg mode s limit (stamp_text cfg)
      else if total = 0 \<or> i32_max < total then Noop
      else if stamps \<le> 1 then configured_react cfg mode
      else (case render_template (send_template cfg) stamps (stamp_text cfg) (matched_backend det)
              (case matched_readings det of r # _ \<Rightarrow> r | [] \<Rightarrow> []) (lit ''send_message'') of
              Some t \<Rightarrow> if str_trim t = [] then Noop else say cfg mode s limit t
            | None \<Rightarrow> Noop))"

lemma compiled_cases:
  "proposed_action ctx = Noop \<Longrightarrow> compile_response ctx = Noop"
  "proposed_action ctx = as_react (cc_bot ctx) \<Longrightarrow>
     compile_response ctx = configured_react (cc_bot ctx) (cc_mode ctx)"
  "proposed_action ctx = SendMessage t \<Longrightarrow>
     compile_response ctx = say (cc_bot ctx) (cc_mode ctx) (cc_suspicion ctx) (cc_max_send_chars ctx) t"
  by (simp_all add: compile_exact as_react_def say_def configured_react_def guarded_react_def
      react_permitted_def valid_react_def send_permitted_def)

lemma compiled_reply:
  fixes det content
  defines "req \<equiv> \<lparr>req_content = content, req_kanji_count = backend_count_for_sandbox det,
    req_special_phrase_hit = special_phrase_hit det\<rparr>"
  shows "compile_response_from_detection (guest_verdict req) mode s cfg limit cap (Some det) =
    reply cfg mode s limit cap det content"
proof -
  define total where "total = count_oo_sequences content + min (kanji_hits det) i32_max"
  define stamps where "stamps = min (min total 255) (max (min (total_count det) (max cap 1)) 1)"
  define ctx where "ctx = \<lparr>cc_proposal = guest_verdict req, cc_mode = mode, cc_suspicion = s, cc_bot = cfg,
    cc_max_send_chars = limit, cc_matched_backend = matched_backend det,
    cc_matched_reading = (case matched_readings det of r # _ \<Rightarrow> Some r | [] \<Rightarrow> None),
    cc_count_cap = cap, cc_detector_total_count = total_count det\<rparr>"
  have ctx: "compile_response_from_detection (guest_verdict req) mode s cfg limit cap (Some det) =
      compile_response ctx"
    by (simp add: compile_response_from_detection_def ctx_def)
  have verdict: "guest_verdict req = (if str_len content > 32768 then ProposeSuspicious
      else if special_phrase_hit det then SpecialPhrase
      else if total = 0 \<or> i32_max < total then ProposeNoop
      else if total = 1 then ReactOnce else SendStamped (of_nat (min total 255)))"
    by (simp only: guest_verdict_def req_def backend_count_for_sandbox_def total_def[symmetric] Let_def
        analyzer_request.select_convs)
  have rep: "reply cfg mode s limit cap det content =
      (if str_len content > 32768 then Noop
       else if special_phrase_hit det then say cfg mode s limit (stamp_text cfg)
       else if total = 0 \<or> i32_max < total then Noop
       else if stamps \<le> 1 then configured_react cfg mode
       else (case render_template (send_template cfg) stamps (stamp_text cfg) (matched_backend det)
               (case matched_readings det of r # _ \<Rightarrow> r | [] \<Rightarrow> []) (lit ''send_message'') of
               Some t \<Rightarrow> if str_trim t = [] then Noop else say cfg mode s limit t
             | None \<Rightarrow> Noop))"
    by (simp only: reply_def total_def[symmetric] stamps_def[symmetric] Let_def)
  note fields = compiled_cases[of ctx, unfolded ctx_def, simplified, folded ctx_def]
  consider (long) "32768 < str_len content"
    | (special) "\<not> 32768 < str_len content" "special_phrase_hit det"
    | (none) "\<not> 32768 < str_len content" "\<not> special_phrase_hit det" "total = 0 \<or> i32_max < total"
    | (once) "\<not> 32768 < str_len content" "\<not> special_phrase_hit det" "total = 1"
    | (stamped) "\<not> 32768 < str_len content" "\<not> special_phrase_hit det"
        "\<not> (total = 0 \<or> i32_max < total)" "total \<noteq> 1" by blast
  then show ?thesis
  proof cases
    case long
    then have "proposed_action ctx = Noop" by (simp add: proposed_action_def proposal_to_action_def ctx_def verdict)
    with long fields(1) show ?thesis by (simp add: ctx rep)
  next
    case special
    then have "proposed_action ctx = SendMessage (stamp_text cfg)"
      by (simp add: proposed_action_def proposal_to_action_def ctx_def verdict)
    with special fields(3) show ?thesis by (simp add: ctx rep)
  next
    case none
    then have "proposed_action ctx = Noop" by (simp add: proposed_action_def proposal_to_action_def ctx_def verdict)
    with none fields(1) show ?thesis by (simp add: ctx rep)
  next
    case once
    then have "proposed_action ctx = as_react cfg"
      by (simp add: proposed_action_def proposal_to_action_def ctx_def verdict i32_max_def)
    with once fields(2) show ?thesis by (simp add: ctx rep stamps_def i32_max_def)
  next
    case stamped
    then have v: "guest_verdict req = SendStamped (of_nat (min total 255))" by (simp add: verdict)
    have width: "unat (of_nat (min total 255) :: 8 word) = min total 255"
      by (simp add: unsigned_of_nat take_bit_nat_eq_self)
    have reading: "(case cc_matched_reading ctx of Some r \<Rightarrow> r | None \<Rightarrow> []) =
        (case matched_readings det of r # _ \<Rightarrow> r | [] \<Rightarrow> [])"
      by (simp add: ctx_def split: list.split)
    have "proposed_action ctx = (if stamps \<le> 1 then as_react cfg
        else (case render_template (send_template cfg) stamps (stamp_text cfg) (matched_backend det)
            (case matched_readings det of r # _ \<Rightarrow> r | [] \<Rightarrow> []) (lit ''send_message'') of
            Some t \<Rightarrow> if str_trim t \<noteq> [] then SendMessage t else Noop | None \<Rightarrow> Noop))"
      unfolding proposed_action_def proposal_to_action_def reading[symmetric] Let_def
      by (simp only: ctx_def compile_context.select_convs v action_proposal.case width stamps_def)
    with stamped fields show ?thesis by (auto simp: ctx rep split: option.split)
  qed
qed

text \<open>C3: what a message is answered with, end to end: if everything is permitted and the sandbox works, the
  reply computed from the text, the report of the detector, the mode and the configuration; in every
  other case nothing, whatever fails in the engine.  A message of more than 32768 bytes gets no answer.\<close>

theorem message_answered:
  assumes "env_propose env = wasmtime_propose" and "wf_str content"
  shows "dec_action (snd (decide_message env ctx content now c)) =
    (if permitted env ctx content now c \<and> sandbox_answers (tc_analyzer c) content
     then reply (tc_bot_config c) (snd (recompute_mode now c))
       (classify_suspicious_input (env_nfkc env) content (tc_suspicious_cfg c))
       (max_send_chars (tc_runtime c)) (max_count_cap (tc_bot_config c)) (env_detect env content) content
     else Noop)"
proof (cases "permitted env ctx content now c")
  case True
  let ?req = "message_request env content"
  have "wf_str (req_content ?req)" using assms(2) by (simp add: message_request_def)
  note sandbox = propose_exact[OF this, of "tc_analyzer c"]
  show ?thesis
  proof (cases "sandbox_answers (tc_analyzer c) content")
    case works: True
    then have "snd (env_propose env (tc_analyzer c) ?req) = Inr (guest_verdict ?req)"
      using sandbox by (simp add: assms(1) message_request_def)
    with True works show ?thesis
      by (simp add: decide_answer governed_answer_def message_request_def compiled_reply)
  next
    case False
    then have "snd (env_propose env (tc_analyzer c) ?req) \<noteq> Inr p" for p
      using sandbox by (simp add: assms(1) message_request_def)
    with False show ?thesis
      by (simp add: decide_answer governed_answer_def split: sum.split)
  qed
qed (simp add: decide_answer governed_answer_def)

section \<open>A concrete core\<close>

definition working_engine :: host_outcome where
  "working_engine =
     \<lparr>store_error = None, instance_error = None, memory_missing = False, write_error = None, func_error = None,
      call_error = None\<rparr>"

definition shipped_analyzer :: wasmtime_analyzer where
  "shipped_analyzer =
     \<lparr>wa_cfg = sandbox_config_default, wa_abi_version = SANDBOX_ABI_VERSION, wa_engine = sconst working_engine\<rparr>"

definition shipped_core :: "wasmtime_analyzer trusted_core" where
  "shipped_core = core_new shipped_analyzer sample_bot sample_runtime 0"

definition shipped_env :: "wasmtime_analyzer core_env" where
  "shipped_env =
     \<lparr>env_propose = wasmtime_propose, env_detect = env_detect sample_env, env_nfkc = (\<lambda>s. s), env_order = (\<lambda>m. m)\<rparr>"

lemma shipped_frame:
  "tc_outbound_bucket shipped_core = tc_outbound_bucket sample_core"
  "tc_suspicious_cfg shipped_core = tc_suspicious_cfg sample_core"
  by (simp_all add: shipped_core_def sample_core_def core_new_def)

lemma shipped_mode: "snd (recompute_mode 0 shipped_core) = Normal"
  by (simp add: recompute_mode_result mode_target_def trim_sandbox_failures_def shipped_core_def
      core_new_def sample_runtime_def budget_is_low_def session_budget_new_def breaker_is_open_def
      breaker_new_def)

lemma shipped_permitted: "permitted shipped_env (sample_message 1) (lit ''oo'') 0 shipped_core"
  using sample_bucket[folded shipped_frame] sample_calm[folded shipped_frame] shipped_mode
  by (simp add: permitted_def sample_message_def shipped_env_def allow_guild_def allow_channel_def
      shipped_core_def core_new_def sample_runtime_def breaker_allows_outbound_def breaker_new_def
      is_cooling_def cooldown_map_new_def is_duplicate_and_mark_def duplicate_guard_new_def evict_old_def Let_def)

theorem message_answered_witness:
  "dec_action (snd (decide_message shipped_env (sample_message 1) (lit ''oo'') 0 shipped_core)) =
   as_react sample_bot"
proof -
  have count: "count_oo_sequences (lit ''oo'') = 1" and len: "str_len (lit ''oo'') = 2" by code_simp+
  have "sandbox_answers (tc_analyzer shipped_core) (lit ''oo'')"
    by (simp add: sandbox_answers_def shipped_core_def core_new_def shipped_analyzer_def sandbox_config_default_def
        engine_works_def working_engine_def len)
  moreover have "env_propose shipped_env = wasmtime_propose" by (simp add: shipped_env_def)
  moreover have "wf_str (lit ''oo'')" by (simp add: lit_def scalar_def)
  moreover have react: "configured_react sample_bot Normal = as_react sample_bot"
    by (simp add: configured_react_def sample_bot_def lit_def)
  moreover have "reply sample_bot Normal s limit cap (env_detect sample_env (lit ''oo'')) (lit ''oo'') = as_react sample_bot"
    for s limit cap
    using react by (simp add: reply_def count len sample_env_def i32_max_def no_hit_detect_def)
  ultimately show ?thesis
    using message_answered[of shipped_env "lit ''oo''" "sample_message 1" 0 shipped_core] shipped_permitted shipped_mode
    by (simp add: shipped_core_def core_new_def shipped_env_def)
qed

end
