(* ===== verification/Whole_Program.thy ===== *)
theory Whole_Program
  imports Bot_Life Tui_Runs
begin

text \<open>
  The program as a whole, \<^verbatim>\<open>main\<close> in \<^verbatim>\<open>src/main.rs\<close>: the subcommands with the operator interface
  in its place, a run of the bot from its start to its exit, and what all of them may change in the file
  system.  The command line is read by a library; here it is a value.
\<close>

section \<open>The operator interface in its place\<close>

definition entry_of :: "tui_entry \<Rightarrow> operator_tui_entry" where
  "entry_of page =
     (case page of
        TuiDashboard \<Rightarrow> EntryDashboard | TuiSetup \<Rightarrow> EntrySetup
      | TuiDiagnostics \<Rightarrow> EntryDiagnostics | TuiAudit \<Rightarrow> EntryAudit)"

text \<open>A session for \<open>main\<close>: what it reports beside an error is dropped.  A panic, and a session that
  has not ended, do not come back: for them the result is an error.\<close>

definition operator_session ::
  "tui_env \<Rightarrow> (tui_env \<times> tui_event) list \<Rightarrow> tui_entry \<Rightarrow> loaded_startup_config \<Rightarrow> bool \<Rightarrow> nat \<Rightarrow> fs \<Rightarrow>
   fs \<times> (rstr + unit)" where
  "operator_session env events page startup created limit s =
     (let (w, outcome) = run_operator_tui env (entry_of page)
            \<lparr>tp_startup = startup, tp_startup_created = created, tp_audit_limit = limit\<rparr> events
            \<lparr>tw_fs = s, tw_requests = []\<rparr>
      in (tw_fs w,
          case outcome of
            Closed _ \<Rightarrow> Inr () | Failed err \<Rightarrow> Inl err | Panicked \<Rightarrow> Inl (lit ''panicked'')
          | StillOpen _ \<Rightarrow> Inl (lit ''still open'')))"

definition with_operator :: "tui_env \<Rightarrow> (tui_env \<times> tui_event) list \<Rightarrow> startup_world \<Rightarrow> startup_world" where
  "with_operator env events w = w\<lparr>sw_tui := operator_session env events\<rparr>"

section \<open>The program\<close>

datatype cli_command =
    CliRun
  | CliTui tui_entry
  | CliConfig config_command
  | CliControl control_command
  | CliAudit audit_command

text \<open>A run of the bot: started, then its tasks, as the events say, until it exits.  Events that do not
  fit or do not reach the exit give nothing.\<close>

definition run_bot ::
  "startup_world \<Rightarrow> life_event list \<Rightarrow> fs \<Rightarrow> (fs \<times> (startup_error + rstr list)) option" where
  "run_bot w events s =
     (case run_bot_start w s of
        (s', Inl err) \<Rightarrow> Some (s', Inl err)
      | (s', Inr started) \<Rightarrow>
          (case life_run (life_env_of w started) events (life_begins s') of
             Some b \<Rightarrow> if bl_main b = main_stage.Exited then Some (bl_fs b, Inr []) else None
           | None \<Rightarrow> None))"

definition oo_bot_main ::
  "startup_world \<Rightarrow> cli_command option \<Rightarrow> life_event list \<Rightarrow> fs \<Rightarrow>
   (fs \<times> (startup_error + rstr list)) option" where
  "oo_bot_main w command events s =
     (case (case command of Some c \<Rightarrow> c | None \<Rightarrow> CliRun) of
        CliRun \<Rightarrow> run_bot w events s
      | CliTui page \<Rightarrow> Some (run_tui_command w page s)
      | CliConfig c \<Rightarrow> Some (run_config_command w c s)
      | CliControl c \<Rightarrow> Some (s, run_control_command w c s)
      | CliAudit c \<Rightarrow> Some (run_audit_command w c s))"

section \<open>Preparing the configuration\<close>

lemma saved_trans: "saved_files p m t u \<Longrightarrow> saved_files p n s t \<Longrightarrow> saved_files p (n + m) s u"
proof (induction rule: saved_files.induct)
  case (saved m t u draft store lib v startup)
  then show ?case by (auto intro: saved_files.saved)
qed simp

lemma session_saves:
  assumes "operator_session env events page startup created limit s = (s', Inr ())"
  shows "\<exists>n. saved_files (ld_config_path startup) n s s'"
proof -
  obtain w outcome where r: "run_operator_tui env (entry_of page)
      \<lparr>tp_startup = startup, tp_startup_created = created, tp_audit_limit = limit\<rparr> events
      \<lparr>tw_fs = s, tw_requests = []\<rparr> = (w, outcome)" by force
  with assms obtain saved where "outcome = Closed saved" and s': "s' = tw_fs w"
    by (auto simp: operator_session_def split: tui_outcome.splits)
  with session_writes r s' show ?thesis by fastforce
qed

lemma written_valid:
  "write_startup_config_to_path env lib p config s = (s', Inr ()) \<Longrightarrow> validate_config config = Inr ()"
  by (auto simp: write_startup_config_to_path_def render_startup_config_yaml_def io_bind_eq io_lift_eq rbind_Inr)

lemma load_config_eq:
  "load_config w p s = (s', Inr startup) \<longleftrightarrow>
   s' = s \<and> load_startup_config_from_path (sw_store w) (sw_lib w) p s = Inr startup"
  by (auto simp: load_config_def split: sum.splits)

lemma loaded_path: "load_startup_config_from_path env lib p s = Inr startup \<Longrightarrow> ld_config_path startup = p"
  by (auto simp: load_startup_config_from_path_def rbind_Inr split: sum.splits if_splits)

lemma ensured:
  assumes "ensure_config w p s = (t, Inr created)" and "load_config w p t = (t', Inr startup)"
  shows "t' = t \<and> created = (\<not> fs_exists s p) \<and> saved_files p (if created then 1 else 0) s t"
proof (cases "fs_exists s p")
  case True
  with assms show ?thesis by (auto simp: ensure_config_def load_config_eq intro: saved_files.untouched)
next
  case False
  with assms obtain config where "write_startup_config_to_path (sw_store w) (sw_lib w) p config s = (t, Inr ())"
    and "created" "t' = t" "load_startup_config_from_path (sw_store w) (sw_lib w) p t = Inr startup"
    by (auto simp: ensure_config_def load_config_eq ensure_startup_config_exists_def map_err_eq io_bind_eq io_return_eq
        split: option.splits)
  with False saved_files.saved[OF saved_files.untouched] written_valid show ?thesis by fastforce
qed

lemma prepared:
  assumes "prepare_startup_config_with_creation (with_operator env events w) launch s = (s', Inr (startup, created))"
  shows "created = (\<not> fs_exists s (startup_config_path (sw_store w))) \<and>
    load_startup_config_from_path (sw_store w) (sw_lib w) (startup_config_path (sw_store w)) s' = Inr startup \<and>
    (\<exists>n. saved_files (startup_config_path (sw_store w)) (if created then Suc n else 0) s s' \<and>
      (launch \<and> sw_terminal w \<or> n = 0))"
proof -
  let ?w = "with_operator env events w" and ?p = "startup_config_path (sw_store w)"
  have same: "sw_store ?w = sw_store w" "sw_lib ?w = sw_lib w" "sw_terminal ?w = sw_terminal w"
    by (simp_all add: with_operator_def)
  from assms obtain t first where ensure: "ensure_config ?w ?p s = (t, Inr created)"
    and load: "load_config ?w ?p t = (t, Inr first)"
    and rest: "if created \<and> launch \<and> sw_terminal w
      then \<exists>u. sw_tui ?w TuiSetup first True TUI_AUDIT_LIMIT t = (u, Inr ()) \<and> load_config ?w ?p u = (s', Inr startup)
      else s' = t \<and> startup = first"
    by (auto simp: prepare_startup_config_with_creation_def Let_def io_bind_eq io_return_eq map_err_eq same
        load_config_eq split: if_splits)
  from ensured[OF ensure load] have made: "created = (\<not> fs_exists s ?p)"
    "saved_files ?p (if created then 1 else 0) s t" unfolding same by blast+
  show ?thesis
  proof (cases "created \<and> launch \<and> sw_terminal w")
    case True
    with rest have session: "operator_session env events TuiSetup first True TUI_AUDIT_LIMIT t = (s', Inr ())"
      and reload: "load_startup_config_from_path (sw_store w) (sw_lib w) ?p s' = Inr startup"
      by (auto simp: load_config_eq same with_operator_def)
    from load have "ld_config_path first = ?p" by (auto simp: load_config_eq same dest: loaded_path)
    with session_saves[OF session] obtain n where "saved_files ?p n t s'" by auto
    with saved_trans made(2) True have "saved_files ?p (Suc n) s s'" by fastforce
    with True made reload show ?thesis by auto
  next
    case False
    with rest load have t: "s' = t" and "load_startup_config_from_path (sw_store w) (sw_lib w) ?p s' = Inr startup"
      by (auto simp: load_config_eq same)
    moreover have "saved_files ?p (if created then Suc 0 else 0) s s'" using made(2) unfolding t One_nat_def .
    ultimately show ?thesis using made(1) by blast
  qed
qed


section \<open>What a command may change\<close>

lemma audit_lines_changes:
  assumes "audit_lines w command store s = (s', Inr out)"
  shows "case command of CommandExport fmt dest limit args \<Rightarrow> others_kept dest s s' | _ \<Rightarrow> s' = s"
proof (cases command)
  case (CommandExport fmt dest limit args)
  with assms obtain n where
    "audit_export (sw_export w) (sw_audit w) fmt dest (filter_of args (Some limit)) store s = (s', Inr n)"
    by (auto simp: audit_lines_def io_bind_eq map_err_eq io_return_eq)
  with export_others[of dest s "sw_export w" "sw_audit w" fmt "filter_of args (Some limit)" store] CommandExport
  show ?thesis by simp
qed (use assms in \<open>auto simp: audit_lines_def io_lift_eq io_return_eq\<close>)

lemma close_socket_others: "others_kept p s (close_socket io p s)"
  by (auto simp: close_socket_def fs_remove_file_def guarded_def others_kept_def fs_file_def
      split: option.split node.split)

lemma bind_others: "others_kept p s (fst (bind_runtime_control_listener env p s))"
proof -
  have "others_kept p s (fst (fs_create_dir_all io d s))" for io d s
    by (rule others_same[OF create_dir_all_same])
  moreover have "others_kept p s (fst (fs_remove_file io p s))" for io s
    by (auto simp: fs_remove_file_def guarded_def others_kept_def fs_file_def split: option.split node.split)
  moreover have "others_kept p s (fst (socket_bind env p s))" for s
    by (auto simp: socket_bind_def others_kept_def fs_file_def split: option.split)
  ultimately show ?thesis
    unfolding bind_runtime_control_listener_def
    by (intro others_bind others_lift) (auto split: option.split simp: others_refl)
qed

lemma open_audit_same:
  assumes "open_audit w lsm hardening startup s = (s', Inr audit)"
  shows "same_files s s'"
proof -
  have "same_files s (fst (open_rw io cfg key opened s))" for io cfg key opened
    unfolding open_rw_def
    by (intro io_bind_keeps[where R = same_files])
      (auto split: option.split simp: create_dir_all_same intro: same_files_trans)
  then show ?thesis
    using assms unfolding open_audit_def Let_def
    by (auto split: prod.splits sum.splits) (metis fst_conv)+
qed

lemma started_changes:
  assumes "run_bot_start (with_operator env events w) s = (s', Inr started)"
  shows "\<exists>n t. saved_files (startup_config_path (sw_store w)) n s t \<and> others_kept (rb_socket started) t s'"
proof -
  let ?w = "with_operator env events w"
  from assms obtain startup t1 t2 where
    prepare: "prepare_startup_config ?w True s = (t1, Inr startup)"
    and audit: "open_audit ?w (active_lsm_summary (detect_lsm_status (sw_read ?w)))
      (hardening_summary (detect_hardening_status (sw_arch ?w) (sw_os ?w) (sw_var ?w))) startup t1 =
      (t2, Inr (rb_audit started))"
    and bound: "bind_runtime_control_listener (sw_sockets ?w) (rb_socket started) t2 = (s', Inr ())"
    by (rule run_bot_start_parts)
  from prepare obtain created where
    "prepare_startup_config_with_creation ?w True s = (t1, Inr (startup, created))"
    by (auto simp: prepare_startup_config_def io_bind_eq io_return_eq)
  from prepared[OF this] obtain n where "saved_files (startup_config_path (sw_store w)) n s t1" by auto
  moreover have "others_kept (rb_socket started) t1 t2" by (rule others_same[OF open_audit_same[OF audit]])
  moreover have "others_kept (rb_socket started) t2 s'"
    using bind_others[of "rb_socket started" t2 "sw_sockets ?w"] bound by simp
  ultimately show ?thesis using others_trans by blast
qed

lemma run_bot_changes:
  assumes "run_bot (with_operator env events w) life s = Some (s', Inr out)"
  shows "\<exists>n t u started. run_bot_start (with_operator env events w) s = (u, Inr started) \<and>
    saved_files (startup_config_path (sw_store w)) n s t \<and> others_kept (rb_socket started) t s'"
proof -
  from assms obtain u started b where
    start: "run_bot_start (with_operator env events w) s = (u, Inr started)"
    and run: "life_run (life_env_of (with_operator env events w) started) life (life_begins u) = Some b"
    and s': "s' = bl_fs b"
    by (auto simp: run_bot_def split: prod.splits sum.splits option.splits if_splits)
  from run_socket[OF run] have "others_kept (rb_socket started) u s'"
    by (auto simp: s' life_env_of_def others_refl close_socket_others split: server_stage.splits sum.splits)
  with started_changes[OF start] others_trans start show ?thesis by blast
qed

lemma session_changes:
  assumes "prepare_startup_config_with_creation (with_operator env events w) False s = (t, Inr (startup, created))"
    and "sw_tui (with_operator env events w) page startup made limit t = (s', Inr ())"
  shows "\<exists>n. saved_files (startup_config_path (sw_store w)) n s s'"
proof -
  from prepared[OF assms(1)] obtain n where n: "saved_files (startup_config_path (sw_store w)) n s t"
    and "load_startup_config_from_path (sw_store w) (sw_lib w) (startup_config_path (sw_store w)) t = Inr startup"
    by auto
  then have path: "ld_config_path startup = startup_config_path (sw_store w)" by (blast dest: loaded_path)
  from assms(2) have "operator_session env events page startup made limit t = (s', Inr ())"
    by (simp add: with_operator_def)
  with session_saves path saved_trans n show ?thesis by metis
qed

lemma audit_changes:
  assumes "run_audit_command (with_operator env events w) command s = (s', Inr out)"
  shows "case command of
      CommandTui _ \<Rightarrow> \<exists>n. saved_files (startup_config_path (sw_store w)) n s s'
    | CommandExport fmt dest limit args \<Rightarrow>
        \<exists>t. saved_files (startup_config_path (sw_store w))
          (if fs_exists s (startup_config_path (sw_store w)) then 0 else 1) s t \<and> others_kept dest t s'
    | _ \<Rightarrow> saved_files (startup_config_path (sw_store w))
        (if fs_exists s (startup_config_path (sw_store w)) then 0 else 1) s s'"
proof -
  let ?w = "with_operator env events w" and ?p = "startup_config_path (sw_store w)"
  from assms obtain t startup created where
    prepare: "prepare_startup_config_with_creation ?w False s = (t, Inr (startup, created))"
    and rest: "(case command of
        CommandTui limit \<Rightarrow> io_bind (map_err AuditCommand (sw_tui ?w TuiAudit startup False limit)) (\<lambda>_. io_return [])
      | _ \<Rightarrow> io_bind (io_lift (audit_result (open_ro (audit_config_of (ld_app startup))
            (sw_open_audit ?w (sc_sqlite_path (audit_config_of (ld_app startup))))))) (audit_lines ?w command)) t =
      (s', Inr out)"
    unfolding run_audit_command_def prepare_startup_config_def Let_def by (auto simp: io_bind_eq io_return_eq)
  have made: "saved_files ?p (if fs_exists s ?p then 0 else 1) s t"
    using prepared[OF prepare] by (auto split: if_splits)
  show ?thesis
  proof (cases "\<exists>limit. command = CommandTui limit")
    case True
    with rest session_changes[OF prepare] show ?thesis
      by (auto simp: io_bind_eq map_err_eq io_return_eq)
  next
    case False
    with rest obtain store where "audit_lines ?w command store t = (s', Inr out)"
      by (auto simp: io_bind_eq io_lift_eq split: audit_command.splits)
    from audit_lines_changes[OF this] made False show ?thesis
      by (auto split: audit_command.splits)
  qed
qed

lemma config_changes:
  assumes "run_config_command (with_operator env events w) command s = (s', Inr out)"
  shows "case command of
      ConfigInit force \<Rightarrow>
        if fs_exists s (startup_config_path (sw_store w)) \<and> \<not> force then s' = s
        else \<exists>config. canonical_startup_config (sw_config_lib w) = Some config \<and>
          write_startup_config_to_path (sw_store w) (sw_lib w) (startup_config_path (sw_store w)) config s = (s', Inr ())
    | _ \<Rightarrow> \<exists>n. saved_files (startup_config_path (sw_store w)) n s s'"
proof (cases "\<exists>force. command = ConfigInit force")
  case True
  with assms show ?thesis
    by (auto simp: run_config_command_def config_init_def with_operator_def Let_def io_bind_eq map_err_eq
        io_return_eq split: option.splits if_splits)
next
  case False
  with assms session_changes[of env events w s] show ?thesis
    by (cases command) (fastforce simp: run_config_command_def io_bind_eq map_err_eq io_return_eq)+
qed


section \<open>A concrete program\<close>

text \<open>Without a terminal the operator interface plays no part in a start.\<close>

lemma start_without_terminal:
  assumes "\<not> sw_terminal w"
  shows "run_bot_start (w\<lparr>sw_tui := f\<rparr>) s = run_bot_start w s"
proof -
  have "ensure_config (w\<lparr>sw_tui := f\<rparr>) = ensure_config w" "load_config (w\<lparr>sw_tui := f\<rparr>) = load_config w"
    by (simp_all add: fun_eq_iff ensure_config_def load_config_def cong: option.case_cong)
  then have prepare: "prepare_startup_config (w\<lparr>sw_tui := f\<rparr>) True = prepare_startup_config w True"
    using assms by (simp add: prepare_startup_config_def prepare_startup_config_with_creation_def)
  have read: "discord_token (w\<lparr>sw_tui := f\<rparr>) = discord_token w"
    "load_sandbox_config (w\<lparr>sw_tui := f\<rparr>) = load_sandbox_config w"
    "load_session_budget (w\<lparr>sw_tui := f\<rparr>) = load_session_budget w"
    by (simp_all add: discord_token_def load_sandbox_config_def load_session_budget_def read_env_u64_def
        read_env_usize_def read_env_u32_def read_env_def)
  have audit: "open_audit (w\<lparr>sw_tui := f\<rparr>) = open_audit w"
    by (simp add: open_audit_def process_start_event_def process_event_def fun_eq_iff Let_def case_prod_beta
        cong: sum.case_cong)
  show ?thesis by (simp add: run_bot_start_def prepare read audit)
qed

text \<open>A first start: there is no configuration file and no terminal.\<close>

definition first_store :: store_env where
  "first_store = sample_store\<lparr>se_var :=
     (\<lambda>v. if v = lit ''KEY'' then Some (lit ''k'')
          else if v = lit ''OO_CONFIG_PATH'' then Some (lit ''/etc/oo'') else None)\<rparr>"

definition first_world :: startup_world where
  "first_world = start_world\<lparr>sw_store := first_store, sw_lib := sample_unsigned_lib,
     sw_config_lib := sample_config_lib\<lparr>cl_embedded_config := Inr sample_signed\<rparr>\<rparr>"

lemma first_path: "startup_config_path first_store = Config_Store.sample_path"
  by (simp add: startup_config_path_def first_store_def path_of_def component_of_def lit_def path_child_def
      sample_dir_def)

lemma first_io: "se_io first_store = se_io sample_store"
  by (simp add: first_store_def)

lemma first_write:
  "write_startup_config_to_path first_store sample_unsigned_lib Config_Store.sample_path sample_signed sample_fs =
   (sample_installed, Inr ())"
proof -
  have "config_signature_hex first_store sample_unsigned_lib p sample_signed bytes =
      config_signature_hex sample_store sample_unsigned_lib p sample_signed bytes" for p bytes
    by (simp add: config_signature_hex_def compute_signature_digest_def build_hmac_from_env_def
        sample_signed_def sample_store_def first_store_def)
  then have "write_startup_config_to_path first_store sample_unsigned_lib p sample_signed s =
      write_startup_config_to_path sample_store sample_unsigned_lib p sample_signed s" for p s
    by (simp add: write_startup_config_to_path_def first_io cong: option.case_cong)
  then show ?thesis using sample_tui_write by simp
qed

lemma first_load:
  "\<exists>l. load_startup_config_from_path first_store sample_unsigned_lib Config_Store.sample_path sample_installed = Inr l"
proof -
  from sample_tui_load obtain l where
    "load_startup_config_from_path sample_store sample_unsigned_lib Config_Store.sample_path sample_installed = Inr l" ..
  then show ?thesis
    by (auto simp: load_startup_config_from_path_def rbind_Inr first_io sample_unsigned_lib_def sample_startup_def
        split: sum.splits if_splits)
qed

lemma first_canonical: "canonical_startup_config (sw_config_lib first_world) = Some sample_signed"
  using sample_signed_valid
  by (simp add: canonical_startup_config_def embedded_default_startup_config_def first_world_def sample_config_lib_def
      expect_def validate_startup_config_def)

lemma first_prepared:
  "\<exists>startup. prepare_startup_config (with_operator sample_tui [] first_world) True sample_fs =
     (sample_installed, Inr startup)"
proof -
  let ?w = "with_operator sample_tui [] first_world"
  have w: "sw_store ?w = first_store" "sw_lib ?w = sample_unsigned_lib" "\<not> sw_terminal ?w"
    "canonical_startup_config (sw_config_lib ?w) = Some sample_signed"
    using first_canonical by (simp_all add: with_operator_def first_world_def start_world_def)
  have "\<not> fs_exists sample_fs Config_Store.sample_path"
    by (simp add: fs_exists_def fs_node_def sample_fs_def sample_dirs)
  then have "ensure_config ?w Config_Store.sample_path sample_fs = (sample_installed, Inr True)"
    by (simp add: ensure_config_def w ensure_startup_config_exists_def map_err_def io_bind_def first_write)
  moreover obtain l where "load_config ?w Config_Store.sample_path sample_installed = (sample_installed, Inr l)"
    using first_load by (auto simp: load_config_def w)
  ultimately show ?thesis
    by (simp add: prepare_startup_config_def prepare_startup_config_with_creation_def w first_path io_bind_def Let_def)
qed



end
