(* ===== verification/Xtask.thy ===== *)
theory Xtask
  imports Rust_Text Reading_Normalizer
begin

text \<open>
  The build task that extracts the characters read \<^verbatim>\<open>oo\<close> from KANJIDIC2, \<^verbatim>\<open>xtask/src/main.rs\<close>.  The
  crates it calls are the fields of \<open>xtask_lib\<close>: the XML tree with its queries (\<^verbatim>\<open>roxmltree\<close>, over an
  arbitrary type of nodes), NFKC, gzip, SHA-256, the JSON printer and \<^verbatim>\<open>Path::display\<close>.  The command line
  is read by \<^verbatim>\<open>clap\<close>; \<open>generate_args\<close> is its result.  An error is its chain of messages, the outermost
  context first.
\<close>

section \<open>State and parameters\<close>

record generate_args =
  ga_input :: path
  ga_output :: path
  ga_metadata_out :: path
  ga_include_ja_on :: bool

record generation_metadata =
  gm_source_name :: rstr
  gm_source_sha256 :: rstr
  gm_include_ja_on :: bool
  gm_total_chars :: nat
  gm_ja_kun_hits :: nat
  gm_nanori_hits :: nat
  gm_ja_on_hits :: nat
  gm_sample_characters :: "rstr list"

record generated_artifacts =
  art_rust_source :: rstr
  art_metadata_json :: rstr

record extracted =
  ex_all_hits :: "rchar list"
  ex_ja_kun_hits :: "rchar list"
  ex_nanori_hits :: "rchar list"
  ex_ja_on_hits :: "rchar list"

record 'n xtask_lib =
  xl_parse :: "rstr \<Rightarrow> rstr + 'n"
  xl_descendants :: "'n \<Rightarrow> 'n list"
  xl_children :: "'n \<Rightarrow> 'n list"
  xl_has_tag :: "'n \<Rightarrow> rstr \<Rightarrow> bool"
  xl_attribute :: "'n \<Rightarrow> rstr \<Rightarrow> rstr option"
  xl_text :: "'n \<Rightarrow> rstr option"
  xl_nfkc :: "rstr \<Rightarrow> rstr"
  xl_gunzip :: "nat list \<Rightarrow> rstr + nat list"
  xl_sha256 :: "nat list \<Rightarrow> nat list"
  xl_json :: "generation_metadata \<Rightarrow> rstr + rstr"
  xl_display :: "path \<Rightarrow> rstr"

type_synonym error_chain = "rstr list"

definition context_of :: "rstr \<Rightarrow> error_chain + 'a \<Rightarrow> error_chain + 'a" where
  "context_of c r = (case r of Inl e \<Rightarrow> Inl (c # e) | Inr a \<Rightarrow> Inr a)"

definition source_error :: "rstr + 'a \<Rightarrow> error_chain + 'a" where
  "source_error r = (case r of Inl e \<Rightarrow> Inl [e] | Inr a \<Rightarrow> Inr a)"

definition ok_or :: "rstr \<Rightarrow> 'a option \<Rightarrow> error_chain + 'a" where
  "ok_or e r = (case r of None \<Rightarrow> Inl [e] | Some a \<Rightarrow> Inr a)"

section \<open>Readings\<close>

text \<open>The task has its own copy of the normaliser; its set of dropped characters is written out there as
  a pattern.\<close>

definition xtask_drops :: "rchar \<Rightarrow> bool" where
  "xtask_drops ch \<longleftrightarrow>
     ch \<in> {0x2E, 0x2D, 0x2010, 0x2011, 0x2013, 0x2014, 0x2015, 0x30FB, 0xFF65, 0x20,
            0x3000, 9, 10, 13}"

definition xtask_to_hiragana :: "rchar \<Rightarrow> rchar" where
  "xtask_to_hiragana ch =
     (if 0x30A1 \<le> ch \<and> ch \<le> 0x30F6 then (if scalar (ch - 0x60) then ch - 0x60 else ch) else ch)"

fun xtask_reading_loop :: "rstr \<Rightarrow> rstr \<Rightarrow> rstr" where
  "xtask_reading_loop out [] = out"
| "xtask_reading_loop out (ch # chars) =
     (if xtask_drops ch then xtask_reading_loop out chars
      else xtask_reading_loop (out @ [xtask_to_hiragana ch]) chars)"

definition xtask_normalize_reading :: "(rstr \<Rightarrow> rstr) \<Rightarrow> rstr \<Rightarrow> rstr" where
  "xtask_normalize_reading nfkc input =
     (let normalized = nfkc input; trimmed = str_trim normalized
      in nfkc (xtask_reading_loop [] trimmed))"

definition single_char :: "rstr \<Rightarrow> rchar option" where
  "single_char t = (case t of [ch] \<Rightarrow> Some ch | _ \<Rightarrow> None)"

definition oo :: rstr where "oo = [0x304A, 0x304A]"

section \<open>The document type declaration\<close>

text \<open>What is left after the declaration; \<open>depth\<close> counts open brackets.  The code reads bytes;
  \<open>after_doctype_bytes\<close> shows that reading characters is the same.\<close>

fun after_doctype :: "nat \<Rightarrow> nat list \<Rightarrow> nat list" where
  "after_doctype depth [] = []"
| "after_doctype depth (b # bs) =
     (if b = 0x5B then after_doctype (depth + 1) bs
      else if b = 0x5D then after_doctype (depth - 1) bs
      else if b = 0x3E \<and> depth = 0 then bs
      else after_doctype depth bs)"

definition strip_doctype :: "rstr \<Rightarrow> rstr" where
  "strip_doctype xml =
     (case str_find (lit ''<!DOCTYPE'') xml of
        None \<Rightarrow> xml
      | Some start \<Rightarrow> take start xml @ after_doctype 0 (drop start xml))"

section \<open>Extraction\<close>

text \<open>A \<^verbatim>\<open>BTreeSet<char>\<close> is the list of its characters in order.\<close>

abbreviation insert_char :: "rchar \<Rightarrow> rchar list \<Rightarrow> rchar list" where
  "insert_char c xs \<equiv> insort_insert c xs"

abbreviation add_all :: "rchar \<Rightarrow> extracted \<Rightarrow> extracted" where
  "add_all c ex \<equiv> ex\<lparr>ex_all_hits := insert_char c (ex_all_hits ex)\<rparr>"

definition add_reading :: "'n xtask_lib \<Rightarrow> bool \<Rightarrow> rchar \<Rightarrow> 'n \<Rightarrow> extracted \<Rightarrow> extracted" where
  "add_reading lib include_ja_on literal reading ex =
     (case xl_attribute lib reading (lit ''r_type'') of
        None \<Rightarrow> ex
      | Some kind \<Rightarrow>
          (case xl_text lib reading of
             None \<Rightarrow> ex
           | Some raw \<Rightarrow>
               if \<not> str_contains (xtask_normalize_reading (xl_nfkc lib) raw) oo then ex
               else if kind = lit ''ja_kun''
               then add_all literal (ex\<lparr>ex_ja_kun_hits := insert_char literal (ex_ja_kun_hits ex)\<rparr>)
               else if kind = lit ''ja_on'' \<and> include_ja_on
               then add_all literal (ex\<lparr>ex_ja_on_hits := insert_char literal (ex_ja_on_hits ex)\<rparr>)
               else ex))"

definition add_nanori :: "'n xtask_lib \<Rightarrow> rchar \<Rightarrow> 'n \<Rightarrow> extracted \<Rightarrow> extracted" where
  "add_nanori lib literal nanori ex =
     (case xl_text lib nanori of
        None \<Rightarrow> ex
      | Some raw \<Rightarrow>
          if str_contains (xtask_normalize_reading (xl_nfkc lib) raw) oo
          then add_all literal (ex\<lparr>ex_nanori_hits := insert_char literal (ex_nanori_hits ex)\<rparr>)
          else ex)"

definition literal_of :: "'n xtask_lib \<Rightarrow> 'n \<Rightarrow> rchar option" where
  "literal_of lib character =
     Option.bind (find (\<lambda>n. xl_has_tag lib n (lit ''literal'')) (xl_children lib character)) (\<lambda>n.
     Option.bind (xl_text lib n) single_char)"

definition tagged :: "'n xtask_lib \<Rightarrow> string \<Rightarrow> 'n \<Rightarrow> 'n list" where
  "tagged lib t n = filter (\<lambda>m. xl_has_tag lib m (lit t)) (xl_descendants lib n)"

definition add_character :: "'n xtask_lib \<Rightarrow> bool \<Rightarrow> 'n \<Rightarrow> extracted \<Rightarrow> error_chain + extracted" where
  "add_character lib include_ja_on character ex =
     rbind (ok_or (lit ''character entry is missing valid <literal>'') (literal_of lib character)) (\<lambda>literal.
       Inr (fold (add_nanori lib literal) (tagged lib ''nanori'' character)
             (fold (add_reading lib include_ja_on literal) (tagged lib ''reading'' character) ex)))"

fun add_characters ::
  "'n xtask_lib \<Rightarrow> bool \<Rightarrow> 'n list \<Rightarrow> nat \<Rightarrow> extracted \<Rightarrow> error_chain + nat \<times> extracted" where
  "add_characters lib include_ja_on [] seen ex = Inr (seen, ex)"
| "add_characters lib include_ja_on (character # characters) seen ex =
     rbind (add_character lib include_ja_on character ex)
       (add_characters lib include_ja_on characters (seen + 1))"

definition extract_oo_kanji :: "'n xtask_lib \<Rightarrow> rstr \<Rightarrow> bool \<Rightarrow> error_chain + extracted" where
  "extract_oo_kanji lib xml include_ja_on =
     rbind (context_of (lit ''failed to parse KANJIDIC2 XML'')
         (source_error (xl_parse lib (strip_doctype xml)))) (\<lambda>doc.
     rbind (add_characters lib include_ja_on (tagged lib ''character'' doc) 0
         \<lparr>ex_all_hits = [], ex_ja_kun_hits = [], ex_nanori_hits = [], ex_ja_on_hits = []\<rparr>)
       (\<lambda>(character_count, ex).
         if character_count = 0 then Inl [lit ''KANJIDIC2 input has zero <character> entries'']
         else Inr ex))"

section \<open>The generated source\<close>

text \<open>Hexadecimal: \<^verbatim>\<open>{:04X}\<close> of a code point and \<^verbatim>\<open>{:x}\<close> of a digest.\<close>

definition hex_digit :: "nat \<Rightarrow> nat \<Rightarrow> rchar" where
  "hex_digit letter d = (if d < 10 then 48 + d else letter + d - 10)"

fun hex_digits :: "nat \<Rightarrow> rstr" where
  "hex_digits n =
     (if n < 16 then [hex_digit 0x41 n] else hex_digits (n div 16) @ [hex_digit 0x41 (n mod 16)])"

declare hex_digits.simps [simp del]

definition hex4 :: "nat \<Rightarrow> rstr" where
  "hex4 n = replicate (4 - length (hex_digits n)) 48 @ hex_digits n"

definition sha256_hex :: "'n xtask_lib \<Rightarrow> nat list \<Rightarrow> rstr" where
  "sha256_hex lib input =
     concat (map (\<lambda>b. [hex_digit 0x61 (b div 16), hex_digit 0x61 (b mod 16)]) (xl_sha256 lib input))"

definition bool_text :: "bool \<Rightarrow> rstr" where
  "bool_text b = (if b then lit ''true'' else lit ''false'')"

definition codepoint_line :: "rchar \<Rightarrow> rstr" where
  "codepoint_line cp = lit ''    0x'' @ hex4 cp @ lit '','' @ [10]"

abbreviation line :: "string \<Rightarrow> rstr" where
  "line s \<equiv> lit s @ [10]"

definition quoted :: "rstr \<Rightarrow> rstr" where
  "quoted s = 34 # s @ [34]"

definition render_generated_rust :: "generation_metadata \<Rightarrow> rchar list \<Rightarrow> rstr" where
  "render_generated_rust metadata chars =
     line ''use crate::domain::kanji_matcher::{KanjiOoDb, KanjiOoDbMetadata};'' @ [10] @
     lit ''pub const SOURCE_NAME: &str = '' @ quoted (gm_source_name metadata) @ line '';'' @
     lit ''pub const SOURCE_SHA256: &str = '' @ quoted (gm_source_sha256 metadata) @ line '';'' @
     lit ''pub const INCLUDE_JA_ON: bool = '' @ bool_text (gm_include_ja_on metadata) @ line '';'' @ [10] @
     line ''pub const OO_KANJI_CODEPOINTS: &[u32] = &['' @
     concat (map codepoint_line chars) @
     line ''];'' @ [10] @
     line ''pub const KANJI_OO_DB: KanjiOoDb = KanjiOoDb::new('' @
     line ''    OO_KANJI_CODEPOINTS,'' @
     line ''    KanjiOoDbMetadata {'' @
     line ''        source_name: SOURCE_NAME,'' @
     line ''        source_sha256: SOURCE_SHA256,'' @
     lit ''        total_chars: '' @ dec (gm_total_chars metadata) @ line '','' @
     lit ''        ja_kun_hits: '' @ dec (gm_ja_kun_hits metadata) @ line '','' @
     lit ''        nanori_hits: '' @ dec (gm_nanori_hits metadata) @ line '','' @
     lit ''        ja_on_hits: '' @ dec (gm_ja_on_hits metadata) @ line '','' @
     line ''    },'' @
     line '');''"

section \<open>Building, generating and verifying\<close>

text \<open>\<^verbatim>\<open>Path::extension\<close>: what follows the last dot of the file name, unless that dot is its first
  character.\<close>

definition path_extension :: "path \<Rightarrow> rstr option" where
  "path_extension p =
     (case path_file_name p of
        None \<Rightarrow> None
      | Some w \<Rightarrow>
          (let ext = rev (takeWhile (\<lambda>c. c \<noteq> 46) (rev w))
           in if 46 \<in> set w \<and> length ext + 1 < length w then Some ext else None))"

definition is_gz :: "path \<Rightarrow> bool" where
  "is_gz p = (case path_extension p of None \<Rightarrow> False | Some ext \<Rightarrow> to_ascii_lowercase ext = lit ''gz'')"

definition decompress_gzip :: "'n xtask_lib \<Rightarrow> nat list \<Rightarrow> error_chain + rstr" where
  "decompress_gzip lib input =
     context_of (lit ''invalid gzip stream'')
       (rbind (source_error (xl_gunzip lib input)) (\<lambda>bytes.
          ok_or (lit ''stream did not contain valid UTF-8'') (utf8_decode bytes)))"

definition build_artifacts ::
  "'n xtask_lib \<Rightarrow> io_env \<Rightarrow> generate_args \<Rightarrow> fs \<Rightarrow> error_chain + generated_artifacts" where
  "build_artifacts lib env args s =
     rbind (context_of (lit ''failed to read input: '' @ xl_display lib (ga_input args))
         (source_error (fs_read env (ga_input args) s))) (\<lambda>source_bytes.
     rbind (if is_gz (ga_input args)
            then context_of (lit ''failed to decompress KANJIDIC2 gzip'') (decompress_gzip lib source_bytes)
            else context_of (lit ''KANJIDIC2 input is not valid UTF-8 XML'')
              (ok_or (lit ''invalid utf-8'') (utf8_decode source_bytes))) (\<lambda>xml.
     rbind (extract_oo_kanji lib xml (ga_include_ja_on args)) (\<lambda>ex.
       (let metadata =
              \<lparr>gm_source_name = lit ''KANJIDIC2'', gm_source_sha256 = sha256_hex lib source_bytes,
               gm_include_ja_on = ga_include_ja_on args,
               gm_total_chars = length (ex_all_hits ex), gm_ja_kun_hits = length (ex_ja_kun_hits ex),
               gm_nanori_hits = length (ex_nanori_hits ex), gm_ja_on_hits = length (ex_ja_on_hits ex),
               gm_sample_characters = map (\<lambda>ch. [ch]) (take 16 (ex_all_hits ex))\<rparr>
        in rbind (context_of (lit ''failed to encode metadata json'') (source_error (xl_json lib metadata)))
             (\<lambda>json. Inr \<lparr>art_rust_source = render_generated_rust metadata (ex_all_hits ex),
                           art_metadata_json = json @ [10]\<rparr>)))))"

text \<open>\<^verbatim>\<open>fs::write\<close> truncates before it writes: a write cut short leaves the bytes it got to.\<close>

type_synonym short_writes = "path \<Rightarrow> (nat \<times> rstr) option"

definition truncate_write :: "io_env \<Rightarrow> short_writes \<Rightarrow> path \<Rightarrow> rstr \<Rightarrow> fs \<Rightarrow> fs \<times> (rstr + unit)" where
  "truncate_write env short p content =
     guarded env (IoCreate p)
       (\<lambda>s. if fs_is_dir s p then (s, Inl (lit ''Is a directory (os error 21)''))
            else if \<not> fs_in_dir s p then (s, Inl not_found)
            else (case short p of
                    None \<Rightarrow> (s(p \<mapsto> File (utf8_encode content)), Inr ())
                  | Some (n, e) \<Rightarrow> (s(p \<mapsto> File (take n (utf8_encode content))), Inl e)))"

definition write_if_changed ::
  "'n xtask_lib \<Rightarrow> io_env \<Rightarrow> short_writes \<Rightarrow> path \<Rightarrow> rstr \<Rightarrow> fs \<Rightarrow> fs \<times> (error_chain + unit)" where
  "write_if_changed lib env short p content =
     io_bind (case path_parent p of
                Some parent \<Rightarrow>
                  map_err (\<lambda>e. [lit ''failed to create directory: '' @ xl_display lib parent, e])
                    (fs_create_dir_all env parent)
              | None \<Rightarrow> io_return ()) (\<lambda>_ s.
       if fs_read_to_string env p s = Inr content then (s, Inr ())
       else map_err (\<lambda>e. [lit ''failed to write: '' @ xl_display lib p, e]) (truncate_write env short p content) s)"

definition verify_file_content ::
  "'n xtask_lib \<Rightarrow> io_env \<Rightarrow> fs \<Rightarrow> path \<Rightarrow> rstr \<Rightarrow> error_chain + unit" where
  "verify_file_content lib env s p expected =
     rbind (context_of (lit ''failed to read generated file: '' @ xl_display lib p)
         (source_error (fs_read_to_string env p s))) (\<lambda>current.
       if current \<noteq> expected
       then Inl [xl_display lib p @ lit '' is out of date. run: cargo run -p xtask -- generate'']
       else Inr ())"

definition generate ::
  "'n xtask_lib \<Rightarrow> io_env \<Rightarrow> short_writes \<Rightarrow> generate_args \<Rightarrow> fs \<Rightarrow> fs \<times> (error_chain + rstr)" where
  "generate lib env short args s =
     io_bind (io_lift (build_artifacts lib env args s)) (\<lambda>artifacts.
     io_bind (write_if_changed lib env short (ga_output args) (art_rust_source artifacts)) (\<lambda>_.
     io_bind (write_if_changed lib env short (ga_metadata_out args) (art_metadata_json artifacts)) (\<lambda>_.
       io_return (lit ''generated '' @ xl_display lib (ga_output args) @ lit '' and '' @
         xl_display lib (ga_metadata_out args))))) s"

definition verify :: "'n xtask_lib \<Rightarrow> io_env \<Rightarrow> generate_args \<Rightarrow> fs \<Rightarrow> error_chain + rstr" where
  "verify lib env args s =
     rbind (build_artifacts lib env args s) (\<lambda>artifacts.
     rbind (verify_file_content lib env s (ga_output args) (art_rust_source artifacts)) (\<lambda>_.
     rbind (verify_file_content lib env s (ga_metadata_out args) (art_metadata_json artifacts)) (\<lambda>_.
       Inr (lit ''verification succeeded''))))"

datatype xtask_command = Generate generate_args | Verify generate_args

definition xtask_main ::
  "'n xtask_lib \<Rightarrow> io_env \<Rightarrow> short_writes \<Rightarrow> xtask_command \<Rightarrow> fs \<Rightarrow> fs \<times> (error_chain + rstr)" where
  "xtask_main lib env short cmd s =
     (case cmd of Generate args \<Rightarrow> generate lib env short args s | Verify args \<Rightarrow> (s, verify lib env args s))"

section \<open>The copied normaliser\<close>

lemma xtask_loop_eq: "xtask_reading_loop out s = reading_loop out s"
  by (induction s arbitrary: out)
    (simp_all add: xtask_drops_def should_drop_def xtask_to_hiragana_def katakana_to_hiragana_def)

lemma same_normalizer: "xtask_normalize_reading nfkc raw = normalize_reading nfkc raw"
  by (simp add: xtask_normalize_reading_def normalize_reading_def xtask_loop_eq)

section \<open>Stripping the declaration\<close>

lemma after_doctype_high: "list_all (\<lambda>b. 0x80 \<le> b) bs \<Longrightarrow> after_doctype d (bs @ r) = after_doctype d r"
  by (induction bs) auto

lemma utf8_high: "0x80 \<le> c \<Longrightarrow> list_all (\<lambda>b. 0x80 \<le> b) (utf8_char c)"
  by (simp add: utf8_char_def)

text \<open>The code reads the bytes of the text; that is the same, as a bracket is a byte of its own.\<close>

lemma after_doctype_bytes: "after_doctype d (utf8_encode s) = utf8_encode (after_doctype d s)"
proof (induction s arbitrary: d)
  case (Cons c s)
  show ?case
  proof (cases "c < 0x80")
    case True
    then have "utf8_char c = [c]" by (simp add: utf8_char_def)
    then show ?thesis using Cons by simp
  next
    case False
    then show ?thesis using Cons after_doctype_high[OF utf8_high[of c], of d "utf8_encode s"] by simp
  qed
qed simp

definition plain_decl :: "rstr \<Rightarrow> bool" where
  "plain_decl s \<longleftrightarrow> 0x5B \<notin> set s \<and> 0x5D \<notin> set s \<and> 0x3E \<notin> set s"

lemma after_plain: "plain_decl s \<Longrightarrow> after_doctype d (s @ r) = after_doctype d r"
  by (induction s) (auto simp: plain_decl_def)

lemma after_subset: "0x5B \<notin> set s \<and> 0x5D \<notin> set s \<Longrightarrow> after_doctype (Suc d) (s @ r) = after_doctype (Suc d) r"
  by (induction s) auto

lemma first_occurrence:
  assumes "\<not> sublist needle (pre @ butlast needle)" and "needle \<noteq> []"
  shows "str_find needle (pre @ needle @ r) = Some (length pre)"
proof (rule str_find_unique)
  show "\<forall>j < length pre. \<not> prefix needle (drop j (pre @ needle @ r))"
  proof (intro allI impI notI)
    fix j assume j: "j < length pre" and p: "prefix needle (drop j (pre @ needle @ r))"
    have eq: "pre @ needle @ r = (pre @ butlast needle) @ last needle # r" using assms(2) by simp
    have "drop j ((pre @ butlast needle) @ last needle # r) = drop j (pre @ butlast needle) @ last needle # r"
      using j by simp
    with p have "prefix needle (drop j (pre @ butlast needle) @ last needle # r)"
      unfolding eq by (simp only:)
    moreover have "length needle \<le> length (drop j (pre @ butlast needle))" using j assms(2) by (simp add: Suc_leI)
    ultimately have "prefix needle (drop j (pre @ butlast needle))"
      by (metis append_eq_append_conv_if prefix_def append_take_drop_id)
    then have "sublist needle (pre @ butlast needle)"
      by (metis append_take_drop_id prefix_def sublist_appendI append.assoc)
    with assms(1) show False ..
  qed
qed simp_all

lemma strip_doctype_exact:
  assumes first: "\<not> sublist (lit ''<!DOCTYPE'') (pre @ lit ''<!DOCTYP'')"
    and decl: "plain_decl head" "plain_decl tail" "0x5B \<notin> set inner" "0x5D \<notin> set inner"
  shows "strip_doctype (pre @ lit ''<!DOCTYPE'' @ head @ [0x3E] @ post) = pre @ post \<and>
    strip_doctype (pre @ lit ''<!DOCTYPE'' @ head @ [0x5B] @ inner @ [0x5D] @ tail @ [0x3E] @ post) = pre @ post"
proof -
  have "butlast (lit ''<!DOCTYPE'') = lit ''<!DOCTYP''" by (simp add: lit_def)
  with first have f: "str_find (lit ''<!DOCTYPE'') (pre @ lit ''<!DOCTYPE'' @ r) = Some (length pre)" for r
    by (intro first_occurrence) (simp_all add: lit_def)
  have d: "plain_decl (lit ''<!DOCTYPE'')" by (simp add: plain_decl_def lit_def)
  show ?thesis
    using decl by (simp add: strip_doctype_def f after_plain[OF d] after_plain after_subset)
qed

section \<open>What is extracted\<close>

definition reads_oo :: "'n xtask_lib \<Rightarrow> 'n \<Rightarrow> bool" where
  "reads_oo lib n \<longleftrightarrow>
     (\<exists>raw. xl_text lib n = Some raw \<and> str_contains (normalize_reading (xl_nfkc lib) raw) oo)"

definition read_as :: "'n xtask_lib \<Rightarrow> string \<Rightarrow> 'n \<Rightarrow> bool" where
  "read_as lib kind character \<longleftrightarrow>
     (\<exists>r \<in> set (tagged lib ''reading'' character).
        xl_attribute lib r (lit ''r_type'') = Some (lit kind) \<and> reads_oo lib r)"

definition named_as :: "'n xtask_lib \<Rightarrow> 'n \<Rightarrow> bool" where
  "named_as lib character \<longleftrightarrow> (\<exists>r \<in> set (tagged lib ''nanori'' character). reads_oo lib r)"

definition good_set :: "rchar list \<Rightarrow> bool" where
  "good_set xs \<longleftrightarrow> sorted xs \<and> distinct xs"

lemma good_insert [simp]: "good_set xs \<Longrightarrow> good_set (insert_char c xs)"
  by (simp add: good_set_def sorted_insort_insert distinct_insort_insert)

definition good_hits :: "extracted \<Rightarrow> bool" where
  "good_hits ex \<longleftrightarrow> good_set (ex_all_hits ex) \<and> good_set (ex_ja_kun_hits ex) \<and>
     good_set (ex_nanori_hits ex) \<and> good_set (ex_ja_on_hits ex) \<and>
     set (ex_all_hits ex) = set (ex_ja_kun_hits ex) \<union> set (ex_nanori_hits ex) \<union> set (ex_ja_on_hits ex)"

definition only_if :: "bool \<Rightarrow> rchar \<Rightarrow> rchar set" where
  "only_if b c = (if b then {c} else {})"

lemma add_reading_hits:
  "good_hits ex \<Longrightarrow> good_hits (add_reading lib on c r ex) \<and>
   set (ex_ja_kun_hits (add_reading lib on c r ex)) = set (ex_ja_kun_hits ex) \<union>
     only_if (xl_attribute lib r (lit ''r_type'') = Some (lit ''ja_kun'') \<and> reads_oo lib r) c \<and>
   set (ex_ja_on_hits (add_reading lib on c r ex)) = set (ex_ja_on_hits ex) \<union>
     only_if (on \<and> xl_attribute lib r (lit ''r_type'') = Some (lit ''ja_on'') \<and> reads_oo lib r) c \<and>
   set (ex_nanori_hits (add_reading lib on c r ex)) = set (ex_nanori_hits ex)"
  by (auto simp: add_reading_def reads_oo_def same_normalizer only_if_def good_hits_def set_insort_insert lit_eq
      split: option.split)

lemma add_nanori_hits:
  "good_hits ex \<Longrightarrow> good_hits (add_nanori lib c r ex) \<and>
   set (ex_ja_kun_hits (add_nanori lib c r ex)) = set (ex_ja_kun_hits ex) \<and>
   set (ex_ja_on_hits (add_nanori lib c r ex)) = set (ex_ja_on_hits ex) \<and>
   set (ex_nanori_hits (add_nanori lib c r ex)) = set (ex_nanori_hits ex) \<union> only_if (reads_oo lib r) c"
  by (auto simp: add_nanori_def reads_oo_def same_normalizer only_if_def good_hits_def set_insort_insert
      split: option.split)

lemma fold_reading_hits:
  "good_hits ex \<Longrightarrow> good_hits (fold (add_reading lib on c) rs ex) \<and>
   set (ex_ja_kun_hits (fold (add_reading lib on c) rs ex)) = set (ex_ja_kun_hits ex) \<union>
     only_if (\<exists>r \<in> set rs. xl_attribute lib r (lit ''r_type'') = Some (lit ''ja_kun'') \<and> reads_oo lib r) c \<and>
   set (ex_ja_on_hits (fold (add_reading lib on c) rs ex)) = set (ex_ja_on_hits ex) \<union>
     only_if (on \<and> (\<exists>r \<in> set rs. xl_attribute lib r (lit ''r_type'') = Some (lit ''ja_on'') \<and> reads_oo lib r)) c \<and>
   set (ex_nanori_hits (fold (add_reading lib on c) rs ex)) = set (ex_nanori_hits ex)"
proof (induction rs arbitrary: ex)
  case (Cons r rs)
  note h = add_reading_hits[OF Cons.prems, where lib = lib and on = on and c = c and r = r]
  then have "good_hits (add_reading lib on c r ex)" by simp
  from Cons.IH[OF this] h show ?case by (auto simp: only_if_def)
qed (simp add: only_if_def)

lemma fold_nanori_hits:
  "good_hits ex \<Longrightarrow> good_hits (fold (add_nanori lib c) rs ex) \<and>
   set (ex_ja_kun_hits (fold (add_nanori lib c) rs ex)) = set (ex_ja_kun_hits ex) \<and>
   set (ex_ja_on_hits (fold (add_nanori lib c) rs ex)) = set (ex_ja_on_hits ex) \<and>
   set (ex_nanori_hits (fold (add_nanori lib c) rs ex)) = set (ex_nanori_hits ex) \<union>
     only_if (\<exists>r \<in> set rs. reads_oo lib r) c"
proof (induction rs arbitrary: ex)
  case (Cons r rs)
  note h = add_nanori_hits[OF Cons.prems, where lib = lib and c = c and r = r]
  then have "good_hits (add_nanori lib c r ex)" by simp
  from Cons.IH[OF this] h show ?case by (auto simp: only_if_def)
qed (simp add: only_if_def)

lemma add_character_hits:
  assumes "add_character lib on n ex = Inr ex'" and "good_hits ex"
  shows "\<exists>c. literal_of lib n = Some c \<and> good_hits ex' \<and>
    set (ex_ja_kun_hits ex') = set (ex_ja_kun_hits ex) \<union> only_if (read_as lib ''ja_kun'' n) c \<and>
    set (ex_ja_on_hits ex') = set (ex_ja_on_hits ex) \<union> only_if (on \<and> read_as lib ''ja_on'' n) c \<and>
    set (ex_nanori_hits ex') = set (ex_nanori_hits ex) \<union> only_if (named_as lib n) c"
proof -
  from assms(1) obtain c where c: "literal_of lib n = Some c" and ex': "ex' =
      fold (add_nanori lib c) (tagged lib ''nanori'' n) (fold (add_reading lib on c) (tagged lib ''reading'' n) ex)"
    by (auto simp: add_character_def rbind_Inr ok_or_def split: option.splits)
  note r = fold_reading_hits[OF assms(2), where lib = lib and on = on and c = c and rs = "tagged lib ''reading'' n"]
  then have "good_hits (fold (add_reading lib on c) (tagged lib ''reading'' n) ex)" by simp
  note this = fold_nanori_hits[OF this, where lib = lib and c = c and rs = "tagged lib ''nanori'' n"]
  with r c show ?thesis by (simp add: ex' read_as_def named_as_def)
qed

definition literals_where :: "'n xtask_lib \<Rightarrow> ('n \<Rightarrow> bool) \<Rightarrow> 'n list \<Rightarrow> rchar set" where
  "literals_where lib P ns = {c. \<exists>n \<in> set ns. literal_of lib n = Some c \<and> P n}"

lemma literals_Cons:
  "literal_of lib n = Some c \<Longrightarrow> literals_where lib P (n # ns) = only_if (P n) c \<union> literals_where lib P ns"
  by (auto simp: literals_where_def only_if_def)

lemma add_characters_hits:
  assumes "add_characters lib on ns seen ex = Inr (seen', ex')" and "good_hits ex"
  shows "seen' = seen + length ns \<and> good_hits ex' \<and> (\<forall>n \<in> set ns. literal_of lib n \<noteq> None) \<and>
    set (ex_ja_kun_hits ex') = set (ex_ja_kun_hits ex) \<union> literals_where lib (read_as lib ''ja_kun'') ns \<and>
    set (ex_ja_on_hits ex') = set (ex_ja_on_hits ex) \<union> literals_where lib (\<lambda>n. on \<and> read_as lib ''ja_on'' n) ns \<and>
    set (ex_nanori_hits ex') = set (ex_nanori_hits ex) \<union> literals_where lib (named_as lib) ns"
  using assms
proof (induction ns arbitrary: seen ex)
  case (Cons n ns)
  then obtain ex1 where n: "add_character lib on n ex = Inr ex1"
    and rest: "add_characters lib on ns (seen + 1) ex1 = Inr (seen', ex')" by (auto simp: rbind_Inr)
  from add_character_hits[OF n Cons.prems(2)] obtain c where c: "literal_of lib n = Some c" "good_hits ex1"
    "set (ex_ja_kun_hits ex1) = set (ex_ja_kun_hits ex) \<union> only_if (read_as lib ''ja_kun'' n) c"
    "set (ex_ja_on_hits ex1) = set (ex_ja_on_hits ex) \<union> only_if (on \<and> read_as lib ''ja_on'' n) c"
    "set (ex_nanori_hits ex1) = set (ex_nanori_hits ex) \<union> only_if (named_as lib n) c" by blast
  from Cons.IH[OF rest c(2)] c show ?case by (simp add: literals_Cons[OF c(1)] Un_assoc)
qed (simp add: literals_where_def)

text \<open>The extraction is exact: every entry has a literal of one character, and a character is in the
  set of a kind exactly when some entry with that literal has a reading of the kind that contains
  \<^verbatim>\<open>oo\<close> once normalised as the bot normalises readings; the full set is their union, and all are in order
  without repetition.\<close>

theorem extraction_exact:
  assumes "extract_oo_kanji lib xml include_ja_on = Inr ex" and "xl_parse lib (strip_doctype xml) = Inr doc"
  shows "tagged lib ''character'' doc \<noteq> [] \<and>
    (\<forall>n \<in> set (tagged lib ''character'' doc). literal_of lib n \<noteq> None) \<and>
    set (ex_ja_kun_hits ex) = literals_where lib (read_as lib ''ja_kun'') (tagged lib ''character'' doc) \<and>
    set (ex_ja_on_hits ex) =
      literals_where lib (\<lambda>n. include_ja_on \<and> read_as lib ''ja_on'' n) (tagged lib ''character'' doc) \<and>
    set (ex_nanori_hits ex) = literals_where lib (named_as lib) (tagged lib ''character'' doc) \<and>
    good_hits ex"
proof -
  let ?none = "\<lparr>ex_all_hits = [], ex_ja_kun_hits = [], ex_nanori_hits = [], ex_ja_on_hits = []\<rparr>"
  from assms obtain seen where "add_characters lib include_ja_on (tagged lib ''character'' doc) 0 ?none = Inr (seen, ex)"
    and "seen \<noteq> 0"
    by (auto simp: extract_oo_kanji_def rbind_Inr context_of_def source_error_def split: if_splits)
  moreover have "good_hits ?none" by (simp add: good_hits_def good_set_def)
  ultimately show ?thesis using add_characters_hits by fastforce
qed

section \<open>Generating, then verifying\<close>

lemma wf_lit [simp]: "wf_str (lit s)"
proof -
  have "scalar (of_char c)" for c :: char
    using nat_of_char_less_256[of c] unfolding scalar_def by linarith
  then show ?thesis by (simp add: wf_str_def lit_def list_all_iff)
qed

lemma wf_dec [simp]: "wf_str (dec n)"
  using dec_digits[of n] by (auto simp: wf_str_def list_all_iff scalar_def)

lemma wf_concat: "\<forall>w \<in> set ws. wf_str w \<Longrightarrow> wf_str (concat ws)"
  by (induction ws) auto

lemma hex_digit_wf [simp]: "d < 16 \<Longrightarrow> a < 256 \<Longrightarrow> scalar (hex_digit a d)"
  using diff_le_self[of "a + d" 10] by (auto simp: hex_digit_def scalar_def simp del: diff_le_self)

lemma hex_digits_wf: "wf_str (hex_digits n)"
  by (induction n rule: hex_digits.induct) (subst hex_digits.simps, simp)

lemma codepoint_wf: "wf_str (codepoint_line c)"
  by (simp add: codepoint_line_def hex4_def hex_digits_wf)
    (simp add: wf_str_def list_all_iff scalar_def)

lemma render_wf:
  "wf_str (gm_source_name m) \<Longrightarrow> wf_str (gm_source_sha256 m) \<Longrightarrow> wf_str (render_generated_rust m chars)"
  by (simp add: render_generated_rust_def quoted_def bool_text_def wf_concat codepoint_wf scalar_def)

lemma sha_wf: "list_all (\<lambda>b. b < 256) (xl_sha256 lib bytes) \<Longrightarrow> wf_str (sha256_hex lib bytes)"
  unfolding sha256_hex_def
  by (rule wf_concat) (auto simp: list_all_iff intro!: hex_digit_wf)

text \<open>What the crates promise: the JSON printer prints text, a digest is made of bytes.\<close>

definition xtask_laws :: "'n xtask_lib \<Rightarrow> bool" where
  "xtask_laws lib \<longleftrightarrow>
     (\<forall>m t. xl_json lib m = Inr t \<longrightarrow> wf_str t) \<and> (\<forall>b. list_all (\<lambda>x. x < 256) (xl_sha256 lib b))"

lemma artifacts_wf:
  assumes "build_artifacts lib env args s = Inr a" and "xtask_laws lib"
  shows "wf_str (art_rust_source a) \<and> wf_str (art_metadata_json a)"
  using assms
  by (auto simp: build_artifacts_def rbind_Inr xtask_laws_def Let_def context_of_def source_error_def scalar_def
      intro!: render_wf sha_wf split: sum.splits)

lemma fs_read_Inr:
  "fs_read env p s = Inr b \<longleftrightarrow> io_fault env (IoRead p) = None \<and> p \<noteq> empty_path \<and> fs_file s p = Some b"
  by (auto simp: fs_read_def fs_node_def fs_file_def split: option.splits node.splits)

lemma read_text:
  assumes "io_fault env (IoRead p) = None" and "p \<noteq> empty_path" and "fs_file s p = Some (utf8_encode t)" and "wf_str t"
  shows "fs_read_to_string env p s = Inr t"
proof -
  have "fs_read env p s = Inr (utf8_encode t)" using assms by (simp add: fs_read_Inr)
  then show ?thesis using assms(4) by (simp add: fs_read_to_string_def utf8_roundtrip)
qed

lemma text_read: "fs_read_to_string env p s = Inr t \<longleftrightarrow>
    (\<exists>b. fs_read env p s = Inr b \<and> utf8_decode b = Some t)"
  by (auto simp: fs_read_to_string_def rbind_Inr split: option.splits)

text \<open>A write keeps every directory and every file but its own.\<close>

definition writes_only :: "path \<Rightarrow> fs \<Rightarrow> fs \<Rightarrow> bool" where
  "writes_only p s s' \<longleftrightarrow>
     (\<forall>q. q \<noteq> p \<longrightarrow> fs_file s' q = fs_file s q) \<and> (\<forall>d. fs_is_dir s d \<longrightarrow> fs_is_dir s' d)"

lemma same_files_writes: "same_files s s' \<Longrightarrow> writes_only p s s'"
  by (auto simp: writes_only_def same_files_file fs_is_dir_def fs_node_def dest: same_files_Some split: if_splits)

lemma writes_trans: "writes_only p s t \<Longrightarrow> writes_only p t u \<Longrightarrow> writes_only p s u"
  by (simp add: writes_only_def)

lemma mkdirs_made:
  "fs_mkdirs env ps s = (s', Inr ()) \<Longrightarrow> p \<in> set ps \<Longrightarrow> p \<noteq> empty_path \<Longrightarrow> fs_is_dir s' p"
proof (induction ps arbitrary: s)
  case (Cons q ps)
  from Cons.prems(1) obtain t where q: "fs_mkdir env q s = (t, Inr ())" and rest: "fs_mkdirs env ps t = (s', Inr ())"
    by (auto simp: io_bind_def split: prod.splits sum.splits)
  have "same_files t s'" using mkdirs_same[of t env ps] rest by simp
  moreover have "p = q \<Longrightarrow> fs_is_dir t p"
    using q Cons.prems(3) by (auto simp: fs_mkdir_def guarded_def fs_is_dir_def fs_node_def split: if_splits option.splits)
  ultimately show ?case
    using Cons.IH[OF rest] Cons.prems(2,3) by (auto simp: fs_is_dir_def fs_node_def dest: same_files_Some)
qed simp

lemma create_dir_all_again:
  assumes "fs_create_dir_all env d s = (t, Inr ())" and "\<forall>d. fs_is_dir t d \<longrightarrow> fs_is_dir u d"
  shows "fs_create_dir_all env d u = (u, Inr ())"
proof (cases "d = empty_path \<or> fs_is_dir s d \<or> parts d = []")
  case True
  then show ?thesis
    using assms by (auto simp: fs_create_dir_all_def ancestors_def split: if_splits)
next
  case False
  then have "d \<in> set (ancestors d)"
    by (auto simp: ancestors_def image_iff intro!: exI[of _ "parts d"])
  with False assms(1) have "fs_is_dir t d" by (auto simp: fs_create_dir_all_def dest: mkdirs_made)
  with assms(2) show ?thesis by (simp add: fs_create_dir_all_def)
qed

lemma truncate_write_Inr:
  assumes "truncate_write env short p content s = (s', Inr ())"
  shows "s' = s(p \<mapsto> File (utf8_encode content)) \<and> \<not> fs_is_dir s p \<and> p \<noteq> empty_path"
  using assms
  by (auto simp: truncate_write_def guarded_def fs_in_dir_def path_parent_def empty_path_def
      split: option.splits if_splits)

lemma write_if_changed_Inr:
  assumes w: "write_if_changed lib env short p content s = (s', Inr ())" and wf: "wf_str content"
    and "io_fault env (IoRead p) = None"
  shows "writes_only p s s' \<and> p \<noteq> empty_path \<and> fs_file s' p = Some (utf8_encode content) \<and>
    (\<forall>u. fs_file u p = fs_file s' p \<longrightarrow> (\<forall>d. fs_is_dir s' d \<longrightarrow> fs_is_dir u d) \<longrightarrow>
      write_if_changed lib env short p content u = (u, Inr ()))"
proof -
  let ?mk = "case path_parent p of
      Some parent \<Rightarrow> map_err (\<lambda>e. [lit ''failed to create directory: '' @ xl_display lib parent, e])
        (fs_create_dir_all env parent)
    | None \<Rightarrow> io_return ()"
  from w obtain t where t: "?mk s = (t, Inr ())"
    and rest: "(if fs_read_to_string env p t = Inr content then (t, Inr ())
      else map_err (\<lambda>e. [lit ''failed to write: '' @ xl_display lib p, e]) (truncate_write env short p content) t) =
      (s', Inr ())"
    by (auto simp: write_if_changed_def io_bind_def split: prod.splits sum.splits)
  have made: "same_files s t"
    using t create_dir_all_same
    by (auto simp: map_err_def split: option.splits prod.splits sum.splits) (metis fst_conv)
  have written: "writes_only p t s' \<and> p \<noteq> empty_path \<and> fs_file s' p = Some (utf8_encode content)"
  proof (cases "fs_read_to_string env p t = Inr content")
    case True
    then obtain b where "fs_read env p t = Inr b" "utf8_decode b = Some content" by (auto simp: text_read)
    then show ?thesis using True rest utf8_decode_sound by (auto simp: fs_read_Inr writes_only_def)
  next
    case False
    with rest have "truncate_write env short p content t = (s', Inr ())"
      by (auto simp: map_err_def split: prod.splits sum.splits)
    from truncate_write_Inr[OF this] show ?thesis
      by (auto simp: writes_only_def fs_is_dir_def fs_node_def)
  qed
  have "write_if_changed lib env short p content u = (u, Inr ())"
    if u: "fs_file u p = fs_file s' p" "\<forall>d. fs_is_dir s' d \<longrightarrow> fs_is_dir u d" for u
  proof -
    from written u(1) assms(3) wf have "fs_read_to_string env p u = Inr content" by (simp add: read_text)
    moreover have "\<forall>d. fs_is_dir t d \<longrightarrow> fs_is_dir u d" using written u(2) by (simp add: writes_only_def)
    then have "?mk u = (u, Inr ())"
      using t create_dir_all_again by (auto simp: map_err_def split: option.splits prod.splits sum.splits)
    ultimately show ?thesis by (simp add: write_if_changed_def io_bind_def)
  qed
  with written made show ?thesis using writes_trans same_files_writes by blast
qed

lemma artifacts_input:
  assumes "build_artifacts lib env args s = Inr a" and "fs_file s' (ga_input args) = fs_file s (ga_input args)"
  shows "build_artifacts lib env args s' = Inr a"
proof -
  from assms(1) obtain b where "fs_read env (ga_input args) s = Inr b"
    by (auto simp: build_artifacts_def rbind_Inr context_of_def source_error_def split: sum.splits)
  then have "fs_read env (ga_input args) s' = fs_read env (ga_input args) s"
    using assms(2) fs_read_Inr by metis
  with assms(1) show ?thesis by (simp add: build_artifacts_def)
qed

text \<open>C36: generating is what verifying checks: after a successful run of \<^verbatim>\<open>generate\<close>, \<^verbatim>\<open>verify\<close> succeeds, a
  second run changes nothing, and no file but the two outputs has changed.\<close>

theorem generate_then_verify:
  assumes "generate lib env short args s = (s', Inr message)" and "xtask_laws lib"
    and "ga_output args \<noteq> ga_metadata_out args" and "ga_input args \<notin> {ga_output args, ga_metadata_out args}"
    and "io_fault env (IoRead (ga_output args)) = None" and "io_fault env (IoRead (ga_metadata_out args)) = None"
  shows "verify lib env args s' = Inr (lit ''verification succeeded'') \<and>
    generate lib env short args s' = (s', Inr message) \<and>
    (\<forall>q. q \<notin> {ga_output args, ga_metadata_out args} \<longrightarrow> fs_file s' q = fs_file s q)"
proof -
  let ?o = "ga_output args" and ?m = "ga_metadata_out args"
  from assms(1) obtain a t where a: "build_artifacts lib env args s = Inr a"
    and o: "write_if_changed lib env short ?o (art_rust_source a) s = (t, Inr ())"
    and m: "write_if_changed lib env short ?m (art_metadata_json a) t = (s', Inr ())"
    and msg: "message = lit ''generated '' @ xl_display lib ?o @ lit '' and '' @ xl_display lib ?m"
    by (auto simp: generate_def io_bind_def split: prod.splits sum.splits)
  from artifacts_wf[OF a assms(2)] have wf: "wf_str (art_rust_source a)" "wf_str (art_metadata_json a)" by simp_all
  note wo = write_if_changed_Inr[OF o wf(1) assms(5)] and wm = write_if_changed_Inr[OF m wf(2) assms(6)]
  have files: "fs_file s' q = fs_file s q" if "q \<notin> {?o, ?m}" for q
    using that wo wm by (simp add: writes_only_def)
  have a': "build_artifacts lib env args s' = Inr a" by (rule artifacts_input[OF a files]) (use assms(4) in auto)
  have o': "fs_file s' ?o = fs_file t ?o" using wm assms(3) by (simp add: writes_only_def)
  have "fs_read_to_string env ?o s' = Inr (art_rust_source a)"
    using wo o' assms(5) wf(1) by (intro read_text) simp_all
  moreover have "fs_read_to_string env ?m s' = Inr (art_metadata_json a)"
    using wm assms(6) wf(2) by (intro read_text) simp_all
  ultimately have "verify lib env args s' = Inr (lit ''verification succeeded'')"
    by (simp add: verify_def a' verify_file_content_def context_of_def source_error_def)
  moreover have "write_if_changed lib env short ?o (art_rust_source a) s' = (s', Inr ())"
    using wo o' wm by (simp add: writes_only_def)
  moreover have "write_if_changed lib env short ?m (art_metadata_json a) s' = (s', Inr ())" using wm by simp
  ultimately show ?thesis using files by (simp add: generate_def a' io_bind_def msg)
qed

section \<open>A small run\<close>

text \<open>A document of one entry, and crates that do the least.\<close>

datatype sample_node =
  SampleNode (sn_tag: rstr) (sn_type: "rstr option") (sn_text: "rstr option") (sn_children: "sample_node list")

fun sample_descendants :: "sample_node \<Rightarrow> sample_node list" where
  "sample_descendants (SampleNode t a x ns) = SampleNode t a x ns # concat (map sample_descendants ns)"

definition sample_doc :: sample_node where
  "sample_doc = SampleNode (lit ''kanjidic2'') None None
     [SampleNode (lit ''character'') None None
       [SampleNode (lit ''literal'') None (Some [0x5927]) [],
        SampleNode (lit ''reading'') (Some (lit ''ja_kun'')) (Some [0x30AA, 0x304A, 0x2E, 0x304D]) []]]"

definition sample_xtask :: "sample_node xtask_lib" where
  "sample_xtask =
     \<lparr>xl_parse = (\<lambda>_. Inr sample_doc), xl_descendants = sample_descendants, xl_children = sn_children,
      xl_has_tag = (\<lambda>n t. sn_tag n = t), xl_attribute = (\<lambda>n _. sn_type n), xl_text = sn_text,
      xl_nfkc = (\<lambda>t. t), xl_gunzip = (\<lambda>bytes. Inr bytes), xl_sha256 = (\<lambda>_. [1]),
      xl_json = (\<lambda>_. Inr (lit ''{}'')), xl_display = (\<lambda>_. [])\<rparr>"

abbreviation sample_file_path :: "string \<Rightarrow> path" where
  "sample_file_path w \<equiv> path_child empty_path (lit w)"

definition sample_args :: generate_args where
  "sample_args =
     \<lparr>ga_input = sample_file_path ''in'', ga_output = sample_file_path ''out'',
      ga_metadata_out = sample_file_path ''meta'', ga_include_ja_on = True\<rparr>"

definition sample_input_fs :: fs where
  "sample_input_fs = (\<lambda>p. if p = sample_file_path ''in'' then Some (File (utf8_encode (lit ''<x/>''))) else None)"

abbreviation quiet_io :: io_env where
  "quiet_io \<equiv> \<lparr>io_fault = (\<lambda>_. None), io_temp_dir = (\<lambda>d. d)\<rparr>"

lemma sample_extracted:
  "extract_oo_kanji sample_xtask xml True =
   Inr \<lparr>ex_all_hits = [0x5927], ex_ja_kun_hits = [0x5927], ex_nanori_hits = [], ex_ja_on_hits = []\<rparr>"
  by (simp add: extract_oo_kanji_def sample_xtask_def sample_doc_def context_of_def source_error_def tagged_def
      add_character_def ok_or_def literal_of_def single_char_def add_reading_def xtask_normalize_reading_def
      xtask_loop_eq reading_loop_eq str_trim_def str_trim_start_def str_trim_end_def is_whitespace_def
      should_drop_def katakana_to_hiragana_def scalar_def str_contains_def oo_def insort_insert_key_def
      insort_key_def lit_eq)

theorem extraction_exact_witness:
  "set (ex_ja_kun_hits \<lparr>ex_all_hits = [0x5927], ex_ja_kun_hits = [0x5927], ex_nanori_hits = [], ex_ja_on_hits = []\<rparr>) =
   literals_where sample_xtask (read_as sample_xtask ''ja_kun'') (tagged sample_xtask ''character'' sample_doc)"
  using extraction_exact[OF sample_extracted[of "[]"]] by (simp add: sample_xtask_def)

lemma quiet_write:
  assumes "s (path_child empty_path w) = None"
  shows "write_if_changed lib quiet_io (\<lambda>_. None) (path_child empty_path w) content s =
    (s(path_child empty_path w \<mapsto> File (utf8_encode content)), Inr ())"
  using assms
  by (simp add: write_if_changed_def io_bind_def map_err_def fs_create_dir_all_def fs_read_to_string_def
      fs_read_def fs_node_def truncate_write_def guarded_def fs_is_dir_def fs_in_dir_def rbind_def)

lemma sample_generated:
  "\<exists>s' m. generate sample_xtask quiet_io (\<lambda>_. None) sample_args sample_input_fs = (s', Inr m)"
proof -
  have "wf_str (lit ''<x/>'')" by simp
  then have decode: "utf8_decode (utf8_encode (lit ''<x/>'')) = Some (lit ''<x/>'')" by (rule utf8_roundtrip)
  have "fs_read quiet_io (sample_file_path ''in'') sample_input_fs = Inr (utf8_encode (lit ''<x/>''))"
    by (simp add: fs_read_Inr fs_file_def sample_input_fs_def)
  moreover have "\<not> is_gz (sample_file_path ''in'')"
    by (simp add: is_gz_def path_extension_def lit_def)
  ultimately obtain a where a: "build_artifacts sample_xtask quiet_io sample_args sample_input_fs = Inr a"
    by (simp add: build_artifacts_def sample_args_def context_of_def source_error_def ok_or_def decode
        sample_extracted Let_def) (simp add: sample_xtask_def)
  show ?thesis
    by (simp add: generate_def a io_bind_def) (simp add: sample_args_def quiet_write sample_input_fs_def lit_eq)
qed

theorem generate_then_verify_witness:
  "verify sample_xtask quiet_io sample_args
     (fst (generate sample_xtask quiet_io (\<lambda>_. None) sample_args sample_input_fs)) =
   Inr (lit ''verification succeeded'')"
proof -
  from sample_generated obtain s' m where g: "generate sample_xtask quiet_io (\<lambda>_. None) sample_args sample_input_fs =
    (s', Inr m)" by blast
  moreover have "xtask_laws sample_xtask" by (simp add: xtask_laws_def sample_xtask_def)
  ultimately show ?thesis using generate_then_verify[OF g] by (simp add: sample_args_def lit_eq)
qed

end
