(* ===== verification/Spec2Isabelle.thy ===== *)
theory Spec2Isabelle
  imports Prelude Rust_F64 Oo_Counter Reading_Normalizer Detector Event_Window Circuit_Breaker
    Duplicate_Guard Rate_Limiter Runtime_Mode Session_Budget Suspicious_Input Sandbox_Abi
    Sandbox_Guest Bot_Action Response_Compiler Core_Governor Core_Runs Rust_Fs Rust_Text Config
    Config_Defaults Config_Store Audit_Store Audit_Chain Core_Recovery Replay Diagnostics Platform
    Control Discord_Handler Startup Bot_Life Tui_Setup Tui_Audit Operator_Tui Tui_Render Tui_Loop Tui_Runs
    Tui_Panics Whole_Message Whole_Program Xtask
begin

text \<open>
  A verification development for oo-bot, a Discord bot written in Rust that answers messages in which
  the reading ``oo'' occurs.

  \<^bold>\<open>The program.\<close>  A message goes through one pipeline, the trusted core
  (\<^verbatim>\<open>src/security/core_governor.rs\<close>): guards (own messages, mode, access lists, duplicates), the detector
  (\<^verbatim>\<open>src/domain/\<close>), classification of suspicious input, a proposal by an analyzer that runs in a sandbox
  (\<^verbatim>\<open>src/sandbox/\<close>), its compilation into an action (\<^verbatim>\<open>src/security/response_compiler.rs\<close>), cooldowns and
  the token bucket.  The gateway handler (\<^verbatim>\<open>src/infra/discord_handler.rs\<close>) runs this core in one task per
  message, calls the API of Discord with the action and writes the audit log (\<^verbatim>\<open>src/audit/mod.rs\<close>).
  \<^verbatim>\<open>src/main.rs\<close> reads the environment and the signed configuration (\<^verbatim>\<open>src/config.rs\<close>), starts the bot, and
  opens a control socket (\<^verbatim>\<open>src/control.rs\<close>) at which other processes ask for its status or stop it.
  \<^verbatim>\<open>src/app/replay.rs\<close> replays recorded cases on a core of its own.  \<^verbatim>\<open>src/operator_tui.rs\<close> is an interface
  for the operator on the terminal: it edits the configuration, shows the audit log and the diagnostics,
  and can stop the bot.  \<^verbatim>\<open>xtask/src/main.rs\<close> generates a table of characters from a dictionary.

  \<^bold>\<open>Theories.\<close>  Each theory has the state of its part as a record, the code's enumerations as datatypes
  and one definition per function, under the names of the source, and then the lemmas about them.
    \<^item> \<open>Prelude\<close>: strings of Unicode scalars with UTF-8, results and their binding, time, words, the
      collections of hints.  \<open>Rust_F64\<close>: binary64 arithmetic as rounding of exact rationals.  \<open>Rust_Fs\<close>:
      paths and a file system with injected faults.  \<open>Rust_Text\<close>: lines, splitting, parsing of numbers,
      lossy decoding.
    \<^item> \<open>Oo_Counter\<close>, \<open>Reading_Normalizer\<close>, \<open>Detector\<close>: \<^verbatim>\<open>src/domain/\<close>.  Both counters return the maximum
      number of disjoint occurrences; the report of a message is characterised by its tokens.
    \<^item> \<open>Sandbox_Abi\<close>, \<open>Sandbox_Guest\<close>: \<^verbatim>\<open>src/sandbox/abi.rs\<close>, \<^verbatim>\<open>host.rs\<close>.  Wire encoding on 64-bit words, the
      guest program on 32-bit words as written in the text of the module, and the host around it.
    \<^item> \<open>Bot_Action\<close>: \<^verbatim>\<open>src/app/analyze_message.rs\<close>.  \<open>Response_Compiler\<close>, \<open>Suspicious_Input\<close>, \<open>Runtime_Mode\<close>,
      \<open>Session_Budget\<close>, \<open>Circuit_Breaker\<close>, \<open>Rate_Limiter\<close>, \<open>Duplicate_Guard\<close>: the files of that name
      under \<^verbatim>\<open>src/security/\<close>; \<open>Event_Window\<close> is the locale of a window of recent events.
    \<^item> \<open>Core_Governor\<close>: \<^verbatim>\<open>src/security/core_governor.rs\<close>, every setter and the whole decision.  What an
      outbound action implies, and the decision as a specification.  \<open>Core_Runs\<close>: sequences of
      operations, reachable states, separation and rate of answers.  \<open>Whole_Message\<close>: the core with
      the analyzer in its sandbox, and what a message is answered with, end to end.
      \<open>Core_Recovery\<close>: after a quiet period every reachable state answers again.
    \<^item> \<open>Config\<close>, \<open>Config_Defaults\<close>, \<open>Config_Store\<close>: \<^verbatim>\<open>src/config.rs\<close>; validation, the embedded defaults,
      loading with detached signatures and the atomic write.
    \<^item> \<open>Audit_Store\<close>, \<open>Audit_Chain\<close>: \<^verbatim>\<open>src/audit/mod.rs\<close>; recording, queries and export, and the lemmas on
      the hash chain.
    \<^item> \<open>Replay\<close>: \<^verbatim>\<open>src/app/replay.rs\<close>, \<^verbatim>\<open>src/bin/replay.rs\<close>.  \<open>Diagnostics\<close>, \<open>Platform\<close>:
      \<^verbatim>\<open>src/security/diagnostics.rs\<close>, \<^verbatim>\<open>lsm.rs\<close>, \<^verbatim>\<open>hardening.rs\<close>.
    \<^item> \<open>Control\<close>: \<^verbatim>\<open>src/control.rs\<close>.  \<open>Discord_Handler\<close>: \<^verbatim>\<open>src/infra/discord_handler.rs\<close>, tasks that
      interleave at every point where they wait.  \<open>Startup\<close>: \<^verbatim>\<open>src/main.rs\<close>, and the properties that hold
      from the start of the program on.  \<open>Bot_Life\<close>: the tasks of \<^verbatim>\<open>run_bot\<close> from the start of the client
      to the exit of the process (main, the supervisors, the control server, its connections, and the
      bounded channel and the flag between them) as functions and as a step relation; why it stops, and
      that it does.
    \<^item> \<open>Tui_Setup\<close>, \<open>Tui_Audit\<close>, \<open>Operator_Tui\<close>: the state of \<^verbatim>\<open>src/operator_tui.rs\<close> and its key handlers;
      what each handler keeps, and the invariant of every step.  \<open>Tui_Render\<close>: the panels that are drawn,
      and what they do not show.  \<open>Tui_Loop\<close>: the loop that refreshes, draws and handles one event after
      another.  \<open>Tui_Runs\<close>: what a whole session may send, write and fail with; \<open>Tui_Panics\<close>: when it
      cannot panic.
    \<^item> \<open>Whole_Program\<close>: \<^verbatim>\<open>main\<close> in \<^verbatim>\<open>src/main.rs\<close> with all its subcommands and the operator interface in
      place of the parameter that \<open>Startup\<close> has for it; the first start, and what a command may change.
    \<^item> \<open>Xtask\<close>: \<^verbatim>\<open>xtask/src/main.rs\<close>; its copy of the normaliser is that of \<open>Reading_Normalizer\<close>, the
      extraction is exact, and what \<^verbatim>\<open>generate\<close> leaves is what \<^verbatim>\<open>verify\<close> accepts.

  \<^bold>\<open>Time, bounds and fuel.\<close>  Instants and durations are natural numbers of nanoseconds.  Integers of the
  guest are 32-bit and 64-bit words; saturating counters of the core saturate at the bounds of their
  types (\<open>u32_max\<close>, \<open>u64_max\<close>, \<open>usize_max\<close>).  Floating-point steps of the token bucket are rounded one by
  one, and the bounds on rates carry the accumulated error.  No definition uses fuel: the loops of the
  source that may run for ever are \<^theory_text>\<open>partial_function\<close>s into options, and they are proved to return
  where the source relies on it (the guest for every message of at most 65536 bytes, the tool
  runner after at most \<open>timeout / 50 ms + 1\<close> polls) or characterised exactly (the control server).

  \<^bold>\<open>Parameters.\<close>  What is not in the repository is an argument of the definitions that use it: NFKC
  normalisation, the tokenizer and its dictionary, SHA-256, HMAC and hexadecimal text, JSON and YAML
  encodings, SQLite (the outcome of each statement), the engine that runs the guest (a stream of
  outcomes), sockets, child processes (streams of polls), the iteration order of hash maps, the
  client of Discord (the answer of each call), the terminal and the catalogue of its texts, XML trees,
  gzip, the clock and the environment.
  Hypotheses on them state their documented behaviour and are discharged at concrete instances by the
  witnesses.  Where a parameter may fail, the definitions take the failure as an argument, and the
  properties hold for all failures unless they say otherwise.

  \<^bold>\<open>Not modelled.\<close>  Logging, argument parsing and the layout of panels on the terminal have no effect on
  the state that is modelled.  The schema, the triggers against updates and the pragmas of the audit
  database are carried out by SQLite, whose tables are the state of \<open>Audit_Store\<close>.  \<open>Control\<close> gives a connection
  all its time; the two seconds it has are an event of \<open>Bot_Life\<close>.  The loop of the gateway client that
  calls the handler is a library: \<open>Discord_Handler\<close> starts its tasks in any order.  The stubs for systems
  other than Unix are not compiled on the system the bot is made for.  Tests, benches and fuzz targets are
  not part of the program.
\<close>

end
